(* ===== verification/Prelude.thy ===== *)
theory Prelude
  imports Main "HOL-Library.Word" "HOL-Library.Sublist"
begin

text \<open>
  Shared vocabulary of the hakurei development: the result type of Go functions that may
  return an error or panic, the parts of the Go standard packages \<open>strings\<close>, \<open>bytes\<close>,
  \<open>strconv\<close> and \<open>encoding/hex\<close> that the source relies on, and the list facts the component
  theories share. A Go string or byte slice is a \<^typ>\<open>string\<close>, one \<^typ>\<open>char\<close> per byte.
\<close>

unbundle bit_operations_syntax

named_theorems go_defs \<open>definitions of the Go library functions\<close>
named_theorems digit_simps \<open>facts on digits and numerals\<close>

type_synonym u8 = "8 word"
type_synonym u32 = "32 word"
type_synonym u64 = "64 word"

subsection \<open>Results of Go functions\<close>

text \<open>\<open>Ret v\<close> is a normal return, \<open>Fail e\<close> a return with a non-nil error and \<open>Panic m\<close> a panic
  or a call of \<open>log.Fatal\<close> (the process ends with the message).\<close>

datatype ('e, 'a) go = Ret (the_ret: 'a) | Fail (the_fail: 'e) | Panic (the_panic: string)

fun bind_go :: "('e, 'a) go \<Rightarrow> ('a \<Rightarrow> ('e, 'b) go) \<Rightarrow> ('e, 'b) go" where
  "bind_go (Ret x) f = f x"
| "bind_go (Fail e) f = Fail e"
| "bind_go (Panic m) f = Panic m"

fun no_panic :: "('e, 'a) go \<Rightarrow> bool" where
  "no_panic (Panic m) = False"
| "no_panic _ = True"

lemma bind_go_Ret_iff [simp]: "bind_go r f = Ret y \<longleftrightarrow> (\<exists>x. r = Ret x \<and> f x = Ret y)"
  by (cases r) auto

lemma bind_go_Fail_iff: "bind_go r f = Fail e \<longleftrightarrow> r = Fail e \<or> (\<exists>x. r = Ret x \<and> f x = Fail e)"
  by (cases r) auto

lemma bind_go_Panic_iff: "bind_go r f = Panic m \<longleftrightarrow> r = Panic m \<or> (\<exists>x. r = Ret x \<and> f x = Panic m)"
  by (cases r) auto

lemma bind_go_cong [fundef_cong]:
  "r = r' \<Longrightarrow> (\<And>x. r' = Ret x \<Longrightarrow> f x = g x) \<Longrightarrow> bind_go r f = bind_go r' g"
  by (cases r) auto

lemma no_panic_bind_go:
  "no_panic r \<Longrightarrow> (\<And>x. r = Ret x \<Longrightarrow> no_panic (f x)) \<Longrightarrow> no_panic (bind_go r f)"
  by (cases r) auto

lemma no_panic_if: "(b \<Longrightarrow> no_panic r) \<Longrightarrow> (\<not> b \<Longrightarrow> no_panic s) \<Longrightarrow> no_panic (if b then r else s)"
  by simp

text \<open>A \<open>for range\<close> loop that fills a slice and leaves at the first error.\<close>

fun mapM_go :: "('a \<Rightarrow> ('e, 'b) go) \<Rightarrow> 'a list \<Rightarrow> ('e, 'b list) go" where
  "mapM_go f [] = Ret []"
| "mapM_go f (x # xs) = bind_go (f x) (\<lambda>y. bind_go (mapM_go f xs) (\<lambda>ys. Ret (y # ys)))"

lemma mapM_go_Ret_iff: "mapM_go f xs = Ret ys \<longleftrightarrow> list_all2 (\<lambda>x y. f x = Ret y) xs ys"
proof (induction xs arbitrary: ys)
  case Nil
  then show ?case by auto
next
  case (Cons x xs)
  then show ?case by (cases ys) auto
qed

lemma mapM_go_length: "mapM_go f xs = Ret ys \<Longrightarrow> length ys = length xs"
  by (auto simp: mapM_go_Ret_iff dest: list_all2_lengthD)

lemma those_map_Some: "those (map f xs) = Some rs \<longleftrightarrow> list_all2 (\<lambda>x r. f x = Some r) xs rs"
proof (induction xs arbitrary: rs)
  case (Cons x xs)
  then show ?case by (cases rs; cases "f x") auto
qed auto

lemma those_map_ex: "(\<And>x. x \<in> set xs \<Longrightarrow> \<exists>r. f x = Some r) \<Longrightarrow> \<exists>rs. those (map f xs) = Some rs"
  by (induction xs) force+

subsection \<open>Package strings\<close>

definition HasPrefix :: "string \<Rightarrow> string \<Rightarrow> bool" where
  "HasPrefix s p \<longleftrightarrow> length p \<le> length s \<and> take (length p) s = p"

definition TrimPrefix :: "string \<Rightarrow> string \<Rightarrow> string" where
  "TrimPrefix s p = (if HasPrefix s p then drop (length p) s else s)"

definition HasSuffix :: "string \<Rightarrow> string \<Rightarrow> bool" where
  "HasSuffix s p \<longleftrightarrow> length p \<le> length s \<and> drop (length s - length p) s = p"

definition TrimSuffix :: "string \<Rightarrow> string \<Rightarrow> string" where
  "TrimSuffix s p = (if HasSuffix s p then take (length s - length p) s else s)"

definition ContainsByte :: "string \<Rightarrow> char \<Rightarrow> bool" where
  "ContainsByte s c \<longleftrightarrow> List.member s c"

text \<open>\<open>Split s sep\<close> and \<open>SplitN s sep n\<close> for a separator of one byte, and \<open>Cut\<close>.\<close>

fun Split :: "char \<Rightarrow> string \<Rightarrow> string list" where
  "Split c [] = [[]]"
| "Split c (x # xs) =
     (if x = c then [] # Split c xs
      else case Split c xs of [] \<Rightarrow> [[x]] | y # ys \<Rightarrow> (x # y) # ys)"

fun Cut :: "char \<Rightarrow> string \<Rightarrow> (string \<times> string) option" where
  "Cut c [] = None"
| "Cut c (x # xs) =
     (if x = c then Some ([], xs)
      else case Cut c xs of None \<Rightarrow> None | Some (a, b) \<Rightarrow> Some (x # a, b))"

fun SplitN :: "nat \<Rightarrow> char \<Rightarrow> string \<Rightarrow> string list" where
  "SplitN 0 c s = []"
| "SplitN (Suc 0) c s = [s]"
| "SplitN (Suc (Suc n)) c s =
     (case Cut c s of None \<Rightarrow> [s] | Some (a, b) \<Rightarrow> a # SplitN (Suc n) c b)"

fun Join :: "string list \<Rightarrow> string \<Rightarrow> string" where
  "Join [] sep = []"
| "Join [x] sep = x"
| "Join (x # y # xs) sep = x @ sep @ Join (y # xs) sep"

lemma HasPrefix_iff: "HasPrefix s p \<longleftrightarrow> prefix p s"
  unfolding HasPrefix_def prefix_def
  by (metis append_eq_conv_conj append_take_drop_id length_append le_add1)

lemma HasSuffix_iff: "HasSuffix s p \<longleftrightarrow> suffix p s"
proof
  assume "HasSuffix s p"
  then show "suffix p s"
    unfolding HasSuffix_def suffix_def by (metis append_take_drop_id)
next
  assume "suffix p s"
  then obtain q where "s = q @ p" by (auto simp: suffix_def)
  then show "HasSuffix s p" by (simp add: HasSuffix_def)
qed

lemma HasPrefix_append [simp]: "HasPrefix (p @ s) p"
  by (simp add: HasPrefix_iff)

lemma TrimPrefix_append [simp]: "TrimPrefix (p @ s) p = s"
  by (simp add: TrimPrefix_def)

lemma TrimSuffix_append [simp]: "TrimSuffix (s @ p) p = s"
  by (simp add: TrimSuffix_def HasSuffix_def)

lemma ContainsByte_iff [simp]: "ContainsByte s c \<longleftrightarrow> c \<in> set s"
  by (simp add: ContainsByte_def)

lemma Split_nonempty [simp]: "Split c s \<noteq> []"
  by (induction s) (auto split: list.splits)

lemma Split_no_sep: "c \<notin> set s \<Longrightarrow> Split c s = [s]"
  by (induction s) auto

lemma Split_pieces: "w \<in> set (Split c s) \<Longrightarrow> c \<notin> set w"
  by (induction s arbitrary: w) (auto split: list.splits if_splits)

lemma Split_append_sep: "c \<notin> set a \<Longrightarrow> Split c (a @ c # b) = a # Split c b"
  by (induction a) auto

lemma Join_Split: "Join (Split c s) [c] = s"
proof (induction s)
  case Nil
  then show ?case by simp
next
  case (Cons x xs)
  obtain y ys where "Split c xs = y # ys"
    by (cases "Split c xs") auto
  with Cons show ?case by (cases ys) auto
qed

lemma Split_Join:
  "xs \<noteq> [] \<Longrightarrow> (\<And>w. w \<in> set xs \<Longrightarrow> c \<notin> set w) \<Longrightarrow> Split c (Join xs [c]) = xs"
proof (induction xs "[c]" rule: Join.induct)
  case (3 x y xs)
  then show ?case by (simp add: Split_append_sep)
qed (auto simp: Split_no_sep)

lemma Join_Cons: "xs \<noteq> [] \<Longrightarrow> Join (x # xs) sep = x @ sep @ Join xs sep"
  by (cases xs) auto

lemma Join_append: "xs \<noteq> [] \<Longrightarrow> ys \<noteq> [] \<Longrightarrow> Join (xs @ ys) sep = Join xs sep @ sep @ Join ys sep"
proof (induction xs)
  case (Cons x xs)
  then show ?case by (cases "xs = []") (simp_all add: Join_Cons)
qed simp

lemma Cut_SomeD: "Cut c s = Some (a, b) \<Longrightarrow> s = a @ c # b \<and> c \<notin> set a"
proof (induction s arbitrary: a)
  case (Cons x xs)
  show ?case
  proof (cases "x = c")
    case True
    with Cons.prems show ?thesis by simp
  next
    case False
    with Cons.prems obtain a' where "Cut c xs = Some (a', b)" and "a = x # a'"
      by (auto split: option.splits)
    with Cons.IH [of a'] False show ?thesis by simp
  qed
qed simp

lemma Cut_append [simp]: "c \<notin> set a \<Longrightarrow> Cut c (a @ c # b) = Some (a, b)"
  by (induction a) auto

lemma Cut_Some_iff: "Cut c s = Some (a, b) \<longleftrightarrow> s = a @ c # b \<and> c \<notin> set a"
  using Cut_SomeD Cut_append by blast

lemma Cut_None_iff: "Cut c s = None \<longleftrightarrow> c \<notin> set s"
  by (induction s) (auto split: option.splits)

lemma SplitN_2: "SplitN 2 c s = (case Cut c s of None \<Rightarrow> [s] | Some (a, b) \<Rightarrow> [a, b])"
  by (simp add: numeral_2_eq_2 split: option.splits)

subsection \<open>Words\<close>

lemma unat_u8_less: "unat (w :: u8) < 256"
  using unsigned_less [where ?'a = nat, of w] by simp

lemma unat_u32_less: "unat (w :: u32) < 4294967296"
  using unsigned_less [where ?'a = nat, of w] by simp

lemma unat_of_nat_u32: "k < 4294967296 \<Longrightarrow> unat (word_of_nat k :: u32) = k"
  by (simp add: unat_of_nat)

end
