(* ===== verification/Go_Num.thy ===== *)
theory Go_Num
  imports Prelude
begin

text \<open>
  The parts of the Go packages \<open>strconv\<close> and \<open>encoding/hex\<close> the source uses:
  \<open>Itoa\<close>/\<open>FormatUint\<close>, \<open>Atoi\<close>/\<open>ParseUint\<close> with their syntax and range errors, and the hex
  encoder and decoder, with their round trips.
\<close>

subsection \<open>Digits\<close>

definition digit_char :: "nat \<Rightarrow> char" where
  "digit_char d = (if d < 10 then char_of (48 + d) else char_of (87 + d))"

text \<open>The value \<open>strconv\<close> gives a digit: 0-9, a-z and A-Z.\<close>

definition digit_val :: "char \<Rightarrow> nat option" where
  "digit_val c =
     (let n = of_char c :: nat in
      if 48 \<le> n \<and> n \<le> 57 then Some (n - 48)
      else if 97 \<le> n \<and> n \<le> 122 then Some (n - 87)
      else if 65 \<le> n \<and> n \<le> 90 then Some (n - 55)
      else None)"

lemma digit_val_digit_char [digit_simps]: "d < 36 \<Longrightarrow> digit_val (digit_char d) = Some d"
  by (auto simp: digit_val_def digit_char_def Let_def)

subsection \<open>Formatting\<close>

function format_nat :: "nat \<Rightarrow> nat \<Rightarrow> string" where
  "format_nat b n =
     (if n < b \<or> b < 2 then [digit_char n]
      else format_nat b (n div b) @ [digit_char (n mod b)])"
  by pat_completeness auto
termination
  by (relation "measure snd") (auto intro: div_less_dividend)

declare format_nat.simps [simp del]

definition Itoa :: "int \<Rightarrow> string" where
  "Itoa i = (if i < 0 then CHR ''-'' # format_nat 10 (nat (- i)) else format_nat 10 (nat i))"

subsection \<open>Parsing\<close>

datatype num_error = ErrSyntax | ErrRange

fun parse_uint_loop :: "nat \<Rightarrow> nat \<Rightarrow> nat \<Rightarrow> string \<Rightarrow> (num_error, nat) go" where
  "parse_uint_loop b mx n [] = Ret n"
| "parse_uint_loop b mx n (c # cs) =
     (case digit_val c of
        None \<Rightarrow> Fail ErrSyntax
      | Some d \<Rightarrow>
          if b \<le> d then Fail ErrSyntax
          else if mx < n * b + d then Fail ErrRange
          else parse_uint_loop b mx (n * b + d) cs)"

definition ParseUint :: "string \<Rightarrow> nat \<Rightarrow> (num_error, nat) go" where
  "ParseUint s b = (if s = [] then Fail ErrSyntax else parse_uint_loop b (2 ^ 64 - 1) 0 s)"

definition Atoi :: "string \<Rightarrow> (num_error, int) go" where
  "Atoi s =
     (case s of
        [] \<Rightarrow> Fail ErrSyntax
      | c # cs \<Rightarrow>
          let neg = (c = CHR ''-''); ds = (if c = CHR ''-'' \<or> c = CHR ''+'' then cs else s) in
          bind_go (ParseUint ds 10) (\<lambda>n.
            if \<not> neg \<and> 2 ^ 63 \<le> n then Fail ErrRange
            else if neg \<and> 2 ^ 63 < n then Fail ErrRange
            else Ret (if neg then - int n else int n)))"

lemma parse_uint_loop_append:
  "parse_uint_loop b mx n (xs @ ys) =
     bind_go (parse_uint_loop b mx n xs) (\<lambda>m. parse_uint_loop b mx m ys)"
  by (induction xs arbitrary: n) (auto split: option.splits)

lemma parse_uint_loop_bounded:
  "parse_uint_loop b mx n s = Ret m \<Longrightarrow> n \<le> mx \<Longrightarrow> m \<le> mx"
  by (induction s arbitrary: n) (auto split: option.splits if_splits)

lemma parse_uint_loop_format:
  assumes "2 \<le> b" "b \<le> 36" "n \<le> mx"
  shows "parse_uint_loop b mx 0 (format_nat b n) = Ret n"
  using assms
proof (induction b n rule: format_nat.induct)
  case (1 b n)
  show ?case
  proof (cases "n < b")
    case True
    with "1.prems" show ?thesis
      by (simp add: format_nat.simps [of b n] digit_val_digit_char)
  next
    case False
    have "n div b \<le> mx" using "1.prems"(3) by (meson div_le_dividend le_trans)
    with False "1.prems" "1.IH" have IH: "parse_uint_loop b mx 0 (format_nat b (n div b)) = Ret (n div b)"
      by simp
    have "n mod b < b" and "n mod b < 36" using "1.prems" by (auto intro: less_le_trans [of _ b])
    then have "\<not> b \<le> n mod b" and "digit_val (digit_char (n mod b)) = Some (n mod b)"
      by (simp_all add: digit_val_digit_char)
    with False "1.prems" IH show ?thesis
      by (simp add: format_nat.simps [of b n] parse_uint_loop_append)
  qed
qed

lemma format_nat_nonempty [simp]: "format_nat b n \<noteq> []"
  by (subst format_nat.simps) simp

lemma digit_char_neq_sign [digit_simps]:
  "d < 36 \<Longrightarrow> digit_char d \<noteq> CHR ''-'' \<and> digit_char d \<noteq> CHR ''+''"
  using digit_val_digit_char [of d] by (auto simp: digit_val_def Let_def)

lemma hd_format_nat: "2 \<le> b \<Longrightarrow> \<exists>d < b. hd (format_nat b n) = digit_char d"
proof (induction b n rule: format_nat.induct)
  case (1 b n)
  then show ?case
    by (cases "n < b") (auto simp: format_nat.simps [of b n] hd_append)
qed

lemma set_format_nat: "2 \<le> b \<Longrightarrow> c \<in> set (format_nat b n) \<Longrightarrow> \<exists>d < b. c = digit_char d"
proof (induction b n rule: format_nat.induct)
  case (1 b n)
  then have "\<exists>d<b. digit_char (n mod b) = digit_char d"
    by (intro exI [of _ "n mod b"]) simp
  with "1" show ?case
    by (cases "n < b") (auto simp: format_nat.simps [of b n])
qed

lemma decimal_digit_char:
  "d < 10 \<Longrightarrow> 48 \<le> (of_char (digit_char d) :: nat) \<and> (of_char (digit_char d) :: nat) \<le> 57"
  by (simp add: digit_char_def)

lemma format_nat_digits:
  "c \<in> set (format_nat 10 n) \<Longrightarrow> 48 \<le> (of_char c :: nat) \<and> (of_char c :: nat) \<le> 57"
  using set_format_nat [of 10 c n] decimal_digit_char by auto

lemma ParseUint_format:
  "2 \<le> b \<Longrightarrow> b \<le> 36 \<Longrightarrow> n < 2 ^ 64 \<Longrightarrow> ParseUint (format_nat b n) b = Ret n"
  by (simp add: ParseUint_def parse_uint_loop_format)

lemma format_nat_inject:
  assumes "a < 2 ^ 64" "b < 2 ^ 64"
  shows "format_nat 10 a = format_nat 10 b \<longleftrightarrow> a = b"
proof
  assume "format_nat 10 a = format_nat 10 b"
  then have "ParseUint (format_nat 10 a) 10 = ParseUint (format_nat 10 b) 10" by (rule arg_cong)
  moreover have "ParseUint (format_nat 10 a) 10 = Ret a" "ParseUint (format_nat 10 b) 10 = Ret b"
    using assms by (intro ParseUint_format, simp_all)+
  ultimately show "a = b" by simp
qed simp

lemma Atoi_Itoa:
  assumes "- (2 ^ 63) \<le> i" "i < 2 ^ 63"
  shows "Atoi (Itoa i) = Ret i"
proof (cases "i < 0")
  case True
  with assms have "nat (- i) < 2 ^ 64" and "nat (- i) \<le> 2 ^ 63" by auto
  with True show ?thesis
    by (simp add: Itoa_def Atoi_def Let_def ParseUint_format)
next
  case False
  obtain c cs where f: "format_nat 10 (nat i) = c # cs"
    by (cases "format_nat 10 (nat i)") auto
  with hd_format_nat [of 10 "nat i"] obtain d where "d < 10" and "c = digit_char d"
    by auto
  then have "c \<noteq> CHR ''-''" and "c \<noteq> CHR ''+''"
    using digit_char_neq_sign [of d] by auto
  moreover from False assms have "ParseUint (format_nat 10 (nat i)) 10 = Ret (nat i)"
    by (intro ParseUint_format) auto
  ultimately show ?thesis
    using f False assms by (simp add: Itoa_def Atoi_def Let_def)
qed

subsection \<open>Package encoding/hex\<close>

datatype hex_error = ErrLength | InvalidByteError char

fun hex_encode :: "string \<Rightarrow> string" where
  "hex_encode [] = []"
| "hex_encode (c # cs) =
     digit_char (of_char c div 16) # digit_char (of_char c mod 16) # hex_encode cs"

definition hex_val :: "char \<Rightarrow> nat option" where
  "hex_val c = (case digit_val c of Some d \<Rightarrow> if d < 16 then Some d else None | None \<Rightarrow> None)"

fun hex_decode :: "string \<Rightarrow> (hex_error, string) go" where
  "hex_decode [] = Ret []"
| "hex_decode [p] = (case hex_val p of None \<Rightarrow> Fail (InvalidByteError p) | Some _ \<Rightarrow> Fail ErrLength)"
| "hex_decode (p # q # s) =
     (case hex_val p of
        None \<Rightarrow> Fail (InvalidByteError p)
      | Some a \<Rightarrow>
          (case hex_val q of
             None \<Rightarrow> Fail (InvalidByteError q)
           | Some b \<Rightarrow> bind_go (hex_decode s) (\<lambda>r. Ret (char_of (16 * a + b) # r))))"

lemma length_hex_encode [simp]: "length (hex_encode s) = 2 * length s"
  by (induction s) auto

lemma hex_val_digit_char [digit_simps]: "d < 16 \<Longrightarrow> hex_val (digit_char d) = Some d"
  by (simp add: hex_val_def digit_val_digit_char)

lemma of_char_less_256: "(of_char c :: nat) < 256"
  by (metis of_char_mod_256 mod_less_divisor zero_less_numeral)

lemma hex_decode_encode: "hex_decode (hex_encode s) = Ret s"
proof (induction s)
  case (Cons c cs)
  have "(of_char c :: nat) div 16 < 16"
    using of_char_less_256 [of c] by (simp add: less_mult_imp_div_less)
  with Cons show ?case by (simp add: hex_val_digit_char)
qed simp

lemma hex_decode_length: "hex_decode s = Ret r \<Longrightarrow> length s = 2 * length r"
  by (induction s arbitrary: r rule: hex_decode.induct) (auto split: option.splits)

subsection \<open>Package encoding/binary\<close>

text \<open>\<open>binary.BigEndian\<close>.\<close>

fun be_bytes :: "nat \<Rightarrow> nat \<Rightarrow> string" where
  "be_bytes 0 n = []"
| "be_bytes (Suc k) n = be_bytes k (n div 256) @ [char_of (n mod 256)]"

definition be_value :: "string \<Rightarrow> nat" where
  "be_value b = fold (\<lambda>c v. v * 256 + of_char c) b 0"

definition PutUint64 :: "u64 \<Rightarrow> string" where
  "PutUint64 v = be_bytes 8 (unat v)"

definition Uint64 :: "string \<Rightarrow> u64" where
  "Uint64 b = word_of_nat (be_value (take 8 b))"

lemma length_be_bytes [simp]: "length (be_bytes k n) = k"
  by (induction k arbitrary: n) auto

lemma be_value_be_bytes: "be_value (be_bytes k n) = n mod 256 ^ k"
proof (induction k arbitrary: n)
  case (Suc k)
  then show ?case by (simp add: be_value_def mod_mult2_eq mult.commute)
qed (simp add: be_value_def)

lemma length_PutUint64 [simp]: "length (PutUint64 v) = 8"
  by (simp add: PutUint64_def del: be_bytes.simps)

lemma Uint64_PutUint64: "Uint64 (PutUint64 v @ rest) = v"
proof -
  have "unat v < 256 ^ 8" using unsigned_less [where ?'a = nat, of v] by simp
  then show ?thesis
    using be_value_be_bytes [of 8 "unat v"] length_PutUint64 [of v]
    by (simp add: Uint64_def PutUint64_def del: be_bytes.simps)
qed

end
