(* ===== verification/Go_Path.thy ===== *)
theory Go_Path
  imports Prelude
begin

text \<open>
  The Go package \<open>path\<close>: \<open>IsAbs\<close>, \<open>Clean\<close>, \<open>Join\<close>, \<open>Dir\<close> and \<open>Base\<close> on slash separated
  pathnames. \<open>Clean\<close> is written on the components of the pathname, by the rules its
  documentation gives; \<open>clean_comps\<close> describes the component lists it returns.
\<close>

definition slash :: char where "slash = CHR ''/''"

definition IsAbs :: "string \<Rightarrow> bool" where
  "IsAbs p = (case p of [] \<Rightarrow> False | c # _ \<Rightarrow> c = slash)"

text \<open>The components of a pathname, empty ones removed (rule 1).\<close>

definition comps :: "string \<Rightarrow> string list" where
  "comps p = filter (\<lambda>w. w \<noteq> []) (Split slash p)"

text \<open>One component against the reversed output: \<open>.\<close> is dropped (rule 2), an inner \<open>..\<close> removes
  the component before it (rule 3), \<open>..\<close> at the root is dropped (rule 4).\<close>

fun clean_push :: "bool \<Rightarrow> string \<Rightarrow> string list \<Rightarrow> string list" where
  "clean_push rooted w out =
     (if w = ''.'' then out
      else if w = ''..'' then
        (case out of
           [] \<Rightarrow> if rooted then [] else [w]
         | t # ts \<Rightarrow> if t = ''..'' then w # out else ts)
      else w # out)"

definition clean_list :: "bool \<Rightarrow> string list \<Rightarrow> string list" where
  "clean_list rooted ws = rev (fold (clean_push rooted) ws [])"

definition render_path :: "bool \<Rightarrow> string list \<Rightarrow> string" where
  "render_path rooted ws =
     (if rooted then slash # Join ws [slash]
      else if ws = [] then ''.'' else Join ws [slash])"

definition Clean :: "string \<Rightarrow> string" where
  "Clean p = render_path (IsAbs p) (clean_list (IsAbs p) (comps p))"

definition path_Join :: "string list \<Rightarrow> string" where
  "path_Join elems =
     (let es = dropWhile (\<lambda>w. w = []) elems in
      if es = [] then [] else Clean (Join es [slash]))"

text \<open>\<open>path.Dir\<close> cleans everything up to and including the last slash, \<open>path.Base\<close> is the
  last component.\<close>

definition path_dir_part :: "string \<Rightarrow> string" where
  "path_dir_part p = rev (dropWhile (\<lambda>c. c \<noteq> slash) (rev p))"

definition path_Dir :: "string \<Rightarrow> string" where
  "path_Dir p = Clean (path_dir_part p)"

definition path_Base :: "string \<Rightarrow> string" where
  "path_Base p = (if p = [] then ''.'' else if comps p = [] then ''/'' else last (comps p))"

subsection \<open>Components of cleaned pathnames\<close>

text \<open>What \<open>Clean\<close> leaves: no empty component, no \<open>.\<close>, no slash inside a component and, in a
  rooted pathname, no \<open>..\<close>.\<close>

definition plain :: "string \<Rightarrow> bool" where
  "plain w \<longleftrightarrow> w \<noteq> [] \<and> w \<noteq> ''.'' \<and> w \<noteq> ''..'' \<and> slash \<notin> set w"

definition clean_abs :: "string \<Rightarrow> bool" where
  "clean_abs p \<longleftrightarrow> IsAbs p \<and> (\<exists>ws. list_all plain ws \<and> p = render_path True ws)"

lemma comps_no_slash: "w \<in> set (comps p) \<Longrightarrow> slash \<notin> set w \<and> w \<noteq> []"
  by (auto simp: comps_def dest: Split_pieces)

lemma IsAbs_iff [simp]: "IsAbs p \<longleftrightarrow> (\<exists>q. p = slash # q)"
  by (auto simp: IsAbs_def split: list.splits)

lemma comps_slash [simp]: "comps (slash # p) = comps p"
  by (simp add: comps_def)

lemma comps_Nil [simp]: "comps [] = []"
  by (simp add: comps_def)

lemma comps_append_slash: "comps (a @ slash # b) = comps a @ comps b"
proof (induction a)
  case (Cons x a)
  obtain y ys where s: "Split slash (a @ slash # b) = y # ys"
    by (cases "Split slash (a @ slash # b)") auto
  obtain z zs where t: "Split slash a = z # zs"
    by (cases "Split slash a") auto
  have "y = z \<and> ys = zs @ Split slash b"
  proof -
    have "Split slash (a @ slash # b) = Split slash a @ Split slash b"
      by (induction a) (auto split: list.splits)
    with s t show ?thesis by simp
  qed
  with Cons s t show ?case by (auto simp: comps_def)
qed (simp add: comps_def)

lemma comps_Join:
  "(\<And>w. w \<in> set ws \<Longrightarrow> slash \<notin> set w \<and> w \<noteq> []) \<Longrightarrow> comps (Join ws [slash]) = ws"
proof (induction ws "[slash]" rule: Join.induct)
  case (2 x)
  then show ?case by (simp add: comps_def Split_no_sep)
next
  case (3 x y xs)
  then have "comps x = [x]" by (simp add: comps_def Split_no_sep)
  with 3 show ?case by (simp add: comps_append_slash)
qed simp

lemma comps_Join_concat: "comps (Join es [slash]) = concat (map comps es)"
proof (induction es "[slash]" rule: Join.induct)
  case (3 x y xs)
  then show ?case by (simp add: comps_append_slash)
qed simp_all

lemma clean_push_plain:
  assumes "list_all plain out" "slash \<notin> set w" "w \<noteq> []"
  shows "list_all plain (clean_push True w out)"
  using assms by (cases out) (auto simp: plain_def)

lemma fold_clean_push_plain:
  assumes "list_all plain out" "\<And>w. w \<in> set ws \<Longrightarrow> slash \<notin> set w \<and> w \<noteq> []"
  shows "list_all plain (fold (clean_push True) ws out)"
  using assms
proof (induction ws arbitrary: out)
  case (Cons w ws)
  have "list_all plain (clean_push True w out)"
    using Cons.prems by (intro clean_push_plain) auto
  with Cons show ?case by simp
qed simp

lemma clean_list_plain:
  "(\<And>w. w \<in> set ws \<Longrightarrow> slash \<notin> set w \<and> w \<noteq> []) \<Longrightarrow> list_all plain (clean_list True ws)"
  using fold_clean_push_plain [of "[]" ws] by (simp add: clean_list_def list_all_iff)

lemma fold_clean_push_id:
  "list_all plain ws \<Longrightarrow> fold (clean_push r) ws out = rev ws @ out"
  by (induction ws arbitrary: out) (auto simp: plain_def)

lemma clean_list_id [simp]: "list_all plain ws \<Longrightarrow> clean_list r ws = ws"
  by (simp add: clean_list_def fold_clean_push_id)

lemma Clean_rooted: "IsAbs p \<Longrightarrow> Clean p = render_path True (clean_list True (comps p))"
  by (auto simp: Clean_def)

lemma clean_abs_Clean: "IsAbs p \<Longrightarrow> clean_abs (Clean p)"
  unfolding clean_abs_def
  by (intro conjI exI [of _ "clean_list True (comps p)"])
    (auto simp: Clean_rooted render_path_def intro!: clean_list_plain dest: comps_no_slash)

lemma comps_render: "list_all plain ws \<Longrightarrow> comps (render_path True ws) = ws"
  by (simp add: render_path_def comps_Join list_all_iff plain_def)

lemma Clean_clean_abs: "clean_abs p \<Longrightarrow> Clean p = p"
  by (auto simp: clean_abs_def Clean_rooted comps_render)

lemma Clean_idem_abs: "IsAbs p \<Longrightarrow> Clean (Clean p) = Clean p"
  by (rule Clean_clean_abs) (rule clean_abs_Clean)

lemma IsAbs_Clean [simp]: "IsAbs p \<Longrightarrow> IsAbs (Clean p)"
  by (auto simp: Clean_def render_path_def)

lemma IsAbs_path_Join: "IsAbs p \<Longrightarrow> IsAbs (path_Join (p # es))"
proof -
  assume "IsAbs p"
  then obtain q where p: "p = slash # q" by auto
  have "IsAbs (Join (p # es) [slash])"
    using p by (cases es) auto
  with p show ?thesis by (auto simp: path_Join_def simp del: IsAbs_iff intro: IsAbs_Clean)
qed

lemma path_Join_abs:
  assumes "IsAbs p"
  shows "path_Join (p # es) =
    render_path True (clean_list True (comps p @ concat (map comps es)))"
proof -
  obtain q where p: "p = slash # q" using assms by auto
  have "IsAbs (Join (p # es) [slash])"
    using p by (cases es) auto
  then have "Clean (Join (p # es) [slash]) =
      render_path True (clean_list True (comps (Join (p # es) [slash])))"
    by (rule Clean_rooted)
  with p show ?thesis by (simp add: path_Join_def comps_Join_concat)
qed

lemma IsAbs_path_Dir: "IsAbs p \<Longrightarrow> IsAbs (path_Dir p)"
proof -
  assume "IsAbs p"
  then obtain q where p: "p = slash # q" by auto
  have "IsAbs (path_dir_part p)"
  proof -
    have "\<exists>r. dropWhile (\<lambda>c. c \<noteq> slash) (rev q @ [slash]) = r @ [slash]"
      by (simp add: dropWhile_append)
    then obtain r where "dropWhile (\<lambda>c. c \<noteq> slash) (rev q @ [slash]) = r @ [slash]" ..
    then show ?thesis by (simp add: path_dir_part_def p)
  qed
  then show ?thesis unfolding path_Dir_def by (rule IsAbs_Clean)
qed

lemma render_append:
  "bs \<noteq> [] \<Longrightarrow> ps \<noteq> [] \<Longrightarrow> render_path True (bs @ ps) = render_path True bs @ slash # Join ps [slash]"
  by (simp add: render_path_def Join_append)

lemma comps_plain: "plain w \<Longrightarrow> comps w = [w]"
  by (simp add: comps_def plain_def Split_no_sep)

lemma path_Join_plain:
  assumes "list_all plain bs" "plain w"
  shows "path_Join [render_path True bs, w] = render_path True (bs @ [w])"
proof -
  have "IsAbs (render_path True bs)" by (simp add: render_path_def)
  with assms show ?thesis by (simp add: path_Join_abs comps_render comps_plain)
qed

end
