(* ===== verification/Vfs.thy ===== *)
theory Vfs
  imports Go_Num Go_Path
begin

text \<open>
  The package \<open>container/vfs\<close>: decoding of \<open>proc_pid_mountinfo(5)\<close> (\<open>mangle.go\<close>,
  \<open>mountinfo.go\<close>) and the mount hierarchy (\<open>unfold.go\<close>). The nodes of the hierarchy live in an
  array and are named by their index, as in the source; the chain of \<open>FirstChild\<close> and
  \<open>NextSibling\<close> pointers of a node is the list \<open>n_children\<close> of the indices it visits.
\<close>

subsection \<open>mangle.go\<close>

definition octal_digit :: "char \<Rightarrow> bool" where
  "octal_digit c \<longleftrightarrow> 48 \<le> (of_char c :: nat) \<and> (of_char c :: nat) \<le> 55"

definition unmangle_escape :: "char \<Rightarrow> char \<Rightarrow> char \<Rightarrow> bool" where
  "unmangle_escape a b d \<longleftrightarrow> (a = CHR ''0'' \<or> a = CHR ''1'') \<and> octal_digit b \<and> octal_digit d"

definition char_byte :: "char \<Rightarrow> u8" where
  "char_byte c = word_of_nat (of_char c)"

definition unmangle_byte :: "char \<Rightarrow> char \<Rightarrow> char \<Rightarrow> char" where
  "unmangle_byte a b d =
     char_of (unat (push_bit 6 (char_byte a - char_byte CHR ''0'') OR
                    push_bit 3 (char_byte b - char_byte CHR ''0'') OR
                    (char_byte d - char_byte CHR ''0'')))"

fun unmangle_loop :: "string \<Rightarrow> string" where
  "unmangle_loop (c # a # b # d # s) =
     (if c = CHR 0x5C \<and> unmangle_escape a b d then unmangle_byte a b d # unmangle_loop s
      else c # unmangle_loop (a # b # d # s))"
| "unmangle_loop (c # s) = c # unmangle_loop s"
| "unmangle_loop [] = []"

definition Unmangle :: "string \<Rightarrow> string" where
  "Unmangle s = (if \<not> ContainsByte s CHR 0x5C then s else unmangle_loop s)"

subsection \<open>mountinfo.go\<close>

definition MS_RDONLY :: u64 where "MS_RDONLY = 0x1"
definition MS_NOSUID :: u64 where "MS_NOSUID = 0x2"
definition MS_NODEV :: u64 where "MS_NODEV = 0x4"
definition MS_NOEXEC :: u64 where "MS_NOEXEC = 0x8"
definition MS_NOSYMFOLLOW :: u64 where "MS_NOSYMFOLLOW = 0x100"
definition MS_NOATIME :: u64 where "MS_NOATIME = 0x400"
definition MS_NODIRATIME :: u64 where "MS_NODIRATIME = 0x800"
definition MS_RELATIME :: u64 where "MS_RELATIME = 0x200000"

record mi_entry =
  mi_ID :: int
  mi_Parent :: int
  mi_Devno :: "int \<times> int"
  mi_Root :: string
  mi_Target :: string
  mi_VfsOptstr :: string
  mi_OptFields :: "string list"
  mi_FsType :: string
  mi_Source :: string
  mi_FsOptstr :: string

definition flags_step :: "string \<Rightarrow> u64 \<times> string list \<Rightarrow> u64 \<times> string list" where
  "flags_step s acc =
     (let (flags, unmatched) = acc in
      if s = ''rw'' then (flags, unmatched)
      else if s = ''ro'' then (flags OR MS_RDONLY, unmatched)
      else if s = ''nosuid'' then (flags OR MS_NOSUID, unmatched)
      else if s = ''nodev'' then (flags OR MS_NODEV, unmatched)
      else if s = ''noexec'' then (flags OR MS_NOEXEC, unmatched)
      else if s = ''nosymfollow'' then (flags OR MS_NOSYMFOLLOW, unmatched)
      else if s = ''noatime'' then (flags OR MS_NOATIME, unmatched)
      else if s = ''nodiratime'' then (flags OR MS_NODIRATIME, unmatched)
      else if s = ''relatime'' then (flags OR MS_RELATIME, unmatched)
      else (flags, unmatched @ [s]))"

definition mi_Flags :: "mi_entry \<Rightarrow> u64 \<times> string list" where
  "mi_Flags e = fold flags_step (Split CHR '','' (mi_VfsOptstr e)) (0, [])"

datatype mi_error =
    ErrMountInfoFields | ErrMountInfoEmpty | ErrMountInfoSep
  | NumError string num_error | SscanfError string

text \<open>\<open>fmt.Sscanf\<close> with the format \<open>%d:%d\<close>: white space before a number is skipped, input after
  the second number is not looked at.\<close>

definition scan_space :: "char \<Rightarrow> bool" where
  "scan_space c \<longleftrightarrow> List.member [CHR '' '', CHR 0x09, CHR 0x0B, CHR 0x0C, CHR 0x0D] c"

definition sscanf_digits :: "string \<Rightarrow> string \<times> string" where
  "sscanf_digits s =
     (let digit = (\<lambda>c. 48 \<le> (of_char c :: nat) \<and> (of_char c :: nat) \<le> 57) in
      (takeWhile digit s, dropWhile digit s))"

definition sscanf_int :: "string \<Rightarrow> (mi_error, int \<times> string) go" where
  "sscanf_int s =
     (let s = dropWhile scan_space s;
          sign = (case s of c # _ \<Rightarrow> if c = CHR ''-'' \<or> c = CHR ''+'' then [c] else [] | [] \<Rightarrow> []);
          (ds, rest) = sscanf_digits (drop (length sign) s)
      in if ds = [] then Fail (SscanfError ''expected integer'')
         else case Atoi (sign @ ds) of
             Ret i \<Rightarrow> Ret (i, rest)
           | _ \<Rightarrow> Fail (SscanfError ''integer overflow''))"

definition sscanf_pair :: "string \<Rightarrow> (mi_error, int \<times> int) go" where
  "sscanf_pair s =
     bind_go (sscanf_int s) (\<lambda>(maj, rest).
       case rest of
         c # rest' \<Rightarrow>
           if c = CHR '':'' then bind_go (sscanf_int rest') (\<lambda>(min, _). Ret (maj, min))
           else Fail (SscanfError ''input does not match format'')
       | [] \<Rightarrow> Fail (SscanfError ''unexpected EOF''))"

definition mi_atoi :: "string \<Rightarrow> (mi_error, int) go" where
  "mi_atoi s = (case Atoi s of Ret i \<Rightarrow> Ret i | Fail e \<Rightarrow> Fail (NumError s e) | Panic m \<Rightarrow> Panic m)"

definition nonempty_field :: "string \<Rightarrow> (mi_error, string) go" where
  "nonempty_field f = (let s = Unmangle f in if s = [] then Fail ErrMountInfoEmpty else Ret s)"

definition parseMountInfoLine :: "string \<Rightarrow> (mi_error, mi_entry) go" where
  "parseMountInfoLine s =
     (let f = Split CHR '' '' s; i = length f - 4 in
      if length f < 10 then Fail ErrMountInfoFields
      else
        bind_go (mi_atoi (f ! 0)) (\<lambda>id.
        bind_go (mi_atoi (f ! 1)) (\<lambda>parent.
        bind_go (sscanf_pair (f ! 2)) (\<lambda>devno.
        bind_go (nonempty_field (f ! 3)) (\<lambda>root.
        bind_go (nonempty_field (f ! 4)) (\<lambda>target.
        bind_go (nonempty_field (f ! 5)) (\<lambda>vfsOptstr.
        if f ! i \<noteq> ''-'' then Fail ErrMountInfoSep
        else
          bind_go (nonempty_field (f ! (i + 1))) (\<lambda>fsType.
            Ret \<lparr> mi_ID = id, mi_Parent = parent, mi_Devno = devno, mi_Root = root,
                  mi_Target = target, mi_VfsOptstr = vfsOptstr,
                  mi_OptFields = drop 6 (take i f), mi_FsType = fsType,
                  mi_Source = Unmangle (f ! (i + 2)), mi_FsOptstr = Unmangle (f ! (i + 3)) \<rparr>))))))))"

definition mi_String :: "mi_entry \<Rightarrow> string" where
  "mi_String e =
     Itoa (mi_ID e) @ '' '' @ Itoa (mi_Parent e) @ '' '' @
     Itoa (fst (mi_Devno e)) @ '':'' @ Itoa (snd (mi_Devno e)) @ '' '' @
     mi_Root e @ '' '' @ mi_Target e @ '' '' @ mi_VfsOptstr e @ '' '' @
     Join (mi_OptFields e @ [''-'']) '' '' @ '' '' @
     mi_FsType e @ '' '' @ mi_Source e @ '' '' @ mi_FsOptstr e"

definition mi_EqualWithIgnore :: "mi_entry \<Rightarrow> mi_entry \<Rightarrow> string \<Rightarrow> bool" where
  "mi_EqualWithIgnore e want ign \<longleftrightarrow>
     (mi_ID e = mi_ID want \<or> mi_ID want = -1) \<and>
     (mi_Parent e = mi_Parent want \<or> mi_Parent want = -1) \<and>
     (mi_Devno e = mi_Devno want \<or> (fst (mi_Devno want) = -1 \<and> snd (mi_Devno want) = -1)) \<and>
     (mi_Root e = mi_Root want \<or> mi_Root want = ign) \<and>
     (mi_Target e = mi_Target want \<or> mi_Target want = ign) \<and>
     (mi_VfsOptstr e = mi_VfsOptstr want \<or> mi_VfsOptstr want = ign) \<and>
     (mi_OptFields e = mi_OptFields want \<or> mi_OptFields want = [ign]) \<and>
     (mi_FsType e = mi_FsType want \<or> mi_FsType want = ign) \<and>
     (mi_Source e = mi_Source want \<or> mi_Source want = ign) \<and>
     (mi_FsOptstr e = mi_FsOptstr want \<or> mi_FsOptstr want = ign)"

text \<open>The decoder: the tokens its scanner still holds, the error the scanner ends with, whether
  it has ended, and the fields of the source (the linked list \<open>m\<close> as the list of its entries).\<close>

record decoder =
  d_tokens :: "string list"
  d_scanErr :: "string option"
  d_ended :: bool
  d_m :: "mi_entry list"
  d_parseErr :: "mi_error option"
  d_curLine :: nat
  d_complete :: bool

datatype decoder_error =
    DecScan nat string | DecParse nat mi_error | DecUnfold string

definition NewMountInfoDecoder :: "string list \<Rightarrow> string option \<Rightarrow> decoder" where
  "NewMountInfoDecoder tokens err =
     \<lparr> d_tokens = tokens, d_scanErr = err, d_ended = False, d_m = [], d_parseErr = None,
       d_curLine = 0, d_complete = False \<rparr>"

definition d_scan :: "decoder \<Rightarrow> bool \<times> decoder" where
  "d_scan d =
     (if d_complete d then (False, d)
      else case d_tokens d of
        [] \<Rightarrow> (False, d\<lparr>d_ended := True, d_complete := True\<rparr>)
      | text # rest \<Rightarrow>
          (let d = d\<lparr>d_tokens := rest\<rparr> in
           case parseMountInfoLine text of
             Ret ent \<Rightarrow> (True, d\<lparr>d_m := d_m d @ [ent], d_curLine := Suc (d_curLine d)\<rparr>)
           | Fail err \<Rightarrow> (False, d\<lparr>d_parseErr := Some err, d_complete := True\<rparr>)
           | Panic _ \<Rightarrow> (False, d)))"

definition d_Err :: "decoder \<Rightarrow> decoder_error option" where
  "d_Err d =
     (if d_ended d \<and> d_scanErr d \<noteq> None then Some (DecScan (d_curLine d) (the (d_scanErr d)))
      else case d_parseErr d of
          Some e \<Rightarrow> Some (DecParse (d_curLine d) e)
        | None \<Rightarrow> None)"

text \<open>The loop \<open>for d.scan()\<close>, which \<open>Decode\<close> and a complete run of \<open>Entries\<close> make.\<close>

lemma d_scan_tokens: "d_scan d = (True, d') \<Longrightarrow> length (d_tokens d') < length (d_tokens d)"
  by (auto simp: d_scan_def Let_def split: if_splits list.splits go.splits)

function d_scan_all :: "decoder \<Rightarrow> decoder" where
  "d_scan_all d = (case d_scan d of (True, d') \<Rightarrow> d_scan_all d' | (False, d') \<Rightarrow> d')"
  by pat_completeness auto
termination
  by (relation "measure (\<lambda>d. length (d_tokens d))") (auto dest: d_scan_tokens [OF sym])

declare d_scan_all.simps [simp del]

definition d_Decode :: "decoder \<Rightarrow> decoder \<times> (decoder_error, mi_entry list) go" where
  "d_Decode d =
     (let d = d_scan_all d in
      (d, case d_Err d of None \<Rightarrow> Ret (d_m d) | Some e \<Rightarrow> Fail e))"

text \<open>The entries a complete run of \<open>Entries\<close> yields, and the decoder after it.\<close>

definition d_Entries :: "decoder \<Rightarrow> decoder \<times> mi_entry list" where
  "d_Entries d = (let d = d_scan_all d in (d, d_m d))"

subsection \<open>unfold.go\<close>

record mi_node =
  n_ent :: mi_entry
  n_clean :: string
  n_covered :: bool
  n_children :: "nat list"

text \<open>The loop over the siblings: a sibling whose pathname starts with the new one is unlinked, one
  the new pathname starts with ends the loop with nothing linked, and at the end of the chain
  the new node is linked.\<close>

fun insert_child :: "(nat \<Rightarrow> string) \<Rightarrow> nat \<Rightarrow> nat list \<Rightarrow> nat list" where
  "insert_child clean cur [] = [cur]"
| "insert_child clean cur (s # ss) =
     (if HasPrefix (clean cur) (clean s) then s # ss
      else if HasPrefix (clean s) (clean cur) then insert_child clean cur ss
      else s # insert_child clean cur ss)"

definition unfold_node :: "mi_entry \<Rightarrow> mi_node" where
  "unfold_node ent = \<lparr>n_ent = ent, n_clean = Clean (mi_Target ent), n_covered = False, n_children = []\<rparr>"

definition unfold_idIndex :: "mi_entry list \<Rightarrow> int \<Rightarrow> nat option" where
  "unfold_idIndex es = fold (\<lambda>(i, ent) m. m(mi_ID ent \<mapsto> i)) (enumerate 0 es) Map.empty"

definition unfold_targetIndex :: "mi_entry list \<Rightarrow> string \<Rightarrow> nat option" where
  "unfold_targetIndex es targetClean =
     fold (\<lambda>(i, ent) t. if Clean (mi_Target ent) = targetClean then Some i else t) (enumerate 0 es) None"

definition unfold_step :: "string \<Rightarrow> (int \<Rightarrow> nat option) \<Rightarrow> nat \<Rightarrow> mi_node list \<Rightarrow> mi_node list" where
  "unfold_step targetClean idIndex c ns =
     (let cur = ns ! c in
      case idIndex (mi_Parent (n_ent cur)) of
        None \<Rightarrow> ns
      | Some p \<Rightarrow>
          if \<not> HasPrefix (n_clean cur) targetClean then ns
          else
            (let parent = ns ! p;
                 parent = (if n_clean parent = n_clean cur then parent\<lparr>n_covered := True\<rparr> else parent)
             in ns[p := parent\<lparr>n_children := insert_child (\<lambda>i. n_clean (ns ! i)) c (n_children parent)\<rparr>]))"

definition unfold_entries :: "mi_entry list \<Rightarrow> string \<Rightarrow> (decoder_error, mi_node list \<times> nat) go" where
  "unfold_entries es targetClean =
     (case unfold_targetIndex es targetClean of
        None \<Rightarrow> Fail (DecUnfold targetClean)
      | Some t \<Rightarrow>
          Ret (fold (unfold_step targetClean (unfold_idIndex es)) [0..<length es] (map unfold_node es), t))"

definition Unfold :: "decoder \<Rightarrow> string \<Rightarrow> decoder \<times> (decoder_error, mi_node list \<times> nat) go" where
  "Unfold d target =
     (let targetClean = Clean target; (d, es) = d_Entries d in
      case d_Err d of
        Some e \<Rightarrow> (d, Fail e)
      | None \<Rightarrow> (d, unfold_entries es targetClean))"

text \<open>\<open>visit\<close>, with fuel since the pointers may form a cycle: the indices of the visible nodes in
  the order they are yielded.\<close>

primrec n_visit :: "nat \<Rightarrow> mi_node list \<Rightarrow> nat \<Rightarrow> nat list option" where
  "n_visit 0 ns n = None"
| "n_visit (Suc fuel) ns n =
     map_option (\<lambda>rs. (if n_covered (ns ! n) then [] else [n]) @ concat rs)
       (those (map (n_visit fuel ns) (n_children (ns ! n))))"

subsection \<open>The hierarchy\<close>

text \<open>The specification, on the mount table alone. The parent of a mount is the last entry with the
  identifier it names. Of the mounts of one parent whose pathname starts with the target, the
  hierarchy links those no other of them hides: \<open>s\<close> hides \<open>c\<close> if the pathname of \<open>c\<close> starts with
  that of \<open>s\<close>, where of two with the same pathname the first stays. A mount is topped if one of its
  children is mounted on its own pathname.\<close>

abbreviation mount_path :: "mi_entry list \<Rightarrow> nat \<Rightarrow> string" where
  "mount_path es i \<equiv> Clean (mi_Target (es ! i))"

definition mount_parent :: "mi_entry list \<Rightarrow> nat \<Rightarrow> nat \<Rightarrow> bool" where
  "mount_parent es p c \<longleftrightarrow> p < length es \<and> c < length es \<and> mi_ID (es ! p) = mi_Parent (es ! c) \<and>
     (\<forall>q. p < q \<and> q < length es \<longrightarrow> mi_ID (es ! q) \<noteq> mi_Parent (es ! c))"

definition mounted_in :: "mi_entry list \<Rightarrow> string \<Rightarrow> nat \<Rightarrow> nat \<Rightarrow> bool" where
  "mounted_in es tc p c \<longleftrightarrow> mount_parent es p c \<and> HasPrefix (mount_path es c) tc"

definition hides :: "(nat \<Rightarrow> string) \<Rightarrow> nat \<Rightarrow> nat \<Rightarrow> bool" where
  "hides path s c \<longleftrightarrow> s \<noteq> c \<and> HasPrefix (path c) (path s) \<and> \<not> (path s = path c \<and> c < s)"

definition linked :: "mi_entry list \<Rightarrow> string \<Rightarrow> nat \<Rightarrow> nat \<Rightarrow> bool" where
  "linked es tc p c \<longleftrightarrow> mounted_in es tc p c \<and> \<not> (\<exists>s. mounted_in es tc p s \<and> hides (mount_path es) s c)"

definition topped :: "mi_entry list \<Rightarrow> string \<Rightarrow> nat \<Rightarrow> bool" where
  "topped es tc p \<longleftrightarrow> (\<exists>c. mounted_in es tc p c \<and> mount_path es c = mount_path es p)"

definition visible_below :: "mi_entry list \<Rightarrow> string \<Rightarrow> nat \<Rightarrow> nat set" where
  "visible_below es tc t = {i. (linked es tc)\<^sup>*\<^sup>* t i \<and> \<not> topped es tc i}"

definition last_mount :: "mi_entry list \<Rightarrow> string \<Rightarrow> nat \<Rightarrow> bool" where
  "last_mount es tc t \<longleftrightarrow> t < length es \<and> mount_path es t = tc \<and> (\<forall>i. t < i \<and> i < length es \<longrightarrow> mount_path es i \<noteq> tc)"

lemma unfold_idIndex_iff:
  "unfold_idIndex es k = Some p \<longleftrightarrow>
     p < length es \<and> mi_ID (es ! p) = k \<and> (\<forall>q. p < q \<and> q < length es \<longrightarrow> mi_ID (es ! q) \<noteq> k)"
proof (induction es arbitrary: p rule: rev_induct)
  case (snoc e es)
  have "unfold_idIndex (es @ [e]) k = (if mi_ID e = k then Some (length es) else unfold_idIndex es k)"
    by (simp add: unfold_idIndex_def enumerate_append_eq)
  moreover have "(\<forall>q. p < q \<and> q < length (es @ [e]) \<longrightarrow> mi_ID ((es @ [e]) ! q) \<noteq> k) \<longleftrightarrow>
      (p < length es \<longrightarrow> mi_ID e \<noteq> k) \<and> (\<forall>q. p < q \<and> q < length es \<longrightarrow> mi_ID (es ! q) \<noteq> k)"
    by (auto simp: nth_append less_Suc_eq)
  ultimately show ?case
    by (cases "p = length es") (auto simp: nth_append snoc)
qed (simp add: unfold_idIndex_def)

lemma idIndex_parent: "c < length es \<Longrightarrow> unfold_idIndex es (mi_Parent (es ! c)) = Some p \<longleftrightarrow> mount_parent es p c"
  by (auto simp: unfold_idIndex_iff mount_parent_def)

lemma mount_parent_unique: "mount_parent es p c \<Longrightarrow> mount_parent es q c \<Longrightarrow> p = q"
  by (metis linorder_neqE_nat mount_parent_def)

text \<open>The loop over the siblings keeps the mounts that are not hidden.\<close>

definition unhidden :: "(nat \<Rightarrow> string) \<Rightarrow> nat set \<Rightarrow> nat set" where
  "unhidden path S = {c \<in> S. \<not> (\<exists>s \<in> S. hides path s c)}"

lemma HasPrefix_trans: "HasPrefix a b \<Longrightarrow> HasPrefix b c \<Longrightarrow> HasPrefix a c"
  by (auto simp: HasPrefix_iff intro: prefix_order.trans)

lemma HasPrefix_refl [simp]: "HasPrefix a a"
  by (simp add: HasPrefix_iff)

lemma HasPrefix_antisym: "HasPrefix a b \<Longrightarrow> HasPrefix b a \<Longrightarrow> a = b"
  by (auto simp: HasPrefix_iff intro: prefix_order.antisym)

lemma hidden_by_unhidden:
  assumes "c \<in> S"
  shows "\<exists>s \<in> unhidden path S. HasPrefix (path c) (path s)"
  using assms
proof (induction c rule: wf_induct_rule [OF wf_measures [of "[\<lambda>i. length (path i), \<lambda>i. i]"]])
  case (1 c)
  show ?case
  proof (cases "\<exists>s \<in> S. hides path s c")
    case True
    then obtain s where s: "s \<in> S" "hides path s c" by blast
    have "length (path s) < length (path c) \<or> length (path s) = length (path c) \<and> s < c"
      using s(2) prefix_length_le [of "path s" "path c"] not_equal_is_parallel [of "path s" "path c"]
      by (auto simp: hides_def HasPrefix_iff le_less)
    then have "(s, c) \<in> measures [\<lambda>i. length (path i), \<lambda>i. i]" by auto
    from 1(1) [OF this s(1)] s(2) show ?thesis
      by (auto simp: hides_def intro: HasPrefix_trans)
  next
    case False
    with 1(2) show ?thesis by (intro bexI [of _ c]) (auto simp: unhidden_def)
  qed
qed

lemma unhidden_antichain:
  assumes "s \<in> unhidden path S" "c \<in> unhidden path S" "HasPrefix (path c) (path s)"
  shows "s = c"
proof (rule ccontr)
  assume "s \<noteq> c"
  with assms have "path s = path c" "c < s" by (auto simp: unhidden_def hides_def)
  with assms \<open>s \<noteq> c\<close> show False by (auto simp: unhidden_def hides_def)
qed

abbreviation apart :: "(nat \<Rightarrow> string) \<Rightarrow> nat list \<Rightarrow> bool" where
  "apart path \<equiv> sorted_wrt (\<lambda>a b. \<not> HasPrefix (path a) (path b) \<and> \<not> HasPrefix (path b) (path a))"

lemma set_insert_child: "set (insert_child path cur ss) \<subseteq> insert cur (set ss)"
  by (induction ss) auto

lemma insert_child_apart: "apart path ss \<Longrightarrow> apart path (insert_child path cur ss)"
proof (induction ss)
  case (Cons s ss)
  then show ?case using set_insert_child [of path cur ss] by auto
qed simp

lemma insert_child_eq:
  assumes "apart path ss"
  shows "set (insert_child path cur ss) =
    (if \<exists>s \<in> set ss. HasPrefix (path cur) (path s) then set ss
     else insert cur {s \<in> set ss. \<not> HasPrefix (path s) (path cur)})"
  using assms
proof (induction ss)
  case (Cons s ss)
  then show ?case by (auto dest: HasPrefix_trans)
qed simp

lemma insert_child_unhidden:
  assumes "apart path ss" "set ss = unhidden path S" "\<And>s. s \<in> S \<Longrightarrow> s < cur"
  shows "set (insert_child path cur ss) = unhidden path (insert cur S)"
proof (cases "\<exists>s \<in> unhidden path S. HasPrefix (path cur) (path s)")
  case True
  then obtain s where s: "s \<in> unhidden path S" "HasPrefix (path cur) (path s)" by blast
  then have sS: "s \<in> S" "s < cur" using assms(3) by (auto simp: unhidden_def)
  with s(2) have "hides path s cur" by (auto simp: hides_def)
  then have "unhidden path (insert cur S) = {c \<in> unhidden path S. \<not> hides path cur c}"
    using sS(1) by (auto simp: unhidden_def)
  moreover have "\<not> hides path cur c" if c: "c \<in> unhidden path S" for c
  proof
    assume h: "hides path cur c"
    then have "HasPrefix (path c) (path s)" using s(2) by (auto simp: hides_def intro: HasPrefix_trans)
    with s(1) c have "c = s" by (metis unhidden_antichain)
    with h s(2) sS show False by (auto simp: hides_def dest: HasPrefix_antisym)
  qed
  ultimately show ?thesis using insert_child_eq [OF assms(1)] True assms(2) by auto
next
  case False
  then have none: "\<not> HasPrefix (path cur) (path s)" if "s \<in> S" for s
    using hidden_by_unhidden [OF that, of path] by (auto dest: HasPrefix_trans)
  then have "unhidden path (insert cur S) = insert cur {c \<in> unhidden path S. \<not> HasPrefix (path c) (path cur)}"
    using assms(3) by (auto simp: unhidden_def hides_def) (metis HasPrefix_refl)
  then show ?thesis using insert_child_eq [OF assms(1)] False assms(2) by auto
qed

lemma insert_child_cong:
  "(\<And>i. i \<in> insert cur (set ss) \<Longrightarrow> f i = g i) \<Longrightarrow> insert_child f cur ss = insert_child g cur ss"
  by (induction ss) auto

text \<open>The nodes after the first \<open>m\<close> entries are linked.\<close>

definition unfolded :: "mi_entry list \<Rightarrow> string \<Rightarrow> nat \<Rightarrow> mi_node list \<Rightarrow> bool" where
  "unfolded es tc m ns \<longleftrightarrow>
     length ns = length es \<and>
     (\<forall>p < length es. n_ent (ns ! p) = es ! p \<and> n_clean (ns ! p) = mount_path es p \<and>
        apart (mount_path es) (n_children (ns ! p)) \<and>
        set (n_children (ns ! p)) = unhidden (mount_path es) {c. c < m \<and> mounted_in es tc p c} \<and>
        (n_covered (ns ! p) \<longleftrightarrow> (\<exists>c < m. mounted_in es tc p c \<and> mount_path es c = mount_path es p)))"

lemma unfolded_init: "unfolded es tc 0 (map unfold_node es)"
  by (simp add: unfolded_def unfold_node_def unhidden_def)

lemma unfold_step_unfolded:
  assumes inv: "unfolded es tc c ns" and c: "c < length es"
  shows "unfolded es tc (Suc c) (unfold_step tc (unfold_idIndex es) c ns)"
proof (cases "\<exists>p. mounted_in es tc p c")
  case False
  then have no: "\<not> mounted_in es tc p c" for p by blast
  have "unfold_step tc (unfold_idIndex es) c ns = ns"
    using False inv c by (auto simp: unfold_step_def unfolded_def mounted_in_def idIndex_parent Let_def split: option.split)
  moreover have "{i. i < Suc c \<and> mounted_in es tc p i} = {i. i < c \<and> mounted_in es tc p i}" for p
    using no by (auto simp: less_Suc_eq)
  moreover have "(\<exists>i < Suc c. mounted_in es tc p i \<and> Q i) \<longleftrightarrow> (\<exists>i < c. mounted_in es tc p i \<and> Q i)" for p Q
    using no by (auto simp: less_Suc_eq)
  ultimately show ?thesis using inv unfolding unfolded_def by simp
next
  case True
  then obtain p where p: "mounted_in es tc p c" by blast
  have uniq: "mounted_in es tc q c \<longleftrightarrow> q = p" for q
    using p mount_parent_unique by (auto simp: mounted_in_def)
  have idx: "unfold_idIndex es (mi_Parent (es ! c)) = Some p" "p < length es"
    using p c by (auto simp: mounted_in_def idIndex_parent mount_parent_def)
  have ns: "length ns = length es" "n_ent (ns ! c) = es ! c" "n_clean (ns ! c) = mount_path es c"
    "n_clean (ns ! p) = mount_path es p"
    using inv c idx(2) by (auto simp: unfolded_def)
  let ?kids = "insert_child (mount_path es) c (n_children (ns ! p))"
  have kids: "insert_child (\<lambda>i. n_clean (ns ! i)) c (n_children (ns ! p)) = ?kids"
    by (rule insert_child_cong) (use inv c idx(2) in \<open>auto simp: unfolded_def unhidden_def mounted_in_def mount_parent_def\<close>)
  have step: "unfold_step tc (unfold_idIndex es) c ns =
      ns[p := (ns ! p)\<lparr>n_covered := n_covered (ns ! p) \<or> mount_path es c = mount_path es p, n_children := ?kids\<rparr>]"
  proof -
    have "unfold_step tc (unfold_idIndex es) c ns =
        ns[p := (ns ! p)\<lparr>n_covered := n_covered (ns ! p) \<or> n_clean (ns ! c) = n_clean (ns ! p),
          n_children := insert_child (\<lambda>i. n_clean (ns ! i)) c (n_children (ns ! p))\<rparr>]"
      unfolding unfold_step_def Let_def ns(2) idx(1) using p
      by (cases "ns ! p") (auto simp: ns(3) mounted_in_def)
    then show ?thesis by (simp only: ns kids)
  qed
  have sets: "{i. i < Suc c \<and> mounted_in es tc q i} = (if q = p then insert c {i. i < c \<and> mounted_in es tc q i}
      else {i. i < c \<and> mounted_in es tc q i})" for q
    using uniq by (auto simp: less_Suc_eq)
  have exs: "(\<exists>i < Suc c. mounted_in es tc q i \<and> Q i) \<longleftrightarrow> (\<exists>i < c. mounted_in es tc q i \<and> Q i) \<or> q = p \<and> Q c" for q Q
    using uniq by (auto simp: less_Suc_eq)
  have "set ?kids = unhidden (mount_path es) (insert c {i. i < c \<and> mounted_in es tc p i})"
    by (rule insert_child_unhidden) (use inv idx(2) in \<open>auto simp: unfolded_def\<close>)
  moreover have "apart (mount_path es) ?kids"
    by (rule insert_child_apart) (use inv idx(2) in \<open>auto simp: unfolded_def\<close>)
  ultimately show ?thesis
    using inv unfolding step unfolded_def sets exs by (auto simp: nth_list_update)
qed

lemma unfold_fold_unfolded:
  "m \<le> length es \<Longrightarrow> unfolded es tc m (fold (unfold_step tc (unfold_idIndex es)) [0..<m] (map unfold_node es))"
  by (induction m) (auto simp: unfolded_init intro: unfold_step_unfolded)

lemma unfold_targetIndex_Some:
  assumes "unfold_targetIndex es tc = Some t"
  shows "last_mount es tc t"
  using assms unfolding last_mount_def
proof (induction es arbitrary: t rule: rev_induct)
  case (snoc e es)
  then show ?case
    by (auto simp: unfold_targetIndex_def enumerate_append_eq nth_append less_Suc_eq split: if_splits)
qed (simp add: unfold_targetIndex_def)

lemma unfold_entries_Ret:
  assumes "unfold_entries es tc = Ret (ns, t)"
  shows "unfolded es tc (length es) ns" "unfold_targetIndex es tc = Some t"
  using assms unfold_fold_unfolded [of "length es" es tc]
  by (auto simp: unfold_entries_def split: option.splits)

lemma unfolded_all:
  assumes "unfolded es tc (length es) ns" "p < length es"
  shows "c \<in> set (n_children (ns ! p)) \<longleftrightarrow> linked es tc p c" "n_covered (ns ! p) \<longleftrightarrow> topped es tc p"
    "n_ent (ns ! p) = es ! p" "n_clean (ns ! p) = mount_path es p"
proof -
  have "mounted_in es tc p i \<Longrightarrow> i < length es" for i by (simp add: mounted_in_def mount_parent_def)
  with assms show "c \<in> set (n_children (ns ! p)) \<longleftrightarrow> linked es tc p c" "n_covered (ns ! p) \<longleftrightarrow> topped es tc p"
    "n_ent (ns ! p) = es ! p" "n_clean (ns ! p) = mount_path es p"
    by (auto simp: unfolded_def unhidden_def linked_def topped_def)
qed

lemma linked_less: "linked es tc p c \<Longrightarrow> p < length es \<and> c < length es \<and> HasPrefix (mount_path es c) tc"
  by (simp add: linked_def mounted_in_def mount_parent_def)

subsection \<open>Walking the hierarchy\<close>

lemma n_visit_mono: "n_visit f ns n = Some v \<Longrightarrow> f \<le> f' \<Longrightarrow> n_visit f' ns n = Some v"
proof (induction f arbitrary: f' n v)
  case (Suc f)
  from Suc.prems obtain f'' where f': "f' = Suc f''" "f \<le> f''" by (cases f') auto
  from Suc.prems obtain rs where rs: "list_all2 (\<lambda>c r. n_visit f ns c = Some r) (n_children (ns ! n)) rs"
    and v: "v = (if n_covered (ns ! n) then [] else [n]) @ concat rs"
    by (auto simp: those_map_Some)
  from rs have "list_all2 (\<lambda>c r. n_visit f'' ns c = Some r) (n_children (ns ! n)) rs"
    by (rule list_all2_mono) (rule Suc.IH [OF _ f'(2)])
  then have "those (map (n_visit f'' ns) (n_children (ns ! n))) = Some rs"
    by (simp add: those_map_Some)
  with v f' show ?case by simp
qed simp

lemma rtranclp_step: "R\<^sup>*\<^sup>* n i \<longleftrightarrow> n = i \<or> (\<exists>c. R n c \<and> R\<^sup>*\<^sup>* c i)"
  by (metis converse_rtranclpE converse_rtranclp_into_rtranclp rtranclp.rtrancl_refl)

lemma n_visit_set:
  assumes "unfolded es tc (length es) ns"
  shows "n_visit f ns n = Some v \<Longrightarrow> n < length es \<Longrightarrow> set v = visible_below es tc n"
proof (induction f arbitrary: n v)
  case (Suc f)
  note node = unfolded_all [OF assms Suc.prems(2)]
  obtain rs where rs: "list_all2 (\<lambda>c r. n_visit f ns c = Some r) (n_children (ns ! n)) rs"
    and v: "v = (if n_covered (ns ! n) then [] else [n]) @ concat rs"
    using Suc.prems(1) by (auto simp: those_map_Some)
  have "\<forall>c \<in> set (n_children (ns ! n)). c < length es" by (auto simp: node(1) linked_less)
  with rs have "(\<Union>r \<in> set rs. set r) = (\<Union>c \<in> set (n_children (ns ! n)). visible_below es tc c)"
    by (induction rule: list_all2_induct) (auto simp: Suc.IH)
  moreover have "visible_below es tc n = (if topped es tc n then {} else {n}) \<union>
      (\<Union>c \<in> {c. linked es tc n c}. visible_below es tc c)"
    unfolding visible_below_def by (subst rtranclp_step) auto
  moreover have "set (n_children (ns ! n)) = {c. linked es tc n c}" using node(1) by blast
  ultimately show ?case using v by (simp add: node(2))
qed simp

lemma n_visit_enough:
  assumes inv: "unfolded es tc (length es) ns"
    and rank: "\<And>p c. mount_parent es p c \<Longrightarrow> rank p < (rank c :: nat)"
    and bound: "\<And>i. i < length es \<Longrightarrow> rank i < B"
  shows "n < length es \<Longrightarrow> B \<le> f + rank n \<Longrightarrow> \<exists>v. n_visit f ns n = Some v"
proof (induction f arbitrary: n)
  case 0
  with bound [of n] show ?case by simp
next
  case (Suc f)
  have "\<exists>r. n_visit f ns c = Some r" if "c \<in> set (n_children (ns ! n))" for c
  proof -
    have "linked es tc n c" using that unfolded_all(1) [OF inv Suc.prems(1)] by simp
    then have parent: "mount_parent es n c" unfolding linked_def mounted_in_def by blast
    then have c: "c < length es" "rank n < rank c"
      using rank [OF parent] by (simp_all add: mount_parent_def)
    show ?thesis by (rule Suc.IH [OF c(1)]) (use c(2) Suc.prems(2) in simp)
  qed
  then have "\<exists>rs. those (map (n_visit f ns) (n_children (ns ! n))) = Some rs"
    by (rule those_map_ex)
  then show ?case by auto
qed

lemma visible_below_less:
  assumes "i \<in> visible_below es tc t" "t < length es" "HasPrefix (mount_path es t) tc"
  shows "i < length es \<and> HasPrefix (mount_path es i) tc"
proof -
  from assms(1) have "(linked es tc)\<^sup>*\<^sup>* t i" by (simp add: visible_below_def)
  then show ?thesis by (cases rule: rtranclp.cases) (use assms in \<open>auto dest: linked_less\<close>)
qed

lemma Unfold_Ret: "Unfold d target = (d', Ret (ns, t)) \<Longrightarrow> unfold_entries (d_m d') (Clean target) = Ret (ns, t)"
  by (auto simp: Unfold_def d_Entries_def Let_def split: option.splits)

text \<open>A decoder that reached the end without an error has parsed every line.\<close>

lemma parse_uint_loop_no_panic: "parse_uint_loop b mx n s \<noteq> Panic m"
  by (induction b mx n s rule: parse_uint_loop.induct) (auto simp: Let_def split: option.splits)

lemma Atoi_no_panic: "Atoi s \<noteq> Panic m"
  by (auto simp: Atoi_def ParseUint_def Let_def bind_go_Panic_iff parse_uint_loop_no_panic split: list.splits if_splits)

lemma parseMountInfoLine_no_panic: "parseMountInfoLine s \<noteq> Panic m"
proof -
  have "mi_atoi w \<noteq> Panic m" for w
    by (simp add: mi_atoi_def Atoi_no_panic split: go.split)
  moreover have int: "sscanf_int w \<noteq> Panic m" for w
    by (simp add: sscanf_int_def Let_def split: prod.split go.split)
  then have "sscanf_pair w \<noteq> Panic m" for w
    by (auto simp: sscanf_pair_def bind_go_Panic_iff split: list.splits if_splits)
  moreover have "nonempty_field w \<noteq> Panic m" for w
    by (simp add: nonempty_field_def Let_def)
  ultimately show ?thesis
    by (auto simp: parseMountInfoLine_def Let_def bind_go_Panic_iff split: if_splits)
qed

lemma d_scan_all_parsed:
  assumes "\<not> d_complete d" "d_parseErr d = None" "d_Err (d_scan_all d) = None"
  shows "\<exists>es. map parseMountInfoLine (d_tokens d) = map Ret es \<and> d_m (d_scan_all d) = d_m d @ es"
  using assms
proof (induction "d_tokens d" arbitrary: d)
  case Nil
  then show ?case by (subst d_scan_all.simps) (simp add: d_scan_def)
next
  case (Cons s ss)
  note unfold = d_scan_all.simps [of d]
  show ?case
  proof (cases "parseMountInfoLine s")
    case (Ret e)
    let ?d = "d\<lparr>d_tokens := ss, d_m := d_m d @ [e], d_curLine := Suc (d_curLine d)\<rparr>"
    have all: "d_scan_all d = d_scan_all ?d"
      using Cons.prems(1) Cons.hyps(2) [symmetric] Ret unfold by (simp add: d_scan_def)
    with Cons.hyps(1) [of ?d] Cons.prems obtain es where
      "map parseMountInfoLine ss = map Ret es" "d_m (d_scan_all d) = d_m d @ e # es" by auto
    with Ret Cons.hyps(2) [symmetric] show ?thesis by (intro exI [of _ "e # es"]) simp
  next
    case (Fail e)
    then have "d_scan_all d = d\<lparr>d_tokens := ss, d_parseErr := Some e, d_complete := True\<rparr>"
      using Cons.prems(1) Cons.hyps(2) [symmetric] unfold by (simp add: d_scan_def)
    with Cons.prems(3) show ?thesis by (simp add: d_Err_def split: if_splits)
  qed (simp add: parseMountInfoLine_no_panic)
qed

lemma Unfold_table:
  assumes "Unfold (NewMountInfoDecoder tokens err) target = (d', Ret (ns, t))"
  shows "map parseMountInfoLine tokens = map Ret (d_m d')"
  using assms d_scan_all_parsed [of "NewMountInfoDecoder tokens err"]
  by (auto simp: Unfold_def d_Entries_def Let_def NewMountInfoDecoder_def split: option.splits)


text \<open>Mount points used in the concrete runs below.\<close>

definition mount_at :: "int \<Rightarrow> int \<Rightarrow> string \<Rightarrow> mi_entry" where
  "mount_at ident parent target =
     \<lparr> mi_ID = ident, mi_Parent = parent, mi_Devno = (0, 1), mi_Root = ''/'', mi_Target = target,
       mi_VfsOptstr = ''rw'', mi_OptFields = [], mi_FsType = ''tmpfs'', mi_Source = ''tmpfs'', mi_FsOptstr = ''rw'' \<rparr>"

lemmas unfold_eval = unfold_entries_def unfold_targetIndex_def unfold_idIndex_def unfold_step_def
  unfold_node_def mount_at_def Clean_def comps_def clean_list_def render_path_def slash_def
  HasPrefix_def upt_conv_Cons

definition decoded :: "mi_entry list \<Rightarrow> decoder" where
  "decoded es = (NewMountInfoDecoder [] None)\<lparr>d_ended := True, d_complete := True, d_m := es\<rparr>"

lemma Unfold_decoded: "Unfold (decoded es) target = (decoded es, unfold_entries es (Clean target))"
proof -
  have "d_scan_all (decoded es) = decoded es"
    by (subst d_scan_all.simps) (simp add: d_scan_def decoded_def)
  then show ?thesis
    by (simp add: Unfold_def d_Entries_def d_Err_def decoded_def NewMountInfoDecoder_def)
qed


text \<open>Two mounts below one mount point whose names share a prefix, as \<open>/x/a\<close> and \<open>/x/ab\<close>, are
  taken for one covering the other: \<open>/x/ab\<close> is mounted and visible, but the walk from \<open>/x\<close>
  leaves it out.\<close>

theorem Unfold_drops_prefixed_sibling:
  "\<exists>ns. unfold_entries [mount_at 1 0 ''/'', mount_at 2 1 ''/x'', mount_at 3 2 ''/x/a'', mount_at 4 2 ''/x/ab''] ''/x'' =
      Ret (ns, 1) \<and> n_visit 3 ns 1 = Some [1, 2] \<and> \<not> n_covered (ns ! 3)"
  by (simp add: unfold_eval numeral_3_eq_3 numeral_2_eq_2)

text \<open>A root mount that is its own parent, as \<open>mountinfo\<close> documents for the root of the mount
  tree, becomes its own child: the walk from it never ends.\<close>

theorem Unfold_self_parent_diverges:
  "\<exists>ns. unfold_entries [mount_at 1 1 ''/''] ''/'' = Ret (ns, 0) \<and>
     n_children (ns ! 0) = [0] \<and> (\<forall>fuel. n_visit fuel ns 0 = None)"
proof -
  have "unfold_entries [mount_at 1 1 ''/''] ''/'' =
      Ret ([\<lparr>n_ent = mount_at 1 1 ''/'', n_clean = ''/'', n_covered = True, n_children = [0]\<rparr>], 0)"
    (is "_ = Ret (?ns, 0)")
    by (simp add: unfold_eval)
  moreover have "n_visit fuel ?ns 0 = None" for fuel
    by (induction fuel) simp_all
  ultimately show ?thesis by auto
qed

subsection \<open>Printing and parsing a line\<close>

text \<open>The escaping the kernel applies to the fields of a line (\<open>mangle\<close> of \<open>fs/proc_namespace.c\<close>):
  space, tab, newline, backslash and \<open>#\<close> become a backslash and three octal digits.\<close>

definition mangled_chars :: string where
  "mangled_chars = [CHR '' '', CHR 0x09, CHR 0x0A, CHR 0x5C, CHR ''#'']"

definition mangle_char :: "char \<Rightarrow> string" where
  "mangle_char c =
     (if List.member mangled_chars c
      then [CHR 0x5C, digit_char (of_char c div 64), digit_char (of_char c div 8 mod 8), digit_char (of_char c mod 8)]
      else [c])"

definition mangle :: "string \<Rightarrow> string" where
  "mangle s = concat (map mangle_char s)"

definition mangle_entry :: "mi_entry \<Rightarrow> mi_entry" where
  "mangle_entry e = e\<lparr>mi_Root := mangle (mi_Root e), mi_Target := mangle (mi_Target e),
     mi_VfsOptstr := mangle (mi_VfsOptstr e), mi_FsType := mangle (mi_FsType e),
     mi_Source := mangle (mi_Source e), mi_FsOptstr := mangle (mi_FsOptstr e)\<rparr>"

lemma unmangle_loop_plain: "c \<noteq> CHR 0x5C \<Longrightarrow> unmangle_loop (c # s) = c # unmangle_loop s"
  by (cases "c # s" rule: unmangle_loop.cases) auto

lemma mangle_char_eval:
  "mangle_char CHR '' '' = [CHR 0x5C, CHR ''0'', CHR ''4'', CHR ''0'']"
  "mangle_char CHR 0x09 = [CHR 0x5C, CHR ''0'', CHR ''1'', CHR ''1'']"
  "mangle_char CHR 0x0A = [CHR 0x5C, CHR ''0'', CHR ''1'', CHR ''2'']"
  "mangle_char CHR 0x5C = [CHR 0x5C, CHR ''1'', CHR ''3'', CHR ''4'']"
  "mangle_char CHR ''#'' = [CHR 0x5C, CHR ''0'', CHR ''4'', CHR ''3'']"
  by code_simp+

lemma unmangle_byte_eval:
  "unmangle_byte CHR ''0'' CHR ''4'' CHR ''0'' = CHR '' ''"
  "unmangle_byte CHR ''0'' CHR ''1'' CHR ''1'' = CHR 0x09"
  "unmangle_byte CHR ''0'' CHR ''1'' CHR ''2'' = CHR 0x0A"
  "unmangle_byte CHR ''1'' CHR ''3'' CHR ''4'' = CHR 0x5C"
  "unmangle_byte CHR ''0'' CHR ''4'' CHR ''3'' = CHR ''#''"
  by code_simp+

lemma unmangle_loop_escaped:
  "List.member mangled_chars c \<Longrightarrow> unmangle_loop (mangle_char c @ s) = c # unmangle_loop s"
  by (auto simp: mangled_chars_def mangle_char_eval unmangle_escape_def octal_digit_def unmangle_byte_eval)

lemma unmangle_loop_mangle: "unmangle_loop (mangle s) = s"
proof (induction s)
  case (Cons c s)
  show ?case
  proof (cases "List.member mangled_chars c")
    case True
    then show ?thesis
      using Cons unmangle_loop_escaped [of c "mangle s"] by (simp add: mangle_def)
  next
    case False
    then have "c \<noteq> CHR 0x5C" by (auto simp: mangled_chars_def)
    with False Cons show ?thesis
      by (simp add: mangle_def mangle_char_def unmangle_loop_plain)
  qed
qed (simp add: mangle_def)

lemma mangle_unchanged: "CHR 0x5C \<notin> set (mangle s) \<Longrightarrow> mangle s = s"
  by (induction s) (auto simp: mangle_def mangle_char_def split: if_splits)

lemma Unmangle_mangle: "Unmangle (mangle s) = s"
  using mangle_unchanged [of s] by (auto simp: Unmangle_def unmangle_loop_mangle)

lemma mangle_char_no_space: "CHR '' '' \<notin> set (mangle_char c)"
proof (cases "List.member mangled_chars c")
  case True
  then show ?thesis by (auto simp: mangled_chars_def mangle_char_eval)
next
  case False
  then show ?thesis by (auto simp: mangle_char_def mangled_chars_def)
qed

lemma mangle_no_space: "CHR '' '' \<notin> set (mangle s)"
  using mangle_char_no_space by (auto simp: mangle_def)

lemma Itoa_no_space: "CHR '' '' \<notin> set (Itoa i)"
  using format_nat_digits [of "CHR '' ''"] by (auto simp: Itoa_def)

lemma sscanf_digits_format:
  assumes "case rest of [] \<Rightarrow> True | c # _ \<Rightarrow> \<not> (48 \<le> (of_char c :: nat) \<and> (of_char c :: nat) \<le> 57)"
  shows "sscanf_digits (format_nat 10 n @ rest) = (format_nat 10 n, rest)"
proof -
  have "list_all (\<lambda>c. 48 \<le> (of_char c :: nat) \<and> (of_char c :: nat) \<le> 57) (format_nat 10 n)"
    using format_nat_digits by (auto simp: list_all_iff)
  then show ?thesis
    using assms by (cases rest) (auto simp: sscanf_digits_def Let_def list_all_iff)
qed

lemma format_nat_Cons:
  obtains c cs where "format_nat 10 n = c # cs" "48 \<le> (of_char c :: nat)" "(of_char c :: nat) \<le> 57"
  using format_nat_digits [of "hd (format_nat 10 n)" n] by (cases "format_nat 10 n") auto

lemma sscanf_int_Itoa:
  assumes "- (2 ^ 63) \<le> i" "i < 2 ^ 63"
    and "case rest of [] \<Rightarrow> True | c # _ \<Rightarrow> \<not> (48 \<le> (of_char c :: nat) \<and> (of_char c :: nat) \<le> 57)"
  shows "sscanf_int (Itoa i @ rest) = Ret (i, rest)"
proof (cases "i < 0")
  case True
  with assms Atoi_Itoa [OF assms(1,2)] show ?thesis
    by (simp add: sscanf_int_def Itoa_def scan_space_def sscanf_digits_format)
next
  case False
  obtain c cs where f: "format_nat 10 (nat i) = c # cs" "48 \<le> (of_char c :: nat)" "(of_char c :: nat) \<le> 57"
    by (rule format_nat_Cons)
  then have c: "c \<noteq> CHR ''-''" "c \<noteq> CHR ''+''" "\<not> scan_space c"
    by (auto simp: scan_space_def)
  have "sscanf_digits (c # cs @ rest) = (c # cs, rest)"
    using sscanf_digits_format [OF assms(3), of "nat i"] f by simp
  with c f False Atoi_Itoa [OF assms(1,2)] show ?thesis
    by (simp add: sscanf_int_def Itoa_def)
qed

lemma sscanf_pair_Itoa:
  assumes "- (2 ^ 63) \<le> a" "a < 2 ^ 63" "- (2 ^ 63) \<le> b" "b < 2 ^ 63"
  shows "sscanf_pair (Itoa a @ '':'' @ Itoa b) = Ret (a, b)"
  using sscanf_int_Itoa [of a "'':'' @ Itoa b"] sscanf_int_Itoa [of b "[]"] assms
  by (simp add: sscanf_pair_def)

definition int64 :: "int \<Rightarrow> bool" where
  "int64 i \<longleftrightarrow> - (2 ^ 63) \<le> i \<and> i < 2 ^ 63"

text \<open>The entries that occur in a kernel's table: 64-bit numbers, no empty field but the source and
  the options of the filesystem, and optional fields without a space.\<close>

definition mi_wf :: "mi_entry \<Rightarrow> bool" where
  "mi_wf e \<longleftrightarrow>
     int64 (mi_ID e) \<and> int64 (mi_Parent e) \<and> int64 (fst (mi_Devno e)) \<and> int64 (snd (mi_Devno e)) \<and>
     mi_Root e \<noteq> [] \<and> mi_Target e \<noteq> [] \<and> mi_VfsOptstr e \<noteq> [] \<and> mi_FsType e \<noteq> [] \<and>
     list_all (\<lambda>f. \<not> ContainsByte f CHR '' '') (mi_OptFields e)"

definition mi_fields :: "mi_entry \<Rightarrow> string list" where
  "mi_fields e =
     [Itoa (mi_ID e), Itoa (mi_Parent e), Itoa (fst (mi_Devno e)) @ '':'' @ Itoa (snd (mi_Devno e)),
      mi_Root e, mi_Target e, mi_VfsOptstr e] @ mi_OptFields e @ [''-'', mi_FsType e, mi_Source e, mi_FsOptstr e]"

lemma mi_String_fields: "mi_String e = Join (mi_fields e) '' ''"
proof -
  have "Join (mi_OptFields e @ [''-'', mi_FsType e, mi_Source e, mi_FsOptstr e]) '' '' =
      Join (mi_OptFields e @ [''-'']) '' '' @ '' '' @ mi_FsType e @ '' '' @ mi_Source e @ '' '' @ mi_FsOptstr e"
    using Join_append [of "mi_OptFields e @ [''-'']" "[mi_FsType e, mi_Source e, mi_FsOptstr e]"] by simp
  then show ?thesis by (simp add: mi_String_def mi_fields_def Join_Cons)
qed

lemma Split_mi_String:
  assumes "mi_wf e"
  shows "Split CHR '' '' (mi_String (mangle_entry e)) = mi_fields (mangle_entry e)"
proof -
  have "CHR '' '' \<notin> set w" if "w \<in> set (mi_fields (mangle_entry e))" for w
    using that assms Itoa_no_space mangle_no_space
    by (auto simp: mi_fields_def mangle_entry_def mi_wf_def list_all_iff)
  then show ?thesis
    unfolding mi_String_fields by (intro Split_Join) (auto simp: mi_fields_def)
qed

lemma nonempty_field_mangle: "s \<noteq> [] \<Longrightarrow> nonempty_field (mangle s) = Ret s"
  by (simp add: nonempty_field_def Unmangle_mangle)

lemma mi_atoi_Itoa: "int64 i \<Longrightarrow> mi_atoi (Itoa i) = Ret i"
  using Atoi_Itoa [of i] by (simp add: mi_atoi_def int64_def)

lemma parse_mi_String:
  assumes "mi_wf e"
  shows "parseMountInfoLine (mi_String (mangle_entry e)) = Ret e"
proof -
  note wf = assms [unfolded mi_wf_def]
  have pair: "sscanf_pair (Itoa (fst (mi_Devno e)) @ '':'' @ Itoa (snd (mi_Devno e))) = Ret (mi_Devno e)"
    using wf sscanf_pair_Itoa [of "fst (mi_Devno e)" "snd (mi_Devno e)"] by (simp add: int64_def)
  then show ?thesis
    unfolding parseMountInfoLine_def Split_mi_String [OF assms] Let_def
    using wf by (simp add: mi_fields_def mangle_entry_def mi_atoi_Itoa nonempty_field_mangle
        Unmangle_mangle nth_append numeral_eq_Suc)
qed

text \<open>C35: parsing the line printed for an entry, its fields escaped as the kernel escapes them, gives
  back the entry, whatever bytes the pathnames hold and however many optional fields there are.\<close>

theorem parseMountInfoLine_roundtrip:
  assumes "mi_wf e"
  shows "parseMountInfoLine (mi_String (mangle_entry e)) = Ret e"
  using assms by (rule parse_mi_String)

theorem parseMountInfoLine_roundtrip_witness:
  "parseMountInfoLine (mi_String (mangle_entry (mount_at 2 1 ''/a b''))) = Ret (mount_at 2 1 ''/a b'')"
  by (rule parseMountInfoLine_roundtrip) (simp add: mi_wf_def mount_at_def int64_def)

end
