(* ===== verification/Hst_Ident.thy ===== *)
theory Hst_Ident
  imports Go_Num
begin

text \<open>
  The small value types of the package \<open>hst\<close>: \<open>enablement.go\<close> (flags of exported host services
  and their JSON form), \<open>grp_pwd.go\<close> (user names of the kernel uids) and \<open>instance.go\<close>
  (identifiers of running containers).
\<close>

subsection \<open>enablement.go\<close>

type_synonym Enablement = u8

definition EWayland :: Enablement where "EWayland = 1"
definition EX11 :: Enablement where "EX11 = 2"
definition EDBus :: Enablement where "EDBus = 4"
definition EPulse :: Enablement where "EPulse = 8"
definition EM :: Enablement where "EM = 16"

lemmas enablement_bits = EWayland_def EX11_def EDBus_def EPulse_def EM_def

definition enablement_name :: "Enablement \<Rightarrow> string option" where
  "enablement_name e =
     (if e = 0 then Some ''(no enablements)''
      else if e = EWayland then Some ''wayland''
      else if e = EX11 then Some ''x11''
      else if e = EDBus then Some ''dbus''
      else if e = EPulse then Some ''pulseaudio''
      else None)"

text \<open>The loop variable takes the values 1, 2, 4, 8, on which the recursive call ends at once.\<close>

definition Enablement_String :: "Enablement \<Rightarrow> string" where
  "Enablement_String e =
     (case enablement_name e of
        Some s \<Rightarrow> s
      | None \<Rightarrow>
          (let buf = concat (map (\<lambda>i. if e AND i \<noteq> 0 then '', '' @ the (enablement_name i) else [])
                 [EWayland, EX11, EDBus, EPulse])
           in if buf = [] then ''e'' @ format_nat 16 (unat e) else TrimPrefix buf '', ''))"

text \<open>A JSON document as the package \<open>encoding/json\<close> reads it: keys of an object match a field
  when they agree up to the case of letters, and the last one counts.\<close>

datatype json = JNull | JBool bool | JNum int | JStr string | JArr "json list" | JObj "(string \<times> json) list"

definition fold_byte :: "char \<Rightarrow> char" where
  "fold_byte c = (if 65 \<le> (of_char c :: nat) \<and> (of_char c :: nat) \<le> 90 then char_of ((of_char c :: nat) + 32) else c)"

definition same_key :: "string \<Rightarrow> string \<Rightarrow> bool" where
  "same_key k key \<longleftrightarrow> map fold_byte k = map fold_byte key"

definition json_fields :: "string \<Rightarrow> (string \<times> json) list \<Rightarrow> json list" where
  "json_fields key obj = map snd (filter (\<lambda>(k, _). same_key k key) obj)"

datatype json_error = UnmarshalTypeError string | JSON_EINVAL

record enablementsJSON =
  ej_Wayland :: bool
  ej_X11 :: bool
  ej_DBus :: bool
  ej_Pulse :: bool

text \<open>A Boolean field: \<open>null\<close> leaves it as it is, any other value is a type error.\<close>

fun json_bool :: "json list \<Rightarrow> bool \<Rightarrow> (json_error, bool) go" where
  "json_bool [] b = Ret b"
| "json_bool (v # vs) b =
     (case v of
        JBool b' \<Rightarrow> json_bool vs b'
      | JNull \<Rightarrow> json_bool vs b
      | _ \<Rightarrow> Fail (UnmarshalTypeError ''bool''))"

definition json_enablements :: "json \<Rightarrow> (json_error, enablementsJSON option) go" where
  "json_enablements j =
     (case j of
        JNull \<Rightarrow> Ret None
      | JObj obj \<Rightarrow>
          bind_go (json_bool (json_fields ''wayland'' obj) False) (\<lambda>w.
          bind_go (json_bool (json_fields ''x11'' obj) False) (\<lambda>x.
          bind_go (json_bool (json_fields ''dbus'' obj) False) (\<lambda>d.
          bind_go (json_bool (json_fields ''pulse'' obj) False) (\<lambda>p.
            Ret (Some \<lparr>ej_Wayland = w, ej_X11 = x, ej_DBus = d, ej_Pulse = p\<rparr>)))))
      | _ \<Rightarrow> Fail (UnmarshalTypeError ''struct''))"

definition omitempty :: "string \<Rightarrow> bool \<Rightarrow> (string \<times> json) list" where
  "omitempty key b = (if b then [(key, JBool True)] else [])"

text \<open>\<open>None\<close> is a nil receiver.\<close>

definition Enablements_Unwrap :: "Enablement option \<Rightarrow> Enablement" where
  "Enablements_Unwrap e = (case e of None \<Rightarrow> 0 | Some e \<Rightarrow> e)"

definition Enablements_MarshalJSON :: "Enablement option \<Rightarrow> (json_error, json) go" where
  "Enablements_MarshalJSON r =
     (case r of
        None \<Rightarrow> Fail JSON_EINVAL
      | Some e \<Rightarrow>
          Ret (JObj (omitempty ''wayland'' (e AND EWayland \<noteq> 0) @ omitempty ''x11'' (e AND EX11 \<noteq> 0) @
            omitempty ''dbus'' (e AND EDBus \<noteq> 0) @ omitempty ''pulse'' (e AND EPulse \<noteq> 0))))"

definition Enablements_UnmarshalJSON :: "Enablement option \<Rightarrow> json \<Rightarrow> (json_error, Enablement) go" where
  "Enablements_UnmarshalJSON r data =
     (case r of
        None \<Rightarrow> Fail JSON_EINVAL
      | Some _ \<Rightarrow>
          bind_go (json_enablements data) (\<lambda>v.
            case v of
              None \<Rightarrow> Panic ''nil pointer dereference''
            | Some v \<Rightarrow>
                Ret ((if ej_Wayland v then EWayland else 0) OR (if ej_X11 v then EX11 else 0) OR
                  (if ej_DBus v then EDBus else 0) OR (if ej_Pulse v then EPulse else 0))))"

lemma json_fields_append: "json_fields key (xs @ ys) = json_fields key xs @ json_fields key ys"
  by (simp add: json_fields_def)

lemma json_fields_omitempty:
  "json_fields key (omitempty key' b) = (if same_key key' key \<and> b then [JBool True] else [])"
  by (simp add: json_fields_def omitempty_def)

lemma json_fields_Cons:
  "json_fields key ((k, v) # obj) = (if same_key k key then [v] else []) @ json_fields key obj"
  by (simp add: json_fields_def)

lemma json_fields_Nil [simp]: "json_fields key [] = []"
  by (simp add: json_fields_def)

lemma json_bool_omitted: "json_bool (if b then [JBool True] else []) False = Ret b"
  by simp

text \<open>The keys of the source are in lower case.\<close>

definition lower_key :: "string \<Rightarrow> bool" where
  "lower_key k \<longleftrightarrow> map fold_byte k = k"

lemma same_key_lower: "lower_key k \<Longrightarrow> lower_key key \<Longrightarrow> same_key k key \<longleftrightarrow> k = key"
  by (simp add: lower_key_def same_key_def)

lemma enablement_keys: "lower_key ''wayland''" "lower_key ''x11''" "lower_key ''dbus''" "lower_key ''pulse''"
  by (simp_all add: lower_key_def fold_byte_def)

lemma enablements_bit: "(if e AND b \<noteq> 0 then b else 0) = e AND (b :: Enablement)" if "b \<in> {1, 2, 4, 8}"
proof -
  have "e AND push_bit n 1 = (if bit e n then push_bit n 1 else (0 :: Enablement))" for n
    by (rule bit_word_eqI) (auto simp: bit_simps)
  from this [of 0] this [of 1] this [of 2] this [of 3] that show ?thesis
    by (auto simp: push_bit_eq_mult split: if_splits)
qed

text \<open>The JSON form keeps the four service flags and drops every other bit.\<close>

lemma Enablements_json_roundtrip:
  "bind_go (Enablements_MarshalJSON (Some e)) (Enablements_UnmarshalJSON (Some e')) = Ret (e AND 15)"
proof -
  have "(e AND 1) OR (e AND 2) OR (e AND 4) OR (e AND 8) = e AND (1 OR 2 OR 4 OR 8)"
    by (simp only: and.commute [of e] bit.conj_disj_distrib2 [symmetric])
  also have "(1 OR 2 OR 4 OR 8 :: Enablement) = 15" by simp
  finally show ?thesis
    using enablements_bit [of 1 e] enablements_bit [of 2 e] enablements_bit [of 4 e] enablements_bit [of 8 e]
    by (auto simp: Enablements_MarshalJSON_def Enablements_UnmarshalJSON_def json_enablements_def
        json_fields_append json_fields_omitempty same_key_lower enablement_keys enablement_bits json_bool_omitted
        split: if_splits)
qed

subsection \<open>grp_pwd.go\<close>

type_synonym UID = u32

definition UserOffset :: u32 where "UserOffset = 100000"
definition RangeSize :: u32 where "RangeSize = UserOffset div 10"
definition AppStart :: u32 where "AppStart = RangeSize * 1"
definition AppEnd :: u32 where "AppEnd = AppStart + RangeSize - 1"
definition IdentityStart :: u32 where "IdentityStart = 0"
definition IdentityEnd :: u32 where "IdentityEnd = AppEnd - AppStart"
definition IsolatedStart :: u32 where "IsolatedStart = RangeSize * 9"
definition IsolatedEnd :: u32 where "IsolatedEnd = IsolatedStart + RangeSize - 1"

lemmas uid_ranges = UserOffset_def RangeSize_def AppStart_def AppEnd_def IdentityStart_def
  IdentityEnd_def IsolatedStart_def IsolatedEnd_def

definition UID_String :: "UID \<Rightarrow> string" where
  "UID_String uid =
     (let appid = uid mod UserOffset; userid = uid div UserOffset in
      if IsolatedStart \<le> appid \<and> appid \<le> IsolatedEnd then
        ''u'' @ format_nat 10 (unat userid) @ ''_i'' @ format_nat 10 (unat (appid - IsolatedStart))
      else if AppStart \<le> appid \<and> appid \<le> AppEnd then
        ''u'' @ format_nat 10 (unat userid) @ ''_a'' @ format_nat 10 (unat (appid - AppStart))
      else Itoa (int (unat uid)))"

definition ToUser :: "u32 \<Rightarrow> u32 \<Rightarrow> UID" where
  "ToUser userid appid = userid * UserOffset + AppStart + appid"

lemma format_u32_inject: "format_nat 10 (unat (a :: u32)) = format_nat 10 (unat (b :: u32)) \<longleftrightarrow> a = b"
proof -
  have "unat x < 2 ^ 64" for x :: u32
    using unat_u32_less [of x] by (rule less_trans) simp
  then show ?thesis by (auto simp: format_nat_inject intro: unsigned_word_eqI)
qed

lemma uid_name_inject:
  "format_nat 10 (unat (a :: u32)) @ CHR ''_'' # c # format_nat 10 (unat (b :: u32)) =
   format_nat 10 (unat (a' :: u32)) @ CHR ''_'' # c' # format_nat 10 (unat (b' :: u32)) \<longleftrightarrow>
   a = a' \<and> b = b' \<and> c = c'"
  (is "?s = ?t \<longleftrightarrow> _")
proof
  assume "?s = ?t"
  then have "Cut CHR ''_'' ?s = Cut CHR ''_'' ?t" by (rule arg_cong)
  moreover have "CHR ''_'' \<notin> set (format_nat 10 (unat x))" for x :: u32
    using format_nat_digits [of "CHR ''_''" "unat x"] by auto
  ultimately show "a = a' \<and> b = b' \<and> c = c'" by (simp add: format_u32_inject)
qed simp

lemma uid_name_not_number: "CHR ''u'' # s \<noteq> format_nat 10 n"
proof
  assume "CHR ''u'' # s = format_nat 10 n"
  then have "CHR ''u'' \<in> set (format_nat 10 n)" by (metis list.set_intros(1))
  then show False using format_nat_digits [of "CHR ''u''" n] by simp
qed

text \<open>No two kernel uids have the same user name.\<close>

theorem UID_String_inject: "UID_String a = UID_String b \<longleftrightarrow> a = b"
proof
  assume "UID_String a = UID_String b"
  then have "a = b \<or> a div UserOffset = b div UserOffset \<and> a mod UserOffset = b mod UserOffset"
    by (auto simp: UID_String_def Let_def Itoa_def uid_name_inject format_u32_inject
        uid_name_not_number uid_name_not_number [symmetric] split: if_splits)
  then show "a = b" by (metis div_mult_mod_eq)
qed simp

subsection \<open>instance.go\<close>

text \<open>An identifier is an array of 16 bytes.\<close>

type_synonym ID = string

definition ID_len :: nat where "ID_len = 16"

datatype id_error = ErrIdentifierLength | IdHex hex_error

fun id_error_string :: "(hex_error \<Rightarrow> string) \<Rightarrow> id_error \<Rightarrow> string" where
  "id_error_string f ErrIdentifierLength = ''identifier string has unexpected length''"
| "id_error_string f (IdHex ErrLength) = ''odd length identifier hex string''"
| "id_error_string f (IdHex (InvalidByteError b)) = ''got invalid byte '' @ f (InvalidByteError b) @ '' in identifier''"

definition ID_String :: "ID \<Rightarrow> string" where
  "ID_String a = hex_encode a"

definition ID_MarshalText :: "ID \<Rightarrow> string" where
  "ID_MarshalText a = hex_encode a"

text \<open>The bytes \<open>hex.Decode\<close> stores before it returns, also when it returns an error.\<close>

fun hex_stored :: "string \<Rightarrow> string" where
  "hex_stored (p # q # s) =
     (case (hex_val p, hex_val q) of
        (Some a, Some b) \<Rightarrow> char_of (16 * a + b) # hex_stored s
      | _ \<Rightarrow> [])"
| "hex_stored _ = []"

definition ID_UnmarshalText :: "ID \<Rightarrow> string \<Rightarrow> ID \<times> id_error option" where
  "ID_UnmarshalText a text =
     (let dl = length text div 2 in
      if dl \<noteq> ID_len then (a, Some ErrIdentifierLength)
      else
        (let stored = hex_stored text; a = stored @ drop (length stored) a in
         case hex_decode text of
           Ret _ \<Rightarrow> (a, None)
         | Fail e \<Rightarrow> (a, Some (IdHex e))
         | Panic _ \<Rightarrow> (a, None)))"

text \<open>\<open>random\<close> is what \<open>rand.Read\<close> stored in the last eight bytes, with its error.\<close>

definition newInstanceID :: "u64 \<Rightarrow> string \<Rightarrow> 'e option \<Rightarrow> ID \<times> 'e option" where
  "newInstanceID p random err = (PutUint64 p @ random, err)"

definition ID_CreationTime :: "ID \<Rightarrow> int" where
  "ID_CreationTime a = sint (Uint64 (take 8 a))"

lemma hex_decode_stored: "hex_decode s = Ret r \<Longrightarrow> hex_stored s = r"
  by (induction s arbitrary: r rule: hex_decode.induct) (auto split: option.splits)

lemma hex_stored_length: "length (hex_stored s) \<le> length s div 2"
  by (induction s rule: hex_stored.induct) (auto split: option.splits)

lemma hex_decode_ok_iff:
  "(\<exists>r. hex_decode s = Ret r) \<longleftrightarrow> even (length s) \<and> list_all (\<lambda>c. hex_val c \<noteq> None) s"
  by (induction s rule: hex_decode.induct) (auto split: option.splits)

lemma hex_decode_no_panic: "no_panic (hex_decode s)"
  by (induction s rule: hex_decode.induct) (auto split: option.splits intro: no_panic_bind_go)

lemma ID_UnmarshalText_Marshal:
  "length a = ID_len \<Longrightarrow> length a' = ID_len \<Longrightarrow> ID_UnmarshalText a' (ID_MarshalText a) = (a, None)"
  by (simp add: ID_UnmarshalText_def ID_MarshalText_def hex_decode_encode hex_decode_stored [OF hex_decode_encode])

lemma ID_UnmarshalText_ok:
  "snd (ID_UnmarshalText a' s) = None \<longleftrightarrow> length s = 32 \<and> list_all (\<lambda>c. hex_val c \<noteq> None) s"
  using hex_decode_no_panic [of s] hex_decode_ok_iff [of s]
  by (cases "hex_decode s") (auto simp: ID_UnmarshalText_def ID_len_def Let_def elim: evenE)

text \<open>An identifier read back from its text form is the identifier; a text is accepted exactly
  when it is 32 hexadecimal digits; a rejected text of the right length may still have
  overwritten a part of the receiver; the creation time is the timestamp the identifier was made
  with.\<close>

theorem ID_text_roundtrip:
  assumes "length a = ID_len" "length a' = ID_len" "length random = 8"
  shows "ID_UnmarshalText a' (ID_MarshalText a) = (a, None) \<and>
    (snd (ID_UnmarshalText a' s) = None \<longleftrightarrow> length s = 32 \<and> list_all (\<lambda>c. hex_val c \<noteq> None) s) \<and>
    length (fst (ID_UnmarshalText a' s)) = ID_len \<and>
    ID_CreationTime (fst (newInstanceID p random err)) = sint p"
proof (intro conjI)
  show "length (fst (ID_UnmarshalText a' s)) = ID_len"
    using assms hex_stored_length [of s]
    by (auto simp: ID_UnmarshalText_def Let_def split: go.splits)
  show "ID_CreationTime (fst (newInstanceID p random err)) = sint p"
    using Uint64_PutUint64 [of p "[]"] by (simp add: ID_CreationTime_def newInstanceID_def)
qed (use assms ID_UnmarshalText_Marshal ID_UnmarshalText_ok in auto)

theorem ID_text_roundtrip_witness:
  "ID_UnmarshalText (replicate 16 CHR 0x00) (ID_MarshalText (replicate 16 CHR ''a'')) = (replicate 16 CHR ''a'', None)"
  by (rule ID_text_roundtrip [where random = "replicate 8 CHR ''r''", THEN conjunct1]) (simp_all add: ID_len_def)

end
