(* ===== verification/Check_Abs.thy ===== *)
theory Check_Abs
  imports Go_Path "HOL-Library.List_Lexorder" "HOL-Library.Char_ord"
begin

text \<open>
  The package \<open>container/check\<close> (checked absolute pathnames and the escaping of overlay mount
  options), the pathname constants of \<open>container/fhs\<close> and the pathname translation of
  \<open>container/path.go\<close> from the container to the intermediate root. A nil \<open>*Absolute\<close> is
  \<^term>\<open>None\<close> where the code allows it; the zero \<open>Absolute\<close> holds the empty string.
\<close>

subsection \<open>absolute.go\<close>

datatype abs_error = AbsoluteError string

datatype absolute = Absolute (pathname: string)

definition unsafeAbs :: "string \<Rightarrow> absolute" where
  "unsafeAbs p = Absolute p"

definition abs_String :: "absolute \<Rightarrow> (abs_error, string) go" where
  "abs_String a = (if pathname a = [] then Panic ''attempted use of zero Absolute'' else Ret (pathname a))"

definition abs_Is :: "absolute option \<Rightarrow> absolute option \<Rightarrow> bool" where
  "abs_Is a v =
     (case (a, v) of
        (None, None) \<Rightarrow> True
      | (Some x, Some y) \<Rightarrow> pathname x \<noteq> [] \<and> pathname y \<noteq> [] \<and> pathname x = pathname y
      | _ \<Rightarrow> False)"

definition NewAbs :: "string \<Rightarrow> (abs_error, absolute) go" where
  "NewAbs p = (if \<not> IsAbs p then Fail (AbsoluteError p) else Ret (unsafeAbs p))"

definition MustAbs :: "string \<Rightarrow> (abs_error, absolute) go" where
  "MustAbs p = (case NewAbs p of Ret a \<Rightarrow> Ret a | Fail (AbsoluteError q) \<Rightarrow> Panic q | Panic m \<Rightarrow> Panic m)"

definition abs_Append :: "absolute \<Rightarrow> string list \<Rightarrow> (abs_error, absolute) go" where
  "abs_Append a elem = bind_go (abs_String a) (\<lambda>s. Ret (unsafeAbs (path_Join (s # elem))))"

definition abs_Dir :: "absolute \<Rightarrow> (abs_error, absolute) go" where
  "abs_Dir a = bind_go (abs_String a) (\<lambda>s. Ret (unsafeAbs (path_Dir s)))"

definition abs_GobEncode :: "absolute \<Rightarrow> (abs_error, string) go" where
  "abs_GobEncode a = abs_String a"

definition abs_GobDecode :: "string \<Rightarrow> (abs_error, absolute) go" where
  "abs_GobDecode data = (if \<not> IsAbs data then Fail (AbsoluteError data) else Ret (Absolute data))"

text \<open>The JSON adapter, over the decoder of JSON strings (\<open>encoding/json\<close>).\<close>

datatype abs_json_error = JSONError string | JSONAbsolute abs_error

definition abs_UnmarshalJSON ::
  "(string \<Rightarrow> (string, string) go) \<Rightarrow> string \<Rightarrow> (abs_json_error, absolute) go" where
  "abs_UnmarshalJSON json_unmarshal data =
     (case json_unmarshal data of
        Fail m \<Rightarrow> Fail (JSONError m)
      | Panic m \<Rightarrow> Panic m
      | Ret p \<Rightarrow> if \<not> IsAbs p then Fail (JSONAbsolute (AbsoluteError p)) else Ret (Absolute p))"

definition SortAbs :: "absolute list \<Rightarrow> absolute list" where
  "SortAbs x = sort_key pathname x"

fun CompactAbs :: "absolute list \<Rightarrow> absolute list" where
  "CompactAbs [] = []"
| "CompactAbs [a] = [a]"
| "CompactAbs (a # b # s) =
     (if pathname a = pathname b then CompactAbs (a # s) else a # CompactAbs (b # s))"

subsection \<open>The invariant of checked pathnames\<close>

definition wf_abs :: "absolute \<Rightarrow> bool" where
  "wf_abs a \<longleftrightarrow> IsAbs (pathname a)"

lemma wf_abs_String: "wf_abs a \<Longrightarrow> abs_String a = Ret (pathname a)"
  by (auto simp: wf_abs_def abs_String_def)

lemma abs_Append_wf:
  "wf_abs a \<Longrightarrow> abs_Append a es = Ret (Absolute (path_Join (pathname a # es)))"
  by (simp add: abs_Append_def wf_abs_String unsafeAbs_def)

text \<open>C39: every way to make a checked pathname keeps the invariant. The constructors and
  decoders return absolute pathnames only, and the operations on an absolute pathname neither
  panic nor return a relative one.\<close>

theorem abs_operations_absolute:
  "(NewAbs p = Ret a \<or> MustAbs p = Ret a \<or> abs_GobDecode p = Ret a \<or> abs_UnmarshalJSON f p = Ret a
     \<longrightarrow> wf_abs a) \<and>
   (wf_abs a \<longrightarrow> (\<exists>s. abs_String a = Ret s \<and> abs_GobEncode a = Ret s) \<and>
     (\<exists>b. abs_Append a es = Ret b \<and> wf_abs b) \<and> (\<exists>b. abs_Dir a = Ret b \<and> wf_abs b))"
proof (intro conjI impI)
  assume "NewAbs p = Ret a \<or> MustAbs p = Ret a \<or> abs_GobDecode p = Ret a \<or> abs_UnmarshalJSON f p = Ret a"
  then show "wf_abs a"
    by (auto simp: NewAbs_def MustAbs_def abs_GobDecode_def abs_UnmarshalJSON_def wf_abs_def unsafeAbs_def
        simp del: IsAbs_iff split: if_splits go.splits)
next
  assume a: "wf_abs a"
  then show "\<exists>s. abs_String a = Ret s \<and> abs_GobEncode a = Ret s"
    by (simp add: wf_abs_String abs_GobEncode_def)
  have "IsAbs (path_Join (pathname a # es))"
    using a unfolding wf_abs_def by (rule IsAbs_path_Join)
  with a show "\<exists>b. abs_Append a es = Ret b \<and> wf_abs b"
    by (auto simp: abs_Append_wf wf_abs_def simp del: IsAbs_iff)
  have "IsAbs (path_Dir (pathname a))"
    using a unfolding wf_abs_def by (rule IsAbs_path_Dir)
  with a show "\<exists>b. abs_Dir a = Ret b \<and> wf_abs b"
    by (auto simp: abs_Dir_def wf_abs_String wf_abs_def unsafeAbs_def simp del: IsAbs_iff)
qed

theorem abs_operations_absolute_witness:
  "NewAbs ''/etc'' = Ret (Absolute ''/etc'') \<and> wf_abs (Absolute ''/etc'') \<and>
   (\<exists>b. abs_Append (Absolute ''/etc'') [''passwd''] = Ret b \<and> wf_abs b)"
proof -
  have n: "NewAbs ''/etc'' = Ret (Absolute ''/etc'')"
    by (simp add: NewAbs_def unsafeAbs_def slash_def)
  then have "wf_abs (Absolute ''/etc'')"
    using abs_operations_absolute [of "''/etc''" "Absolute ''/etc''"] by blast
  then show ?thesis
    using n abs_operations_absolute [of "''/etc''" "Absolute ''/etc''" _ "[''passwd'']"] by blast
qed

text \<open>Decoding what was encoded gives the pathname back.\<close>

lemma abs_Gob_roundtrip:
  assumes "wf_abs a"
  shows "bind_go (abs_GobEncode a) abs_GobDecode = Ret a"
  using assms by (cases a) (simp add: abs_GobEncode_def wf_abs_String abs_GobDecode_def wf_abs_def)

theorem abs_Gob_roundtrip_witness:
  "wf_abs (Absolute ''/tmp'') \<and> bind_go (abs_GobEncode (Absolute ''/tmp'')) abs_GobDecode = Ret (Absolute ''/tmp'')"
proof -
  have "wf_abs (Absolute ''/tmp'')" by (simp add: wf_abs_def slash_def)
  then show ?thesis using abs_Gob_roundtrip by blast
qed

lemma set_CompactAbs: "set (CompactAbs xs) = set xs"
proof (induction xs rule: CompactAbs.induct)
  case (3 a b s)
  then show ?case by (cases a; cases b) auto
qed simp_all

lemma CompactAbs_strict:
  "sorted (map pathname xs) \<Longrightarrow> sorted_wrt (\<lambda>a b. pathname a < pathname b) (CompactAbs xs)"
proof (induction xs rule: CompactAbs.induct)
  case (3 a b s)
  show ?case
  proof (cases "pathname a = pathname b")
    case True
    with 3 show ?thesis by simp
  next
    case False
    with "3.prems" have "\<forall>x \<in> set (b # s). pathname a < pathname x" by fastforce
    with 3 False show ?thesis by (simp add: set_CompactAbs)
  qed
qed simp_all

text \<open>\<open>CompactAbs\<close> after \<open>SortAbs\<close>, as \<open>ldd.Path\<close> uses them, keeps exactly the
  given pathnames, each once, in increasing order.\<close>

lemma CompactAbs_SortAbs:
  "set (CompactAbs (SortAbs xs)) = set xs \<and>
   sorted_wrt (\<lambda>a b. pathname a < pathname b) (CompactAbs (SortAbs xs))"
  by (simp add: set_CompactAbs CompactAbs_strict SortAbs_def)

subsection \<open>overlay.go\<close>

definition SpecialOverlayEscape :: string where "SpecialOverlayEscape = [CHR 0x5C]"
definition SpecialOverlayOption :: string where "SpecialOverlayOption = '',''"
definition SpecialOverlayPath :: string where "SpecialOverlayPath = '':''"

text \<open>\<open>strings.NewReplacer\<close> on patterns of one byte replaces byte by byte.\<close>

definition overlay_replace :: "char \<Rightarrow> string" where
  "overlay_replace c =
     (if [c] = SpecialOverlayEscape then SpecialOverlayEscape @ SpecialOverlayEscape
      else if [c] = SpecialOverlayOption then SpecialOverlayEscape @ SpecialOverlayOption
      else if [c] = SpecialOverlayPath then SpecialOverlayEscape @ SpecialOverlayPath
      else [c])"

definition EscapeOverlayDataSegment :: "string \<Rightarrow> string" where
  "EscapeOverlayDataSegment s =
     (if s = [] then []
      else
        let f = SplitN 2 (CHR 0x00) s;
            s' = (if 0 < length f then hd f else s)
        in concat (map overlay_replace s'))"

lemmas overlay_special = SpecialOverlayEscape_def SpecialOverlayOption_def SpecialOverlayPath_def

text \<open>How overlayfs reads an option back: a backslash takes the next byte literally, an unescaped
  separator ends a segment.\<close>

fun overlay_split :: "char \<Rightarrow> string \<Rightarrow> string list" where
  "overlay_split sep [] = [[]]"
| "overlay_split sep [c] =
     (if c = sep then [[], []] else if c = CHR 0x5C then [[]] else [[c]])"
| "overlay_split sep (c # d # s) =
     (if c = CHR 0x5C then
        (case overlay_split sep s of [] \<Rightarrow> [[d]] | y # ys \<Rightarrow> (d # y) # ys)
      else if c = sep then [] # overlay_split sep (d # s)
      else case overlay_split sep (d # s) of [] \<Rightarrow> [[c]] | y # ys \<Rightarrow> (c # y) # ys)"

lemma overlay_split_nonempty [simp]: "overlay_split sep s \<noteq> []"
  by (induction sep s rule: overlay_split.induct) (auto split: list.splits)

lemma overlay_split_plain:
  assumes "c \<noteq> CHR 0x5C" "c \<noteq> sep"
  shows "overlay_split sep (c # s) =
    (case overlay_split sep s of [] \<Rightarrow> [[c]] | y # ys \<Rightarrow> (c # y) # ys)"
  using assms by (cases s) auto

lemma overlay_split_replace:
  assumes "sep = CHR '':'' \<or> sep = CHR '',''"
  shows "overlay_split sep (overlay_replace c @ s) =
    (case overlay_split sep s of [] \<Rightarrow> [[c]] | y # ys \<Rightarrow> (c # y) # ys)"
  using assms overlay_split_plain [of c sep s]
  by (auto simp: overlay_replace_def overlay_special)

lemma overlay_split_segment:
  assumes "sep = CHR '':'' \<or> sep = CHR '',''"
  shows "overlay_split sep (concat (map overlay_replace w) @ s) =
    (case overlay_split sep s of [] \<Rightarrow> [w] | y # ys \<Rightarrow> (w @ y) # ys)"
proof (induction w)
  case (Cons c w)
  obtain y ys where "overlay_split sep s = y # ys"
    by (cases "overlay_split sep s") auto
  with Cons show ?case by (simp add: overlay_split_replace [OF assms])
next
  case Nil
  then show ?case by (simp split: list.splits) 
qed

lemma overlay_split_sep:
  "sep = CHR '':'' \<or> sep = CHR '','' \<Longrightarrow> overlay_split sep (sep # s) = [] # overlay_split sep s"
  by (cases s) auto

lemma EscapeOverlayDataSegment_no_nul:
  "CHR 0x00 \<notin> set w \<Longrightarrow> EscapeOverlayDataSegment w = concat (map overlay_replace w)"
  by (simp add: EscapeOverlayDataSegment_def SplitN_2 Cut_None_iff [THEN iffD2] Let_def)

text \<open>Pathnames joined by the overlay path separator after
  \<open>EscapeOverlayDataSegment\<close>, as \<open>MountOverlayOp\<close> formats its lower directories, are read
  back by overlayfs as exactly these pathnames, whatever separators and backslashes they hold.\<close>

lemma EscapeOverlayDataSegment_roundtrip:
  assumes "ws \<noteq> []" "list_all (\<lambda>w. CHR 0x00 \<notin> set w) ws" "sep = CHR '':'' \<or> sep = CHR '',''"
  shows "overlay_split sep (Join (map EscapeOverlayDataSegment ws) [sep]) = ws"
  using assms(1,2)
proof (induction ws)
  case (Cons w ws)
  show ?case
  proof (cases ws)
    case Nil
    with Cons.prems show ?thesis
      using overlay_split_segment [OF assms(3), of w "[]"]
      by (simp add: EscapeOverlayDataSegment_no_nul)
  next
    case (Cons v vs)
    with Cons.IH Cons.prems show ?thesis
      using overlay_split_segment [OF assms(3), of w "sep # Join (map EscapeOverlayDataSegment ws) [sep]"]
      by (simp add: EscapeOverlayDataSegment_no_nul overlay_split_sep [OF assms(3)])
  qed
qed simp

subsection \<open>fhs.go and path.go\<close>

definition fhs_Root :: string where "fhs_Root = ''/''"
definition fhs_Etc :: string where "fhs_Etc = ''/etc/''"
definition fhs_Tmp :: string where "fhs_Tmp = ''/tmp/''"
definition fhs_Run :: string where "fhs_Run = ''/run/''"
definition fhs_RunUser :: string where "fhs_RunUser = fhs_Run @ ''user/''"
definition fhs_Usr :: string where "fhs_Usr = ''/usr/''"
definition fhs_UsrBin :: string where "fhs_UsrBin = fhs_Usr @ ''bin/''"
definition fhs_Var :: string where "fhs_Var = ''/var/''"
definition fhs_VarLib :: string where "fhs_VarLib = fhs_Var @ ''lib/''"
definition fhs_VarEmpty :: string where "fhs_VarEmpty = fhs_Var @ ''empty/''"
definition fhs_Dev :: string where "fhs_Dev = ''/dev/''"
definition fhs_DevShm :: string where "fhs_DevShm = ''/dev/shm/''"
definition fhs_Proc :: string where "fhs_Proc = ''/proc/''"
definition fhs_ProcSys :: string where "fhs_ProcSys = fhs_Proc @ ''sys/''"
definition fhs_Sys :: string where "fhs_Sys = ''/sys/''"

definition hostDir :: string where "hostDir = ''host''"
definition hostPath :: string where "hostPath = fhs_Root @ hostDir"
definition sysrootDir :: string where "sysrootDir = ''sysroot''"
definition sysrootPath :: string where "sysrootPath = fhs_Root @ sysrootDir"

definition toSysroot :: "string \<Rightarrow> string" where
  "toSysroot name = path_Join [sysrootPath, dropWhile (\<lambda>r. r = slash) name]"

definition toHost :: "string \<Rightarrow> string" where
  "toHost name = path_Join [hostPath, dropWhile (\<lambda>r. r = slash) name]"

lemma comps_dropWhile_slash: "comps (dropWhile (\<lambda>r. r = slash) p) = comps p"
  by (induction p) auto

lemma toRoot_clean:
  assumes "plain d" "''..'' \<notin> set (comps p)"
  shows "path_Join [slash # d, dropWhile (\<lambda>r. r = slash) p] =
    render_path True (d # clean_list True (comps p))"
proof -
  have d: "comps (slash # d) = [d]"
    using assms(1) by (simp add: comps_def plain_def Split_no_sep)
  have push: "fold (clean_push True) ws (out @ [d]) = fold (clean_push True) ws out @ [d]"
    if "''..'' \<notin> set ws" for ws out
    using that
  proof (induction ws arbitrary: out)
    case (Cons a ws)
    then show ?case using Cons.IH [of "a # out"] by auto
  qed simp
  have "clean_list True (d # comps p) = d # clean_list True (comps p)"
    using push [OF assms(2), of "[]"] assms(1) by (simp add: clean_list_def plain_def)
  moreover have "path_Join [slash # d, dropWhile (\<lambda>r. r = slash) p] =
      render_path True (clean_list True (comps (slash # d) @ concat (map comps [dropWhile (\<lambda>r. r = slash) p])))"
    by (rule path_Join_abs) simp
  ultimately show ?thesis
    using d by (simp add: comps_dropWhile_slash)
qed

text \<open>A container pathname without a \<open>..\<close> component is placed under the container root, with
  its own cleaned components below \<open>/sysroot\<close>, and a host pathname under \<open>/host\<close>.\<close>

theorem toSysroot_confined:
  assumes "''..'' \<notin> set (comps p)"
  shows "toSysroot p = render_path True (sysrootDir # clean_list True (comps p)) \<and>
    toHost p = render_path True (hostDir # clean_list True (comps p)) \<and>
    list_all plain (clean_list True (comps p))"
proof (intro conjI)
  show "toSysroot p = render_path True (sysrootDir # clean_list True (comps p))"
    using toRoot_clean [OF _ assms, of sysrootDir]
    by (simp add: toSysroot_def sysrootPath_def fhs_Root_def sysrootDir_def plain_def slash_def)
  show "toHost p = render_path True (hostDir # clean_list True (comps p))"
    using toRoot_clean [OF _ assms, of hostDir]
    by (simp add: toHost_def hostPath_def fhs_Root_def hostDir_def plain_def slash_def)
  show "list_all plain (clean_list True (comps p))"
    by (rule clean_list_plain) (rule comps_no_slash)
qed

theorem toSysroot_confined_witness:
  "''..'' \<notin> set (comps ''/etc/passwd'') \<and>
   toSysroot ''/etc/passwd'' = render_path True (sysrootDir # clean_list True (comps ''/etc/passwd''))"
proof -
  have "''..'' \<notin> set (comps ''/etc/passwd'')"
    by (simp add: comps_def slash_def)
  then show ?thesis using toSysroot_confined by blast
qed

text \<open>\<open>check.NewAbs\<close> accepts pathnames that hold \<open>..\<close>, and \<open>toSysroot\<close> then resolves them
  lexically: the container pathname \<open>/../host/etc\<close> names the host's \<open>/etc\<close> under the
  intermediate root, outside the container root.\<close>

theorem toSysroot_dotdot_escapes:
  "NewAbs ''/../host/etc'' = Ret (Absolute ''/../host/etc'') \<and> toSysroot ''/../host/etc'' = ''/host/etc''"
  by (simp add: NewAbs_def unsafeAbs_def toSysroot_def sysrootPath_def sysrootDir_def fhs_Root_def
      path_Join_def Clean_def comps_def clean_list_def render_path_def slash_def)

end
