(* ===== verification/Dbus.thy ===== *)
theory Dbus
  imports Go_Num
begin

text \<open>
  D-Bus addresses and proxy arguments: \<open>internal/dbus/address.go\<close> (\<open>Parse\<close> and
  \<open>unescapeValue\<close>, with the output buffer, its index and the panics of Go's bounds checks),
  \<open>internal/dbus/config.go\<close>, \<open>internal/dbus/dbus.go\<close> and the bus configuration of
  \<open>hst/dbus.go\<close>. A Go map is the association list of its entries in the order the
  iteration visits them.
\<close>

subsection \<open>address.go\<close>

record AddrEntry =
  Method :: string
  Values :: "(string \<times> string) list"

definition EqualAddrEntries :: "AddrEntry list \<Rightarrow> AddrEntry list \<Rightarrow> bool" where
  "EqualAddrEntries entries target \<longleftrightarrow>
     list_all2 (\<lambda>a b. Method a = Method b \<and> Values a = Values b) entries target"

datatype ParseError =
    ErrNoColon | ErrBadPairSep | ErrBadPairKey | ErrBadPairVal
  | ErrBadValLength | ErrBadValByte | ErrBadValHexLength | ErrBadValHexByte

fun ParseError_string :: "ParseError \<Rightarrow> string" where
  "ParseError_string ErrNoColon = ''address does not contain a colon''"
| "ParseError_string ErrBadPairSep = [CHR 0x27] @ ''='' @ [CHR 0x27] @ '' character not found''"
| "ParseError_string ErrBadPairKey = [CHR 0x27] @ ''='' @ [CHR 0x27] @ '' character has no key preceding it''"
| "ParseError_string ErrBadPairVal = [CHR 0x27] @ ''='' @ [CHR 0x27] @ '' character has no value following it''"
| "ParseError_string ErrBadValLength = ''unescaped value has impossible length''"
| "ParseError_string ErrBadValByte =
     ''in D-Bus address, characters other than [-0-9A-Za-z_/.'' @ [CHR 0x5C] @ ''*] should have been escaped''"
| "ParseError_string ErrBadValHexLength =
     ''in D-Bus address, percent character was not followed by two hex digits''"
| "ParseError_string ErrBadValHexByte =
     ''in D-Bus address, percent character was followed by characters other than hex digits''"

datatype BadAddressError = BadAddressError
  (err_Type: ParseError) (EntryPos: nat) (EntryVal: string) (PairPos: int) (PairVal: "string option")

text \<open>The bytes a value may hold unescaped.\<close>

definition optional_byte :: "char \<Rightarrow> bool" where
  "optional_byte b \<longleftrightarrow>
     List.member (''-_/.'' @ [CHR 0x5C] @ ''*'') b \<or>
     (48 \<le> (of_char b :: nat) \<and> (of_char b :: nat) \<le> 57) \<or>
     (65 \<le> (of_char b :: nat) \<and> (of_char b :: nat) \<le> 90) \<or>
     (97 \<le> (of_char b :: nat) \<and> (of_char b :: nat) \<le> 122)"

text \<open>The loop over the value: the bytes left, \<open>skip\<close>, the index \<open>i\<close> into the buffer and the
  buffer. Writing or slicing past the end of the buffer panics.\<close>

fun unescape_loop :: "string \<Rightarrow> nat \<Rightarrow> nat \<Rightarrow> string \<Rightarrow> (ParseError, string) go" where
  "unescape_loop [] skip i val = Ret val"
| "unescape_loop (b # rest) skip i val =
     (if 0 < skip then unescape_loop rest (skip - 1) i val
      else if optional_byte b then
        (if i < length val then unescape_loop rest 0 (Suc i) (val[i := b])
         else Panic ''index out of range'')
      else if b \<noteq> CHR ''%'' then Fail ErrBadValByte
      else if length rest < 2 then Fail ErrBadValHexLength
      else if length val < Suc i then Panic ''slice bounds out of range''
      else case hex_decode (take 2 rest) of
          Ret c \<Rightarrow> unescape_loop rest 2 (Suc i) (val[i := hd c])
        | _ \<Rightarrow> Fail ErrBadValHexByte)"

definition unescapeValue :: "string \<Rightarrow> (ParseError, string) go" where
  "unescapeValue v =
     (let l = int (length v) - int (count_list v CHR ''%'') * 2 in
      if l < 0 then Fail ErrBadValLength
      else unescape_loop v 0 0 (replicate (nat l) CHR 0x00))"

definition parse_pair :: "nat \<Rightarrow> string \<Rightarrow> nat \<Rightarrow> string \<Rightarrow> (BadAddressError, string \<times> string) go" where
  "parse_pair i s j pair =
     (case Cut CHR ''='' pair of
        None \<Rightarrow> Fail (BadAddressError ErrBadPairSep i s (int j) (Some pair))
      | Some (key, val) \<Rightarrow>
          if key = [] then Fail (BadAddressError ErrBadPairKey i s (int j) (Some pair))
          else if val = [] then Fail (BadAddressError ErrBadPairVal i s (int j) (Some pair))
          else case unescapeValue val of
              Fail errno \<Rightarrow> Fail (BadAddressError errno i s (int j) (Some pair))
            | Panic m \<Rightarrow> Panic m
            | Ret v \<Rightarrow> Ret (key, v))"

fun parse_pairs :: "nat \<Rightarrow> string \<Rightarrow> nat \<Rightarrow> string list \<Rightarrow> (BadAddressError, (string \<times> string) list) go" where
  "parse_pairs i s j [] = Ret []"
| "parse_pairs i s j (pair # ps) =
     bind_go (parse_pair i s j pair) (\<lambda>kv. bind_go (parse_pairs i s (Suc j) ps) (\<lambda>kvs. Ret (kv # kvs)))"

definition parse_entry :: "nat \<Rightarrow> string \<Rightarrow> (BadAddressError, AddrEntry) go" where
  "parse_entry i s =
     (case Cut CHR '':'' s of
        None \<Rightarrow> Fail (BadAddressError ErrNoColon i s (-1) None)
      | Some (meth, lst) \<Rightarrow>
          bind_go (parse_pairs i s 0 (Split CHR '','' lst))
            (\<lambda>kvs. Ret \<lparr>Method = meth, Values = kvs\<rparr>))"

fun parse_entries :: "nat \<Rightarrow> string list \<Rightarrow> (BadAddressError, AddrEntry list) go" where
  "parse_entries i [] = Ret []"
| "parse_entries i (s # ss) =
     bind_go (parse_entry i s) (\<lambda>e. bind_go (parse_entries (Suc i) ss) (\<lambda>es. Ret (e # es)))"

definition Parse :: "string \<Rightarrow> (BadAddressError, AddrEntry list) go" where
  "Parse addr = parse_entries 0 (Split CHR '';'' (TrimSuffix addr '';''))"

subsection \<open>The reference unescaping\<close>

text \<open>What the D-Bus specification asks of a value, without buffer, index or length.\<close>

fun unescape_spec :: "string \<Rightarrow> string option" where
  "unescape_spec [] = Some []"
| "unescape_spec (b # rest) =
     (if optional_byte b then map_option ((#) b) (unescape_spec rest)
      else if b \<noteq> CHR ''%'' then None
      else case rest of
          p # q # rest' \<Rightarrow>
            (case hex_decode [p, q] of
               Ret c \<Rightarrow> map_option ((#) (hd c)) (unescape_spec rest')
             | _ \<Rightarrow> None)
        | _ \<Rightarrow> None)"

lemma percent_not_optional [simp]: "\<not> optional_byte CHR ''%''"
  by (simp add: optional_byte_def)

lemma unescape_loop_skip2: "unescape_loop (p # q # rest) 2 i val = unescape_loop rest 0 i val"
  by (simp add: numeral_2_eq_2)

lemma hex_val_percent [simp]: "hex_val CHR ''%'' = None"
  by (simp add: hex_val_def digit_val_def)

lemma hex_decode_2_Ret:
  "hex_decode [p, q] = Ret c \<Longrightarrow> p \<noteq> CHR ''%'' \<and> q \<noteq> CHR ''%'' \<and> (\<exists>x. c = [x])"
  by (auto split: option.splits)

lemma list_update_take_drop:
  "i < length val \<Longrightarrow> take (Suc i) (val[i := b]) = take i val @ [b]"
  by (simp add: take_Suc_conv_app_nth)

text \<open>The loop against the reference, from any position.\<close>

lemma unescape_loop_sound:
  "unescape_loop v 0 i val = Ret r \<Longrightarrow> i \<le> length val \<Longrightarrow>
     \<exists>out. unescape_spec v = Some out \<and> i + length out \<le> length val \<and>
       r = take i val @ out @ drop (i + length out) val"
proof (induction v arbitrary: i val rule: unescape_spec.induct)
  case (2 b rest)
  show ?case
  proof (cases "optional_byte b")
    case True
    with "2.prems" have i: "i < length val"
      and *: "unescape_loop rest 0 (Suc i) (val[i := b]) = Ret r"
      by (auto split: if_splits)
    from "2.IH"(1) [OF True *] i obtain out where "unescape_spec rest = Some out"
      "Suc i + length out \<le> length val"
      "r = take (Suc i) (val[i := b]) @ out @ drop (Suc i + length out) (val[i := b])"
      by auto
    with True i show ?thesis
      by (intro exI [of _ "b # out"]) (simp add: list_update_take_drop)
  next
    case False
    with "2.prems" obtain p q rest' where b: "b = CHR ''%''" and r: "rest = p # q # rest'"
      by (cases rest rule: list.exhaust [case_product list.exhaust [of "tl rest"]])
        (auto split: if_splits)
    with False "2.prems" obtain c where i: "i < length val" and c: "hex_decode [p, q] = Ret c"
      and *: "unescape_loop rest' 0 (Suc i) (val[i := hd c]) = Ret r"
      by (auto simp: unescape_loop_skip2 simp del: hex_decode.simps split: if_splits go.splits)
    from "2.IH"(2) [OF False _ r refl c *] b i obtain out where "unescape_spec rest' = Some out"
      "Suc i + length out \<le> length val"
      "r = take (Suc i) (val[i := hd c]) @ out @ drop (Suc i + length out) (val[i := hd c])"
      by auto
    with False b r c i show ?thesis
      by (intro exI [of _ "hd c # out"])
        (simp add: list_update_take_drop del: hex_decode.simps)
  qed
qed simp

lemma unescape_loop_complete:
  "unescape_spec v = Some out \<Longrightarrow> i + length out = length val \<Longrightarrow>
     unescape_loop v 0 i val = Ret (take i val @ out)"
proof (induction v arbitrary: i val out rule: unescape_spec.induct)
  case (2 b rest)
  show ?case
  proof (cases "optional_byte b")
    case True
    with "2.prems" obtain out' where o: "out = b # out'" "unescape_spec rest = Some out'"
      by auto
    with "2.IH"(1) [OF True o(2), of "Suc i" "val[i := b]"] "2.prems"(2) True show ?thesis
      by (simp add: list_update_take_drop)
  next
    case False
    with "2.prems" obtain p q rest' where b: "b = CHR ''%''" and r: "rest = p # q # rest'"
      by (cases rest rule: list.exhaust [case_product list.exhaust [of "tl rest"]])
        (auto split: if_splits)
    with False "2.prems" obtain c out' where c: "hex_decode [p, q] = Ret c"
      and o: "out = hd c # out'" "unescape_spec rest' = Some out'"
      by (auto simp del: hex_decode.simps split: go.splits)
    from "2.IH"(2) [OF False _ r refl c o(2), of "Suc i" "val[i := hd c]"] "2.prems"(2) o(1) b
    have "unescape_loop rest' 0 (Suc i) (val[i := hd c]) = Ret (take i val @ out)"
      by (simp add: list_update_take_drop)
    with False b r c o "2.prems"(2) show ?thesis
      by (simp add: unescape_loop_skip2 del: hex_decode.simps)
  qed
qed simp

lemma unescape_spec_length:
  "unescape_spec v = Some out \<Longrightarrow> length v = length out + 2 * count_list v CHR ''%''"
proof (induction v arbitrary: out rule: unescape_spec.induct)
  case (2 b rest)
  show ?case
  proof (cases "optional_byte b")
    case True
    with 2 show ?thesis by auto
  next
    case False
    with "2.prems" obtain p q rest' where b: "b = CHR ''%''" and r: "rest = p # q # rest'"
      by (cases rest rule: list.exhaust [case_product list.exhaust [of "tl rest"]])
        (auto split: if_splits)
    with False "2.prems" obtain c out' where c: "hex_decode [p, q] = Ret c"
      and o: "out = hd c # out'" "unescape_spec rest' = Some out'"
      by (auto simp del: hex_decode.simps split: go.splits)
    from "2.IH"(2) [OF False _ r refl c o(2)] hex_decode_2_Ret [OF c] b r o show ?thesis by simp
  qed
qed simp

text \<open>C27: \<open>unescapeValue\<close>, with its precomputed length and its index arithmetic, returns a
  value exactly when the D-Bus specification assigns the escaped bytes one, and returns that
  value.\<close>

theorem unescapeValue_correct:
  "unescapeValue v = Ret r \<longleftrightarrow> unescape_spec v = Some r"
proof
  assume *: "unescapeValue v = Ret r"
  let ?n = "length v - 2 * count_list v CHR ''%''"
  have n: "2 * count_list v CHR ''%'' \<le> length v" and
    "unescape_loop v 0 0 (replicate ?n CHR 0x00) = Ret r"
    using * unfolding unescapeValue_def Let_def
    by (auto simp: nat_diff_distrib nat_mult_distrib mult.commute split: if_splits)
  from unescape_loop_sound [OF this(2)] obtain out where o: "unescape_spec v = Some out"
    "r = out @ drop (length out) (replicate ?n CHR 0x00)" by auto
  moreover have "length out = ?n" using unescape_spec_length [OF o(1)] by simp
  ultimately show "unescape_spec v = Some r" by simp
next
  assume *: "unescape_spec v = Some r"
  have l: "int (length v) - int (count_list v CHR ''%'') * 2 = int (length r)"
    using unescape_spec_length [OF *] by simp
  show "unescapeValue v = Ret r"
    unfolding unescapeValue_def l using unescape_loop_complete [OF *, of 0] by simp
qed

lemma unescapeValue_RetI: "unescape_spec v = Some r \<Longrightarrow> unescapeValue v = Ret r"
proof -
  assume *: "unescape_spec v = Some r"
  have l: "int (length v) - int (count_list v CHR ''%'') * 2 = int (length r)"
    using unescape_spec_length [OF *] by simp
  show "unescapeValue v = Ret r"
    unfolding unescapeValue_def l using unescape_loop_complete [OF *, of 0] by simp
qed

text \<open>An address from the environment can crash the program: two unescaped bytes before two
  adjacent percent signs pass the length check with a buffer of length zero, and the first
  write to it is out of range.\<close>

theorem Parse_panics:
  "unescapeValue ''aa%%'' = Panic ''index out of range'' \<and>
   Parse ''unix:path=aa%%'' = Panic ''index out of range''"
proof
  show *: "unescapeValue ''aa%%'' = Panic ''index out of range''"
    by (simp add: unescapeValue_def optional_byte_def)
  have "TrimSuffix ''unix:path=aa%%'' '';'' = ''unix:path=aa%%''"
    by (simp add: TrimSuffix_def HasSuffix_def)
  then show "Parse ''unix:path=aa%%'' = Panic ''index out of range''"
    using * by (simp add: Parse_def parse_entry_def parse_pair_def)
qed

subsection \<open>Printing addresses\<close>

text \<open>The escaping the D-Bus specification gives for values, and the textual form of entries.\<close>

definition dbus_escape_byte :: "char \<Rightarrow> string" where
  "dbus_escape_byte b = (if optional_byte b then [b] else CHR ''%'' # hex_encode [b])"

definition dbus_escape :: "string \<Rightarrow> string" where
  "dbus_escape v = concat (map dbus_escape_byte v)"

definition print_pair :: "string \<times> string \<Rightarrow> string" where
  "print_pair kv = fst kv @ CHR ''='' # dbus_escape (snd kv)"

definition print_entry :: "AddrEntry \<Rightarrow> string" where
  "print_entry e = Method e @ CHR '':'' # Join (map print_pair (Values e)) '',''"

definition print_addr :: "AddrEntry list \<Rightarrow> string" where
  "print_addr es = Join (map print_entry es) '';''"

definition wf_pair :: "string \<times> string \<Rightarrow> bool" where
  "wf_pair kv \<longleftrightarrow> fst kv \<noteq> [] \<and> snd kv \<noteq> [] \<and> set (fst kv) \<inter> {CHR ''='', CHR '','', CHR '';''} = {}"

definition wf_entry :: "AddrEntry \<Rightarrow> bool" where
  "wf_entry e \<longleftrightarrow> set (Method e) \<inter> {CHR '':'', CHR '';''} = {} \<and>
     Values e \<noteq> [] \<and> list_all wf_pair (Values e)"

lemma unescape_spec_escape: "unescape_spec (dbus_escape v) = Some v"
proof (induction v)
  case (Cons b v)
  show ?case
  proof (cases "optional_byte b")
    case True
    with Cons show ?thesis by (simp add: dbus_escape_def dbus_escape_byte_def)
  next
    case False
    have h: "hex_encode [b] = [digit_char (of_char b div 16), digit_char (of_char b mod 16)]" by simp
    have "hex_decode [digit_char (of_char b div 16), digit_char (of_char b mod 16)] = Ret [b]"
      using hex_decode_encode [of "[b]"] by (simp only: h)
    with False Cons show ?thesis
      by (simp add: dbus_escape_def dbus_escape_byte_def del: hex_decode.simps)
  qed
qed (simp add: dbus_escape_def)

lemma digit_char_not_sep:
  "d < 16 \<Longrightarrow> digit_char d \<notin> {CHR ''='', CHR '','', CHR '';'', CHR '':''}"
  using hex_val_digit_char [of d] by (auto simp: hex_val_def digit_val_def)

lemma dbus_escape_no_sep: "set (dbus_escape v) \<inter> {CHR ''='', CHR '','', CHR '';'', CHR '':''} = {}"
proof -
  have "set (dbus_escape_byte b) \<inter> {CHR ''='', CHR '','', CHR '';'', CHR '':''} = {}" for b
  proof (cases "optional_byte b")
    case True
    then show ?thesis by (auto simp: dbus_escape_byte_def optional_byte_def)
  next
    case False
    have "(of_char b :: nat) div 16 < 16"
      using of_char_less_256 [of b] by (simp add: less_mult_imp_div_less)
    with False digit_char_not_sep [of "of_char b div 16"] digit_char_not_sep [of "of_char b mod 16"]
    show ?thesis by (simp add: dbus_escape_byte_def)
  qed
  then show ?thesis unfolding dbus_escape_def by (induction v) auto
qed

lemma parse_pair_print:
  assumes "wf_pair kv"
  shows "parse_pair i s j (print_pair kv) = Ret kv"
proof -
  obtain k v where kv: "kv = (k, v)" by (cases kv)
  with assms have k: "k \<noteq> []" "v \<noteq> []" "CHR ''='' \<notin> set k" by (auto simp: wf_pair_def)
  have "dbus_escape v \<noteq> []"
    using unescape_spec_escape [of v] k(2) by auto
  with k kv show ?thesis
    by (simp add: parse_pair_def print_pair_def unescapeValue_RetI [OF unescape_spec_escape])
qed

lemma parse_pairs_print:
  "list_all wf_pair kvs \<Longrightarrow> parse_pairs i s j (map print_pair kvs) = Ret kvs"
  by (induction kvs arbitrary: j) (simp_all add: parse_pair_print)

lemma print_pair_no_sep:
  "wf_pair kv \<Longrightarrow> CHR '','' \<notin> set (print_pair kv) \<and> CHR '';'' \<notin> set (print_pair kv)"
  using dbus_escape_no_sep [of "snd kv"] by (auto simp: print_pair_def wf_pair_def)

lemma parse_entry_print:
  assumes "wf_entry e"
  shows "parse_entry i (print_entry e) = Ret e"
proof -
  have "Split CHR '','' (Join (map print_pair (Values e)) [CHR '','']) = map print_pair (Values e)"
    using assms print_pair_no_sep by (intro Split_Join) (auto simp: wf_entry_def list_all_iff)
  moreover have "CHR '':'' \<notin> set (Method e)" using assms by (auto simp: wf_entry_def)
  ultimately show ?thesis
    using assms parse_pairs_print by (simp add: parse_entry_def print_entry_def wf_entry_def)
qed

lemma set_Join: "set (Join ws sep) \<subseteq> (\<Union>w \<in> set ws. set w) \<union> set sep"
  by (induction ws sep rule: Join.induct) auto

lemma print_entry_no_sep: "wf_entry e \<Longrightarrow> CHR '';'' \<notin> set (print_entry e)"
  using set_Join [of "map print_pair (Values e)" "[CHR '','']"] print_pair_no_sep
  by (fastforce simp: print_entry_def wf_entry_def list_all_iff)

lemma parse_entries_print:
  "list_all wf_entry es \<Longrightarrow> parse_entries i (map print_entry es) = Ret es"
  by (induction es arbitrary: i) (simp_all add: parse_entry_print)

text \<open>C36: parsing inverts printing: a list of well-formed entries, printed with the escaping of
  the D-Bus specification and an optional trailing semicolon, is parsed back unchanged.\<close>

theorem Parse_print_addr:
  assumes "es \<noteq> []" "list_all wf_entry es" "trail = [] \<or> trail = '';''"
  shows "Parse (print_addr es @ trail) = Ret es"
proof -
  have s: "Split CHR '';'' (print_addr es) = map print_entry es"
    unfolding print_addr_def using assms print_entry_no_sep
    by (intro Split_Join) (auto simp: list_all_iff)
  have "print_entry (last es) \<noteq> []" "CHR '';'' \<notin> set (print_entry (last es))"
    using assms print_entry_no_sep by (auto simp: print_entry_def list_all_iff)
  moreover have "\<exists>pre. print_addr es = pre @ print_entry (last es)"
    unfolding print_addr_def using assms(1)
    by (induction es rule: list_nonempty_induct) (auto simp: neq_Nil_conv)
  ultimately have "\<not> suffix '';'' (print_addr es)"
    by (metis (no_types, lifting) in_set_conv_decomp last_appendR last_in_set last_snoc suffix_def)
  then have "TrimSuffix (print_addr es @ trail) '';'' = print_addr es"
    using assms(3) by (auto simp: TrimSuffix_def HasSuffix_iff)
  with s show ?thesis by (simp add: Parse_def parse_entries_print [OF assms(2)])
qed

theorem Parse_print_addr_witness:
  "Parse (print_addr [\<lparr>Method = ''unix'', Values = [(''path'', ''/run/a b'')]\<rparr>] @ '';'') =
     Ret [\<lparr>Method = ''unix'', Values = [(''path'', ''/run/a b'')]\<rparr>]"
  by (rule Parse_print_addr) (simp_all add: wf_entry_def wf_pair_def)

subsection \<open>hst/dbus.go\<close>

record BusConfig =
  See :: "string list"
  Talk :: "string list"
  Own :: "string list"
  Call :: "(string \<times> string) list"
  Broadcast :: "(string \<times> string) list"
  Log :: bool
  Filter :: bool

datatype BadInterfaceError = BadInterfaceError (bad_Interface: string) (bad_Segment: string)

text \<open>The strings \<open>Interfaces\<close> yields, in order; a nil configuration yields none.\<close>

definition Interfaces :: "BusConfig option \<Rightarrow> string list" where
  "Interfaces c =
     (case c of
        None \<Rightarrow> []
      | Some c \<Rightarrow> See c @ Talk c @ Own c @ map fst (Call c) @ map fst (Broadcast c))"

definition good_interface :: "string \<Rightarrow> bool" where
  "good_interface iface \<longleftrightarrow> ContainsByte (TrimSuffix iface ''.*'') CHR ''.''"

fun check_interfaces_loop :: "string list \<Rightarrow> string \<Rightarrow> BadInterfaceError option" where
  "check_interfaces_loop [] segment = None"
| "check_interfaces_loop (iface # rest) segment =
     (if \<not> good_interface iface then Some (BadInterfaceError iface segment)
      else check_interfaces_loop rest segment)"

definition CheckInterfaces :: "BusConfig option \<Rightarrow> string \<Rightarrow> BadInterfaceError option" where
  "CheckInterfaces c segment =
     (case c of None \<Rightarrow> None | Some _ \<Rightarrow> check_interfaces_loop (Interfaces c) segment)"

lemma check_interfaces_loop_None:
  "check_interfaces_loop is segment = None \<longleftrightarrow> list_all good_interface is"
  by (induction "is") auto

lemma CheckInterfaces_None:
  "CheckInterfaces c segment = None \<longleftrightarrow> list_all good_interface (Interfaces c)"
  by (cases c) (auto simp: CheckInterfaces_def check_interfaces_loop_None Interfaces_def)

lemma check_interfaces_loop_Some:
  "check_interfaces_loop is segment = Some e \<Longrightarrow>
     bad_Interface e \<in> set is \<and> bad_Segment e = segment \<and> \<not> good_interface (bad_Interface e)"
  by (induction "is") (auto split: if_splits)

subsection \<open>config.go and dbus.go\<close>

type_synonym ProxyPair = "string \<times> string"

definition Args :: "BusConfig \<Rightarrow> ProxyPair \<Rightarrow> string list" where
  "Args c bus =
     [fst bus, snd bus]
     @ (if Filter c then [''--filter''] else [])
     @ map (\<lambda>name. ''--see='' @ name) (See c)
     @ map (\<lambda>name. ''--talk='' @ name) (Talk c)
     @ map (\<lambda>name. ''--own='' @ name) (Own c)
     @ map (\<lambda>(name, rule). ''--call='' @ name @ ''='' @ rule) (Call c)
     @ map (\<lambda>(name, rule). ''--broadcast='' @ name @ ''='' @ rule) (Broadcast c)
     @ (if Log c then [''--log''] else [])"

text \<open>The capacity \<open>Args\<close> computes before it appends.\<close>

definition Args_argc :: "BusConfig \<Rightarrow> nat" where
  "Args_argc c =
     2 + length (See c) + length (Talk c) + length (Own c) + length (Call c) + length (Broadcast c)
     + (if Log c then 1 else 0) + (if Filter c then 1 else 0)"

lemma Args_length: "length (Args c bus) = Args_argc c"
  by (simp add: Args_def Args_argc_def)

definition NewConfig :: "string \<Rightarrow> bool \<Rightarrow> bool \<Rightarrow> BusConfig" where
  "NewConfig ident defaults mpris =
     (let c = \<lparr>See = [], Talk = [], Own = [], Call = [], Broadcast = [], Log = False, Filter = True\<rparr> in
      if defaults then
        (let c = c\<lparr>Talk := [''org.freedesktop.DBus'', ''org.freedesktop.Notifications''],
                   Call := [(''org.freedesktop.portal.*'', ''*'')],
                   Broadcast := [(''org.freedesktop.portal.*'', ''@/org/freedesktop/portal/*'')]\<rparr> in
         if ident \<noteq> [] then
           (let c = c\<lparr>Own := [ident @ ''.*'']\<rparr> in
            if mpris then c\<lparr>Own := Own c @ [''org.mpris.MediaPlayer2.'' @ ident @ ''.*'']\<rparr> else c)
         else c)
      else c)"

definition SessionBusAddress :: string where "SessionBusAddress = ''DBUS_SESSION_BUS_ADDRESS''"
definition SystemBusAddress :: string where "SystemBusAddress = ''DBUS_SYSTEM_BUS_ADDRESS''"
definition FallbackSystemBusAddress :: string where
  "FallbackSystemBusAddress = ''unix:path=/var/run/dbus/system_bus_socket''"

text \<open>\<open>Address\<close> with the state of its \<open>sync.Once\<close>: the addresses once resolved.\<close>

definition Address ::
  "(string \<Rightarrow> string option) \<Rightarrow> int \<Rightarrow> (string \<times> string) option \<Rightarrow> (string \<times> string) \<times> (string \<times> string) option" where
  "Address lookupEnv uid once =
     (case once of
        Some a \<Rightarrow> (a, once)
      | None \<Rightarrow>
          (let a = (case lookupEnv SessionBusAddress of
                      None \<Rightarrow> ''unix:path=/run/user/'' @ Itoa uid @ ''/bus''
                    | Some addr \<Rightarrow> addr,
                    case lookupEnv SystemBusAddress of
                      None \<Rightarrow> FallbackSystemBusAddress
                    | Some addr \<Rightarrow> addr)
           in (a, Some a)))"

text \<open>The interface check rejects a configuration exactly when some name or rule key has no
  dot left after its wildcard suffix, reporting such a name and the bus it belongs to; the
  default configuration passes it whenever the application id is empty or dotted.\<close>

theorem CheckInterfaces_spec:
  "(case CheckInterfaces c segment of
      None \<Rightarrow> list_all good_interface (Interfaces c)
    | Some e \<Rightarrow> bad_Interface e \<in> set (Interfaces c) \<and> bad_Segment e = segment \<and>
        \<not> good_interface (bad_Interface e)) \<and>
   (CheckInterfaces (Some (NewConfig ident True mpris)) segment = None \<longleftrightarrow>
      ident = [] \<or> CHR ''.'' \<in> set ident)"
proof
  show "case CheckInterfaces c segment of
      None \<Rightarrow> list_all good_interface (Interfaces c)
    | Some e \<Rightarrow> bad_Interface e \<in> set (Interfaces c) \<and> bad_Segment e = segment \<and>
        \<not> good_interface (bad_Interface e)"
    by (cases c)
      (auto simp: CheckInterfaces_def Interfaces_def check_interfaces_loop_None
        dest: check_interfaces_loop_Some split: option.splits)
  have "good_interface (ident @ ''.*'') \<longleftrightarrow> CHR ''.'' \<in> set ident"
    by (simp add: good_interface_def)
  moreover have "good_interface (''org.mpris.MediaPlayer2.'' @ ident @ ''.*'')"
    using TrimSuffix_append [of "''org.mpris.MediaPlayer2.'' @ ident" "''.*''"]
    by (simp add: good_interface_def)
  moreover have "good_interface ''org.freedesktop.DBus''" "good_interface ''org.freedesktop.Notifications''"
    "good_interface ''org.freedesktop.portal.*''"
    by (simp_all add: good_interface_def TrimSuffix_def HasSuffix_def)
  ultimately show "CheckInterfaces (Some (NewConfig ident True mpris)) segment = None \<longleftrightarrow>
      ident = [] \<or> CHR ''.'' \<in> set ident"
    by (auto simp: CheckInterfaces_None Interfaces_def NewConfig_def Let_def)
qed

subsection \<open>helper/args.go and proxy.go\<close>

text \<open>An argument writer holds the NUL terminated arguments; \<open>syscall.ByteSliceFromString\<close> refuses
  a string with a NUL byte.\<close>

type_synonym argsWt = "string list"

fun NewCheckedArgs :: "string list \<Rightarrow> argsWt option" where
  "NewCheckedArgs [] = Some []"
| "NewCheckedArgs (arg # args) =
     (if ContainsByte arg CHR 0x00 then None
      else map_option (\<lambda>a. (arg @ [CHR 0x00]) # a) (NewCheckedArgs args))"

definition argsWt_String :: "argsWt \<Rightarrow> string" where
  "argsWt_String a =
     TrimSuffix (map (\<lambda>c. if c = CHR 0x00 then CHR '' '' else c) (concat a)) '' ''"

text \<open>\<open>WriteTo\<close>: \<open>write\<close> is the writer, which returns how much it wrote and whether it failed.\<close>

fun argsWt_WriteTo :: "(string \<Rightarrow> 'w \<Rightarrow> nat \<times> 'e option \<times> 'w) \<Rightarrow> argsWt \<Rightarrow> nat \<Rightarrow> 'w \<Rightarrow> nat \<times> 'e option \<times> 'w" where
  "argsWt_WriteTo write [] nt w = (nt, None, w)"
| "argsWt_WriteTo write (arg # a) nt w =
     (case write arg w of
        (n, Some e, w') \<Rightarrow> (nt + n, Some e, w')
      | (n, None, w') \<Rightarrow> argsWt_WriteTo write a (nt + n) w')"

record Final =
  Session :: ProxyPair
  System :: ProxyPair
  SessionUpstream :: "AddrEntry list"
  SystemUpstream :: "AddrEntry list"
  WriterTo :: argsWt

datatype finalise_error = EBADE | BadInterface BadInterfaceError | ArgsEINVAL | BadAddress BadAddressError

definition check_interfaces_go :: "BusConfig option \<Rightarrow> string \<Rightarrow> (finalise_error, unit) go" where
  "check_interfaces_go c segment =
     (case CheckInterfaces c segment of None \<Rightarrow> Ret () | Some e \<Rightarrow> Fail (BadInterface e))"

definition parse_upstream :: "BusConfig option \<Rightarrow> string \<Rightarrow> (finalise_error, AddrEntry list) go" where
  "parse_upstream c addr =
     (case c of
        None \<Rightarrow> Ret []
      | Some _ \<Rightarrow> (case Parse addr of Ret v \<Rightarrow> Ret v | Fail e \<Rightarrow> Fail (BadAddress e) | Panic m \<Rightarrow> Panic m))"

definition finalise_args :: "ProxyPair \<Rightarrow> ProxyPair \<Rightarrow> BusConfig option \<Rightarrow> BusConfig option \<Rightarrow> string list" where
  "finalise_args sessionBus systemBus session system =
     (case session of Some c \<Rightarrow> Args c sessionBus | None \<Rightarrow> [])
     @ (case system of Some c \<Rightarrow> Args c systemBus | None \<Rightarrow> [])"

definition Finalise ::
  "ProxyPair \<Rightarrow> ProxyPair \<Rightarrow> BusConfig option \<Rightarrow> BusConfig option \<Rightarrow> (finalise_error, Final) go" where
  "Finalise sessionBus systemBus session system =
     (if session = None \<and> system = None then Fail EBADE
      else
        bind_go (check_interfaces_go session ''session'') (\<lambda>_.
        bind_go (check_interfaces_go system ''system'') (\<lambda>_.
        (case NewCheckedArgs (finalise_args sessionBus systemBus session system) of
           None \<Rightarrow> Fail ArgsEINVAL
         | Some wt \<Rightarrow>
             bind_go (parse_upstream session (fst sessionBus)) (\<lambda>su.
             bind_go (parse_upstream system (fst systemBus)) (\<lambda>yu.
               Ret \<lparr>Session = sessionBus, System = systemBus, SessionUpstream = su,
                    SystemUpstream = yu, WriterTo = wt\<rparr>))))))"

text \<open>What the proxy reads from the argument pipe, splitting at NUL bytes.\<close>

definition read_args :: "string \<Rightarrow> string list" where
  "read_args s = butlast (Split CHR 0x00 s)"

lemma NewCheckedArgs_Some_iff:
  "NewCheckedArgs args = Some a \<longleftrightarrow>
     list_all (\<lambda>s. \<not> ContainsByte s CHR 0x00) args \<and> a = map (\<lambda>s. s @ [CHR 0x00]) args"
  by (induction args arbitrary: a) auto

lemma read_args_checked:
  "list_all (\<lambda>s. \<not> ContainsByte s CHR 0x00) args \<Longrightarrow> read_args (concat (map (\<lambda>s. s @ [CHR 0x00]) args)) = args"
  by (induction args) (auto simp: read_args_def Split_append_sep)

text \<open>C37: when the arguments are finalised the proxy reads back from the argument pipe exactly the
  arguments of the two buses: no name or rule can smuggle an extra argument; and the interface
  names of both configurations were checked.\<close>

theorem Finalise_args:
  assumes "Finalise sessionBus systemBus session system = Ret final"
  shows "read_args (concat (WriterTo final)) = finalise_args sessionBus systemBus session system \<and>
    list_all good_interface (Interfaces session @ Interfaces system) \<and>
    Session final = sessionBus \<and> System final = systemBus"
proof (cases "NewCheckedArgs (finalise_args sessionBus systemBus session system)")
  case None
  with assms show ?thesis by (auto simp: Finalise_def split: if_splits)
next
  case (Some wt)
  with assms have "WriterTo final = wt" "Session final = sessionBus" "System final = systemBus"
    "check_interfaces_go session ''session'' = Ret ()" "check_interfaces_go system ''system'' = Ret ()"
    by (auto simp: Finalise_def split: if_splits)
  moreover from this(4,5) have "list_all good_interface (Interfaces session @ Interfaces system)"
    by (auto simp: check_interfaces_go_def CheckInterfaces_None split: option.splits)
  moreover have "read_args (concat wt) = finalise_args sessionBus systemBus session system"
    using Some read_args_checked unfolding NewCheckedArgs_Some_iff by blast
  ultimately show ?thesis by blast
qed

theorem Finalise_args_witness:
  "\<exists>final. Finalise (''unix:path=/a'', ''/b'') ([], []) (Some (NewConfig ''org.x'' True False)) None = Ret final \<and>
     read_args (concat (WriterTo final)) = Args (NewConfig ''org.x'' True False) (''unix:path=/a'', ''/b'')"
proof -
  let ?c = "NewConfig ''org.x'' True False"
  have "TrimSuffix ''unix:path=/a'' '';'' = ''unix:path=/a''"
    by (simp add: TrimSuffix_def HasSuffix_def)
  moreover have "unescapeValue ''/a'' = Ret ''/a''"
    by (simp add: unescapeValue_def optional_byte_def numeral_2_eq_2)
  ultimately have "\<exists>su. Parse ''unix:path=/a'' = Ret su"
    by (simp add: Parse_def parse_entry_def parse_pair_def)
  moreover have "CheckInterfaces (Some ?c) ''session'' = None" "CheckInterfaces None ''system'' = None"
    by (simp_all add: CheckInterfaces_None Interfaces_def NewConfig_def good_interface_def TrimSuffix_def HasSuffix_def)
  moreover have "\<exists>wt. NewCheckedArgs (Args ?c (''unix:path=/a'', ''/b'')) = Some wt"
    by (simp add: NewConfig_def Args_def)
  ultimately obtain final where f: "Finalise (''unix:path=/a'', ''/b'') ([], []) (Some ?c) None = Ret final"
    by (auto simp: Finalise_def finalise_args_def check_interfaces_go_def parse_upstream_def)
  from Finalise_args [OF this] have "read_args (concat (WriterTo final)) = Args ?c (''unix:path=/a'', ''/b'')"
    by (simp add: finalise_args_def)
  with f show ?thesis by blast
qed

end
