(* ===== verification/Lpw.thy ===== *)
theory Lpw
  imports Prelude
begin

text \<open>
  The line buffer between \<open>xdg-dbus-proxy\<close> and the log: \<open>linePrefixWriter\<close> of
  \<open>internal/system/dbus.go\<close>. The field \<open>lpw_out\<close> holds the arguments of the calls of \<open>println\<close>.
\<close>

definition lpwSizeThreshold :: int where "lpwSizeThreshold = 16777216"

record linePrefixWriter =
  lpw_prefix :: string
  lpw_n :: int
  lpw_msg :: "string list"
  lpw_buf :: string
  lpw_out :: "string list"

definition lpw_new :: "string \<Rightarrow> linePrefixWriter" where
  "lpw_new pre = \<lparr>lpw_prefix = pre, lpw_n = 0, lpw_msg = [], lpw_buf = [], lpw_out = []\<rparr>"

definition init_line :: "string \<Rightarrow> bool" where
  "init_line v \<longleftrightarrow> HasPrefix v ''init: ''"

text \<open>One iteration that found the line \<open>l\<close>.\<close>

definition lpw_line :: "linePrefixWriter \<Rightarrow> string \<Rightarrow> linePrefixWriter" where
  "lpw_line s l =
     (let v = lpw_buf s @ l; s = s\<lparr>lpw_n := lpw_n s + int (length l) + 1\<rparr>;
          s = (if init_line v
               then s\<lparr>lpw_n := lpw_n s - (int (length v) + 1), lpw_out := lpw_out s @ [lpw_prefix s @ v]\<rparr>
               else s\<lparr>lpw_msg := lpw_msg s @ [v]\<rparr>)
      in s\<lparr>lpw_buf := []\<rparr>)"

text \<open>\<open>write\<close> returns the count of bytes consumed and whether it failed with \<open>ENOMEM\<close>.\<close>

function lpw_write :: "linePrefixWriter \<Rightarrow> string \<Rightarrow> nat \<Rightarrow> linePrefixWriter \<times> nat \<times> bool" where
  "lpw_write s p a =
     (if lpwSizeThreshold \<le> lpw_n s then (s, a, p \<noteq> [])
      else case Cut CHR 0x0A p of
          None \<Rightarrow> (s\<lparr>lpw_buf := lpw_buf s @ p, lpw_n := lpw_n s + int (length p)\<rparr>, a + length p, False)
        | Some (l, rest) \<Rightarrow> lpw_write (lpw_line s l) rest (a + length l + 1))"
  by pat_completeness auto
termination
  by (relation "measure (\<lambda>(s, p, a). length p)") (auto dest!: Cut_SomeD)

declare lpw_write.simps [simp del]

definition lpw_Write :: "linePrefixWriter \<Rightarrow> string \<Rightarrow> linePrefixWriter \<times> nat \<times> bool" where
  "lpw_Write s p = lpw_write s p 0"

definition lpw_Dump :: "linePrefixWriter \<Rightarrow> linePrefixWriter" where
  "lpw_Dump s = s\<lparr>lpw_out := lpw_out s @ map (\<lambda>m. lpw_prefix s @ m) (lpw_msg s)
     @ (if lpw_buf s \<noteq> [] then [''*'' @ lpw_prefix s @ lpw_buf s] else [])
     @ (if lpwSizeThreshold \<le> lpw_n s
        then [''+'' @ lpw_prefix s @ ''write threshold reached, output may be incomplete''] else [])\<rparr>"

subsection \<open>Accounting\<close>

definition lpw_inv :: "linePrefixWriter \<Rightarrow> bool" where
  "lpw_inv s \<longleftrightarrow> lpw_n s = int (sum_list (map (\<lambda>m. length m + 1) (lpw_msg s)) + length (lpw_buf s))"

lemma lpw_line_inv: "lpw_inv s \<Longrightarrow> lpw_inv (lpw_line s l)"
  by (simp add: lpw_inv_def lpw_line_def Let_def)

lemma lpw_line_le: "lpw_n (lpw_line s l) \<le> lpw_n s + int (length l) + 1"
  by (simp add: lpw_line_def Let_def)

lemma lpw_write_inv: "lpw_inv s \<Longrightarrow> lpw_inv (fst (lpw_write s p a))"
proof (induction s p a rule: lpw_write.induct)
  case (1 s p a)
  show ?case
  proof (cases "Cut CHR 0x0A p")
    case None
    with 1 show ?thesis by (subst lpw_write.simps) (simp add: lpw_inv_def)
  next
    case (Some lr)
    with 1 lpw_line_inv show ?thesis by (subst lpw_write.simps) (auto split: prod.splits)
  qed
qed

subsection \<open>Lines\<close>

text \<open>The lines of a text: every piece but the last is complete.\<close>

definition complete_lines :: "string \<Rightarrow> string list" where
  "complete_lines t = butlast (Split CHR 0x0A t)"

definition rest_line :: "string \<Rightarrow> string" where
  "rest_line t = last (Split CHR 0x0A t)"

lemma lines_no_newline: "CHR 0x0A \<notin> set t \<Longrightarrow> complete_lines t = [] \<and> rest_line t = t"
  by (simp add: complete_lines_def rest_line_def Split_no_sep)

lemma lines_newline:
  "CHR 0x0A \<notin> set l \<Longrightarrow> complete_lines (l @ CHR 0x0A # t) = l # complete_lines t \<and> rest_line (l @ CHR 0x0A # t) = rest_line t"
  by (simp add: complete_lines_def rest_line_def Split_append_sep)

lemma rest_line_no_newline: "CHR 0x0A \<notin> set (rest_line t)"
  unfolding rest_line_def by (rule Split_pieces, rule last_in_set) simp

lemma lines_append:
  "complete_lines (t @ u) = complete_lines t @ complete_lines (rest_line t @ u) \<and>
   rest_line (t @ u) = rest_line (rest_line t @ u)"
proof (induction "length t" arbitrary: t rule: less_induct)
  case less
  show ?case
  proof (cases "Cut CHR 0x0A t")
    case None
    then show ?thesis by (simp add: Cut_None_iff lines_no_newline)
  next
    case (Some lr)
    then obtain l r where t: "t = l @ CHR 0x0A # r" "CHR 0x0A \<notin> set l"
      by (cases lr) (auto simp: Cut_Some_iff)
    then show ?thesis using less [of r] by (simp add: lines_newline)
  qed
qed

definition lpw_has :: "linePrefixWriter \<Rightarrow> string \<Rightarrow> bool" where
  "lpw_has s t \<longleftrightarrow>
     lpw_msg s = filter (\<lambda>v. \<not> init_line v) (complete_lines t) \<and>
     lpw_out s = map (\<lambda>v. lpw_prefix s @ v) (filter init_line (complete_lines t)) \<and>
     lpw_buf s = rest_line t \<and> lpw_n s \<le> int (length t)"

lemma lpw_line_has:
  assumes "lpw_has s t" "CHR 0x0A \<notin> set l"
  shows "lpw_has (lpw_line s l) (t @ l @ [CHR 0x0A])"
proof -
  have "CHR 0x0A \<notin> set (rest_line t @ l)" using assms(2) rest_line_no_newline by simp
  from lines_newline [OF this, of "[]"] lines_append [of t "l @ [CHR 0x0A]"]
  have "complete_lines (t @ l @ [CHR 0x0A]) = complete_lines t @ [rest_line t @ l]"
    "rest_line (t @ l @ [CHR 0x0A]) = []"
    by (simp_all add: lines_no_newline)
  then show ?thesis
    using assms(1) lpw_line_le [of s l] by (auto simp: lpw_has_def lpw_line_def Let_def)
qed

lemma lpw_line_prefix [simp]: "lpw_prefix (lpw_line s l) = lpw_prefix s"
  by (simp add: lpw_line_def Let_def)

lemma lpw_write_has:
  assumes "lpw_has s t" "int (length (t @ p)) < lpwSizeThreshold"
  shows "\<exists>s'. lpw_write s p a = (s', a + length p, False) \<and> lpw_has s' (t @ p) \<and> lpw_prefix s' = lpw_prefix s"
  using assms
proof (induction "length p" arbitrary: s p a t rule: less_induct)
  case less
  have n: "\<not> lpwSizeThreshold \<le> lpw_n s" using less.prems by (simp add: lpw_has_def)
  show ?case
  proof (cases "Cut CHR 0x0A p")
    case None
    then have "CHR 0x0A \<notin> set (rest_line t @ p)" using rest_line_no_newline by (simp add: Cut_None_iff)
    then show ?thesis
      using n None less.prems lines_append [of t p] lines_no_newline [of "rest_line t @ p"]
      by (subst lpw_write.simps) (simp add: lpw_has_def)
  next
    case (Some lr)
    then obtain l r where c: "Cut CHR 0x0A p = Some (l, r)" and p: "p = l @ CHR 0x0A # r" "CHR 0x0A \<notin> set l"
      by (cases lr) (auto simp: Cut_Some_iff)
    have "lpw_has (lpw_line s l) (t @ l @ [CHR 0x0A])" by (rule lpw_line_has [OF less.prems(1) p(2)])
    from less.hyps [OF _ this, of r "a + length l + 1"] p less.prems(2) show ?thesis
      using n c by (subst lpw_write.simps) auto
  qed
qed

definition lpw_writes :: "linePrefixWriter \<Rightarrow> string list \<Rightarrow> linePrefixWriter" where
  "lpw_writes s ps = fold (\<lambda>p s. fst (lpw_Write s p)) ps s"

lemma lpw_writes_has:
  assumes "int (length (concat ps)) < lpwSizeThreshold"
  shows "lpw_has (lpw_writes (lpw_new pre) ps) (concat ps) \<and> lpw_prefix (lpw_writes (lpw_new pre) ps) = pre"
  using assms
proof (induction ps rule: rev_induct)
  case Nil
  then show ?case by (simp add: lpw_has_def lpw_new_def lpw_writes_def lines_no_newline)
next
  case (snoc p ps)
  let ?s = "lpw_writes (lpw_new pre) ps"
  have "lpw_has ?s (concat ps)" "lpw_prefix ?s = pre" using snoc by auto
  with lpw_write_has [of ?s "concat ps" p 0] snoc.prems show ?case
    by (auto simp: lpw_Write_def lpw_writes_def)
qed

lemma lpw_writes_inv: "lpw_inv (lpw_writes (lpw_new pre) ps)"
proof (induction ps rule: rev_induct)
  case (snoc p ps)
  then show ?case using lpw_write_inv by (simp add: lpw_writes_def lpw_Write_def)
qed (simp add: lpw_inv_def lpw_new_def lpw_writes_def)

text \<open>Whatever pieces the proxy writes its output in, as long as it stays below the threshold every
  write consumes all its bytes without error and the writer holds the lines of the whole output:
  those of the container init were printed at once with the prefix, the others are kept in
  order, and the last incomplete line is buffered; at any time the count is the size of what is
  held.\<close>

theorem lpw_Write_chunks:
  assumes "int (length (concat ps) + length p) < lpwSizeThreshold"
    and s: "s = lpw_writes (lpw_new pre) ps"
  shows "lpw_msg s = filter (\<lambda>v. \<not> init_line v) (complete_lines (concat ps)) \<and>
    lpw_out s = map (\<lambda>v. pre @ v) (filter init_line (complete_lines (concat ps))) \<and>
    lpw_buf s = rest_line (concat ps) \<and> snd (lpw_Write s p) = (length p, False) \<and>
    lpw_inv (lpw_writes (lpw_new pre) qs)"
proof -
  have has: "lpw_has s (concat ps)" and "lpw_prefix s = pre"
    using lpw_writes_has [of ps pre] assms by simp_all
  moreover from lpw_write_has [OF has, of p 0] assms have "snd (lpw_Write s p) = (length p, False)"
    by (auto simp: lpw_Write_def)
  ultimately show ?thesis using lpw_writes_inv by (simp add: lpw_has_def)
qed

theorem lpw_Write_chunks_witness:
  "lpw_out (lpw_writes (lpw_new ''> '') [''ini'', ''t: a'', [CHR 0x0A], ''b'']) = [''> init: a''] \<and>
   lpw_buf (lpw_writes (lpw_new ''> '') [''ini'', ''t: a'', [CHR 0x0A], ''b'']) = ''b''"
  using lpw_Write_chunks [of "[''ini'', ''t: a'', [CHR 0x0A], ''b'']" "[]" _ "''> ''", OF _ refl]
  by (simp add: lpwSizeThreshold_def rest_line_def complete_lines_def init_line_def HasPrefix_def)

end
