(* ===== verification/Sys_Ops.thy ===== *)
theory Sys_Ops
  imports Hst_Ident Check_Abs Dbus Lpw
begin

text \<open>
  The reversible operations of \<open>internal/system\<close>: \<open>mkdir.go\<close>, \<open>link.go\<close>, \<open>acl.go\<close>, \<open>xhost.go\<close>,
  \<open>wayland.go\<close>, \<open>cgroup.go\<close> and \<open>dbus.go\<close>, with the errors of \<open>output.go\<close>. The methods of
  \<open>syscallDispatcher\<close> (and the calls of package \<open>os\<close> that bypass it) are the fields of the record
  \<open>sysk\<close>, functions on a state \<open>'w\<close> of the host. Verbose logging is left out.
\<close>

subsection \<open>output.go\<close>

text \<open>The errors of the host, as far as the code tells them apart.\<close>

datatype os_error =
  ErrExist | ErrNotExist | ENOTEMPTY | EINVAL | Canceled | ErrDBusConfig
  | ErrFinalise finalise_error | OtherError string

text \<open>\<open>OpError\<close> with the list of the joined errors as \<open>Err\<close>.\<close>

datatype OpError = OpError (oe_Op: string) (oe_Err: "os_error list") (oe_Msg: string) (oe_Revert: bool)

definition newOpError :: "string \<Rightarrow> os_error list \<Rightarrow> bool \<Rightarrow> OpError option" where
  "newOpError op err revert = (if err = [] then None else Some (OpError op err [] revert))"

definition newOpErrorMessage :: "string \<Rightarrow> os_error list \<Rightarrow> string \<Rightarrow> bool \<Rightarrow> OpError option" where
  "newOpErrorMessage op err message revert = (if err = [] then None else Some (OpError op err message revert))"

text \<open>What the code asks of an error value: its text, whether it is one of the error types that
  name their operation, and its message if it implements \<open>message.Error\<close>.\<close>

record errv =
  e_Error :: "os_error list \<Rightarrow> string"
  e_isPath :: "os_error list \<Rightarrow> bool"
  e_Message :: "os_error list \<Rightarrow> string option"

definition OpError_Error :: "errv \<Rightarrow> OpError \<Rightarrow> string" where
  "OpError_Error v e =
     (if oe_Msg e \<noteq> [] then oe_Msg e
      else if e_isPath v (oe_Err e) then e_Error v (oe_Err e)
      else if \<not> oe_Revert e then ''apply '' @ oe_Op e @ '': '' @ e_Error v (oe_Err e)
      else ''revert '' @ oe_Op e @ '': '' @ e_Error v (oe_Err e))"

definition OpError_Message :: "errv \<Rightarrow> OpError \<Rightarrow> string" where
  "OpError_Message v e =
     (case e_Message v (oe_Err e) of
        Some m \<Rightarrow> m
      | None \<Rightarrow> if oe_Msg e \<noteq> [] then OpError_Error v e else ''cannot '' @ OpError_Error v e)"

subsection \<open>The dispatcher\<close>

datatype acl_perm = Read | Write | Execute

record 'w sysk =
  k_err :: errv
  k_stat :: "string \<Rightarrow> 'w \<Rightarrow> os_error option \<times> 'w"
  k_mkdir :: "string \<Rightarrow> nat \<Rightarrow> 'w \<Rightarrow> os_error option \<times> 'w"
  k_chmod :: "string \<Rightarrow> nat \<Rightarrow> 'w \<Rightarrow> os_error option \<times> 'w"
  k_link :: "string \<Rightarrow> string \<Rightarrow> 'w \<Rightarrow> os_error option \<times> 'w"
  k_remove :: "string \<Rightarrow> 'w \<Rightarrow> os_error option \<times> 'w"
  k_println :: "string \<Rightarrow> 'w \<Rightarrow> 'w"
  k_aclUpdate :: "string \<Rightarrow> int \<Rightarrow> acl_perm list \<Rightarrow> 'w \<Rightarrow> os_error option \<times> 'w"
  k_waylandNew :: "string \<Rightarrow> string \<Rightarrow> string \<Rightarrow> string \<Rightarrow> 'w \<Rightarrow> (os_error + nat) \<times> 'w"
  k_waylandClose :: "nat \<Rightarrow> 'w \<Rightarrow> os_error option \<times> 'w"
  k_xcbChangeHosts :: "bool \<Rightarrow> string \<Rightarrow> 'w \<Rightarrow> os_error option \<times> 'w"
  k_dbusProxyStart :: "Final \<Rightarrow> 'w \<Rightarrow> os_error option \<times> 'w"
  k_dbusProxyClose :: "Final \<Rightarrow> 'w \<Rightarrow> 'w"
  k_dbusProxyWait :: "Final \<Rightarrow> 'w \<Rightarrow> os_error option \<times> 'w"
  k_dbusOutput :: "Final \<Rightarrow> 'w \<Rightarrow> string list \<times> 'w"
  k_writeFile :: "string \<Rightarrow> string \<Rightarrow> 'w \<Rightarrow> os_error option \<times> 'w"
  k_osRemove :: "string \<Rightarrow> 'w \<Rightarrow> os_error option \<times> 'w"

text \<open>\<open>k_dbusOutput\<close> gives what the proxy process wrote since it was last asked.\<close>

definition errs :: "os_error option \<Rightarrow> os_error list" where
  "errs r = (case r of None \<Rightarrow> [] | Some e \<Rightarrow> [e])"

definition op_result :: "string \<Rightarrow> bool \<Rightarrow> os_error option \<times> 'w \<Rightarrow> OpError option \<times> 'w" where
  "op_result op revert r = (newOpError op (errs (fst r)) revert, snd r)"

subsection \<open>Types and criteria\<close>

definition User :: Enablement where "User = push_bit 0 EM"
definition Process :: Enablement where "Process = push_bit 1 EM"
definition CM :: Enablement where "CM = push_bit 2 EM"

text \<open>\<open>None\<close> is the nil criteria.\<close>

definition hasType :: "Enablement option \<Rightarrow> Enablement \<Rightarrow> bool" where
  "hasType ec t = (case ec of None \<Rightarrow> t \<noteq> User | Some c \<Rightarrow> c AND t \<noteq> 0)"

definition TypeString :: "Enablement \<Rightarrow> string" where
  "TypeString e =
     (if e = User then ''user''
      else if e = Process then ''process''
      else
        (let v = e AND NOT User AND NOT Process in
         TrimPrefix ((if v \<noteq> 0 then Enablement_String v else [])
           @ (if e AND User \<noteq> 0 then '', '' @ ''user'' else [])
           @ (if e AND Process \<noteq> 0 then '', '' @ ''process'' else [])) '', ''))"

subsection \<open>mkdir.go\<close>

record mkdirOp =
  mk_et :: Enablement
  mk_path :: string
  mk_perm :: nat
  mk_ephemeral :: bool

definition mkdir_apply :: "'w sysk \<Rightarrow> mkdirOp \<Rightarrow> 'w \<Rightarrow> OpError option \<times> 'w" where
  "mkdir_apply k m w =
     (case k_mkdir k (mk_path m) (mk_perm m) w of
        (None, w') \<Rightarrow> (None, w')
      | (Some err, w') \<Rightarrow>
          if err \<noteq> ErrExist then (newOpError ''mkdir'' [err] False, w')
          else op_result ''mkdir'' False (k_chmod k (mk_path m) (mk_perm m) w'))"

definition mkdir_revert :: "'w sysk \<Rightarrow> Enablement option \<Rightarrow> mkdirOp \<Rightarrow> 'w \<Rightarrow> OpError option \<times> 'w" where
  "mkdir_revert k ec m w =
     (if \<not> mk_ephemeral m then (None, w)
      else if hasType ec (mk_et m) then op_result ''mkdir'' True (k_remove k (mk_path m) w)
      else (None, w))"

subsection \<open>link.go\<close>

record hardlinkOp =
  hl_et :: Enablement
  hl_dst :: string
  hl_src :: string

definition hardlink_apply :: "'w sysk \<Rightarrow> hardlinkOp \<Rightarrow> 'w \<Rightarrow> OpError option \<times> 'w" where
  "hardlink_apply k l w = op_result ''hardlink'' False (k_link k (hl_src l) (hl_dst l) w)"

definition hardlink_revert :: "'w sysk \<Rightarrow> Enablement option \<Rightarrow> hardlinkOp \<Rightarrow> 'w \<Rightarrow> OpError option \<times> 'w" where
  "hardlink_revert k ec l w =
     (if hasType ec (hl_et l) then op_result ''hardlink'' True (k_remove k (hl_dst l) w) else (None, w))"

subsection \<open>acl.go\<close>

record aclUpdateOp =
  acl_et :: Enablement
  acl_path :: string
  acl_perms :: "acl_perm list"

definition acl_apply :: "'w sysk \<Rightarrow> int \<Rightarrow> aclUpdateOp \<Rightarrow> 'w \<Rightarrow> OpError option \<times> 'w" where
  "acl_apply k uid a w = op_result ''acl'' False (k_aclUpdate k (acl_path a) uid (acl_perms a) w)"

definition acl_revert :: "'w sysk \<Rightarrow> int \<Rightarrow> Enablement option \<Rightarrow> aclUpdateOp \<Rightarrow> 'w \<Rightarrow> OpError option \<times> 'w" where
  "acl_revert k uid ec a w =
     (if hasType ec (acl_et a) then
        (let (err, w') = k_aclUpdate k (acl_path a) uid [] w;
             err = (if err = Some ErrNotExist then None else err)
         in (newOpError ''acl'' (errs err) True, w'))
      else (None, w))"

subsection \<open>xhost.go\<close>

definition xhost_address :: "string \<Rightarrow> string" where
  "xhost_address x = ''localuser'' @ [CHR 0x00] @ x"

definition xhost_apply :: "'w sysk \<Rightarrow> string \<Rightarrow> 'w \<Rightarrow> OpError option \<times> 'w" where
  "xhost_apply k x w = op_result ''xhost'' False (k_xcbChangeHosts k True (xhost_address x) w)"

definition xhost_revert :: "'w sysk \<Rightarrow> Enablement option \<Rightarrow> string \<Rightarrow> 'w \<Rightarrow> OpError option \<times> 'w" where
  "xhost_revert k ec x w =
     (if hasType ec EX11 then op_result ''xhost'' True (k_xcbChangeHosts k False (xhost_address x) w)
      else (None, w))"

subsection \<open>wayland.go\<close>

record waylandOp =
  wl_ctx :: "nat option"
  wl_dst :: string
  wl_src :: string
  wl_appID :: string
  wl_instanceID :: string

text \<open>The tail of a failed call once the socket exists.\<close>

definition wayland_fail :: "'w sysk \<Rightarrow> nat \<Rightarrow> os_error \<Rightarrow> 'w \<Rightarrow> OpError option \<times> 'w" where
  "wayland_fail k ctx err w =
     (case k_waylandClose k ctx w of
        (Some closeErr, w') \<Rightarrow> (newOpError ''wayland'' [err, closeErr] False, w')
      | (None, w') \<Rightarrow> (newOpError ''wayland'' [err] False, w'))"

definition wayland_apply :: "'w sysk \<Rightarrow> int \<Rightarrow> waylandOp \<Rightarrow> 'w \<Rightarrow> OpError option \<times> waylandOp \<times> 'w" where
  "wayland_apply k uid x w =
     (case k_waylandNew k (wl_src x) (wl_dst x) (wl_appID x) (wl_instanceID x) w of
        (Inl err, w1) \<Rightarrow> (newOpError ''wayland'' [err] False, x\<lparr>wl_ctx := None\<rparr>, w1)
      | (Inr ctx, w1) \<Rightarrow>
          (let x = x\<lparr>wl_ctx := Some ctx\<rparr> in
           case k_chmod k (wl_dst x) 0 w1 of
             (Some err, w2) \<Rightarrow> (let (e, w3) = wayland_fail k ctx err w2 in (e, x, w3))
           | (None, w2) \<Rightarrow>
               (case k_aclUpdate k (wl_dst x) uid [Read, Write, Execute] w2 of
                  (Some err, w3) \<Rightarrow> (let (e, w4) = wayland_fail k ctx err w3 in (e, x, w4))
                | (None, w3) \<Rightarrow> (None, x, w3))))"

definition wayland_revert :: "'w sysk \<Rightarrow> waylandOp \<Rightarrow> 'w \<Rightarrow> OpError option \<times> 'w" where
  "wayland_revert k x w =
     (let (hangupErr, w1) = (case wl_ctx x of None \<Rightarrow> (None, w) | Some ctx \<Rightarrow> k_waylandClose k ctx w);
          (err, w2) = k_remove k (wl_dst x) w1;
          removeErr = (if err = Some ErrNotExist then None else err)
      in (newOpError ''wayland'' (errs hangupErr @ errs removeErr) True, w2))"

subsection \<open>cgroup.go\<close>

record CgroupLimits =
  cl_CPU :: u64
  cl_Memory :: u64
  cl_Pids :: int

record cgroupOp =
  cg_base :: string
  cg_path :: string
  cg_limits :: CgroupLimits
  cg_created :: "string list"
  cg_files :: "string list"

text \<open>The loop of \<open>ensurePath\<close> over the parts not yet made; the last part must be new.\<close>

fun ensure_parts :: "'w sysk \<Rightarrow> string \<Rightarrow> string list \<Rightarrow> string list \<Rightarrow> 'w \<Rightarrow> OpError option \<times> string list \<times> 'w" where
  "ensure_parts k cur [] created w = (None, created, w)"
| "ensure_parts k cur (part # parts) created w =
     (if part = [] then ensure_parts k cur parts created w
      else
        (let cur = path_Join [cur, part] in
         case k_mkdir k cur 493 w of
           (None, w') \<Rightarrow> ensure_parts k cur parts (created @ [cur]) w'
         | (Some err, w') \<Rightarrow>
             if err = ErrExist then
               (if parts = []
                then (newOpErrorMessage ''cgroup'' [err] (''cgroup '' @ cur @ '' already exists'') False, created, w')
                else ensure_parts k cur parts created w')
             else (newOpError ''cgroup'' [err] False, created, w')))"

definition ensurePath :: "'w sysk \<Rightarrow> cgroupOp \<Rightarrow> 'w \<Rightarrow> OpError option \<times> cgroupOp \<times> 'w" where
  "ensurePath k c w =
     (let rel = TrimPrefix (TrimPrefix (cg_path c) (cg_base c)) ''/'' in
      if rel = [] then (newOpErrorMessage ''cgroup'' [EINVAL] ''cgroup path cannot equal slice'' False, c, w)
      else
        (let (e, created, w') = ensure_parts k (cg_base c) (Split CHR ''/'' rel) (cg_created c) w
         in (e, c\<lparr>cg_created := created\<rparr>, w')))"

definition writeControllerFile ::
  "'w sysk \<Rightarrow> cgroupOp \<Rightarrow> string \<Rightarrow> string \<Rightarrow> 'w \<Rightarrow> OpError option \<times> cgroupOp \<times> 'w" where
  "writeControllerFile k c name val w =
     (let file = path_Join [cg_path c, name] in
      case k_writeFile k file val w of
        (Some err, w') \<Rightarrow> (newOpError ''cgroup'' [err] False, c, w')
      | (None, w') \<Rightarrow> (None, c\<lparr>cg_files := cg_files c @ [file]\<rparr>, w'))"

text \<open>The controller files the limits ask for, in order.\<close>

definition limit_files :: "CgroupLimits \<Rightarrow> (string \<times> string) list" where
  "limit_files l =
     (if 0 < cl_CPU l then [(''cpu.max'', format_nat 10 (unat (cl_CPU l)) @ '' 100000'')] else [])
     @ (if 0 < cl_Memory l then [(''memory.max'', format_nat 10 (unat (cl_Memory l)))] else [])
     @ (if 0 < cl_Pids l then [(''pids.max'', Itoa (cl_Pids l))] else [])"

fun write_limits :: "'w sysk \<Rightarrow> cgroupOp \<Rightarrow> (string \<times> string) list \<Rightarrow> 'w \<Rightarrow> OpError option \<times> cgroupOp \<times> 'w" where
  "write_limits k c [] w = (None, c, w)"
| "write_limits k c ((name, val) # fs) w =
     (case writeControllerFile k c name val w of
        (Some e, c', w') \<Rightarrow> (Some e, c', w')
      | (None, c', w') \<Rightarrow> write_limits k c' fs w')"

definition applyLimits :: "'w sysk \<Rightarrow> cgroupOp \<Rightarrow> 'w \<Rightarrow> OpError option \<times> cgroupOp \<times> 'w" where
  "applyLimits k c w = write_limits k c (limit_files (cg_limits c)) w"

definition cgroup_apply :: "'w sysk \<Rightarrow> cgroupOp \<Rightarrow> 'w \<Rightarrow> OpError option \<times> cgroupOp \<times> 'w" where
  "cgroup_apply k c w =
     (if \<not> HasPrefix (cg_path c) (cg_base c)
      then (newOpErrorMessage ''cgroup'' [EINVAL] ''cgroup path escapes slice'' False, c, w)
      else
        case k_stat k (cg_base c) w of
          (Some err, w1) \<Rightarrow> (newOpError ''cgroup'' [err] False, c, w1)
        | (None, w1) \<Rightarrow>
            (case ensurePath k c w1 of
               (Some e, c', w2) \<Rightarrow> (Some e, c', w2)
             | (None, c', w2) \<Rightarrow> applyLimits k c' w2))"

fun remove_dirs :: "'w sysk \<Rightarrow> string list \<Rightarrow> 'w \<Rightarrow> OpError list \<times> 'w" where
  "remove_dirs k [] w = ([], w)"
| "remove_dirs k (dir # dirs) w =
     (let (err, w1) = k_remove k dir w; (es, w2) = remove_dirs k dirs w1 in
      (case err of
         None \<Rightarrow> es
       | Some e \<Rightarrow> if e = ErrNotExist \<or> e = ENOTEMPTY then es else the (newOpError ''cgroup'' [e] True) # es, w2))"

definition cgroup_revert :: "'w sysk \<Rightarrow> Enablement option \<Rightarrow> cgroupOp \<Rightarrow> 'w \<Rightarrow> OpError list \<times> 'w" where
  "cgroup_revert k ec c w =
     (if ec \<noteq> None \<and> \<not> hasType ec Process then ([], w)
      else
        (let w1 = fold (\<lambda>file w. snd (k_osRemove k file w)) (rev (cg_files c)) w
         in remove_dirs k (rev (cg_created c)) w1))"

subsection \<open>dbus.go\<close>

record dbusProxyOp =
  db_proxy :: "Final option"
  db_final :: Final
  db_out :: linePrefixWriter
  db_system :: bool

definition dbus_feed :: "'w sysk \<Rightarrow> dbusProxyOp \<Rightarrow> 'w \<Rightarrow> dbusProxyOp \<times> 'w" where
  "dbus_feed k d w =
     (let (chunks, w') = k_dbusOutput k (db_final d) w in (d\<lparr>db_out := lpw_writes (db_out d) chunks\<rparr>, w'))"

definition dbus_apply :: "'w sysk \<Rightarrow> dbusProxyOp \<Rightarrow> 'w \<Rightarrow> OpError option \<times> dbusProxyOp \<times> 'w" where
  "dbus_apply k d w =
     (let d = d\<lparr>db_proxy := Some (db_final d)\<rparr> in
      case k_dbusProxyStart k (db_final d) w of
        (Some err, w1) \<Rightarrow>
          (let (d, w2) = dbus_feed k d w1 in
           (newOpErrorMessage ''dbus'' [err] (''cannot start message bus proxy: '' @ e_Error (k_err k) [err]) False,
            d\<lparr>db_out := lpw_Dump (db_out d)\<rparr>, w2))
      | (None, w1) \<Rightarrow> (None, d, w1))"

text \<open>Closing a proxy that was never made dereferences a nil pointer.\<close>

definition dbus_revert :: "'w sysk \<Rightarrow> dbusProxyOp \<Rightarrow> 'w \<Rightarrow> (unit, OpError option \<times> dbusProxyOp \<times> 'w) go" where
  "dbus_revert k d w =
     (case db_proxy d of
        None \<Rightarrow> Panic ''nil pointer dereference''
      | Some p \<Rightarrow>
          (let w1 = k_dbusProxyClose k p w;
               (d, w2) = dbus_feed k d w1;
               d = d\<lparr>db_out := lpw_Dump (db_out d)\<rparr>;
               (err, w3) = k_dbusProxyWait k p w2;
               err = (if err = Some Canceled then None else err)
           in Ret (newOpErrorMessage ''dbus'' (errs err) (''message bus proxy error: '' @ e_Error (k_err k) (errs err)) True, d, w3)))"

subsection \<open>The interface Op\<close>

datatype op =
    Mkdir mkdirOp | Hardlink hardlinkOp | AclUpdate aclUpdateOp | Xhost string
  | Wayland waylandOp | Cgroup cgroupOp | DbusProxy dbusProxyOp

fun op_Type :: "op \<Rightarrow> Enablement" where
  "op_Type (Mkdir m) = mk_et m"
| "op_Type (Hardlink l) = hl_et l"
| "op_Type (AclUpdate a) = acl_et a"
| "op_Type (Xhost x) = EX11"
| "op_Type (Wayland x) = Process"
| "op_Type (Cgroup c) = Process"
| "op_Type (DbusProxy d) = Process"

fun op_apply :: "'w sysk \<Rightarrow> int \<Rightarrow> op \<Rightarrow> 'w \<Rightarrow> OpError option \<times> op \<times> 'w" where
  "op_apply k uid (Mkdir m) w = (let (e, w') = mkdir_apply k m w in (e, Mkdir m, w'))"
| "op_apply k uid (Hardlink l) w = (let (e, w') = hardlink_apply k l w in (e, Hardlink l, w'))"
| "op_apply k uid (AclUpdate a) w = (let (e, w') = acl_apply k uid a w in (e, AclUpdate a, w'))"
| "op_apply k uid (Xhost x) w = (let (e, w') = xhost_apply k x w in (e, Xhost x, w'))"
| "op_apply k uid (Wayland x) w = (let (e, x', w') = wayland_apply k uid x w in (e, Wayland x', w'))"
| "op_apply k uid (Cgroup c) w = (let (e, c', w') = cgroup_apply k c w in (e, Cgroup c', w'))"
| "op_apply k uid (DbusProxy d) w = (let (e, d', w') = dbus_apply k d w in (e, DbusProxy d', w'))"

definition olist :: "'a option \<Rightarrow> 'a list" where
  "olist x = (case x of None \<Rightarrow> [] | Some y \<Rightarrow> [y])"

definition revert_ret :: "OpError option \<times> 'w \<Rightarrow> op \<Rightarrow> (unit, OpError list \<times> op \<times> 'w) go" where
  "revert_ret r x = Ret (olist (fst r), x, snd r)"

fun op_revert :: "'w sysk \<Rightarrow> int \<Rightarrow> Enablement option \<Rightarrow> op \<Rightarrow> 'w \<Rightarrow> (unit, OpError list \<times> op \<times> 'w) go" where
  "op_revert k uid ec (Mkdir m) w = revert_ret (mkdir_revert k ec m w) (Mkdir m)"
| "op_revert k uid ec (Hardlink l) w = revert_ret (hardlink_revert k ec l w) (Hardlink l)"
| "op_revert k uid ec (AclUpdate a) w = revert_ret (acl_revert k uid ec a w) (AclUpdate a)"
| "op_revert k uid ec (Xhost x) w = revert_ret (xhost_revert k ec x w) (Xhost x)"
| "op_revert k uid ec (Wayland x) w = revert_ret (wayland_revert k x w) (Wayland x)"
| "op_revert k uid ec (Cgroup c) w = (let (es, w') = cgroup_revert k ec c w in Ret (es, Cgroup c, w'))"
| "op_revert k uid ec (DbusProxy d) w =
     bind_go (dbus_revert k d w) (\<lambda>(e, d', w'). Ret (olist e, DbusProxy d', w'))"

fun op_Is :: "op \<Rightarrow> op \<Rightarrow> bool" where
  "op_Is (Mkdir m) (Mkdir t) \<longleftrightarrow> m = t"
| "op_Is (Hardlink l) (Hardlink t) \<longleftrightarrow> l = t"
| "op_Is (AclUpdate a) (AclUpdate t) \<longleftrightarrow> a = t"
| "op_Is (Xhost x) (Xhost t) \<longleftrightarrow> x = t"
| "op_Is (Wayland x) (Wayland t) \<longleftrightarrow>
     wl_dst x \<noteq> [] \<and> wl_dst x = wl_dst t \<and> wl_src x \<noteq> [] \<and> wl_src x = wl_src t \<and>
     wl_appID x = wl_appID t \<and> wl_instanceID x = wl_instanceID t"
| "op_Is (Cgroup c) (Cgroup t) \<longleftrightarrow> cg_base c = cg_base t \<and> cg_path c = cg_path t \<and> cg_limits c = cg_limits t"
| "op_Is (DbusProxy d) (DbusProxy t) \<longleftrightarrow>
     db_system d = db_system t \<and> Session (db_final d) = Session (db_final t) \<and>
     System (db_final d) = System (db_final t) \<and>
     EqualAddrEntries (SessionUpstream (db_final d)) (SessionUpstream (db_final t)) \<and>
     EqualAddrEntries (SystemUpstream (db_final d)) (SystemUpstream (db_final t)) \<and>
     WriterTo (db_final d) = WriterTo (db_final t)"
| "op_Is _ _ \<longleftrightarrow> False"

definition Nonexistent :: string where "Nonexistent = fhs_Proc @ ''nonexistent''"

fun op_Path :: "op \<Rightarrow> string" where
  "op_Path (Mkdir m) = mk_path m"
| "op_Path (Hardlink l) = hl_src l"
| "op_Path (AclUpdate a) = acl_path a"
| "op_Path (Xhost x) = ''/tmp/.X11-unix''"
| "op_Path (Wayland x) = wl_dst x"
| "op_Path (Cgroup c) = cg_path c"
| "op_Path (DbusProxy d) = Nonexistent"

end
