(* ===== verification/Sys_Commit.thy ===== *)
theory Sys_Commit
  imports Sys_Ops
begin

text \<open>
  \<open>internal/system/system.go\<close>: the list of operations \<open>I\<close>, the methods that add to it,
  \<open>Commit\<close> with its rollback and \<open>Revert\<close>. The contract between the list and an operation is the
  locale \<open>reversible\<close>; what an operation needs of the host to fulfil it is the
  locale \<open>undoable_host\<close>, and when it can be undone there the predicate \<open>op_fresh\<close>.
\<close>

subsection \<open>system.go\<close>

record I =
  I_uid :: int
  I_ops :: "op list"
  I_committed :: bool
  I_reverted :: bool

text \<open>\<open>nils\<close>: whether the context or the message interface is nil.\<close>

definition New :: "bool \<Rightarrow> int \<Rightarrow> ('e, I) go" where
  "New nils uid =
     (if nils \<or> uid < 0 then Panic ''invalid call to New''
      else Ret \<lparr>I_uid = uid, I_ops = [], I_committed = False, I_reverted = False\<rparr>)"

fun ops_Is :: "op list \<Rightarrow> op list \<Rightarrow> bool" where
  "ops_Is (p # ps) (q # qs) \<longleftrightarrow> op_Is p q \<and> ops_Is ps qs"
| "ops_Is _ _ \<longleftrightarrow> True"

definition I_Equal :: "I option \<Rightarrow> I option \<Rightarrow> bool" where
  "I_Equal sys target =
     (case (sys, target) of
        (Some s, Some t) \<Rightarrow>
          I_uid s = I_uid t \<and> length (I_ops s) = length (I_ops t) \<and> ops_Is (I_ops s) (I_ops t)
      | _ \<Rightarrow> False)"

definition I_append :: "I \<Rightarrow> op \<Rightarrow> I" where
  "I_append sys p = sys\<lparr>I_ops := I_ops sys @ [p]\<rparr>"

definition Ensure :: "I \<Rightarrow> absolute \<Rightarrow> nat \<Rightarrow> (abs_error, I) go" where
  "Ensure sys name perm =
     bind_go (abs_String name) (\<lambda>s.
       Ret (I_append sys (Mkdir \<lparr>mk_et = User, mk_path = s, mk_perm = perm, mk_ephemeral = False\<rparr>)))"

definition Ephemeral :: "I \<Rightarrow> Enablement \<Rightarrow> absolute \<Rightarrow> nat \<Rightarrow> (abs_error, I) go" where
  "Ephemeral sys et name perm =
     bind_go (abs_String name) (\<lambda>s.
       Ret (I_append sys (Mkdir \<lparr>mk_et = et, mk_path = s, mk_perm = perm, mk_ephemeral = True\<rparr>)))"

definition LinkFileType :: "I \<Rightarrow> Enablement \<Rightarrow> absolute \<Rightarrow> absolute \<Rightarrow> (abs_error, I) go" where
  "LinkFileType sys et oldname newname =
     bind_go (abs_String newname) (\<lambda>dst. bind_go (abs_String oldname) (\<lambda>src.
       Ret (I_append sys (Hardlink \<lparr>hl_et = et, hl_dst = dst, hl_src = src\<rparr>))))"

definition Link :: "I \<Rightarrow> absolute \<Rightarrow> absolute \<Rightarrow> (abs_error, I) go" where
  "Link sys oldname newname = LinkFileType sys Process oldname newname"

definition UpdatePermType :: "I \<Rightarrow> Enablement \<Rightarrow> absolute \<Rightarrow> acl_perm list \<Rightarrow> (abs_error, I) go" where
  "UpdatePermType sys et name perms =
     bind_go (abs_String name) (\<lambda>s.
       Ret (I_append sys (AclUpdate \<lparr>acl_et = et, acl_path = s, acl_perms = perms\<rparr>)))"

definition UpdatePerm :: "I \<Rightarrow> absolute \<Rightarrow> acl_perm list \<Rightarrow> (abs_error, I) go" where
  "UpdatePerm sys name perms = UpdatePermType sys Process name perms"

definition ChangeHosts :: "I \<Rightarrow> string \<Rightarrow> I" where
  "ChangeHosts sys username = I_append sys (Xhost username)"

definition I_Wayland :: "I \<Rightarrow> absolute \<Rightarrow> absolute \<Rightarrow> string \<Rightarrow> string \<Rightarrow> I" where
  "I_Wayland sys dst src appID instanceID =
     I_append sys (Wayland \<lparr>wl_ctx = None, wl_dst = pathname dst, wl_src = pathname src,
       wl_appID = appID, wl_instanceID = instanceID\<rparr>)"

definition I_Cgroup :: "I option \<Rightarrow> absolute option \<Rightarrow> absolute option \<Rightarrow> CgroupLimits \<Rightarrow> (abs_error, I) go" where
  "I_Cgroup sys base target limits =
     (case (sys, base, target) of
        (Some sys, Some base, Some target) \<Rightarrow>
          bind_go (abs_String base) (\<lambda>b. bind_go (abs_String target) (\<lambda>t.
            Ret (I_append sys (Cgroup \<lparr>cg_base = b, cg_path = t, cg_limits = limits, cg_created = [], cg_files = []\<rparr>))))
      | _ \<Rightarrow> Panic ''invalid cgroup specification'')"

definition ProxyDBus ::
  "errv \<Rightarrow> I \<Rightarrow> BusConfig option \<Rightarrow> BusConfig option \<Rightarrow> ProxyPair \<Rightarrow> ProxyPair \<Rightarrow> (OpError, I) go" where
  "ProxyDBus v sys session system sessionBus systemBus =
     (if session = None
      then Fail (the (newOpErrorMessage ''dbus'' [ErrDBusConfig]
             ''attempted to create message bus proxy args without session bus config'' False))
      else
        case Finalise sessionBus systemBus session system of
          Panic m \<Rightarrow> Panic m
        | Fail e \<Rightarrow>
            Fail (the (newOpErrorMessage ''dbus'' [ErrFinalise e]
              (if e = ArgsEINVAL then ''message bus proxy configuration contains NUL byte''
               else ''cannot finalise message bus proxy: '' @ e_Error v [ErrFinalise e]) False))
        | Ret final \<Rightarrow>
            Ret (I_append sys (DbusProxy \<lparr>db_proxy = None, db_final = final,
              db_out = lpw_new ''(dbus) '', db_system = (system \<noteq> None)\<rparr>)))"

definition MustProxyDBus ::
  "errv \<Rightarrow> I \<Rightarrow> BusConfig option \<Rightarrow> BusConfig option \<Rightarrow> ProxyPair \<Rightarrow> ProxyPair \<Rightarrow> (OpError, I) go" where
  "MustProxyDBus v sys session system sessionBus systemBus =
     (case ProxyDBus v sys session system sessionBus systemBus of
        Fail e \<Rightarrow> Panic (OpError_Error v e)
      | r \<Rightarrow> r)"

text \<open>The loop of \<open>Revert\<close>, over the operations in reverse order. The errors are those
  \<open>errors.Join\<close> keeps.\<close>

fun revert_loop :: "('o \<Rightarrow> 'w \<Rightarrow> (unit, 'e list \<times> 'o \<times> 'w) go) \<Rightarrow> 'o list \<Rightarrow> 'w \<Rightarrow> (unit, 'e list \<times> 'o list \<times> 'w) go" where
  "revert_loop rv [] w = Ret ([], [], w)"
| "revert_loop rv (p # ps) w =
     bind_go (rv p w) (\<lambda>(es, p', w').
     bind_go (revert_loop rv ps w') (\<lambda>(es', ps', w''). Ret (es @ es', p' # ps', w'')))"

definition Revert :: "'w sysk \<Rightarrow> Enablement option \<Rightarrow> I \<Rightarrow> 'w \<Rightarrow> (unit, OpError list \<times> I \<times> 'w) go" where
  "Revert k ec sys w =
     (if I_reverted sys then Panic ''attempting to revert twice''
      else
        bind_go (revert_loop (op_revert k (I_uid sys) ec) (rev (I_ops sys)) w) (\<lambda>(es, ps, w').
          Ret (es, sys\<lparr>I_reverted := True, I_ops := rev ps\<rparr>, w')))"

text \<open>The loop of \<open>Commit\<close>: the error if one occurred, the operations registered for rollback, the
  operation that failed and those not reached.\<close>

fun commit_loop :: "('o \<Rightarrow> 'w \<Rightarrow> 'e option \<times> 'o \<times> 'w) \<Rightarrow> 'o list \<Rightarrow> 'o list \<Rightarrow> 'w \<Rightarrow> 'e option \<times> 'o list \<times> 'o list \<times> 'w" where
  "commit_loop ap sp [] w = (None, sp, [], w)"
| "commit_loop ap sp (p # ps) w =
     (case ap p w of
        (Some e, p', w') \<Rightarrow> (Some e, sp, p' # ps, w')
      | (None, p', w') \<Rightarrow> commit_loop ap (sp @ [p']) ps w')"

text \<open>A joined error is printed one message per error.\<close>

definition printJoinedError :: "'w sysk \<Rightarrow> OpError list \<Rightarrow> 'w \<Rightarrow> 'w" where
  "printJoinedError k es w = fold (\<lambda>e w. k_println k (OpError_Message (k_err k) e) w) es w"

definition Commit :: "'w sysk \<Rightarrow> I \<Rightarrow> 'w \<Rightarrow> (unit, OpError option \<times> I \<times> 'w) go" where
  "Commit k sys w =
     (if I_committed sys then Panic ''attempting to commit twice''
      else
        bind_go (New False (I_uid sys)) (\<lambda>sp.
        (case commit_loop (op_apply k (I_uid sys)) [] (I_ops sys) w of
           (None, done, _, w') \<Rightarrow> Ret (None, sys\<lparr>I_committed := True, I_ops := done\<rparr>, w')
         | (Some e, done, rest, w') \<Rightarrow>
             bind_go (Revert k None (sp\<lparr>I_ops := done\<rparr>) w') (\<lambda>(es, sp', w'').
               Ret (Some e, sys\<lparr>I_committed := True, I_ops := I_ops sp' @ rest\<rparr>,
                 if es \<noteq> [] then printJoinedError k es w'' else w'')))))"

subsection \<open>The contract of an operation\<close>

text \<open>\<open>ok w p\<close>: in the state \<open>w\<close> the operation \<open>p\<close> can be applied and undone. A failed operation
  leaves the state alone, and reverting a successful one restores the state it started from.\<close>

fun ok_run :: "('o \<Rightarrow> 'w \<Rightarrow> 'e option \<times> 'o \<times> 'w) \<Rightarrow> ('w \<Rightarrow> 'o \<Rightarrow> bool) \<Rightarrow> 'o list \<Rightarrow> 'w \<Rightarrow> bool" where
  "ok_run ap ok [] w = True"
| "ok_run ap ok (p # ps) w = (ok w p \<and> (fst (ap p w) = None \<longrightarrow> ok_run ap ok ps (snd (snd (ap p w)))))"

locale reversible =
  fixes ap :: "'o \<Rightarrow> 'w \<Rightarrow> 'e option \<times> 'o \<times> 'w"
    and rv :: "'o \<Rightarrow> 'w \<Rightarrow> (unit, 'e list \<times> 'o \<times> 'w) go"
    and ok :: "'w \<Rightarrow> 'o \<Rightarrow> bool"
  assumes fail_unchanged: "ok w p \<Longrightarrow> ap p w = (Some e, p', w') \<Longrightarrow> w' = w"
    and undo: "ok w p \<Longrightarrow> ap p w = (None, p', w') \<Longrightarrow> \<exists>p''. rv p' w' = Ret ([], p'', w)"
begin

lemma commit_undone:
  "ok_run ap ok ps w \<Longrightarrow> (\<exists>ps'. revert_loop rv (rev sp) w = Ret ([], ps', w0)) \<Longrightarrow>
     commit_loop ap sp ps w = (r, sp', rest, w') \<Longrightarrow>
     \<exists>ps'. revert_loop rv (rev sp') w' = Ret ([], ps', w0)"
proof (induction ps arbitrary: sp w)
  case (Cons p ps)
  obtain e p' w1 where a: "ap p w = (e, p', w1)" by (cases "ap p w")
  show ?case
  proof (cases e)
    case (Some err)
    with a Cons.prems fail_unchanged [of w p err p' w1] show ?thesis by auto
  next
    case None
    with a Cons.prems(1) undo [of w p p' w1] obtain p'' where "rv p' w1 = Ret ([], p'', w)" by auto
    with Cons.prems(2) have "\<exists>ps'. revert_loop rv (rev (sp @ [p'])) w1 = Ret ([], ps', w0)" by auto
    moreover from None a Cons.prems(1) have "ok_run ap ok ps w1" by simp
    moreover from None a Cons.prems(3) have "commit_loop ap (sp @ [p']) ps w1 = (r, sp', rest, w')" by simp
    ultimately show ?thesis using Cons.IH by blast
  qed
qed auto

lemma commit_rollback:
  "ok_run ap ok ps w \<Longrightarrow> commit_loop ap [] ps w = (r, sp, rest, w') \<Longrightarrow>
     \<exists>ps'. revert_loop rv (rev sp) w' = Ret ([], ps', w)"
  using commit_undone [of ps w "[]" w] by simp

end

text \<open>The host on which operations can be undone: a failed call changes nothing; removing what \<open>mkdir\<close> or
  \<open>link\<close> has just made restores the state, and so does removing an ACL entry or a host entry that was
  not there before (\<open>acl_clear\<close>, \<open>host_new\<close>); hanging up and removing a Wayland socket undoes making it
  where there was no file (\<open>New\<close> replaces a file that is there);
  a proxy that is closed and waited for is gone; and removing the directory of a control group discards what
  was done to its controller files.\<close>

definition controller_files :: "string list" where
  "controller_files = [''cpu.max'', ''memory.max'', ''pids.max'']"

definition touch :: "'w sysk \<Rightarrow> string \<Rightarrow> 'w \<Rightarrow> 'w \<Rightarrow> bool" where
  "touch k d w w' \<longleftrightarrow> (\<exists>name\<in>set controller_files. \<exists>val r.
     k_writeFile k (path_Join [d, name]) val w = (r, w') \<or> k_osRemove k (path_Join [d, name]) w = (r, w'))"

locale undoable_host =
  fixes k :: "'w sysk" and host_new :: "string \<Rightarrow> 'w \<Rightarrow> bool" and acl_clear :: "string \<Rightarrow> int \<Rightarrow> 'w \<Rightarrow> bool"
  assumes mkdir_fail: "k_mkdir k p m w = (Some e, w') \<Longrightarrow> w' = w"
    and mkdir_remove: "k_mkdir k p m w = (None, w') \<Longrightarrow> k_remove k p w' = (None, w)"
    and chmod_fail: "k_chmod k p m w = (Some e, w') \<Longrightarrow> w' = w"
    and link_fail: "k_link k p q w = (Some e, w') \<Longrightarrow> w' = w"
    and link_remove: "k_link k p q w = (None, w') \<Longrightarrow> k_remove k q w' = (None, w)"
    and acl_fail: "k_aclUpdate k p uid perms w = (Some e, w') \<Longrightarrow> w' = w"
    and acl_strip: "acl_clear p uid w \<Longrightarrow> k_aclUpdate k p uid perms w = (None, w') \<Longrightarrow>
      k_aclUpdate k p uid [] w' = (None, w)"
    and hosts_fail: "k_xcbChangeHosts k b a w = (Some e, w') \<Longrightarrow> w' = w"
    and hosts_delete: "host_new a w \<Longrightarrow> k_xcbChangeHosts k True a w = (None, w') \<Longrightarrow>
      k_xcbChangeHosts k False a w' = (None, w)"
    and wayland_fail: "fst (k_stat k dst w) = Some ErrNotExist \<Longrightarrow> k_waylandNew k src dst appID ident w = (Inl e, w') \<Longrightarrow> w' = w"
    and wayland_hangup: "fst (k_stat k dst w) = Some ErrNotExist \<Longrightarrow> k_waylandNew k src dst appID ident w = (Inr ctx, w1) \<Longrightarrow>
      k_chmod k dst m w1 = (None, w2) \<Longrightarrow>
      k_aclUpdate k dst uid perms w2 = (None, w3) \<Longrightarrow>
      \<exists>w4 e. k_waylandClose k ctx w3 = (None, w4) \<and> k_remove k dst w4 = (e, w) \<and> (e = None \<or> e = Some ErrNotExist)"
    and proxy_fail: "k_dbusProxyStart k f w = (Some e, w1) \<Longrightarrow> k_dbusOutput k f w1 = (out, w2) \<Longrightarrow> w2 = w"
    and proxy_stop: "k_dbusProxyStart k f w = (None, w1) \<Longrightarrow> k_dbusOutput k f (k_dbusProxyClose k f w1) = (out, w2) \<Longrightarrow>
      \<exists>e. k_dbusProxyWait k f w2 = (e, w) \<and> (e = None \<or> e = Some Canceled)"
    and stat_pure: "k_stat k p w = (r, w') \<Longrightarrow> w' = w"
    and write_fail: "k_writeFile k p val w = (Some e, w') \<Longrightarrow> w' = w"
    and group_remove: "k_mkdir k d m w = (None, w1) \<Longrightarrow> (touch k d)\<^sup>*\<^sup>* w1 w2 \<Longrightarrow> k_remove k d w2 = (None, w)"

text \<open>The operations that leave nothing behind: a directory that did not exist and is removed under the
  criteria, or one that is kept and exists with its mode; links, ACL entries and host entries under the
  criteria, the latter two new; a Wayland socket or a control group that does not fail after it has made
  something, where the directory of the control group is one it made; and any proxy.\<close>

fun op_fresh ::
  "'w sysk \<Rightarrow> (string \<Rightarrow> 'w \<Rightarrow> bool) \<Rightarrow> (string \<Rightarrow> int \<Rightarrow> 'w \<Rightarrow> bool) \<Rightarrow> int \<Rightarrow> Enablement option \<Rightarrow> 'w \<Rightarrow> op \<Rightarrow> bool" where
  "op_fresh k host_new acl_clear uid ec w (Mkdir m) \<longleftrightarrow>
     (mk_ephemeral m \<and> hasType ec (mk_et m) \<and> fst (k_mkdir k (mk_path m) (mk_perm m) w) \<noteq> Some ErrExist) \<or>
     (\<not> mk_ephemeral m \<and> k_mkdir k (mk_path m) (mk_perm m) w = (Some ErrExist, w) \<and>
        snd (k_chmod k (mk_path m) (mk_perm m) w) = w)"
| "op_fresh k host_new acl_clear uid ec w (Hardlink l) \<longleftrightarrow> hasType ec (hl_et l)"
| "op_fresh k host_new acl_clear uid ec w (AclUpdate a) \<longleftrightarrow> hasType ec (acl_et a) \<and> acl_clear (acl_path a) uid w"
| "op_fresh k host_new acl_clear uid ec w (Xhost x) \<longleftrightarrow> hasType ec EX11 \<and> host_new (xhost_address x) w"
| "op_fresh k host_new acl_clear uid ec w (Wayland x) \<longleftrightarrow>
     fst (k_stat k (wl_dst x) w) = Some ErrNotExist \<and>
     (fst (wayland_apply k uid x w) = None \<or>
      (\<exists>e w'. k_waylandNew k (wl_src x) (wl_dst x) (wl_appID x) (wl_instanceID x) w = (Inl e, w')))"
| "op_fresh k host_new acl_clear uid ec w (Cgroup c) \<longleftrightarrow>
     cg_created c = [] \<and> cg_files c = [] \<and> (ec = None \<or> hasType ec Process) \<and>
     (case cgroup_apply k c w of
        (None, c', _) \<Rightarrow> cg_created c' \<noteq> [] \<and> last (cg_created c') = cg_path c
      | (Some _, c', _) \<Rightarrow> cg_created c' = [] \<and> cg_files c' = [])"
| "op_fresh k host_new acl_clear uid ec w (DbusProxy d) \<longleftrightarrow> True"

lemma op_result_case: "op_result op b r = (case r of (e, w) \<Rightarrow> (newOpError op (errs e) b, w))"
  by (cases r) (simp add: op_result_def)

lemma revert_ret_case: "revert_ret r p = (case r of (e, w) \<Rightarrow> Ret (olist e, p, w))"
  by (cases r) (simp add: revert_ret_def)

lemmas op_run_simps = mkdir_apply_def mkdir_revert_def hardlink_apply_def hardlink_revert_def
  acl_apply_def acl_revert_def xhost_apply_def xhost_revert_def op_result_case newOpError_def
  errs_def revert_ret_case olist_def

text \<open>The directories and files of a control group: the directories are made one after the other.\<close>

fun made_dirs :: "'w sysk \<Rightarrow> string list \<Rightarrow> 'w \<Rightarrow> 'w \<Rightarrow> bool" where
  "made_dirs k [] w w' \<longleftrightarrow> w' = w"
| "made_dirs k (d # ds) w w' \<longleftrightarrow> (\<exists>w1. k_mkdir k d 493 w = (None, w1) \<and> made_dirs k ds w1 w')"

lemma made_dirs_snoc: "made_dirs k (ds @ [d]) w w' \<longleftrightarrow> (\<exists>w1. made_dirs k ds w w1 \<and> k_mkdir k d 493 w1 = (None, w'))"
  by (induction ds arbitrary: w) auto

lemma limit_files_names: "(name, val) \<in> set (limit_files l) \<Longrightarrow> name \<in> set controller_files"
  by (auto simp: limit_files_def controller_files_def split: if_splits)

lemma write_limits_kept:
  "write_limits k c fs w = (r, c', w') \<Longrightarrow>
     cg_created c' = cg_created c \<and> cg_path c' = cg_path c \<and>
     (\<exists>n. cg_files c' = cg_files c @ map (\<lambda>(name, _). path_Join [cg_path c, name]) (take n fs) \<and> (r = None \<longrightarrow> n = length fs))"
proof (induction k c fs w rule: write_limits.induct)
  case (2 k c name val fs w)
  obtain e c1 w1 where wr: "writeControllerFile k c name val w = (e, c1, w1)"
    by (metis prod_cases3)
  show ?case
  proof (cases e)
    case None
    with wr have c1: "c1 = c\<lparr>cg_files := cg_files c @ [path_Join [cg_path c, name]]\<rparr>"
      by (auto simp: writeControllerFile_def Let_def newOpError_def split: prod.splits option.splits)
    from 2(1) [OF wr [symmetric] None refl] 2(2) wr None obtain n where
      "cg_created c' = cg_created c1" "cg_path c' = cg_path c1"
      "cg_files c' = cg_files c1 @ map (\<lambda>(name, _). path_Join [cg_path c1, name]) (take n fs)"
      "r = None \<longrightarrow> n = length fs" by auto
    then show ?thesis unfolding c1 by (auto intro!: exI [of _ "Suc n"])
  next
    case (Some err)
    with wr 2(2) show ?thesis
      by (auto simp: writeControllerFile_def Let_def split: prod.splits option.splits intro!: exI [of _ 0])
  qed
qed auto

lemma write_limits_touch:
  assumes "write_limits k c fs w = (r, c', w')" "\<And>name val. (name, val) \<in> set fs \<Longrightarrow> name \<in> set controller_files"
  shows "(touch k (cg_path c))\<^sup>*\<^sup>* w w'"
  using assms
proof (induction k c fs w rule: write_limits.induct)
  case (2 k c name val fs w)
  obtain e c1 w1 where wr: "writeControllerFile k c name val w = (e, c1, w1)" by (metis prod_cases3)
  obtain r' where "k_writeFile k (path_Join [cg_path c, name]) val w = (r', w1)" and path: "cg_path c1 = cg_path c"
    using wr by (auto simp: writeControllerFile_def Let_def split: prod.splits option.splits)
  then have one: "touch k (cg_path c) w w1"
    using 2(3) [of name val] unfolding touch_def by (auto intro!: bexI [of _ name])
  show ?case
  proof (cases e)
    case None
    have "write_limits k c1 fs w1 = (r, c', w')" using 2(2) wr None by simp
    from 2(1) [OF wr [symmetric] None refl this] 2(3) have "(touch k (cg_path c1))\<^sup>*\<^sup>* w1 w'" by (meson list.set_intros(2))
    with one path show ?thesis by (simp add: converse_rtranclp_into_rtranclp)
  qed (use one 2(2) wr in auto)
qed simp

lemma remove_files_touch:
  assumes "\<And>f. f \<in> set files \<Longrightarrow> \<exists>name\<in>set controller_files. f = path_Join [d, name]"
  shows "(touch k d)\<^sup>*\<^sup>* w (fold (\<lambda>file w. snd (k_osRemove k file w)) files w)"
  using assms
proof (induction files arbitrary: w)
  case (Cons f files)
  have "touch k d w (snd (k_osRemove k f w))"
    using Cons.prems [of f] unfolding touch_def by (metis list.set_intros(1) prod.collapse)
  with Cons show ?case by (simp add: converse_rtranclp_into_rtranclp)
qed simp

context undoable_host
begin

lemma ensure_parts_made:
  "ensure_parts k cur ps created w = (r, created', w') \<Longrightarrow> \<exists>ds. created' = created @ ds \<and> made_dirs k ds w w'"
proof (induction ps arbitrary: cur created w)
  case (Cons q ps)
  show ?case
  proof (cases "q = []")
    case False
    obtain e w1 where m: "k_mkdir k (path_Join [cur, q]) 493 w = (e, w1)" by fastforce
    show ?thesis
    proof (cases e)
      case None
      with Cons.prems False m have "ensure_parts k (path_Join [cur, q]) ps (created @ [path_Join [cur, q]]) w1 = (r, created', w')"
        by (simp add: Let_def)
      from Cons.IH [OF this] obtain ds where "created' = created @ path_Join [cur, q] # ds" "made_dirs k ds w1 w'" by auto
      with m None show ?thesis by (intro exI [of _ "path_Join [cur, q] # ds"]) auto
    next
      case (Some err)
      with m have "w1 = w" using mkdir_fail by blast
      with Cons False m Some show ?thesis by (auto simp: Let_def split: if_splits)
    qed
  qed (use Cons in auto)
qed auto

lemma remove_dirs_made: "made_dirs k ds w w' \<Longrightarrow> remove_dirs k (rev ds) w' = ([], w)"
proof (induction ds arbitrary: w' rule: rev_induct)
  case (snoc d ds)
  then obtain w1 where w1: "made_dirs k ds w w1" "k_mkdir k d 493 w1 = (None, w')" by (auto simp: made_dirs_snoc)
  with snoc.IH mkdir_remove [OF w1(2)] show ?case by simp
qed simp

lemma write_limits_unchanged:
  assumes "write_limits k c fs w = (Some e, c', w')" "cg_files c' = cg_files c"
  shows "w' = w"
proof (cases fs)
  case (Cons f fs')
  obtain name val where f: "f = (name, val)" by (cases f)
  obtain e1 c1 w1 where wr: "writeControllerFile k c name val w = (e1, c1, w1)" by (metis prod_cases3)
  show ?thesis
  proof (cases e1)
    case None
    then have "length (cg_files c1) = Suc (length (cg_files c))"
      using wr by (auto simp: writeControllerFile_def Let_def newOpError_def split: prod.splits option.splits)
    moreover have "length (cg_files c1) \<le> length (cg_files c')"
      using write_limits_kept [of k c1 fs' w1 "Some e" c' w'] assms(1) wr None by (auto simp: Cons f)
    ultimately show ?thesis using assms(2) by simp
  next
    case (Some err)
    with wr assms(1) show ?thesis
      by (auto simp: Cons f writeControllerFile_def Let_def newOpError_def split: prod.splits option.splits dest: write_fail)
  qed
qed (use assms(1) in simp)

text \<open>Applying a control group: the directories it made, and what it did to the files of the last one.\<close>

lemma cgroup_apply_made:
  assumes "cgroup_apply k c w = (r, c', w')" "cg_created c = []" "cg_files c = []"
  shows "\<exists>w1. made_dirs k (cg_created c') w w1 \<and> (touch k (cg_path c))\<^sup>*\<^sup>* w1 w' \<and>
    (r \<noteq> None \<and> cg_files c' = [] \<longrightarrow> w' = w1) \<and>
    (\<forall>f\<in>set (cg_files c'). \<exists>name\<in>set controller_files. f = path_Join [cg_path c, name])"
proof -
  obtain se w0 where s: "k_stat k (cg_base c) w = (se, w0)" by fastforce
  then have w0: "w0 = w" using stat_pure by blast
  show ?thesis
  proof (cases "HasPrefix (cg_path c) (cg_base c) \<and> se = None")
    case True
    obtain e c1 w1 where ens: "ensurePath k c w = (e, c1, w1)" by (metis prod_cases3)
    have c1: "made_dirs k (cg_created c1) w w1" "cg_path c1 = cg_path c" "cg_files c1 = []" "cg_limits c1 = cg_limits c"
      using ens assms(2,3) ensure_parts_made
      by (auto simp: ensurePath_def Let_def split: if_splits prod.splits) fastforce
    show ?thesis
    proof (cases e)
      case None
      with True s w0 ens assms(1) have l: "write_limits k c1 (limit_files (cg_limits c1)) w1 = (r, c', w')"
        by (simp add: cgroup_apply_def applyLimits_def)
      note kept = write_limits_kept [OF l]
      have t: "(touch k (cg_path c))\<^sup>*\<^sup>* w1 w'" using write_limits_touch [OF l limit_files_names] c1(2) by simp
      have "\<forall>f\<in>set (cg_files c'). \<exists>name\<in>set controller_files. f = path_Join [cg_path c, name]"
        using kept c1(2,3) by (auto dest!: in_set_takeD limit_files_names)
      moreover have "w' = w1" if "r \<noteq> None" "cg_files c' = []"
        using write_limits_unchanged [of c1 _ w1 _ c' w'] l that c1(3) by auto
      ultimately show ?thesis using c1(1) kept t by auto
    qed (use True s w0 ens assms c1 in \<open>auto simp: cgroup_apply_def\<close>)
  qed (use s w0 assms in \<open>auto simp: cgroup_apply_def newOpError_def newOpErrorMessage_def split: option.splits if_splits\<close>)
qed

lemma cgroup_undo:
  assumes "op_fresh k host_new acl_clear uid ec w (Cgroup c)" "cgroup_apply k c w = (None, c', w')"
  shows "cgroup_revert k ec c' w' = ([], w)"
proof -
  have c: "cg_created c = []" "cg_files c = []" "ec = None \<or> hasType ec Process" "cg_created c' \<noteq> []" "last (cg_created c') = cg_path c"
    using assms by auto
  from cgroup_apply_made [OF assms(2) c(1,2)] obtain w1 where w1: "made_dirs k (cg_created c') w w1"
      "(touch k (cg_path c))\<^sup>*\<^sup>* w1 w'"
      "\<forall>f\<in>set (cg_files c'). \<exists>name\<in>set controller_files. f = path_Join [cg_path c, name]" by blast
  let ?w = "fold (\<lambda>file w. snd (k_osRemove k file w)) (rev (cg_files c')) w'"
  have "(touch k (cg_path c))\<^sup>*\<^sup>* w' ?w" by (rule remove_files_touch) (use w1(3) in auto)
  with w1(2) have t: "(touch k (cg_path c))\<^sup>*\<^sup>* w1 ?w" by simp
  obtain ds where ds: "cg_created c' = ds @ [cg_path c]" using c(4,5) by (metis append_butlast_last_id)
  with w1(1) obtain w2 where w2: "made_dirs k ds w w2" "k_mkdir k (cg_path c) 493 w2 = (None, w1)" by (auto simp: made_dirs_snoc)
  have "remove_dirs k (rev (cg_created c')) ?w = ([], w)"
    using group_remove [OF w2(2) t] remove_dirs_made [OF w2(1)] by (simp add: ds)
  then show ?thesis using c(3) by (auto simp: cgroup_revert_def)
qed

lemma fresh_fail_unchanged:
  "op_fresh k host_new acl_clear uid ec w p \<Longrightarrow> op_apply k uid p w = (Some e, p', w') \<Longrightarrow> w' = w"
proof (cases p)
  case (Wayland x)
  assume "op_fresh k host_new acl_clear uid ec w p" "op_apply k uid p w = (Some e, p', w')"
  with Wayland show ?thesis
    by (auto simp: wayland_apply_def Let_def split: prod.splits sum.splits option.splits dest: wayland_fail)
next
  case (Cgroup c)
  assume f: "op_fresh k host_new acl_clear uid ec w p" and a: "op_apply k uid p w = (Some e, p', w')"
  then obtain c' where c: "cgroup_apply k c w = (Some e, c', w')" using Cgroup by (auto split: prod.splits)
  with f Cgroup have "cg_created c = []" "cg_files c = []" "cg_created c' = []" "cg_files c' = []" by auto
  with cgroup_apply_made [OF c] show ?thesis by auto
next
  case (DbusProxy d)
  assume "op_apply k uid p w = (Some e, p', w')"
  with DbusProxy show ?thesis
    by (auto simp: dbus_apply_def dbus_feed_def Let_def split: prod.splits option.splits dest: proxy_fail)
qed (auto simp: op_run_simps Let_def split: prod.splits option.splits if_splits
      dest: mkdir_fail chmod_fail link_fail acl_fail hosts_fail)

lemma wayland_undo:
  assumes "fst (k_stat k (wl_dst x) w) = Some ErrNotExist" "wayland_apply k uid x w = (None, x', w')"
  shows "wayland_revert k x' w' = (None, w)"
proof -
  from assms(2) obtain ctx w1 w2 where "k_waylandNew k (wl_src x) (wl_dst x) (wl_appID x) (wl_instanceID x) w = (Inr ctx, w1)"
      "k_chmod k (wl_dst x) 0 w1 = (None, w2)" "k_aclUpdate k (wl_dst x) uid [Read, Write, Execute] w2 = (None, w')"
      and x': "x' = x\<lparr>wl_ctx := Some ctx\<rparr>"
    by (auto simp: wayland_apply_def wayland_fail_def newOpError_def Let_def split: prod.splits sum.splits option.splits)
  from wayland_hangup [OF assms(1) this(1-3)] show ?thesis
    by (auto simp: wayland_revert_def x' newOpError_def errs_def)
qed

lemma dbus_undo:
  assumes "dbus_apply k d w = (None, d', w')"
  shows "\<exists>d''. dbus_revert k d' w' = Ret (None, d'', w)"
proof -
  from assms have s: "k_dbusProxyStart k (db_final d) w = (None, w')" and d': "d' = d\<lparr>db_proxy := Some (db_final d)\<rparr>"
    by (auto simp: dbus_apply_def newOpErrorMessage_def Let_def split: prod.splits option.splits)
  obtain out w2 where o: "k_dbusOutput k (db_final d) (k_dbusProxyClose k (db_final d) w') = (out, w2)" by fastforce
  from proxy_stop [OF s o] o show ?thesis
    by (auto simp: dbus_revert_def dbus_feed_def d' newOpErrorMessage_def errs_def)
qed

lemma fresh_undo:
  "op_fresh k host_new acl_clear uid ec w p \<Longrightarrow> op_apply k uid p w = (None, p', w') \<Longrightarrow>
     \<exists>p''. op_revert k uid ec p' w' = Ret ([], p'', w)"
proof (cases p)
  case (Wayland x)
  assume f: "op_fresh k host_new acl_clear uid ec w p" and "op_apply k uid p w = (None, p', w')"
  with Wayland obtain x' where x': "wayland_apply k uid x w = (None, x', w')" "p' = Wayland x'" by (auto split: prod.splits)
  with wayland_undo [OF _ x'(1)] f Wayland show ?thesis by (simp add: revert_ret_def olist_def)
next
  case (Cgroup c)
  assume f: "op_fresh k host_new acl_clear uid ec w p" and a: "op_apply k uid p w = (None, p', w')"
  then obtain c' where c: "cgroup_apply k c w = (None, c', w')" "p' = Cgroup c'" using Cgroup by (auto split: prod.splits)
  from cgroup_undo [OF f [unfolded Cgroup] c(1)] c(2) show ?thesis by simp
next
  case (DbusProxy d)
  assume "op_apply k uid p w = (None, p', w')"
  with DbusProxy obtain d' where d': "dbus_apply k d w = (None, d', w')" "p' = DbusProxy d'" by (auto split: prod.splits)
  with dbus_undo [OF d'(1)] show ?thesis by (auto simp: olist_def)
qed (auto simp: op_run_simps Let_def split: prod.splits option.splits if_splits
      dest: mkdir_remove link_remove acl_strip hosts_delete)

end

sublocale undoable_host \<subseteq> ops: reversible "op_apply k uid" "op_revert k uid ec" "op_fresh k host_new acl_clear uid ec"
  for uid ec
  by unfold_locales (fact fresh_fail_unchanged, fact fresh_undo)

context undoable_host
begin

lemma ops_rollback:
  "ok_run (op_apply k uid) (op_fresh k host_new acl_clear uid ec) ps w \<Longrightarrow>
     commit_loop (op_apply k uid) [] ps w = (r, sp, rest, w') \<Longrightarrow>
     \<exists>ps'. revert_loop (op_revert k uid ec) (rev sp) w' = Ret ([], ps', w)"
  by (rule ops.commit_rollback)

end

subsection \<open>A host\<close>

text \<open>A small host: modes by pathname, ACL entries, the X11 host list, what was printed, whether the
  resource controllers of the control groups are enabled, the contents of controller files, and how many
  security contexts and proxies there are. A pathname is bare if nothing is left of what stood there.\<close>

record hostw =
  hw_fs :: "string \<Rightarrow> nat option"
  hw_acl :: "string \<Rightarrow> int \<Rightarrow> acl_perm list"
  hw_hosts :: "string \<Rightarrow> bool"
  hw_log :: "string list"
  hw_controllers :: bool
  hw_ctl :: "string \<Rightarrow> string option"
  hw_contexts :: nat
  hw_proxies :: nat

abbreviation ctl_paths :: "string \<Rightarrow> string set" where
  "ctl_paths d \<equiv> (\<lambda>name. path_Join [d, name]) ` set controller_files"

definition hw_bare :: "string \<Rightarrow> hostw \<Rightarrow> bool" where
  "hw_bare p w \<longleftrightarrow> hw_fs w p = None \<and> hw_acl w p = (\<lambda>_. []) \<and> (\<forall>f\<in>ctl_paths p. hw_ctl w f = None)"

lemma hw_bare_untouched: "hw_ctl w = (\<lambda>_. None) \<Longrightarrow> hw_bare p w \<longleftrightarrow> hw_fs w p = None \<and> hw_acl w p = (\<lambda>_. [])"
  by (simp add: hw_bare_def)

definition hw_remove :: "string \<Rightarrow> hostw \<Rightarrow> hostw" where
  "hw_remove p w = w\<lparr>hw_fs := (hw_fs w)(p := None), hw_acl := (hw_acl w)(p := (\<lambda>_. [])),
     hw_ctl := (\<lambda>f. if f \<in> ctl_paths p then None else hw_ctl w f)\<rparr>"

definition ref_host :: "hostw sysk" where
  "ref_host =
     \<lparr> k_err = \<lparr>e_Error = (\<lambda>_. ''error''), e_isPath = (\<lambda>_. False), e_Message = (\<lambda>_. None)\<rparr>,
       k_stat = (\<lambda>p w. (if hw_fs w p = None then Some ErrNotExist else None, w)),
       k_mkdir = (\<lambda>p m w. if \<not> hw_bare p w then (Some ErrExist, w) else (None, w\<lparr>hw_fs := (hw_fs w)(p \<mapsto> m)\<rparr>)),
       k_chmod = (\<lambda>p m w. if hw_fs w p = None then (Some ErrNotExist, w) else (None, w\<lparr>hw_fs := (hw_fs w)(p \<mapsto> m)\<rparr>)),
       k_link = (\<lambda>p q w. if hw_fs w p = None then (Some ErrNotExist, w)
          else if \<not> hw_bare q w then (Some ErrExist, w)
          else (None, w\<lparr>hw_fs := (hw_fs w)(q := hw_fs w p)\<rparr>)),
       k_remove = (\<lambda>p w. if hw_fs w p = None then (Some ErrNotExist, w) else (None, hw_remove p w)),
       k_println = (\<lambda>s w. w\<lparr>hw_log := hw_log w @ [s]\<rparr>),
       k_aclUpdate = (\<lambda>p uid perms w. if hw_fs w p = None then (Some ErrNotExist, w)
          else (None, w\<lparr>hw_acl := (hw_acl w)(p := (hw_acl w p)(uid := perms))\<rparr>)),
       k_waylandNew = (\<lambda>_ dst _ _ w. if \<not> hw_bare dst w then (Inl ErrExist, w)
          else (Inr 0, w\<lparr>hw_fs := (hw_fs w)(dst \<mapsto> 493), hw_contexts := Suc (hw_contexts w)\<rparr>)),
       k_waylandClose = (\<lambda>_ w. (None, w\<lparr>hw_contexts := hw_contexts w - 1\<rparr>)),
       k_xcbChangeHosts = (\<lambda>b a w. (None, w\<lparr>hw_hosts := (hw_hosts w)(a := b)\<rparr>)),
       k_dbusProxyStart = (\<lambda>_ w. (None, w\<lparr>hw_proxies := Suc (hw_proxies w)\<rparr>)),
       k_dbusProxyClose = (\<lambda>_ w. w\<lparr>hw_proxies := hw_proxies w - 1\<rparr>),
       k_dbusProxyWait = (\<lambda>_ w. (Some Canceled, w)),
       k_dbusOutput = (\<lambda>_ w. ([], w)),
       k_writeFile = (\<lambda>p val w. if hw_controllers w then (None, w\<lparr>hw_ctl := (hw_ctl w)(p \<mapsto> val)\<rparr>)
          else (Some (OtherError ''permission denied''), w)),
       k_osRemove = (\<lambda>p w. (Some (OtherError ''operation not permitted''), w)) \<rparr>"

lemma touch_ref_host:
  "touch ref_host d w w' \<Longrightarrow> w' = w \<or> (\<exists>f\<in>ctl_paths d. \<exists>val. w' = w\<lparr>hw_ctl := (hw_ctl w)(f \<mapsto> val)\<rparr>)"
  by (auto simp: touch_def ref_host_def split: if_splits)

lemma touch_ref:
  assumes "(touch ref_host d)\<^sup>*\<^sup>* w1 w2"
  shows "\<exists>ctl. w2 = w1\<lparr>hw_ctl := ctl\<rparr> \<and> (\<forall>f. f \<notin> ctl_paths d \<longrightarrow> ctl f = hw_ctl w1 f)"
  using assms
proof (induction rule: rtranclp_induct)
  case base
  show ?case by (intro exI [of _ "hw_ctl w1"]) simp
next
  case (step w w')
  from touch_ref_host [OF step(2)] step(3) show ?case
    by (elim disjE exE bexE conjE) (force intro: exI [of _ "(hw_ctl w)(_ \<mapsto> _)"])+
qed

lemma hw_remove_made:
  assumes "hw_bare p w" "\<And>f. f \<notin> ctl_paths p \<Longrightarrow> ctl f = hw_ctl w f"
  shows "hw_remove p (w\<lparr>hw_fs := (hw_fs w)(p := m), hw_acl := (hw_acl w)(p := a), hw_ctl := ctl\<rparr>) = w"
proof -
  have ctl: "(\<lambda>f. if f \<in> ctl_paths p then None else ctl f) = hw_ctl w"
    using assms by (auto simp: hw_bare_def fun_eq_iff)
  have "hw_remove p (w\<lparr>hw_fs := (hw_fs w)(p := m), hw_acl := (hw_acl w)(p := a), hw_ctl := ctl\<rparr>) =
      w\<lparr>hw_fs := (hw_fs w)(p := None), hw_acl := (hw_acl w)(p := (\<lambda>_. [])),
        hw_ctl := (\<lambda>f. if f \<in> ctl_paths p then None else ctl f)\<rparr>"
    by (cases w) (simp add: hw_remove_def cong: if_cong)
  also have "\<dots> = w" unfolding ctl using assms(1) by (cases w) (auto simp: hw_bare_def fun_upd_idem)
  finally show ?thesis .
qed

lemma hw_remove_plain: "hw_bare p w \<Longrightarrow> hw_remove p (w\<lparr>hw_fs := (hw_fs w)(p := m)\<rparr>) = w"
  using hw_remove_made [where p = p and w = w and ctl = "hw_ctl w" and m = m and a = "hw_acl w p"] by simp

interpretation ref: undoable_host ref_host "\<lambda>a w. \<not> hw_hosts w a" "\<lambda>p uid w. hw_acl w p uid = []"
proof (unfold_locales, goal_cases)
  case (11 dst w src appID ident ctx w1 m w2 uid perms w3)
  then have bare: "hw_bare dst w" and w3: "w3 = w\<lparr>hw_fs := (hw_fs w)(dst \<mapsto> m), hw_acl := (hw_acl w)(dst := (hw_acl w dst)(uid := perms)),
      hw_contexts := Suc (hw_contexts w)\<rparr>"
    by (auto simp: ref_host_def split: if_splits)
  have "hw_remove dst (w\<lparr>hw_fs := (hw_fs w)(dst \<mapsto> m), hw_acl := (hw_acl w)(dst := (hw_acl w dst)(uid := perms))\<rparr>) = w"
    using hw_remove_made [OF bare, where ctl = "hw_ctl w" and m = "Some m" and a = "(hw_acl w dst)(uid := perms)"] by simp
  with w3 show ?case by (simp add: ref_host_def)
next
  case (16 d m w w1 w2)
  then have bare: "hw_bare d w" "w1 = w\<lparr>hw_fs := (hw_fs w)(d \<mapsto> m)\<rparr>" by (auto simp: ref_host_def split: if_splits)
  from touch_ref [OF 16(2)] obtain ctl where ctl: "w2 = w1\<lparr>hw_ctl := ctl\<rparr>" "\<And>f. f \<notin> ctl_paths d \<Longrightarrow> ctl f = hw_ctl w f"
    by (auto simp: bare(2))
  have "hw_remove d (w\<lparr>hw_fs := (hw_fs w)(d \<mapsto> m), hw_ctl := ctl\<rparr>) = w"
    using hw_remove_made [OF bare(1) ctl(2), where m = "Some m" and a = "hw_acl w d"] by simp
  then show ?case by (simp add: ref_host_def ctl(1) bare(2))
qed (auto simp: ref_host_def fun_upd_idem hw_remove_plain split: if_splits)

subsection \<open>Commit and Revert\<close>

lemma New_Ret: "0 \<le> uid \<Longrightarrow> New False uid = Ret \<lparr>I_uid = uid, I_ops = [], I_committed = False, I_reverted = False\<rparr>"
  by (simp add: New_def)

lemma Commit_RetD:
  assumes "Commit k sys w = Ret (r, sys', w')"
  shows "r = fst (commit_loop (op_apply k (I_uid sys)) [] (I_ops sys) w)" "I_committed sys'"
proof -
  obtain r1 dn rest w1 where l: "commit_loop (op_apply k (I_uid sys)) [] (I_ops sys) w = (r1, dn, rest, w1)"
    by (metis prod_cases4)
  with assms have "r = r1 \<and> I_committed sys'"
    by (cases r1) (auto simp: Commit_def split: if_splits)
  with l show "r = fst (commit_loop (op_apply k (I_uid sys)) [] (I_ops sys) w)" "I_committed sys'" by simp_all
qed


definition host0 :: hostw where
  "host0 = \<lparr>hw_fs = [''/s'' \<mapsto> 493], hw_acl = (\<lambda>_ _. []), hw_hosts = (\<lambda>_. False), hw_log = [], hw_controllers = False,
     hw_ctl = (\<lambda>_. None), hw_contexts = 0, hw_proxies = 0\<rparr>"

text \<open>An ephemeral directory and a link whose source is missing.\<close>

definition sys0 :: I where
  "sys0 = \<lparr>I_uid = 1000, I_ops =
      [Mkdir \<lparr>mk_et = Process, mk_path = ''/a'', mk_perm = 448, mk_ephemeral = True\<rparr>,
       Hardlink \<lparr>hl_et = Process, hl_dst = ''/a/l'', hl_src = ''/none''\<rparr>],
     I_committed = False, I_reverted = False\<rparr>"

lemma Process_not_User [simp]: "Process \<noteq> User"
  by (simp add: Process_def User_def EM_def)



definition sys1 :: I where
  "sys1 = sys0\<lparr>I_ops :=
      [AclUpdate \<lparr>acl_et = Process, acl_path = ''/s'', acl_perms = [Read]\<rparr>, Xhost ''u0_a1'',
       Wayland \<lparr>wl_ctx = None, wl_dst = ''/w'', wl_src = ''/s'', wl_appID = ''a'', wl_instanceID = ''b''\<rparr>]\<rparr>"


subsection \<open>Criteria\<close>

fun unconditional :: "op \<Rightarrow> bool" where
  "unconditional (Wayland _) = True"
| "unconditional (DbusProxy _) = True"
| "unconditional _ = False"

definition op_matches :: "Enablement option \<Rightarrow> op \<Rightarrow> bool" where
  "op_matches ec p \<longleftrightarrow> unconditional p \<or> hasType ec (op_Type p)"

lemma op_revert_skips: "\<not> op_matches ec p \<Longrightarrow> op_revert k uid ec p w = Ret ([], p, w)"
  by (cases p) (auto simp: op_matches_def op_run_simps cgroup_revert_def hasType_def split: option.splits)

definition outcome :: "(unit, 'e list \<times> 'a \<times> 'w) go \<Rightarrow> ('e list \<times> 'w) option" where
  "outcome r = (case r of Ret (es, _, w) \<Rightarrow> Some (es, w) | _ \<Rightarrow> None)"

lemma outcome_bind:
  "outcome (bind_go r (\<lambda>(es, a, w). Ret (f es, g es a w, w))) = map_option (\<lambda>(es, w). (f es, w)) (outcome r)"
  by (cases r) (auto simp: outcome_def)

lemma revert_loop_filter:
  assumes "\<And>p w. \<not> P p \<Longrightarrow> rv p w = Ret ([], p, w)"
  shows "outcome (revert_loop rv ps w) = outcome (revert_loop rv (filter P ps) w)"
proof (induction ps arbitrary: w)
  case (Cons p ps)
  show ?case
  proof (cases "rv p w")
    case (Ret r)
    obtain es p' w' where "r = (es, p', w')" by (cases r)
    with Ret Cons [of w'] assms [of p w] show ?thesis
      by (cases "P p") (auto simp: outcome_bind option.map_id)
  qed (use assms [of p w] in \<open>auto simp: outcome_def\<close>)
qed simp

text \<open>C29: \<open>Revert\<close> has the errors and the effect of reverting just the operations whose type meets the
  criteria, with the Wayland socket and the message bus proxy always among them; the others cost
  no call to the host. A second \<open>Revert\<close> panics, as does a second \<open>Commit\<close>.\<close>

theorem Revert_criteria:
  "outcome (Revert k ec sys w) = outcome (Revert k ec (sys\<lparr>I_ops := filter (op_matches ec) (I_ops sys)\<rparr>) w) \<and>
   (case Revert k ec sys w of
      Ret (_, sys', _) \<Rightarrow> Revert k ec' sys' w'' = Panic ''attempting to revert twice''
    | _ \<Rightarrow> True) \<and>
   (case Commit k sys w of
      Ret (_, sys', _) \<Rightarrow> Commit k' sys' wc = Panic ''attempting to commit twice''
    | _ \<Rightarrow> True)"
proof (intro conjI)
  let ?rv = "op_revert k (I_uid sys) ec"
  have "outcome (revert_loop ?rv (rev (I_ops sys)) w) = outcome (revert_loop ?rv (rev (filter (op_matches ec) (I_ops sys))) w)"
    unfolding rev_filter by (rule revert_loop_filter) (rule op_revert_skips)
  then show "outcome (Revert k ec sys w) = outcome (Revert k ec (sys\<lparr>I_ops := filter (op_matches ec) (I_ops sys)\<rparr>) w)"
    by (simp add: Revert_def outcome_bind [where f = "\<lambda>es. es"])
  show "case Revert k ec sys w of Ret (_, sys', _) \<Rightarrow> Revert k ec' sys' w'' = Panic ''attempting to revert twice'' | _ \<Rightarrow> True"
    by (auto simp: Revert_def split: go.splits)
  show "case Commit k sys w of Ret (_, sys', _) \<Rightarrow> Commit k' sys' wc = Panic ''attempting to commit twice'' | _ \<Rightarrow> True"
    by (auto simp: Commit_def [of k'] dest: Commit_RetD(2) split: go.splits)
qed

subsection \<open>Control groups\<close>

definition strictly_below :: "string list \<Rightarrow> string list \<Rightarrow> string \<Rightarrow> bool" where
  "strictly_below bs ps d \<longleftrightarrow> (\<exists>qs. qs \<noteq> [] \<and> prefix qs ps \<and> d = render_path True (bs @ qs))"

lemma strictly_below_Cons: "strictly_below (bs @ [q]) ps d \<Longrightarrow> strictly_below bs (q # ps) d"
  unfolding strictly_below_def by (metis append.assoc append_Cons append_Nil list.distinct(1) prefix_Cons)

lemma ensure_parts_below:
  assumes "list_all plain bs" "list_all plain ps"
    and "ensure_parts k (render_path True bs) ps created w = (r, created', w')"
  shows "\<exists>ds. created' = created @ ds \<and> list_all (strictly_below bs ps) ds \<and>
    (r = None \<and> ps \<noteq> [] \<longrightarrow> render_path True (bs @ ps) \<in> set ds)"
  using assms
proof (induction ps arbitrary: bs created w)
  case (Cons q ps)
  let ?cur = "render_path True (bs @ [q])"
  have q: "q \<noteq> []" "plain q" "list_all plain (bs @ [q])" using Cons.prems(1,2) by (auto simp: plain_def [of q])
  have cur: "path_Join [render_path True bs, q] = ?cur" using Cons.prems(1) q(2) by (rule path_Join_plain)
  have self: "strictly_below bs (q # ps) ?cur" unfolding strictly_below_def by (intro exI [of _ "[q]"]) simp
  obtain e w1 where m: "k_mkdir k ?cur 493 w = (e, w1)" by (cases "k_mkdir k ?cur 493 w")
  have step: "\<exists>ds. created' = created1 @ ds \<and> list_all (strictly_below bs (q # ps)) ds \<and>
      (r = None \<and> ps \<noteq> [] \<longrightarrow> render_path True (bs @ q # ps) \<in> set ds)"
    if "ensure_parts k ?cur ps created1 w1 = (r, created', w')" for created1
    using Cons.IH [OF q(3) _ that] Cons.prems(2) strictly_below_Cons [of bs q ps]
    by (auto simp: list_all_iff)
  consider "e = None" | "e = Some ErrExist" | err where "e = Some err" "err \<noteq> ErrExist" by (cases e) auto
  then show ?case
  proof cases
    case 1
    with Cons.prems(3) q(1) m have "ensure_parts k ?cur ps (created @ [?cur]) w1 = (r, created', w')"
      by (simp add: cur Let_def)
    from step [OF this] obtain ds where ds: "created' = (created @ [?cur]) @ ds"
      "list_all (strictly_below bs (q # ps)) ds"
      "r = None \<and> ps \<noteq> [] \<longrightarrow> render_path True (bs @ q # ps) \<in> set ds" by blast
    show ?thesis
      by (rule exI [of _ "?cur # ds"]) (use ds self in \<open>cases "ps = []", auto\<close>)
  next
    case 2
    show ?thesis
    proof (cases "ps = []")
      case True
      with 2 Cons.prems(3) q(1) m show ?thesis by (auto simp: cur Let_def newOpErrorMessage_def)
    next
      case False
      with 2 Cons.prems(3) q(1) m have "ensure_parts k ?cur ps created w1 = (r, created', w')"
        by (simp add: cur Let_def)
      from step [OF this] False show ?thesis by blast
    qed
  next
    case 3
    with Cons.prems(3) q(1) m show ?thesis by (auto simp: cur Let_def newOpError_def)
  qed
qed auto

text \<open>For a target below its slice, both clean pathnames, applying a control group makes directories
  strictly below the slice and on the way to the target only; when it succeeds the target itself
  was made by it, and the files written are the controller files of the target.\<close>

lemma cgroup_created_below:
  assumes "list_all plain (bs @ ps)" "bs \<noteq> []" "ps \<noteq> []"
    and c: "cg_base c = render_path True bs" "cg_path c = render_path True (bs @ ps)" "cg_created c = []" "cg_files c = []"
    and a: "cgroup_apply k c w = (r, c', w')"
  shows "list_all (strictly_below bs ps) (cg_created c') \<and>
    (r = None \<longrightarrow> cg_path c \<in> set (cg_created c') \<and>
       cg_files c' = map (\<lambda>(name, _). path_Join [cg_path c, name]) (limit_files (cg_limits c)))"
proof -
  have pre: "HasPrefix (cg_path c) (cg_base c)"
    and rel: "TrimPrefix (TrimPrefix (cg_path c) (cg_base c)) ''/'' = Join ps [slash]"
    using assms(2,3) c TrimPrefix_append [of "''/''" "Join ps [slash]"]
    by (simp_all add: render_append slash_def)
  have sp: "Split CHR ''/'' (Join ps [slash]) = ps"
    using assms(1,3) Split_Join [of ps slash] by (auto simp: slash_def plain_def list_all_iff)
  have "Join ps [slash] \<noteq> []" using assms(1,3) by (cases ps rule: list.exhaust; cases "tl ps") (auto simp: plain_def)
  obtain se w1 where s: "k_stat k (cg_base c) w = (se, w1)" by (cases "k_stat k (cg_base c) w")
  obtain er cr w2 where e: "ensure_parts k (cg_base c) ps [] w1 = (er, cr, w2)" by (metis prod_cases3)
  from ensure_parts_below [OF _ _ this [unfolded c(1)]] assms(1,3)
  have cr: "list_all (strictly_below bs ps) cr" "er = None \<Longrightarrow> cg_path c \<in> set cr" by (auto simp: c)
  have ens: "ensurePath k c w1 = (er, c\<lparr>cg_created := cr\<rparr>, w2)"
    using e \<open>Join ps [slash] \<noteq> []\<close> by (simp add: ensurePath_def Let_def rel sp c(3))
  show ?thesis
  proof (cases "se = None \<and> er = None")
    case True
    with a s ens pre have l: "write_limits k (c\<lparr>cg_created := cr\<rparr>) (limit_files (cg_limits c)) w2 = (r, c', w')"
      by (simp add: cgroup_apply_def applyLimits_def)
    from write_limits_kept [OF this] cr True c(4) show ?thesis by auto
  next
    case False
    with a s ens pre cr(1) c(3) show ?thesis
      by (auto simp: cgroup_apply_def newOpError_def split: option.splits)
  qed
qed

definition cgroup0 :: "string \<Rightarrow> string \<Rightarrow> cgroupOp" where
  "cgroup0 base target = \<lparr>cg_base = base, cg_path = target,
     cg_limits = \<lparr>cl_CPU = 1000, cl_Memory = 0, cl_Pids = 0\<rparr>, cg_created = [], cg_files = []\<rparr>"

lemmas cgroup_eval = cgroup0_def cgroup_apply_def ensurePath_def applyLimits_def limit_files_def
  writeControllerFile_def HasPrefix_def TrimPrefix_def host0_def ref_host_def hw_bare_untouched newOpError_def
  path_Join_def Clean_def comps_def clean_list_def render_path_def slash_def Let_def

text \<open>A control group operation that fails after it has made directories is not among the operations
  \<open>Commit\<close> rolls back: on a host whose controllers are not enabled the failed \<open>Commit\<close> leaves the
  directory of the instance behind.\<close>

theorem cgroup_failed_apply_leaks:
  "\<exists>e sys' w'. Commit ref_host (sys0\<lparr>I_ops := [Cgroup (cgroup0 ''/s'' ''/s/a'')]\<rparr>) host0 = Ret (Some e, sys', w') \<and>
     hw_fs host0 ''/s/a'' = None \<and> hw_fs w' ''/s/a'' = Some 493"
  by (simp add: Commit_def New_def Revert_def sys0_def cgroup_eval)

text \<open>So it is with a Wayland socket whose pathname cannot be given its ACL entry: the security context is
  closed, the socket stays.\<close>

theorem wayland_failed_apply_leaks:
  "\<exists>e sys' w'. Commit (ref_host\<lparr>k_aclUpdate := (\<lambda>_ _ _ w. (Some (OtherError ''operation not supported''), w))\<rparr>)
       (sys0\<lparr>I_ops := [Wayland \<lparr>wl_ctx = None, wl_dst = ''/w'', wl_src = ''/s'', wl_appID = ''a'', wl_instanceID = ''b''\<rparr>]\<rparr>) host0 =
       Ret (Some e, sys', w') \<and> hw_contexts w' = hw_contexts host0 \<and> hw_fs host0 ''/w'' = None \<and> hw_fs w' ''/w'' = Some 0"
  by (simp add: Commit_def New_def Revert_def sys0_def host0_def ref_host_def wayland_apply_def wayland_fail_def hw_bare_untouched
      newOpError_def errs_def Let_def)

text \<open>The check that the target is below the slice compares characters, not components: with the
  slice \<open>/s\<close> and the target \<open>/sx\<close>, beside it, the directory \<open>/s/x\<close> is made and the limits are
  written below \<open>/sx\<close>, outside the slice.\<close>

theorem cgroup_prefix_escapes:
  "\<exists>c' w'. cgroup_apply ref_host (cgroup0 ''/s'' ''/sx'') (host0\<lparr>hw_controllers := True\<rparr>) = (None, c', w') \<and>
     cg_created c' = [''/s/x''] \<and> cg_files c' = [''/sx/cpu.max'']"
  by (simp add: cgroup_eval)

end
