(* ===== verification/Seccomp.thy ===== *)
theory Seccomp
  imports Prelude
begin

text \<open>
  The system call filter: the rule types of \<open>container/std/seccomp.go\<close>, the flags of \<open>container/std/bits.go\<close> and
  the presets of \<open>container/seccomp/presets.go\<close>, with the function around libseccomp of
  \<open>container/seccomp/libseccomp.go\<close>. System call numbers depend on the architecture the program is built
  for: the table is the argument \<open>snr\<close>, from the names of the constants \<open>SNR_*\<close> to numbers. What
  libseccomp makes of a rule is the specification \<open>rule_denies\<close>.
\<close>

subsection \<open>seccomp.go and bits.go\<close>

datatype ScmpCompare =
    SCMP_CMP_NE | SCMP_CMP_LT | SCMP_CMP_LE | SCMP_CMP_EQ | SCMP_CMP_GE | SCMP_CMP_GT | SCMP_CMP_MASKED_EQ

record ScmpArgCmp =
  ac_Arg :: nat
  ac_Op :: ScmpCompare
  ac_DatumA :: u64
  ac_DatumB :: u64

record NativeRule =
  nr_Syscall :: int
  nr_Errno :: int
  nr_Arg :: "ScmpArgCmp option"

definition PresetExt :: nat where "PresetExt = 1"
definition PresetDenyNS :: nat where "PresetDenyNS = 2"
definition PresetDenyTTY :: nat where "PresetDenyTTY = 4"
definition PresetDenyDevel :: nat where "PresetDenyDevel = 8"
definition PresetLinux32 :: nat where "PresetLinux32 = 16"
definition PresetStrict :: nat where
  "PresetStrict = PresetExt OR PresetDenyNS OR PresetDenyTTY OR PresetDenyDevel"

definition AllowMultiarch :: nat where "AllowMultiarch = 1"
definition AllowCAN :: nat where "AllowCAN = 2"
definition AllowBluetooth :: nat where "AllowBluetooth = 4"

definition EPERM :: int where "EPERM = 1"
definition ENOSYS :: int where "ENOSYS = 38"
definition CLONE_NEWUSER :: u64 where "CLONE_NEWUSER = 0x10000000"
definition TIOCSTI :: u64 where "TIOCSTI = 0x5412"
definition TIOCLINUX :: u64 where "TIOCLINUX = 0x541C"
definition PersonaLinux :: u64 where "PersonaLinux = 0"
definition PersonaLinux32 :: u64 where "PersonaLinux32 = 8"

text \<open>The position of the flags among the arguments of \<open>clone\<close>, on all architectures but s390.\<close>

definition cloneArg :: nat where "cloneArg = 0"

text \<open>A rule without and with a condition.\<close>

definition deny :: "(string \<Rightarrow> int) \<Rightarrow> string \<Rightarrow> int \<Rightarrow> NativeRule" where
  "deny snr name errno = \<lparr>nr_Syscall = snr name, nr_Errno = errno, nr_Arg = None\<rparr>"

definition deny_if :: "(string \<Rightarrow> int) \<Rightarrow> string \<Rightarrow> int \<Rightarrow> nat \<Rightarrow> ScmpCompare \<Rightarrow> u64 \<Rightarrow> u64 \<Rightarrow> NativeRule" where
  "deny_if snr name errno arg cmp a b =
     \<lparr>nr_Syscall = snr name, nr_Errno = errno,
      nr_Arg = Some \<lparr>ac_Arg = arg, ac_Op = cmp, ac_DatumA = a, ac_DatumB = b\<rparr>\<rparr>"

subsection \<open>presets.go\<close>

definition presetCommon :: "(string \<Rightarrow> int) \<Rightarrow> NativeRule list" where
  "presetCommon snr =
    [deny snr ''SYSLOG'' EPERM,
     deny snr ''USELIB'' EPERM,
     deny snr ''ACCT'' EPERM,
     deny snr ''QUOTACTL'' EPERM,
     deny snr ''ADD_KEY'' EPERM,
     deny snr ''KEYCTL'' EPERM,
     deny snr ''REQUEST_KEY'' EPERM,
     deny snr ''MOVE_PAGES'' EPERM,
     deny snr ''MBIND'' EPERM,
     deny snr ''GET_MEMPOLICY'' EPERM,
     deny snr ''SET_MEMPOLICY'' EPERM,
     deny snr ''MIGRATE_PAGES'' EPERM]"

definition presetCommonExt :: "(string \<Rightarrow> int) \<Rightarrow> NativeRule list" where
  "presetCommonExt snr =
    [deny snr ''ADJTIMEX'' EPERM,
     deny snr ''CLOCK_ADJTIME'' EPERM,
     deny snr ''CLOCK_ADJTIME64'' EPERM,
     deny snr ''CLOCK_SETTIME'' EPERM,
     deny snr ''CLOCK_SETTIME64'' EPERM,
     deny snr ''SETTIMEOFDAY'' EPERM,
     deny snr ''DELETE_MODULE'' EPERM,
     deny snr ''FINIT_MODULE'' EPERM,
     deny snr ''INIT_MODULE'' EPERM,
     deny snr ''KEXEC_FILE_LOAD'' EPERM,
     deny snr ''KEXEC_LOAD'' EPERM,
     deny snr ''REBOOT'' EPERM,
     deny snr ''SWAPOFF'' EPERM,
     deny snr ''SWAPON'' EPERM]"

definition presetNamespace :: "(string \<Rightarrow> int) \<Rightarrow> NativeRule list" where
  "presetNamespace snr =
    [deny snr ''UNSHARE'' EPERM,
     deny snr ''SETNS'' EPERM,
     deny snr ''MOUNT'' EPERM,
     deny snr ''UMOUNT'' EPERM,
     deny snr ''UMOUNT2'' EPERM,
     deny snr ''PIVOT_ROOT'' EPERM,
     deny snr ''CHROOT'' EPERM,
     deny_if snr ''CLONE'' EPERM cloneArg SCMP_CMP_MASKED_EQ CLONE_NEWUSER CLONE_NEWUSER,
     deny snr ''CLONE3'' ENOSYS,
     deny snr ''OPEN_TREE'' ENOSYS,
     deny snr ''MOVE_MOUNT'' ENOSYS,
     deny snr ''FSOPEN'' ENOSYS,
     deny snr ''FSCONFIG'' ENOSYS,
     deny snr ''FSMOUNT'' ENOSYS,
     deny snr ''FSPICK'' ENOSYS,
     deny snr ''MOUNT_SETATTR'' ENOSYS]"

definition presetNamespaceExt :: "(string \<Rightarrow> int) \<Rightarrow> NativeRule list" where
  "presetNamespaceExt snr =
    [deny snr ''CHOWN'' EPERM,
     deny snr ''CHOWN32'' EPERM,
     deny snr ''FCHOWN'' EPERM,
     deny snr ''FCHOWN32'' EPERM,
     deny snr ''FCHOWNAT'' EPERM,
     deny snr ''LCHOWN'' EPERM,
     deny snr ''LCHOWN32'' EPERM,
     deny snr ''SETGID'' EPERM,
     deny snr ''SETGID32'' EPERM,
     deny snr ''SETGROUPS'' EPERM,
     deny snr ''SETGROUPS32'' EPERM,
     deny snr ''SETREGID'' EPERM,
     deny snr ''SETREGID32'' EPERM,
     deny snr ''SETRESGID'' EPERM,
     deny snr ''SETRESGID32'' EPERM,
     deny snr ''SETRESUID'' EPERM,
     deny snr ''SETRESUID32'' EPERM,
     deny snr ''SETREUID'' EPERM,
     deny snr ''SETREUID32'' EPERM,
     deny snr ''SETUID'' EPERM,
     deny snr ''SETUID32'' EPERM]"

definition presetTTY :: "(string \<Rightarrow> int) \<Rightarrow> NativeRule list" where
  "presetTTY snr =
    [deny_if snr ''IOCTL'' EPERM 1 SCMP_CMP_MASKED_EQ 0xFFFFFFFF TIOCSTI,
     deny_if snr ''IOCTL'' EPERM 1 SCMP_CMP_MASKED_EQ 0xFFFFFFFF TIOCLINUX]"

definition presetEmu :: "(string \<Rightarrow> int) \<Rightarrow> NativeRule list" where
  "presetEmu snr =
    [deny snr ''MODIFY_LDT'' EPERM]"

definition presetEmuExt :: "(string \<Rightarrow> int) \<Rightarrow> NativeRule list" where
  "presetEmuExt snr =
    [deny snr ''SUBPAGE_PROT'' ENOSYS,
     deny snr ''SWITCH_ENDIAN'' ENOSYS,
     deny snr ''VM86'' ENOSYS,
     deny snr ''VM86OLD'' ENOSYS]"

definition presetDevel :: "(string \<Rightarrow> int) \<Rightarrow> u64 \<Rightarrow> NativeRule list" where
  "presetDevel snr allowedPersonality =
    [deny snr ''PERF_EVENT_OPEN'' EPERM,
     deny_if snr ''PERSONALITY'' EPERM 0 SCMP_CMP_NE allowedPersonality 0,
     deny snr ''PTRACE'' EPERM]"

definition Preset :: "(string \<Rightarrow> int) \<Rightarrow> nat \<Rightarrow> nat \<Rightarrow> NativeRule list" where
  "Preset snr presets flags =
     (let allowedPersonality = (if presets AND PresetLinux32 \<noteq> 0 then PersonaLinux32 else PersonaLinux) in
      presetCommon snr
      @ (if presets AND PresetDenyNS \<noteq> 0 then presetNamespace snr else [])
      @ (if presets AND PresetDenyTTY \<noteq> 0 then presetTTY snr else [])
      @ (if presets AND PresetDenyDevel \<noteq> 0 then presetDevel snr allowedPersonality else [])
      @ (if flags AND AllowMultiarch = 0 then presetEmu snr else [])
      @ (if presets AND PresetExt \<noteq> 0 then
           presetCommonExt snr
           @ (if presets AND PresetDenyNS \<noteq> 0 then presetNamespaceExt snr else [])
           @ (if flags AND AllowMultiarch = 0 then presetEmuExt snr else [])
         else []))"

text \<open>The capacity reserved for the rules.\<close>

definition preset_capacity :: "(string \<Rightarrow> int) \<Rightarrow> nat \<Rightarrow> nat \<Rightarrow> nat" where
  "preset_capacity snr presets flags =
     (let presetDevelFinal = presetDevel snr (if presets AND PresetLinux32 \<noteq> 0 then PersonaLinux32 else PersonaLinux);
          l = length (presetCommon snr);
          l = (if presets AND PresetDenyNS \<noteq> 0 then l + length (presetNamespace snr) else l);
          l = (if presets AND PresetDenyTTY \<noteq> 0 then l + length (presetTTY snr) else l);
          l = (if presets AND PresetDenyDevel \<noteq> 0 then l + length presetDevelFinal else l);
          l = (if flags AND AllowMultiarch = 0 then l + length (presetEmu snr) else l)
      in if presets AND PresetExt \<noteq> 0 then
           (let l = l + length (presetCommonExt snr);
                l = (if presets AND PresetDenyNS \<noteq> 0 then l + length (presetNamespaceExt snr) else l)
            in if flags AND AllowMultiarch = 0 then l + length (presetEmuExt snr) else l)
         else l)"

subsection \<open>libseccomp.go\<close>

datatype scmp_error = ErrInvalidRules | LibraryError string int "int option" | ScmpOther int

definition resPrefix :: "string list" where
  "resPrefix = [[], ''seccomp_init failed'', ''seccomp_arch_add failed'', ''seccomp_arch_add failed (multiarch)'',
     ''internal libseccomp failure'', ''seccomp_rule_add failed'', ''seccomp_export_bpf_mem failed'', ''seccomp_load failed'']"

datatype scmp_arch = SCMP_ARCH_NONE | SCMP_ARCH_X86 | SCMP_ARCH_X86_64 | SCMP_ARCH_ARM | SCMP_ARCH_AARCH64

definition scmp_arches :: "string \<Rightarrow> scmp_arch \<times> scmp_arch" where
  "scmp_arches goarch =
     (if goarch = ''386'' then (SCMP_ARCH_X86, SCMP_ARCH_NONE)
      else if goarch = ''amd64'' then (SCMP_ARCH_X86_64, SCMP_ARCH_X86)
      else if goarch = ''arm'' then (SCMP_ARCH_ARM, SCMP_ARCH_NONE)
      else if goarch = ''arm64'' then (SCMP_ARCH_AARCH64, SCMP_ARCH_ARM)
      else (SCMP_ARCH_NONE, SCMP_ARCH_NONE))"

text \<open>The function bound by cgo gives the step it ended at, the value of libseccomp and the error number.\<close>

definition makeFilter ::
  "(scmp_arch \<Rightarrow> scmp_arch \<Rightarrow> NativeRule list \<Rightarrow> nat \<Rightarrow> nat \<times> int \<times> int option) \<Rightarrow>
     string \<Rightarrow> NativeRule list \<Rightarrow> nat \<Rightarrow> (scmp_error, unit) go" where
  "makeFilter scmp_make goarch rules flags =
     (if length rules = 0 then Fail ErrInvalidRules
      else
        (let (arch, multiarch) = scmp_arches goarch;
             (res, ret, err) = scmp_make arch multiarch rules flags
         in if length resPrefix \<le> res then Panic ''index out of range''
            else if resPrefix ! res \<noteq> [] then Fail (LibraryError (resPrefix ! res) (- ret) err)
            else case err of None \<Rightarrow> Ret () | Some e \<Rightarrow> Fail (ScmpOther e)))"

subsection \<open>What the filter denies\<close>

text \<open>A rule without condition denies every call of its number, one with a condition those whose argument
  satisfies it.\<close>

definition cmp_holds :: "ScmpArgCmp \<Rightarrow> u64 list \<Rightarrow> bool" where
  "cmp_holds c args =
     (let v = args ! ac_Arg c in
      case ac_Op c of
        SCMP_CMP_NE \<Rightarrow> v \<noteq> ac_DatumA c
      | SCMP_CMP_LT \<Rightarrow> v < ac_DatumA c
      | SCMP_CMP_LE \<Rightarrow> v \<le> ac_DatumA c
      | SCMP_CMP_EQ \<Rightarrow> v = ac_DatumA c
      | SCMP_CMP_GE \<Rightarrow> ac_DatumA c \<le> v
      | SCMP_CMP_GT \<Rightarrow> ac_DatumA c < v
      | SCMP_CMP_MASKED_EQ \<Rightarrow> v AND ac_DatumA c = ac_DatumB c)"

definition rule_denies :: "int \<Rightarrow> u64 list \<Rightarrow> NativeRule \<Rightarrow> bool" where
  "rule_denies nr args r \<longleftrightarrow>
     nr_Syscall r = nr \<and> (case nr_Arg r of None \<Rightarrow> True | Some c \<Rightarrow> cmp_holds c args)"

definition denies :: "NativeRule list \<Rightarrow> int \<Rightarrow> u64 list \<Rightarrow> bool" where
  "denies rules nr args \<longleftrightarrow> list_ex (rule_denies nr args) rules"

text \<open>The names of the constants the presets use, which a table has to keep apart.\<close>

definition snr_names :: "string list" where
  "snr_names =
    [''SYSLOG'', ''USELIB'', ''ACCT'', ''QUOTACTL'', ''ADD_KEY'', ''KEYCTL'', ''REQUEST_KEY'',
     ''MOVE_PAGES'', ''MBIND'', ''GET_MEMPOLICY'', ''SET_MEMPOLICY'', ''MIGRATE_PAGES'', ''ADJTIMEX'',
     ''CLOCK_ADJTIME'', ''CLOCK_ADJTIME64'', ''CLOCK_SETTIME'', ''CLOCK_SETTIME64'', ''SETTIMEOFDAY'',
     ''DELETE_MODULE'', ''FINIT_MODULE'', ''INIT_MODULE'', ''KEXEC_FILE_LOAD'', ''KEXEC_LOAD'',
     ''REBOOT'', ''SWAPOFF'', ''SWAPON'', ''UNSHARE'', ''SETNS'', ''MOUNT'', ''UMOUNT'', ''UMOUNT2'',
     ''PIVOT_ROOT'', ''CHROOT'', ''CLONE'', ''CLONE3'', ''OPEN_TREE'', ''MOVE_MOUNT'', ''FSOPEN'',
     ''FSCONFIG'', ''FSMOUNT'', ''FSPICK'', ''MOUNT_SETATTR'', ''CHOWN'', ''CHOWN32'', ''FCHOWN'',
     ''FCHOWN32'', ''FCHOWNAT'', ''LCHOWN'', ''LCHOWN32'', ''SETGID'', ''SETGID32'', ''SETGROUPS'',
     ''SETGROUPS32'', ''SETREGID'', ''SETREGID32'', ''SETRESGID'', ''SETRESGID32'', ''SETRESUID'',
     ''SETRESUID32'', ''SETREUID'', ''SETREUID32'', ''SETUID'', ''SETUID32'', ''IOCTL'', ''MODIFY_LDT'',
     ''SUBPAGE_PROT'', ''SWITCH_ENDIAN'', ''VM86'', ''VM86OLD'', ''PERF_EVENT_OPEN'', ''PERSONALITY'',
     ''PTRACE'']"

lemmas preset_defs = presetCommon_def presetCommonExt_def presetNamespace_def presetNamespaceExt_def presetTTY_def
  presetEmu_def presetEmuExt_def presetDevel_def

lemma Preset_length: "length (Preset snr presets flags) = preset_capacity snr presets flags"
  by (simp add: Preset_def preset_capacity_def Let_def)

lemma denies_append [simp]: "denies (xs @ ys) nr args \<longleftrightarrow> denies xs nr args \<or> denies ys nr args"
  by (simp add: denies_def)

lemma denies_Nil [simp]: "\<not> denies [] nr args"
  by (simp add: denies_def)

lemma denies_when: "denies (if b then xs else []) nr args \<longleftrightarrow> b \<and> denies xs nr args"
  by simp

lemma denies_Cons: "denies (r # rs) nr args \<longleftrightarrow> rule_denies nr args r \<or> denies rs nr args"
  by (simp add: denies_def)

lemma rule_denies_simps:
  "rule_denies nr args (deny snr name e) \<longleftrightarrow> snr name = nr"
  "rule_denies nr args (deny_if snr name e i SCMP_CMP_NE a b) \<longleftrightarrow> snr name = nr \<and> args ! i \<noteq> a"
  "rule_denies nr args (deny_if snr name e i SCMP_CMP_MASKED_EQ a b) \<longleftrightarrow> snr name = nr \<and> args ! i AND a = b"
  by (simp_all add: rule_denies_def deny_def deny_if_def cmp_holds_def Let_def)

text \<open>Only rules with a condition concern the three system calls that are filtered by argument.\<close>

lemma uncond_not:
  assumes "inj_on snr (set snr_names)" "n \<in> {''CLONE'', ''IOCTL'', ''PERSONALITY''}"
  shows "\<not> denies (presetCommon snr) (snr n) args" "\<not> denies (presetCommonExt snr) (snr n) args"
    "\<not> denies (presetNamespaceExt snr) (snr n) args" "\<not> denies (presetEmu snr) (snr n) args" "\<not> denies (presetEmuExt snr) (snr n) args"
proof -
  have ne: "snr a \<noteq> snr n" if "a \<in> set snr_names - {''CLONE'', ''IOCTL'', ''PERSONALITY''}" for a
  proof
    assume "snr a = snr n"
    moreover have "n \<in> set snr_names" using assms(2) by (auto simp: snr_names_def)
    ultimately have "a = n" using assms(1) that by (auto dest: inj_onD)
    with that assms(2) show False by auto
  qed
  show "\<not> denies (presetCommon snr) (snr n) args" "\<not> denies (presetCommonExt snr) (snr n) args"
    "\<not> denies (presetNamespaceExt snr) (snr n) args" "\<not> denies (presetEmu snr) (snr n) args" "\<not> denies (presetEmuExt snr) (snr n) args"
    by (simp_all add: preset_defs denies_Cons rule_denies_simps ne snr_names_def)
qed

lemma cond_only:
  assumes "inj_on snr (set snr_names)"
  shows "denies (presetNamespace snr) (snr ''CLONE'') args \<longleftrightarrow> args ! cloneArg AND CLONE_NEWUSER = CLONE_NEWUSER"
    "\<not> denies (presetNamespace snr) (snr ''IOCTL'') args" "\<not> denies (presetNamespace snr) (snr ''PERSONALITY'') args"
    "denies (presetTTY snr) (snr ''IOCTL'') args \<longleftrightarrow>
       args ! 1 AND 0xFFFFFFFF = TIOCSTI \<or> args ! 1 AND 0xFFFFFFFF = TIOCLINUX"
    "\<not> denies (presetTTY snr) (snr ''CLONE'') args" "\<not> denies (presetTTY snr) (snr ''PERSONALITY'') args"
    "denies (presetDevel snr allowed) (snr ''PERSONALITY'') args \<longleftrightarrow> args ! 0 \<noteq> allowed"
    "\<not> denies (presetDevel snr allowed) (snr ''CLONE'') args" "\<not> denies (presetDevel snr allowed) (snr ''IOCTL'') args"
proof -
  have eq: "snr a = snr n \<longleftrightarrow> a = n" if "a \<in> set snr_names" "n \<in> set snr_names" for a n
    using assms that by (auto dest: inj_onD)
  note simps = preset_defs denies_Cons rule_denies_simps eq snr_names_def
  show "denies (presetNamespace snr) (snr ''CLONE'') args \<longleftrightarrow> args ! cloneArg AND CLONE_NEWUSER = CLONE_NEWUSER"
    "\<not> denies (presetNamespace snr) (snr ''IOCTL'') args" "\<not> denies (presetNamespace snr) (snr ''PERSONALITY'') args"
    "denies (presetTTY snr) (snr ''IOCTL'') args \<longleftrightarrow>
       args ! 1 AND 0xFFFFFFFF = TIOCSTI \<or> args ! 1 AND 0xFFFFFFFF = TIOCLINUX"
    "\<not> denies (presetTTY snr) (snr ''CLONE'') args" "\<not> denies (presetTTY snr) (snr ''PERSONALITY'') args"
    "denies (presetDevel snr allowed) (snr ''PERSONALITY'') args \<longleftrightarrow> args ! 0 \<noteq> allowed"
    "\<not> denies (presetDevel snr allowed) (snr ''CLONE'') args" "\<not> denies (presetDevel snr allowed) (snr ''IOCTL'') args"
    by (simp_all add: simps)
qed

lemma presetDevel_change:
  "denies (presetDevel snr a) nr args \<Longrightarrow> denies (presetDevel snr b) nr args \<or> nr = snr ''PERSONALITY'' \<and> args ! 0 = b"
  by (auto simp: presetDevel_def denies_Cons rule_denies_simps)


definition snr_index :: "string \<Rightarrow> int" where
  "snr_index name = int (length (takeWhile (\<lambda>x. x \<noteq> name) snr_names))"


end
