(* ===== verification/Cont_Prog.thy ===== *)
theory Cont_Prog
  imports Check_Abs Vfs Seccomp
begin

text \<open>
  Programs of the container init. A method of \<open>syscallDispatcher\<close> (\<open>container/dispatcher.go\<close>) that
  reaches the kernel is a \<open>syscall\<close>; what the kernel answers is a \<open>reply\<close>, either an error or the values
  it may return, of which each call reads the one it has. A program is a tree of calls whose branches
  are the answers, so that a statement about all kernels is a statement about all branches. This
  theory has the errors of \<open>container/errors.go\<close>, the program type, its runs against a kernel, and the
  rules for reasoning about them.
\<close>

named_theorems cont_eval \<open>definitions unfolded to evaluate a container program\<close>

subsection \<open>Errors\<close>

text \<open>The concrete error types of the package and of \<open>os\<close>, with the errors they wrap. A
  \<open>DecoderError\<close> wraps no error number.\<close>

datatype cerr =
    Errno nat
  | PathError string string cerr
  | LinkError string string string cerr
  | MountError string string string u64 string nat
  | OpRepeatError string
  | OpStateError string
  | PathnameError abs_error
  | OverlayArgumentError nat string
  | TmpfsSizeError int
  | DecoderError decoder_error
  | JoinError "cerr list"
  | SyscallError string cerr
  | NumError string string cerr
  | OtherError string

definition ENOENT :: nat where "ENOENT = 2"
definition EINTR :: nat where "EINTR = 4"
definition EACCES :: nat where "EACCES = 13"
definition EISDIR :: nat where "EISDIR = 21"

text \<open>The errors \<open>errors.Is\<close> and \<open>errors.As\<close> visit, in their order.\<close>

fun err_chain :: "cerr \<Rightarrow> cerr list" where
  "err_chain (PathError op p e) = PathError op p e # err_chain e"
| "err_chain (LinkError op a b e) = LinkError op a b e # err_chain e"
| "err_chain (SyscallError c e) = SyscallError c e # err_chain e"
| "err_chain (NumError f n e) = NumError f n e # err_chain e"
| "err_chain (MountError s t f fl d n) = MountError s t f fl d n # (if n = 0 then [] else [Errno n])"
| "err_chain (JoinError es) = JoinError es # concat (map err_chain es)"
| "err_chain e = [e]"

definition errno_Is :: "cerr \<Rightarrow> nat \<Rightarrow> bool" where
  "errno_Is e n \<longleftrightarrow> list_ex (\<lambda>x. x = Errno n) (err_chain e)"

fun errno_of :: "cerr \<Rightarrow> nat option" where
  "errno_of (Errno n) = Some n"
| "errno_of _ = None"

definition errno_As :: "cerr \<Rightarrow> nat option" where
  "errno_As e = (case filter (\<lambda>x. errno_of x \<noteq> None) (err_chain e) of [] \<Rightarrow> None | x # _ \<Rightarrow> errno_of x)"

text \<open>\<open>os.IsNotExist\<close> looks through one wrapper only.\<close>

fun underlyingError :: "cerr \<Rightarrow> cerr" where
  "underlyingError (PathError _ _ e) = e"
| "underlyingError (LinkError _ _ _ e) = e"
| "underlyingError (SyscallError _ e) = e"
| "underlyingError e = e"

definition IsNotExist :: "cerr \<Rightarrow> bool" where
  "IsNotExist e \<longleftrightarrow> underlyingError e = Errno ENOENT"

text \<open>\<open>errors.Unwrap\<close> and the function of the package built on it.\<close>

fun err_Unwrap :: "cerr \<Rightarrow> cerr option" where
  "err_Unwrap (PathError _ _ e) = Some e"
| "err_Unwrap (LinkError _ _ _ e) = Some e"
| "err_Unwrap (SyscallError _ e) = Some e"
| "err_Unwrap (NumError _ _ e) = Some e"
| "err_Unwrap (MountError _ _ _ _ _ n) = (if n = 0 then None else Some (Errno n))"
| "err_Unwrap _ = None"

definition optionalErrorUnwrap :: "cerr \<Rightarrow> cerr" where
  "optionalErrorUnwrap e = (case err_Unwrap e of Some u \<Rightarrow> u | None \<Rightarrow> e)"

definition errnoFallback :: "string \<Rightarrow> string \<Rightarrow> cerr \<Rightarrow> (cerr, nat) go" where
  "errnoFallback op path err =
     (case errno_As err of None \<Rightarrow> Fail (PathError op path err) | Some errno \<Rightarrow> Ret errno)"

subsection \<open>System calls\<close>

datatype syscall =
    SysMount string string string u64 string
  | SysUnmount string nat
  | PivotRoot string string
  | Chdir string
  | Fchdir int
  | SysOpen string nat nat
  | SysClose int
  | EvalSymlinks string
  | Readlink string
  | Stat string
  | ReadDir string
  | Mkdir string nat
  | MkdirAll string nat
  | MkdirTemp string string
  | CreateTemp string string
  | OpenFile string nat nat
  | OpenNew string
  | FileWrite string string
  | FileClose string
  | WriteFile string string nat
  | Remove string
  | SysSymlink string string
  | SysIsatty int
  | Getpid
  | SysPrctl u64 u64 u64
  | SysCapset "u32 \<times> int" "(u32 \<times> u32 \<times> u32) list"
  | Receive string
  | CloseSetup
  | ReadFile string
  | Umask nat
  | Sethostname string
  | SeccompLoad "NativeRule list" nat
  | Start string "string list" "string list" string "int list"
  | LandlockCreateRuleset "(u64 \<times> u64 \<times> u64) option" u64
  | LandlockRestrict int u64
  | SetCloseOnExec int
  | NewPipe
  | StartInit u64 bool "u64 list" "int option" "string list"
  | PipeSetDeadline int
  | PipeEncode int
  | PipeClose int
  | WaitInit
  | CancelInit

text \<open>The values a call may return: a pathname, a number, names of directory entries, a file mode,
  a truth value, the lines of a file with the error reading ends with, or the read and the write end
  of a pipe, the latter in \<open>v_write\<close>.\<close>

record kval =
  v_str :: string
  v_int :: int
  v_names :: "string list"
  v_dir :: bool
  v_symlink :: bool
  v_bool :: bool
  v_tokens :: "string list"
  v_readErr :: "string option"
  v_write :: int

datatype reply = Err cerr | Val kval

type_synonym trace = "(syscall \<times> reply) list"
type_synonym kernel = "trace \<Rightarrow> syscall \<Rightarrow> reply"

subsection \<open>Programs\<close>

text \<open>\<open>Spin\<close> is a program that has used up the fuel of a loop and is still running.\<close>

datatype ('e, 'a) prog = Done "('e, 'a) go" | Call syscall "reply \<Rightarrow> ('e, 'a) prog" | Spin

primrec after :: "('e, 'a) prog \<Rightarrow> (('e, 'a) go \<Rightarrow> ('f, 'b) prog) \<Rightarrow> ('f, 'b) prog" where
  "after (Done r) f = f r"
| "after (Call c k) f = Call c (\<lambda>x. after (k x) f)"
| "after Spin f = Spin"

text \<open>Sequencing that returns early on an error, and handling of the error.\<close>

definition thn :: "('e, 'a) prog \<Rightarrow> ('a \<Rightarrow> ('e, 'b) prog) \<Rightarrow> ('e, 'b) prog" where
  "thn p f = after p (\<lambda>r. case r of Ret x \<Rightarrow> f x | Fail e \<Rightarrow> Done (Fail e) | Panic m \<Rightarrow> Done (Panic m))"

definition onFail :: "('e, 'a) prog \<Rightarrow> ('e \<Rightarrow> ('f, 'a) prog) \<Rightarrow> ('f, 'a) prog" where
  "onFail p h = after p (\<lambda>r. case r of Ret x \<Rightarrow> Done (Ret x) | Fail e \<Rightarrow> h e | Panic m \<Rightarrow> Done (Panic m))"

primrec each :: "('x \<Rightarrow> ('e, unit) prog) \<Rightarrow> 'x list \<Rightarrow> ('e, unit) prog" where
  "each f [] = Done (Ret ())"
| "each f (x # xs) = thn (f x) (\<lambda>_. each f xs)"

lemma thn_simps [simp]:
  "thn (Done (Ret x)) f = f x" "thn (Done (Fail e)) f = Done (Fail e)" "thn (Done (Panic m)) f = Done (Panic m)"
  "thn (Call c k) f = Call c (\<lambda>x. thn (k x) f)" "thn Spin f = Spin"
  by (simp_all add: thn_def)

lemma thn_assoc: "thn (thn p f) g = thn p (\<lambda>x. thn (f x) g)"
proof (induction p)
  case (Done r)
  then show ?case by (cases r) simp_all
qed simp_all

lemma thn_skip [simp]: "thn p (\<lambda>_. Done (Ret ())) = p"
proof (induction p)
  case (Done r)
  then show ?case by (cases r) simp_all
qed simp_all

lemma each_append: "each f (xs @ ys) = thn (each f xs) (\<lambda>_. each f ys)"
  by (induction xs) (simp_all add: thn_assoc)

text \<open>A call of which only the error, or the error and one value, is used.\<close>

definition ask :: "syscall \<Rightarrow> (cerr, kval) prog" where
  "ask c = Call c (\<lambda>x. Done (case x of Err e \<Rightarrow> Fail e | Val v \<Rightarrow> Ret v))"

definition exec :: "syscall \<Rightarrow> (cerr, unit) prog" where
  "exec c = thn (ask c) (\<lambda>_. Done (Ret ()))"

primrec run :: "kernel \<Rightarrow> ('e, 'a) prog \<Rightarrow> trace \<Rightarrow> ('e, 'a) go option \<times> trace" where
  "run K (Done r) tr = (Some r, tr)"
| "run K (Call c k) tr = run K (k (K tr c)) (tr @ [(c, K tr c)])"
| "run K Spin tr = (None, tr)"

subsection \<open>Reasoning about programs\<close>

text \<open>On every branch where the answers satisfy \<open>R\<close>, each call satisfies \<open>G\<close> when it is made and the
  result, if there is one, satisfies \<open>Q\<close> together with the trace.\<close>

primrec ensures :: "(syscall \<Rightarrow> reply \<Rightarrow> bool) \<Rightarrow> (trace \<Rightarrow> syscall \<Rightarrow> bool) \<Rightarrow> ('e, 'a) prog \<Rightarrow> trace \<Rightarrow>
    (('e, 'a) go \<Rightarrow> trace \<Rightarrow> bool) \<Rightarrow> bool" where
  "ensures R G (Done r) tr Q = Q r tr"
| "ensures R G (Call c k) tr Q = (G tr c \<and> (\<forall>x. R c x \<longrightarrow> ensures R G (k x) (tr @ [(c, x)]) Q))"
| "ensures R G Spin tr Q = True"

lemma ensures_after [simp]:
  "ensures R G (after p f) tr Q \<longleftrightarrow> ensures R G p tr (\<lambda>r tr. ensures R G (f r) tr Q)"
  by (induction p arbitrary: tr) auto

lemma ensures_thn [simp]:
  "ensures R G (thn p f) tr Q \<longleftrightarrow> ensures R G p tr (\<lambda>r tr. case r of
     Ret x \<Rightarrow> ensures R G (f x) tr Q | Fail e \<Rightarrow> Q (Fail e) tr | Panic m \<Rightarrow> Q (Panic m) tr)"
  unfolding thn_def ensures_after by (rule arg_cong [where f = "ensures R G p tr"]) (auto simp: fun_eq_iff split: go.splits)

lemma ensures_onFail [simp]:
  "ensures R G (onFail p h) tr Q \<longleftrightarrow> ensures R G p tr (\<lambda>r tr. case r of
     Ret x \<Rightarrow> Q (Ret x) tr | Fail e \<Rightarrow> ensures R G (h e) tr Q | Panic m \<Rightarrow> Q (Panic m) tr)"
  unfolding onFail_def ensures_after by (rule arg_cong [where f = "ensures R G p tr"]) (auto simp: fun_eq_iff split: go.splits)

lemma ensures_ask [simp]:
  "ensures R G (ask c) tr Q \<longleftrightarrow> G tr c \<and>
     (\<forall>e. R c (Err e) \<longrightarrow> Q (Fail e) (tr @ [(c, Err e)])) \<and>
     (\<forall>v. R c (Val v) \<longrightarrow> Q (Ret v) (tr @ [(c, Val v)]))"
proof -
  have "(\<forall>x. P x) \<longleftrightarrow> (\<forall>e. P (Err e)) \<and> (\<forall>v. P (Val v))" for P
    by (metis reply.exhaust)
  then show ?thesis by (simp add: ask_def)
qed

lemma ensures_exec [simp]:
  "ensures R G (exec c) tr Q \<longleftrightarrow> G tr c \<and>
     (\<forall>e. R c (Err e) \<longrightarrow> Q (Fail e) (tr @ [(c, Err e)])) \<and>
     (\<forall>v. R c (Val v) \<longrightarrow> Q (Ret ()) (tr @ [(c, Val v)]))"
  by (simp add: exec_def)

lemma ensures_mono:
  "ensures R G p tr Q \<Longrightarrow> (\<And>r tr'. Q r tr' \<Longrightarrow> Q' r tr') \<Longrightarrow> ensures R G p tr Q'"
  by (induction p arbitrary: tr) auto

lemma ensures_guard_mono:
  "ensures R G p tr Q \<Longrightarrow> (\<And>tr' c. G tr' c \<Longrightarrow> G' tr' c) \<Longrightarrow> ensures R G' p tr Q"
  by (induction p arbitrary: tr) auto

lemma ensures_rely_mono:
  "ensures R G p tr Q \<Longrightarrow> (\<And>c x. R' c x \<Longrightarrow> R c x) \<Longrightarrow> ensures R' G p tr Q"
  by (induction p arbitrary: tr) auto

lemma ensures_extends: "ensures R (\<lambda>_ _. True) p tr (\<lambda>_ tr'. prefix tr tr')"
proof (induction p arbitrary: tr)
  case (Call c k)
  show ?case by (auto intro!: ensures_mono [OF Call.IH [OF rangeI]] intro: append_prefixD)
qed auto

lemma ensures_conj:
  "ensures R G p tr Q \<Longrightarrow> ensures R G' p tr Q' \<Longrightarrow> ensures R (\<lambda>tr c. G tr c \<and> G' tr c) p tr (\<lambda>r tr'. Q r tr' \<and> Q' r tr')"
  by (induction p arbitrary: tr) auto

lemma ensures_prefix:
  "ensures R G p tr Q \<Longrightarrow> ensures R G p tr (\<lambda>r tr'. Q r tr' \<and> prefix tr tr')"
  using ensures_conj [OF _ ensures_extends] by fastforce

text \<open>A loop keeps what its body keeps.\<close>

lemma ensures_each:
  assumes "\<And>x tr. x \<in> set xs \<Longrightarrow> I tr \<Longrightarrow> ensures R G (f x) tr (\<lambda>r tr'. I tr' \<and> (\<forall>e. r = Fail e \<longrightarrow> E e))"
    and "I tr"
  shows "ensures R G (each f xs) tr (\<lambda>r tr'. I tr' \<and> (\<forall>e. r = Fail e \<longrightarrow> E e))"
  using assms
proof (induction xs arbitrary: tr)
  case (Cons x xs)
  have "ensures R G (f x) tr (\<lambda>r tr'. I tr' \<and> (\<forall>e. r = Fail e \<longrightarrow> E e))"
    using Cons.prems by simp
  then show ?case
    by (simp, rule ensures_mono) (auto simp: Cons.IH Cons.prems(1) split: go.splits)
qed simp

text \<open>Runs: what a program ensures holds of its run against every kernel whose answers satisfy the
  assumption.\<close>

definition answers :: "(syscall \<Rightarrow> reply \<Rightarrow> bool) \<Rightarrow> kernel \<Rightarrow> bool" where
  "answers R K \<longleftrightarrow> (\<forall>tr c. R c (K tr c))"

lemma run_after:
  "run K (after p f) tr = (case run K p tr of (None, tr') \<Rightarrow> (None, tr') | (Some r, tr') \<Rightarrow> run K (f r) tr')"
  by (induction p arbitrary: tr) auto

lemma run_thn:
  "run K (thn p f) tr = (case run K p tr of (None, tr') \<Rightarrow> (None, tr') | (Some (Ret x), tr') \<Rightarrow> run K (f x) tr'
     | (Some (Fail e), tr') \<Rightarrow> (Some (Fail e), tr') | (Some (Panic m), tr') \<Rightarrow> (Some (Panic m), tr'))"
  by (auto simp: thn_def run_after split: prod.splits option.splits go.splits)

lemma run_ensures:
  assumes "answers R K" "ensures R G p tr Q" "run K p tr = (res, tr')"
  shows "(\<exists>new. tr' = tr @ new \<and> (\<forall>i < length new. G (tr @ take i new) (fst (new ! i)))) \<and>
    (case res of None \<Rightarrow> True | Some r \<Rightarrow> Q r tr')"
  using assms(2,3)
proof (induction p arbitrary: tr)
  case (Call c k)
  let ?x = "K tr c"
  have "R c ?x" using assms(1) by (simp add: answers_def)
  with Call.prems(1) have e: "ensures R G (k ?x) (tr @ [(c, ?x)]) Q" by simp
  from Call.prems(2) have r: "run K (k ?x) (tr @ [(c, ?x)]) = (res, tr')" by simp
  from Call.IH [OF rangeI e r] obtain new where new: "tr' = (tr @ [(c, ?x)]) @ new"
    "\<forall>i < length new. G ((tr @ [(c, ?x)]) @ take i new) (fst (new ! i))"
    and q: "case res of None \<Rightarrow> True | Some r \<Rightarrow> Q r tr'" by blast
  have "G (tr @ take i ((c, ?x) # new)) (fst (((c, ?x) # new) ! i))" if "i < length ((c, ?x) # new)" for i
    using that new(2) Call.prems(1) by (cases i) auto
  with new(1) q show ?case by (intro conjI exI [of _ "(c, ?x) # new"]) simp_all
qed auto

text \<open>The same, for guarantees that do not depend on the trace.\<close>

lemma run_ensures_all:
  assumes "answers R K" "ensures R (\<lambda>_. G) p [] Q" "run K p [] = (res, tr)"
  shows "list_all (\<lambda>(c, _). G c) tr \<and> (case res of None \<Rightarrow> True | Some r \<Rightarrow> Q r tr)"
  using run_ensures [OF assms] by (auto simp: list_all_length case_prod_unfold)

end
