(* ===== verification/Cont_Mount.thy ===== *)
theory Cont_Mount
  imports Cont_Prog
begin

text \<open>
  Mounting in the container init: \<open>container/mount.go\<close>, the rest of \<open>container/path.go\<close>, the wrapper
  of \<open>mount(2)\<close> in \<open>container/errors.go\<close>, and \<open>container/syscall.go\<close>. Methods of \<open>direct\<close> that call
  another function of the package are that function. Loops without a bound take fuel \<open>fu\<close>: repeating an
  interrupted call and walking a mount hierarchy.
\<close>

subsection \<open>Constants\<close>

definition MS_REMOUNT :: u64 where "MS_REMOUNT = 0x20"
definition MS_BIND :: u64 where "MS_BIND = 0x1000"
definition MS_REC :: u64 where "MS_REC = 0x4000"
definition MS_SILENT :: u64 where "MS_SILENT = 0x8000"
definition MS_PRIVATE :: u64 where "MS_PRIVATE = 0x40000"
definition MS_SLAVE :: u64 where "MS_SLAVE = 0x80000"

definition SourceNone :: string where "SourceNone = ''none''"
definition SourceProc :: string where "SourceProc = ''proc''"
definition SourceDevpts :: string where "SourceDevpts = ''devpts''"
definition SourceMqueue :: string where "SourceMqueue = ''mqueue''"
definition SourceOverlay :: string where "SourceOverlay = ''overlay''"
definition SourceTmpfs :: string where "SourceTmpfs = ''tmpfs''"
definition SourceTmpfsRootfs :: string where "SourceTmpfsRootfs = ''rootfs''"
definition SourceTmpfsDevtmpfs :: string where "SourceTmpfsDevtmpfs = ''devtmpfs''"
definition SourceTmpfsEphemeral :: string where "SourceTmpfsEphemeral = ''ephemeral''"
definition SourceTmpfsReadonly :: string where "SourceTmpfsReadonly = ''readonly''"
definition FstypeNULL :: string where "FstypeNULL = []"
definition FstypeProc :: string where "FstypeProc = ''proc''"
definition FstypeDevpts :: string where "FstypeDevpts = ''devpts''"
definition FstypeTmpfs :: string where "FstypeTmpfs = ''tmpfs''"
definition FstypeMqueue :: string where "FstypeMqueue = ''mqueue''"
definition FstypeOverlay :: string where "FstypeOverlay = ''overlay''"
definition OptionOverlayLowerdir :: string where "OptionOverlayLowerdir = ''lowerdir''"
definition OptionOverlayUpperdir :: string where "OptionOverlayUpperdir = ''upperdir''"
definition OptionOverlayWorkdir :: string where "OptionOverlayWorkdir = ''workdir''"
definition OptionOverlayUserxattr :: string where "OptionOverlayUserxattr = ''userxattr''"

lemmas ms_defs = MS_REMOUNT_def MS_BIND_def MS_REC_def MS_SILENT_def MS_PRIVATE_def MS_SLAVE_def
  MS_RDONLY_def MS_NOSUID_def MS_NODEV_def MS_NOEXEC_def

definition O_WRONLY :: nat where "O_WRONLY = 0x1"
definition O_CREAT :: nat where "O_CREAT = 0x40"
definition O_EXCL :: nat where "O_EXCL = 0x80"
definition O_CLOEXEC :: nat where "O_CLOEXEC = 0x80000"
definition O_PATH :: nat where "O_PATH = 0x200000"

subsection \<open>syscall.go\<close>

text \<open>A failing system call returns all ones and the error number.\<close>

definition syscall_result :: "reply \<Rightarrow> u64 \<times> cerr" where
  "syscall_result x = (case x of Err e \<Rightarrow> (- 1, e) | Val v \<Rightarrow> (word_of_int (v_int v), Errno 0))"

definition Prctl :: "u64 \<Rightarrow> u64 \<Rightarrow> u64 \<Rightarrow> (cerr, unit) prog" where
  "Prctl op arg2 arg3 =
     Call (SysPrctl op arg2 arg3) (\<lambda>x. let (r, errno) = syscall_result x in
       if r < 0 then Done (Fail errno) else Done (Ret ()))"

definition Isatty :: "int \<Rightarrow> (cerr, bool) prog" where
  "Isatty fd = Call (SysIsatty fd) (\<lambda>x. Done (Ret (fst (syscall_result x) = 0)))"

primrec IgnoringEINTR :: "nat \<Rightarrow> (cerr, 'a) prog \<Rightarrow> (cerr, 'a) prog" where
  "IgnoringEINTR 0 fn = Spin"
| "IgnoringEINTR (Suc fu) fn =
     after fn (\<lambda>r. if r = Fail (Errno EINTR) then IgnoringEINTR fu fn else Done r)"

subsection \<open>The wrapper of mount(2)\<close>

definition mount :: "string \<Rightarrow> string \<Rightarrow> string \<Rightarrow> u64 \<Rightarrow> string \<Rightarrow> (cerr, unit) prog" where
  "mount source target fstype flags data =
     onFail (exec (SysMount source target fstype flags data)) (\<lambda>err.
       case errnoFallback ''mount'' target err of
         Fail pathError \<Rightarrow> Done (Fail pathError)
       | Ret errno \<Rightarrow> Done (Fail (MountError source target fstype flags data errno))
       | Panic m \<Rightarrow> Done (Panic m))"

subsection \<open>path.go\<close>

definition err_Join :: "(cerr, unit) go \<Rightarrow> (cerr, unit) go \<Rightarrow> (cerr, unit) go" where
  "err_Join a b =
     (case (a, b) of
        (Ret _, Ret _) \<Rightarrow> Ret ()
      | (Fail e, Ret _) \<Rightarrow> Fail (JoinError [e])
      | (Ret _, Fail e) \<Rightarrow> Fail (JoinError [e])
      | (Fail e, Fail f) \<Rightarrow> Fail (JoinError [e, f])
      | (Panic m, _) \<Rightarrow> Panic m
      | (_, Panic m) \<Rightarrow> Panic m)"

definition createFile :: "string \<Rightarrow> nat \<Rightarrow> nat \<Rightarrow> string option \<Rightarrow> (cerr, unit) prog" where
  "createFile name perm pperm content =
     thn (exec (MkdirAll (path_Dir name) pperm)) (\<lambda>_.
     thn (exec (OpenFile name (O_CREAT OR O_EXCL OR O_WRONLY) perm)) (\<lambda>_.
     after (case content of Some c \<Rightarrow> exec (FileWrite name c) | None \<Rightarrow> Done (Ret ())) (\<lambda>err.
     after (exec (FileClose name)) (\<lambda>cl. Done (err_Join cl err)))))"

definition ensureFile :: "string \<Rightarrow> nat \<Rightarrow> nat \<Rightarrow> (cerr, unit) prog" where
  "ensureFile name perm pperm =
     after (ask (Stat name)) (\<lambda>fi. case fi of
       Fail err \<Rightarrow> if \<not> IsNotExist err then Done (Fail err) else createFile name perm pperm None
     | Ret v \<Rightarrow> if v_dir v \<or> v_symlink v then Done (Fail (PathError ''ensure'' name (Errno EISDIR))) else Done (Ret ())
     | Panic m \<Rightarrow> Done (Panic m))"

record procPaths =
  pp_prefix :: string
  pp_self :: string

definition newProcPaths :: "string \<Rightarrow> procPaths" where
  "newProcPaths pre = \<lparr>pp_prefix = pre @ ''/proc'', pp_self = pre @ ''/proc/self''\<rparr>"

definition hostProc :: procPaths where "hostProc = newProcPaths hostPath"

definition pp_stdout :: "procPaths \<Rightarrow> string" where "pp_stdout p = pp_self p @ ''/fd/1''"

definition pp_fd :: "procPaths \<Rightarrow> int \<Rightarrow> string" where "pp_fd p fd = pp_self p @ ''/fd/'' @ Itoa fd"

text \<open>The function passed to \<open>mountinfo\<close> reads all it needs from the decoder before it makes calls: it
  gives the decoder it leaves behind and the calls.\<close>

definition mountinfo :: "procPaths \<Rightarrow> (decoder \<Rightarrow> decoder \<times> (cerr, unit) prog) \<Rightarrow> (cerr, unit) prog" where
  "mountinfo p f =
     thn (ask (OpenNew (pp_self p @ ''/mountinfo''))) (\<lambda>r.
       let (d, body) = f (NewMountInfoDecoder (v_tokens r) (v_readErr r)) in
       after body (\<lambda>err0. case err0 of
         Panic m \<Rightarrow> Done (Panic m)
       | _ \<Rightarrow>
           thn (exec (FileClose (pp_self p @ ''/mountinfo''))) (\<lambda>_.
             case d_Err d of Some e \<Rightarrow> Done (Fail (DecoderError e)) | None \<Rightarrow> Done err0)))"

subsection \<open>mount.go\<close>

definition remountWithFlags :: "mi_node \<Rightarrow> u64 \<Rightarrow> (cerr, unit) prog" where
  "remountWithFlags n mf =
     (let kf = fst (mi_Flags (n_ent n)) in
      if kf AND mf \<noteq> mf
      then mount SourceNone (n_clean n) FstypeNULL (MS_SILENT OR MS_BIND OR MS_REMOUNT OR kf OR mf) []
      else Done (Ret ()))"

text \<open>A loop over \<open>Collective\<close>, which visits as it goes.\<close>

primrec over_Collective :: "nat \<Rightarrow> mi_node list \<Rightarrow> (nat \<Rightarrow> (cerr, unit) prog) \<Rightarrow> nat \<Rightarrow> (cerr, unit) prog" where
  "over_Collective 0 ns body n = Spin"
| "over_Collective (Suc fu) ns body n =
     thn (if n_covered (ns ! n) then Done (Ret ()) else body n) (\<lambda>_.
       each (over_Collective fu ns body) (n_children (ns ! n)))"

definition remount_flags :: "u64 \<Rightarrow> u64" where
  "remount_flags flags = MS_NOSUID OR (flags AND MS_NODEV) OR (flags AND MS_RDONLY)"

definition remount_nodes :: "nat \<Rightarrow> u64 \<Rightarrow> mi_node list \<Rightarrow> nat \<Rightarrow> (cerr, unit) prog" where
  "remount_nodes fu flags ns n =
     (let mf = remount_flags flags in
      thn (remountWithFlags (ns ! n) mf) (\<lambda>_.
        if flags AND MS_REC = 0 then Done (Ret ())
        else over_Collective fu ns (\<lambda>cur.
          if cur = n then Done (Ret ())
          else onFail (remountWithFlags (ns ! cur) mf) (\<lambda>err.
            if \<not> errno_Is err EACCES then Done (Fail err) else Done (Ret ()))) n))"

definition remount :: "nat \<Rightarrow> procPaths \<Rightarrow> string \<Rightarrow> u64 \<Rightarrow> (cerr, unit) prog" where
  "remount fu p target flags =
     thn (ask (EvalSymlinks target)) (\<lambda>v.
     let targetFinal = v_str v in
     thn (onFail (IgnoringEINTR fu (ask (SysOpen targetFinal (O_PATH OR O_CLOEXEC) 0)))
            (\<lambda>err. Done (Fail (PathError ''open'' targetFinal err)))) (\<lambda>destFd.
     thn (ask (Readlink (pp_fd p (v_int destFd)))) (\<lambda>l.
     thn (onFail (exec (SysClose (v_int destFd))) (\<lambda>err. Done (Fail (PathError ''close'' targetFinal err)))) (\<lambda>_.
     mountinfo p (\<lambda>d.
       case Unfold d (v_str l) of
         (d', Fail err) \<Rightarrow> (d', Done (Fail (DecoderError err)))
       | (d', Panic m) \<Rightarrow> (d', Done (Panic m))
       | (d', Ret (ns, n)) \<Rightarrow> (d', remount_nodes fu flags ns n))))))"

definition bindMount :: "nat \<Rightarrow> procPaths \<Rightarrow> string \<Rightarrow> string \<Rightarrow> u64 \<Rightarrow> (cerr, unit) prog" where
  "bindMount fu p source target flags =
     thn (mount source target FstypeNULL (MS_SILENT OR MS_BIND OR (flags AND MS_REC)) []) (\<lambda>_.
       remount fu p target flags)"

definition parentPerm :: "nat \<Rightarrow> nat" where
  "parentPerm perm =
     (let pm = word_of_nat perm :: u32;
          pperm = 0x1ED :: u32;
          pperm = (if pm AND 0x38 = 0 then pperm AND NOT 0x28 else pperm);
          pperm = (if pm AND 0x7 = 0 then pperm AND NOT 0x5 else pperm)
      in unat pperm)"

text \<open>The verb \<open>%#o\<close>.\<close>

definition format_octal :: "nat \<Rightarrow> string" where
  "format_octal n = (if n = 0 then ''0'' else CHR ''0'' # format_nat 8 n)"

definition mountTmpfs :: "string \<Rightarrow> string \<Rightarrow> u64 \<Rightarrow> int \<Rightarrow> nat \<Rightarrow> (cerr, unit) prog" where
  "mountTmpfs fsname target flags sz perm =
     thn (exec (MkdirAll target (parentPerm perm))) (\<lambda>_.
       let opt = ''mode='' @ format_octal perm;
           opt = (if 0 < sz then opt @ '',size='' @ Itoa sz else opt)
       in mount fsname target FstypeTmpfs flags opt)"

subsection \<open>Runs of the building blocks\<close>

lemma Prctl_ensures [simp]:
  "ensures R G (Prctl op a b) tr Q \<longleftrightarrow>
     G tr (SysPrctl op a b) \<and> (\<forall>x. R (SysPrctl op a b) x \<longrightarrow> Q (Ret ()) (tr @ [(SysPrctl op a b, x)]))"
  by (simp add: Prctl_def case_prod_unfold Let_def)

lemma ensures_IgnoringEINTR:
  assumes "\<And>tr. I tr \<Longrightarrow> ensures R G fn tr (\<lambda>r tr'. I tr' \<and> (r \<noteq> Fail (Errno EINTR) \<longrightarrow> Q r tr'))" and "I tr"
  shows "ensures R G (IgnoringEINTR fu fn) tr Q"
  using assms(2)
proof (induction fu arbitrary: tr)
  case (Suc fu)
  from assms(1) [OF Suc.prems] show ?case
    by (simp, rule ensures_mono) (auto simp: Suc.IH)
qed simp

lemma mount_ensures [simp]:
  "ensures R G (mount s t f fl d) tr Q \<longleftrightarrow> G tr (SysMount s t f fl d) \<and>
     (\<forall>e. R (SysMount s t f fl d) (Err e) \<longrightarrow>
        Q (Fail (case errno_As e of None \<Rightarrow> PathError ''mount'' t e | Some n \<Rightarrow> MountError s t f fl d n))
          (tr @ [(SysMount s t f fl d, Err e)])) \<and>
     (\<forall>v. R (SysMount s t f fl d) (Val v) \<longrightarrow> Q (Ret ()) (tr @ [(SysMount s t f fl d, Val v)]))"
proof -
  have "ensures R G (mount s t f fl d) tr Q \<longleftrightarrow> G tr (SysMount s t f fl d) \<and>
     (\<forall>e. R (SysMount s t f fl d) (Err e) \<longrightarrow>
        ensures R G (case errnoFallback ''mount'' t e of
           Fail pathError \<Rightarrow> Done (Fail pathError)
         | Ret errno \<Rightarrow> Done (Fail (MountError s t f fl d errno))
         | Panic m \<Rightarrow> Done (Panic m)) (tr @ [(SysMount s t f fl d, Err e)]) Q) \<and>
     (\<forall>v. R (SysMount s t f fl d) (Val v) \<longrightarrow> Q (Ret ()) (tr @ [(SysMount s t f fl d, Val v)]))"
    by (simp add: mount_def)
  moreover have "ensures R G (case errnoFallback ''mount'' t e of
           Fail pathError \<Rightarrow> Done (Fail pathError)
         | Ret errno \<Rightarrow> Done (Fail (MountError s t f fl d errno))
         | Panic m \<Rightarrow> Done (Panic m)) tr' Q \<longleftrightarrow>
      Q (Fail (case errno_As e of None \<Rightarrow> PathError ''mount'' t e | Some n \<Rightarrow> MountError s t f fl d n)) tr'" for e tr'
    by (simp add: errnoFallback_def split: option.split)
  ultimately show ?thesis by simp
qed

subsection \<open>Remounting\<close>

text \<open>The call that remounts a node, and a node that has the flags: it had them, or was remounted.\<close>

definition remount_call :: "u64 \<Rightarrow> mi_node \<Rightarrow> syscall" where
  "remount_call mf n =
     SysMount SourceNone (n_clean n) FstypeNULL (MS_SILENT OR MS_BIND OR MS_REMOUNT OR fst (mi_Flags (n_ent n)) OR mf) []"

definition hardened :: "trace \<Rightarrow> u64 \<Rightarrow> mi_node \<Rightarrow> bool" where
  "hardened tr mf n \<longleftrightarrow> fst (mi_Flags (n_ent n)) AND mf = mf \<or> (\<exists>v. (remount_call mf n, Val v) \<in> set tr)"

text \<open>A node below the target may also be one the kernel denies the remount of.\<close>

definition hardened_or_denied :: "trace \<Rightarrow> u64 \<Rightarrow> mi_node \<Rightarrow> bool" where
  "hardened_or_denied tr mf n \<longleftrightarrow>
     hardened tr mf n \<or> (\<exists>e. (remount_call mf n, Err e) \<in> set tr \<and> errno_Is e EACCES)"

lemma hardened_mono: "hardened tr mf n \<Longrightarrow> prefix tr tr' \<Longrightarrow> hardened tr' mf n"
  unfolding hardened_def by (metis set_mono_prefix subsetD)

lemma hardened_or_denied_mono: "hardened_or_denied tr mf n \<Longrightarrow> prefix tr tr' \<Longrightarrow> hardened_or_denied tr' mf n"
  unfolding hardened_or_denied_def by (metis hardened_mono set_mono_prefix subsetD)

lemma errno_Is_mount:
  "errno_Is (case errno_As e of None \<Rightarrow> PathError ''mount'' t e | Some n \<Rightarrow> MountError s t f fl d n) k \<Longrightarrow> k \<noteq> 0 \<Longrightarrow> errno_Is e k"
proof (cases "errno_As e")
  case (Some n)
  assume "errno_Is (case errno_As e of None \<Rightarrow> PathError ''mount'' t e | Some n \<Rightarrow> MountError s t f fl d n) k" "k \<noteq> 0"
  with Some have n: "n = k" by (simp add: errno_Is_def split: if_splits)
  from Some obtain x xs where "filter (\<lambda>x. errno_of x \<noteq> None) (err_chain e) = x # xs" "errno_of x = Some n"
    by (auto simp: errno_As_def split: list.splits)
  then have "x \<in> set (filter (\<lambda>x. errno_of x \<noteq> None) (err_chain e))" "x = Errno n"
    by (simp_all) (cases x; simp)
  with n show ?thesis by (auto simp: errno_Is_def list_ex_iff)
qed (auto simp: errno_Is_def)

lemma remountWithFlags_ensures:
  "ensures R (\<lambda>_ c. c = remount_call mf n) (remountWithFlags n mf) tr (\<lambda>r tr'. prefix tr tr' \<and>
     (r = Ret () \<longrightarrow> hardened tr' mf n) \<and>
     (\<forall>e. r = Fail e \<longrightarrow> errno_Is e EACCES \<longrightarrow> hardened_or_denied tr' mf n))"
proof (cases "fst (mi_Flags (n_ent n)) AND mf = mf")
  case True
  then show ?thesis by (simp add: remountWithFlags_def hardened_def)
next
  case False
  have "hardened (tr @ [(remount_call mf n, Val v)]) mf n" for v by (auto simp: hardened_def)
  moreover have "hardened_or_denied (tr @ [(remount_call mf n, Err e)]) mf n" if "errno_Is e EACCES" for e
    using that by (auto simp: hardened_or_denied_def)
  moreover have "remountWithFlags n mf = mount SourceNone (n_clean n) FstypeNULL
      (MS_SILENT OR MS_BIND OR MS_REMOUNT OR fst (mi_Flags (n_ent n)) OR mf) []"
    using False by (simp add: remountWithFlags_def)
  ultimately show ?thesis
    by (simp only: mount_ensures remount_call_def [symmetric])
      (auto simp: EACCES_def dest: errno_Is_mount simp del: split_paired_Ex)
qed

text \<open>Each node the loop passes keeps what its body establishes.\<close>

lemma over_Collective_visit: "n_visit fu ns n = Some vis \<Longrightarrow> over_Collective fu ns body n = each body vis"
proof (induction fu arbitrary: n vis)
  case (Suc fu)
  then obtain rs where rs: "list_all2 (\<lambda>c r. n_visit fu ns c = Some r) (n_children (ns ! n)) rs"
    and vis: "vis = (if n_covered (ns ! n) then [] else [n]) @ concat rs"
    by (auto simp: those_map_Some)
  have "each (over_Collective fu ns body) (n_children (ns ! n)) = each body (concat rs)"
    using rs by (induction rule: list_all2_induct) (simp_all add: Suc.IH each_append)
  with vis show ?case by (simp add: each_append)
qed simp

lemma ensures_each_all:
  assumes "\<And>x tr. x \<in> set xs \<Longrightarrow> ensures R G (f x) tr (\<lambda>r tr'. prefix tr tr' \<and> (r = Ret () \<longrightarrow> P x tr'))"
    and mono: "\<And>x tr tr'. P x tr \<Longrightarrow> prefix tr tr' \<Longrightarrow> P x tr'"
  shows "ensures R G (each f xs) tr (\<lambda>r tr'. prefix tr tr' \<and> (r = Ret () \<longrightarrow> (\<forall>x \<in> set xs. P x tr')))"
  using assms(1)
proof (induction xs arbitrary: tr)
  case (Cons x xs)
  have "ensures R G (each f xs) tr'' (\<lambda>r tr'. prefix tr tr' \<and> (r = Ret () \<longrightarrow> (\<forall>y \<in> set (x # xs). P y tr')))"
    if "prefix tr tr''" "P x tr''" for tr''
    using Cons.prems that by (intro ensures_mono [OF Cons.IH]) (auto intro: mono prefix_order.trans)
  with Cons.prems [of x tr] show ?case
    by (simp, elim ensures_mono) (auto split: go.splits)
qed simp

lemma n_visit_all:
  assumes "\<And>c. c \<in> set (n_children (ns ! n)) \<Longrightarrow> \<exists>v. n_visit fu ns c = Some v \<and> (\<forall>i \<in> set v. P i)"
    and "n_covered (ns ! n) \<or> P n"
  shows "\<exists>v. n_visit (Suc fu) ns n = Some v \<and> (\<forall>i \<in> set v. P i)"
proof -
  obtain rs where rs: "those (map (n_visit fu ns) (n_children (ns ! n))) = Some rs"
    using those_map_ex [of "n_children (ns ! n)" "n_visit fu ns"] assms(1) by blast
  then have "list_all2 (\<lambda>c r. n_visit fu ns c = Some r) (n_children (ns ! n)) rs"
    by (simp add: those_map_Some)
  then have "\<forall>r \<in> set rs. \<forall>i \<in> set r. P i"
    using assms(1) by (induction rule: list_all2_induct) fastforce+
  with rs assms(2) show ?thesis by auto
qed

lemma over_Collective_ensures:
  assumes "\<And>i tr. ensures R G (body i) tr (\<lambda>r tr'. prefix tr tr' \<and> (r = Ret () \<longrightarrow> P i tr'))"
    and mono: "\<And>i tr tr'. P i tr \<Longrightarrow> prefix tr tr' \<Longrightarrow> P i tr'"
  shows "ensures R G (over_Collective fu ns body n) tr (\<lambda>r tr'. prefix tr tr' \<and>
    (r = Ret () \<longrightarrow> (\<exists>vis. n_visit fu ns n = Some vis \<and> (\<forall>i \<in> set vis. P i tr'))))"
proof (induction fu arbitrary: n tr)
  case (Suc fu)
  let ?V = "\<lambda>c tr. \<exists>vis. n_visit fu ns c = Some vis \<and> (\<forall>i \<in> set vis. P i tr)"
  let ?Q = "\<lambda>r tr'. prefix tr tr' \<and>
    (r = Ret () \<longrightarrow> (\<exists>vis. n_visit (Suc fu) ns n = Some vis \<and> (\<forall>i \<in> set vis. P i tr')))"
  have each: "ensures R G (each (over_Collective fu ns body) (n_children (ns ! n))) tr'' (\<lambda>r tr'. prefix tr'' tr' \<and>
      (r = Ret () \<longrightarrow> (\<forall>c \<in> set (n_children (ns ! n)). ?V c tr')))" for tr''
    by (rule ensures_each_all, rule Suc.IH) (blast intro: mono)
  have rest: "ensures R G (each (over_Collective fu ns body) (n_children (ns ! n))) tr'' ?Q"
    if "prefix tr tr''" "n_covered (ns ! n) \<or> P n tr''" for tr''
  proof (rule ensures_mono [OF each])
    fix r tr'
    assume a: "prefix tr'' tr' \<and> (r = Ret () \<longrightarrow> (\<forall>c \<in> set (n_children (ns ! n)). ?V c tr'))"
    then have "n_covered (ns ! n) \<or> P n tr'" using that mono by blast
    with a that(1) show "?Q r tr'"
      using n_visit_all [of ns n fu "\<lambda>i. P i tr'"] by (auto simp del: n_visit.simps intro: prefix_order.trans)
  qed
  have "ensures R G (if n_covered (ns ! n) then Done (Ret ()) else body n) tr
      (\<lambda>r tr'. prefix tr tr' \<and> (r = Ret () \<longrightarrow> n_covered (ns ! n) \<or> P n tr'))"
    using ensures_mono [OF assms(1) [of n tr]] by auto
  then show ?case
    unfolding over_Collective.simps ensures_thn
    by (rule ensures_mono) (use rest in \<open>auto split: go.splits simp del: n_visit.simps\<close>)
qed simp

lemma remount_nodes_ensures:
  assumes G: "\<And>i. G (remount_call (remount_flags flags) (ns ! i))"
  shows "ensures R (\<lambda>_. G) (remount_nodes fu flags ns n) tr (\<lambda>r tr'. prefix tr tr' \<and> (r = Ret () \<longrightarrow>
    hardened tr' (remount_flags flags) (ns ! n) \<and>
    (flags AND MS_REC \<noteq> 0 \<longrightarrow> (\<exists>vis. n_visit fu ns n = Some vis \<and>
       (\<forall>i \<in> set vis. hardened_or_denied tr' (remount_flags flags) (ns ! i))))))"
proof -
  let ?mf = "remount_flags flags"
  let ?P = "\<lambda>i tr. i = n \<or> hardened_or_denied tr ?mf (ns ! i)"
  have one: "ensures R (\<lambda>_. G) (remountWithFlags (ns ! i) ?mf) tr (\<lambda>r tr'. prefix tr tr' \<and>
     (r = Ret () \<longrightarrow> hardened tr' ?mf (ns ! i)) \<and>
     (\<forall>e. r = Fail e \<longrightarrow> errno_Is e EACCES \<longrightarrow> hardened_or_denied tr' ?mf (ns ! i)))" for i tr
    using G by (intro ensures_guard_mono [OF remountWithFlags_ensures]) simp
  have body: "ensures R (\<lambda>_. G) (if cur = n then Done (Ret ())
      else onFail (remountWithFlags (ns ! cur) ?mf) (\<lambda>err. if \<not> errno_Is err EACCES then Done (Fail err) else Done (Ret ())))
      tr (\<lambda>r tr'. prefix tr tr' \<and> (r = Ret () \<longrightarrow> ?P cur tr'))" for cur tr
    by (auto intro!: ensures_mono [OF one] split: go.splits simp: hardened_or_denied_def)
  have loop: "ensures R (\<lambda>_. G) (over_Collective fu ns (\<lambda>cur. if cur = n then Done (Ret ())
      else onFail (remountWithFlags (ns ! cur) ?mf) (\<lambda>err. if \<not> errno_Is err EACCES then Done (Fail err) else Done (Ret ()))) n)
      tr'' (\<lambda>r tr'. prefix tr'' tr' \<and> (r = Ret () \<longrightarrow> (\<exists>vis. n_visit fu ns n = Some vis \<and> (\<forall>i \<in> set vis. ?P i tr'))))" for tr''
    by (rule over_Collective_ensures [OF body]) (auto intro: hardened_or_denied_mono)
  show ?thesis
    unfolding remount_nodes_def Let_def ensures_thn
    by (rule ensures_mono [OF one])
      (auto split: go.splits intro!: ensures_mono [OF loop] intro: prefix_order.trans hardened_mono,
        metis hardened_mono hardened_or_denied_def)
qed

text \<open>The calls of a remount: it resolves and reads, and remounts with at least the flags asked for.\<close>

fun remount_ok :: "u64 \<Rightarrow> syscall \<Rightarrow> bool" where
  "remount_ok mf (SysMount s t f fl d) =
     (s = SourceNone \<and> f = FstypeNULL \<and> d = [] \<and> fl AND MS_REMOUNT = MS_REMOUNT \<and> fl AND MS_BIND = MS_BIND \<and> fl AND mf = mf)"
| "remount_ok mf (EvalSymlinks _) = True"
| "remount_ok mf (SysOpen _ fl _) = (fl = O_PATH OR O_CLOEXEC)"
| "remount_ok mf (SysClose _) = True"
| "remount_ok mf (Readlink _) = True"
| "remount_ok mf (OpenNew _) = True"
| "remount_ok mf (FileClose _) = True"
| "remount_ok mf _ = False"

lemma or_and_absorb: "(a OR b) AND b = (b :: 'a :: ring_bit_operations)"
  by (rule bit_eqI) (auto simp: bit_simps)

lemma remount_call_ok: "remount_ok mf (remount_call mf n)"
  by (auto simp: remount_call_def intro!: bit_eqI simp: bit_simps)

text \<open>What a remount leaves behind, in terms of the mount table it read: the target was resolved, opened, and its
  pathname read back through the descriptor; the last mount on that pathname has the flags, and if the
  remount is recursive so has every mount \<open>visible_below\<close> it, unless the kernel denied that.\<close>

definition resolved_target :: "procPaths \<Rightarrow> string \<Rightarrow> trace \<Rightarrow> kval \<Rightarrow> bool" where
  "resolved_target p target tr l \<longleftrightarrow> (\<exists>v fd. (EvalSymlinks target, Val v) \<in> set tr \<and>
     (SysOpen (v_str v) (O_PATH OR O_CLOEXEC) 0, Val fd) \<in> set tr \<and> (Readlink (pp_fd p (v_int fd)), Val l) \<in> set tr)"

definition remount_post :: "procPaths \<Rightarrow> string \<Rightarrow> u64 \<Rightarrow> trace \<Rightarrow> bool" where
  "remount_post p target flags tr \<longleftrightarrow> (\<exists>l fi es t.
     resolved_target p target tr l \<and> (OpenNew (pp_self p @ ''/mountinfo''), Val fi) \<in> set tr \<and>
     map parseMountInfoLine (v_tokens fi) = map Ret es \<and> last_mount es (Clean (v_str l)) t \<and>
     hardened tr (remount_flags flags) (unfold_node (es ! t)) \<and>
     (flags AND MS_REC \<noteq> 0 \<longrightarrow> (\<forall>i \<in> visible_below es (Clean (v_str l)) t.
        hardened_or_denied tr (remount_flags flags) (unfold_node (es ! i)))))"

lemma resolved_target_mono: "resolved_target p target tr l \<Longrightarrow> set tr \<subseteq> set tr' \<Longrightarrow> resolved_target p target tr' l"
  unfolding resolved_target_def by blast

lemma hardened_node:
  assumes "n_ent n = n_ent n'" "n_clean n = n_clean n'"
  shows "hardened tr mf n = hardened tr mf n'" "hardened_or_denied tr mf n = hardened_or_denied tr mf n'"
  using assms by (simp_all add: hardened_def hardened_or_denied_def remount_call_def)

lemma remount_post_table:
  assumes u: "Unfold (NewMountInfoDecoder (v_tokens fi) (v_readErr fi)) (v_str l) = (d', Ret (ns, n))"
    and "resolved_target p target tr l" "(OpenNew (pp_self p @ ''/mountinfo''), Val fi) \<in> set tr"
    and h: "hardened tr (remount_flags flags) (ns ! n)"
    and v: "flags AND MS_REC \<noteq> 0 \<longrightarrow> (\<exists>vis. n_visit fu ns n = Some vis \<and>
         (\<forall>i \<in> set vis. hardened_or_denied tr (remount_flags flags) (ns ! i)))"
  shows "remount_post p target flags tr"
proof -
  let ?es = "d_m d'" and ?tc = "Clean (v_str l)"
  note e = Unfold_Ret [OF u]
  note inv = unfold_entries_Ret(1) [OF e] and last = unfold_targetIndex_Some [OF unfold_entries_Ret(2) [OF e]]
  then have n: "n < length ?es" "mount_path ?es n = ?tc" by (auto simp: last_mount_def)
  have node: "n_ent (ns ! i) = n_ent (unfold_node (?es ! i))" "n_clean (ns ! i) = n_clean (unfold_node (?es ! i))"
    if "i < length ?es" for i
    using unfolded_all(3,4) [OF inv that] by (simp_all add: unfold_node_def)
  have vis: "hardened_or_denied tr (remount_flags flags) (unfold_node (?es ! i))"
    if "flags AND MS_REC \<noteq> 0" "i \<in> visible_below ?es ?tc n" for i
  proof -
    have "i < length ?es" using visible_below_less [OF that(2) n(1)] n(2) by simp
    with that v n_visit_set [OF inv _ n(1)] show ?thesis using hardened_node(2) [OF node] by blast
  qed
  show ?thesis
    unfolding remount_post_def
    using assms(2,3) Unfold_table [OF u] last h hardened_node(1) [OF node [OF n(1)]] vis by blast
qed

lemma remount_mountinfo:
  assumes "resolved_target p target tr l"
  shows "ensures R (\<lambda>_. remount_ok (remount_flags flags)) (mountinfo p (\<lambda>d.
       case Unfold d (v_str l) of
         (d', Fail err) \<Rightarrow> (d', Done (Fail (DecoderError err)))
       | (d', Panic m) \<Rightarrow> (d', Done (Panic m))
       | (d', Ret (ns, n)) \<Rightarrow> (d', remount_nodes fu flags ns n))) tr
     (\<lambda>r tr'. r = Ret () \<longrightarrow> remount_post p target flags tr')"
proof -
  let ?G = "remount_ok (remount_flags flags)" and ?o = "OpenNew (pp_self p @ ''/mountinfo'')"
  let ?c = "FileClose (pp_self p @ ''/mountinfo'')"
  have close: "remount_post p target flags (tr' @ [(?c, x)])"
    if "prefix (tr @ [(?o, Val fi)]) tr'" "Unfold (NewMountInfoDecoder (v_tokens fi) (v_readErr fi)) (v_str l) = (d', Ret (ns, n))"
      "hardened tr' (remount_flags flags) (ns ! n)"
      "flags AND MS_REC \<noteq> 0 \<longrightarrow> (\<exists>vis. n_visit fu ns n = Some vis \<and>
         (\<forall>i \<in> set vis. hardened_or_denied tr' (remount_flags flags) (ns ! i)))" for tr' x fi d' ns n
  proof (rule remount_post_table [OF that(2)])
    have sub: "set (tr @ [(?o, Val fi)]) \<subseteq> set tr'" using that(1) by (rule set_mono_prefix)
    with assms show "resolved_target p target (tr' @ [(?c, x)]) l" by (auto elim!: resolved_target_mono)
    from sub show "(?o, Val fi) \<in> set (tr' @ [(?c, x)])" by auto
    have "prefix tr' (tr' @ [(?c, x)])" by simp
    with that(3,4) show "hardened (tr' @ [(?c, x)]) (remount_flags flags) (ns ! n)"
      "flags AND MS_REC \<noteq> 0 \<longrightarrow> (\<exists>vis. n_visit fu ns n = Some vis \<and>
         (\<forall>i \<in> set vis. hardened_or_denied (tr' @ [(?c, x)]) (remount_flags flags) (ns ! i)))"
      using hardened_mono hardened_or_denied_mono by blast+
  qed
  have "ensures R (\<lambda>_. ?G) (remount_nodes fu flags ns n) (tr @ [(?o, Val fi)]) (\<lambda>err0 tr'.
      ensures R (\<lambda>_. ?G) (case err0 of Panic m \<Rightarrow> Done (Panic m)
       | _ \<Rightarrow> thn (exec ?c) (\<lambda>_. case d_Err d' of Some e \<Rightarrow> Done (Fail (DecoderError e)) | None \<Rightarrow> Done err0)) tr'
      (\<lambda>r tr'. r = Ret () \<longrightarrow> remount_post p target flags tr'))"
    if "Unfold (NewMountInfoDecoder (v_tokens fi) (v_readErr fi)) (v_str l) = (d', Ret (ns, n))" for fi d' ns n
    by (rule ensures_mono [OF remount_nodes_ensures [where G = ?G]], rule remount_call_ok)
      (auto split: go.splits option.splits intro: close [OF _ that])
  then show ?thesis
    by (auto simp: mountinfo_def Let_def split: prod.splits go.splits option.splits)
qed

lemma open_ensures:
  "ensures R (\<lambda>_. remount_ok mf) (IgnoringEINTR fu (ask (SysOpen f (O_PATH OR O_CLOEXEC) 0))) tr
     (\<lambda>r tr'. set tr \<subseteq> set tr' \<and> (\<forall>fd. r = Ret fd \<longrightarrow> (SysOpen f (O_PATH OR O_CLOEXEC) 0, Val fd) \<in> set tr'))"
  by (rule ensures_IgnoringEINTR [where I = "\<lambda>tr'. set tr \<subseteq> set tr'"]) auto

lemma remount_ensures:
  "ensures R (\<lambda>_. remount_ok (remount_flags flags)) (remount fu p target flags) tr
     (\<lambda>r tr'. r = Ret () \<longrightarrow> remount_post p target flags tr')"
proof -
  have target: "resolved_target p target (tr'' @ [(Readlink (pp_fd p (v_int fd)), Val l), (SysClose (v_int fd), Val x)]) l"
    if "set (tr @ [(EvalSymlinks target, Val v)]) \<subseteq> set tr''" "(SysOpen (v_str v) (O_PATH OR O_CLOEXEC) 0, Val fd) \<in> set tr''"
    for tr'' fd v l x
    using that unfolding resolved_target_def by (intro exI [of _ v] exI [of _ fd]) auto
  show ?thesis
    unfolding remount_def
    by (auto simp: Let_def split: go.splits intro!: ensures_mono [OF open_ensures] remount_mountinfo target)
qed

end
