(* ===== verification/Hst_Fs.thy ===== *)
theory Hst_Fs
  imports Hst_Ident Check_Abs
begin

text \<open>
  Mount points of a configuration: \<open>hst/fs.go\<close>, \<open>fsbind.go\<close>, \<open>fsephemeral.go\<close>, \<open>fslink.go\<close> and
  \<open>fsoverlay.go\<close>. Nil pathnames are \<^term>\<open>None\<close>; a checked pathname is never the zero value (its
  constructors and decoders, in \<open>Check_Abs\<close>, do not return one), so its string is its field.
  \<open>Apply\<close> is the list of calls it makes on the interface \<open>Ops\<close>.
\<close>

subsection \<open>fs.go and bits.go\<close>

definition BindOptional :: nat where "BindOptional = 1"
definition BindWritable :: nat where "BindWritable = 2"
definition BindDevice :: nat where "BindDevice = 4"
definition BindEnsure :: nat where "BindEnsure = 8"

datatype ops_call =
    CTmpfs absolute int nat
  | CReadonly absolute nat
  | CBind absolute absolute nat
  | COverlay absolute absolute absolute "absolute list"
  | COverlayReadonly absolute "absolute list"
  | CLink absolute string bool
  | CRoot absolute nat
  | CEtc absolute string

subsection \<open>fsbind.go\<close>

record FSBind =
  bind_Target :: "absolute option"
  bind_Source :: "absolute option"
  bind_Write :: bool
  bind_Device :: bool
  bind_Ensure :: bool
  bind_Optional :: bool
  bind_Special :: bool

definition bind_Valid :: "FSBind \<Rightarrow> bool" where
  "bind_Valid b =
     (if bind_Source b = None then False
      else if bind_Ensure b \<and> bind_Optional b then False
      else if bind_Special b then
        (case bind_Target b of
           None \<Rightarrow> False
         | Some t \<Rightarrow> pathname t = fhs_Root \<or> pathname t = fhs_Etc)
      else True)"

definition IsAutoRoot :: "FSBind \<Rightarrow> bool" where
  "IsAutoRoot b \<longleftrightarrow> bind_Valid b \<and> bind_Special b \<and> pathname (the (bind_Target b)) = fhs_Root"

definition IsAutoEtc :: "FSBind \<Rightarrow> bool" where
  "IsAutoEtc b \<longleftrightarrow> bind_Valid b \<and> bind_Special b \<and> pathname (the (bind_Target b)) = fhs_Etc"

definition bind_Path :: "FSBind \<Rightarrow> absolute option" where
  "bind_Path b =
     (if \<not> bind_Valid b then None
      else case bind_Target b of None \<Rightarrow> bind_Source b | Some t \<Rightarrow> Some t)"

definition bind_Host :: "FSBind \<Rightarrow> absolute list" where
  "bind_Host b = (if \<not> bind_Valid b then [] else [the (bind_Source b)])"

definition bind_flags :: "FSBind \<Rightarrow> nat" where
  "bind_flags b =
     (if bind_Write b then BindWritable else 0)
     OR (if bind_Device b then BindDevice OR BindWritable else 0)
     OR (if bind_Ensure b then BindEnsure else 0)
     OR (if bind_Optional b then BindOptional else 0)"

definition bind_Apply :: "string \<Rightarrow> FSBind \<Rightarrow> ops_call list" where
  "bind_Apply autoEtcPrefix b =
     (if \<not> bind_Valid b then []
      else
        (let source = the (bind_Source b);
             target = (case bind_Target b of None \<Rightarrow> source | Some t \<Rightarrow> t) in
         if IsAutoRoot b then [CRoot source (bind_flags b)]
         else if IsAutoEtc b then [CEtc source autoEtcPrefix]
         else [CBind source target (bind_flags b)]))"

definition bind_String :: "FSBind \<Rightarrow> string" where
  "bind_String b =
     (if \<not> bind_Valid b then ''<invalid>''
      else
        (let flagSym = (if bind_Device b then ''d'' else if bind_Write b then ''w'' else []);
             source = pathname (the (bind_Source b)) in
         if bind_Special b \<and> IsAutoRoot b then
           (let pre = ''autoroot'' @ (if flagSym \<noteq> [] then '':'' @ flagSym else []) in
            if source \<noteq> fhs_Root then pre @ '':'' @ source else pre)
         else if bind_Special b \<and> IsAutoEtc b then ''autoetc:'' @ source
         else
           flagSym @ (if bind_Ensure b then ''-'' else if bind_Optional b then ''+'' else ''*'') @ source
           @ (case bind_Target b of None \<Rightarrow> [] | Some t \<Rightarrow> '':'' @ pathname t)))"

subsection \<open>fsephemeral.go\<close>

record FSEphemeral =
  eph_Target :: "absolute option"
  eph_Write :: bool
  eph_Size :: int
  eph_Perm :: nat

definition fsEphemeralDefaultPerm :: nat where "fsEphemeralDefaultPerm = 493"

definition eph_Valid :: "FSEphemeral \<Rightarrow> bool" where
  "eph_Valid e \<longleftrightarrow> eph_Target e \<noteq> None"

definition eph_Path :: "FSEphemeral \<Rightarrow> absolute option" where
  "eph_Path e = (if \<not> eph_Valid e then None else eph_Target e)"

definition eph_Host :: "FSEphemeral \<Rightarrow> absolute list" where
  "eph_Host e = []"

definition eph_Apply :: "FSEphemeral \<Rightarrow> ops_call list" where
  "eph_Apply e =
     (if \<not> eph_Valid e then []
      else
        (let size = (if eph_Size e < 0 then 0 else eph_Size e);
             perm = (if eph_Perm e = 0 then fsEphemeralDefaultPerm else eph_Perm e) in
         if eph_Write e then [CTmpfs (the (eph_Target e)) size perm]
         else [CReadonly (the (eph_Target e)) perm]))"

text \<open>\<open>perm_String\<close> is \<open>os.FileMode.String\<close>.\<close>

definition eph_String :: "(nat \<Rightarrow> string) \<Rightarrow> FSEphemeral \<Rightarrow> string" where
  "eph_String perm_String e =
     (if \<not> eph_Valid e then ''<invalid>''
      else (if eph_Write e then ''w'' else []) @ ''+ephemeral(''
        @ perm_String (if eph_Perm e \<noteq> 0 then eph_Perm e else fsEphemeralDefaultPerm)
        @ ''):'' @ pathname (the (eph_Target e)))"

subsection \<open>fslink.go\<close>

record FSLink =
  lnk_Target :: "absolute option"
  lnk_Linkname :: string
  lnk_Dereference :: bool

definition lnk_Valid :: "FSLink \<Rightarrow> bool" where
  "lnk_Valid l =
     (if lnk_Target l = None \<or> lnk_Linkname l = [] then False
      else \<not> lnk_Dereference l \<or> IsAbs (lnk_Linkname l))"

definition lnk_Path :: "FSLink \<Rightarrow> absolute option" where
  "lnk_Path l = (if \<not> lnk_Valid l then None else lnk_Target l)"

definition lnk_Host :: "FSLink \<Rightarrow> absolute list" where
  "lnk_Host l = []"

definition lnk_Apply :: "FSLink \<Rightarrow> ops_call list" where
  "lnk_Apply l =
     (if \<not> lnk_Valid l then [] else [CLink (the (lnk_Target l)) (lnk_Linkname l) (lnk_Dereference l)])"

definition lnk_String :: "FSLink \<Rightarrow> string" where
  "lnk_String l =
     (if \<not> lnk_Valid l then ''<invalid>''
      else
        (let target = pathname (the (lnk_Target l)) in
         if lnk_Dereference l \<and> target = lnk_Linkname l then target @ ''@''
         else target @ '' -> '' @ (if lnk_Dereference l then ''*'' else []) @ lnk_Linkname l))"

subsection \<open>fsoverlay.go\<close>

record FSOverlay =
  ov_Target :: "absolute option"
  ov_Lower :: "absolute option list"
  ov_Upper :: "absolute option"
  ov_Work :: "absolute option"

definition ov_Valid :: "FSOverlay \<Rightarrow> bool" where
  "ov_Valid x =
     (if ov_Target x = None then False
      else if List.member (ov_Lower x) None then False
      else if ov_Upper x \<noteq> None then ov_Work x \<noteq> None \<and> 0 < length (ov_Lower x)
      else 2 \<le> length (ov_Lower x))"

definition ov_Path :: "FSOverlay \<Rightarrow> absolute option" where
  "ov_Path x = (if \<not> ov_Valid x then None else ov_Target x)"

definition ov_Host :: "FSOverlay \<Rightarrow> absolute list" where
  "ov_Host x =
     (if \<not> ov_Valid x then []
      else (if ov_Upper x \<noteq> None \<and> ov_Work x \<noteq> None then [the (ov_Upper x), the (ov_Work x)] else [])
        @ map the (ov_Lower x))"

definition ov_Apply :: "FSOverlay \<Rightarrow> ops_call list" where
  "ov_Apply x =
     (if \<not> ov_Valid x then []
      else if ov_Upper x \<noteq> None \<and> ov_Work x \<noteq> None
      then [COverlay (the (ov_Target x)) (the (ov_Upper x)) (the (ov_Work x)) (map the (ov_Lower x))]
      else [COverlayReadonly (the (ov_Target x)) (map the (ov_Lower x))])"

definition ov_String :: "FSOverlay \<Rightarrow> string" where
  "ov_String x =
     (if \<not> ov_Valid x then ''<invalid>''
      else
        (let esc = (\<lambda>a. EscapeOverlayDataSegment (pathname (the a))); lower = map esc (ov_Lower x) in
         if ov_Upper x \<noteq> None \<and> ov_Work x \<noteq> None
         then ''w*'' @ Join ([esc (ov_Target x), esc (ov_Upper x), esc (ov_Work x)] @ lower) SpecialOverlayPath
         else ''*'' @ Join (esc (ov_Target x) # lower) SpecialOverlayPath))"

subsection \<open>The interface FilesystemConfig\<close>

datatype FilesystemConfig =
  FS_Bind FSBind | FS_Ephemeral FSEphemeral | FS_Overlay FSOverlay | FS_Link FSLink

fun fs_Valid :: "FilesystemConfig \<Rightarrow> bool" where
  "fs_Valid (FS_Bind b) = bind_Valid b"
| "fs_Valid (FS_Ephemeral e) = eph_Valid e"
| "fs_Valid (FS_Overlay x) = ov_Valid x"
| "fs_Valid (FS_Link l) = lnk_Valid l"

fun fs_Path :: "FilesystemConfig \<Rightarrow> absolute option" where
  "fs_Path (FS_Bind b) = bind_Path b"
| "fs_Path (FS_Ephemeral e) = eph_Path e"
| "fs_Path (FS_Overlay x) = ov_Path x"
| "fs_Path (FS_Link l) = lnk_Path l"

fun fs_Host :: "FilesystemConfig \<Rightarrow> absolute list" where
  "fs_Host (FS_Bind b) = bind_Host b"
| "fs_Host (FS_Ephemeral e) = eph_Host e"
| "fs_Host (FS_Overlay x) = ov_Host x"
| "fs_Host (FS_Link l) = lnk_Host l"

fun fs_Apply :: "string \<Rightarrow> FilesystemConfig \<Rightarrow> ops_call list" where
  "fs_Apply autoEtcPrefix (FS_Bind b) = bind_Apply autoEtcPrefix b"
| "fs_Apply autoEtcPrefix (FS_Ephemeral e) = eph_Apply e"
| "fs_Apply autoEtcPrefix (FS_Overlay x) = ov_Apply x"
| "fs_Apply autoEtcPrefix (FS_Link l) = lnk_Apply l"

definition FilesystemConfigJSON_Valid :: "FilesystemConfig option \<Rightarrow> bool" where
  "FilesystemConfigJSON_Valid f = (case f of None \<Rightarrow> False | Some c \<Rightarrow> fs_Valid c)"

text \<open>Where a call mounts or creates something in the container, and the host paths it uses.\<close>

fun call_target :: "ops_call \<Rightarrow> string" where
  "call_target (CTmpfs t _ _) = pathname t"
| "call_target (CReadonly t _) = pathname t"
| "call_target (CBind _ t _) = pathname t"
| "call_target (COverlay t _ _ _) = pathname t"
| "call_target (COverlayReadonly t _) = pathname t"
| "call_target (CLink t _ _) = pathname t"
| "call_target (CRoot _ _) = fhs_Root"
| "call_target (CEtc _ _) = fhs_Etc"

fun call_host :: "ops_call \<Rightarrow> absolute list" where
  "call_host (CBind s _ _) = [s]"
| "call_host (COverlay _ u w ls) = u # w # ls"
| "call_host (COverlayReadonly _ ls) = ls"
| "call_host (CRoot s _) = [s]"
| "call_host (CEtc s _) = [s]"
| "call_host _ = []"

text \<open>Whether a call makes the host paths writable or gives access to devices.\<close>

fun call_writable :: "ops_call \<Rightarrow> bool" where
  "call_writable (CBind _ _ f) = bit f 1"
| "call_writable (CRoot _ f) = bit f 1"
| "call_writable (COverlay _ _ _ _) = True"
| "call_writable _ = False"

fun fs_asks_writable :: "FilesystemConfig \<Rightarrow> bool" where
  "fs_asks_writable (FS_Bind b) = ((bind_Write b \<or> bind_Device b) \<and> \<not> IsAutoEtc b)"
| "fs_asks_writable (FS_Overlay x) = (ov_Upper x \<noteq> None)"
| "fs_asks_writable _ = False"

lemma bit_bind_flags: "bit (bind_flags b) 1 \<longleftrightarrow> bind_Write b \<or> bind_Device b"
  by (simp add: bind_flags_def BindWritable_def BindDevice_def BindEnsure_def BindOptional_def bit_or_iff bit_iff_odd)

lemmas fs_simps = bind_Apply_def eph_Apply_def ov_Apply_def lnk_Apply_def bind_Path_def eph_Path_def
  ov_Path_def lnk_Path_def bind_Host_def eph_Host_def ov_Host_def lnk_Host_def

lemma fhs_Etc_not_Root [simp]: "fhs_Etc \<noteq> fhs_Root" "fhs_Root \<noteq> fhs_Etc"
  by (simp_all add: fhs_Etc_def fhs_Root_def)

lemma bind_Valid_cases:
  assumes "bind_Valid b"
  obtains s where "bind_Source b = Some s" "\<not> bind_Special b"
  | s t where "bind_Source b = Some s" "bind_Target b = Some t" "IsAutoRoot b" "pathname t = fhs_Root"
  | s t where "bind_Source b = Some s" "bind_Target b = Some t" "IsAutoEtc b" "\<not> IsAutoRoot b" "pathname t = fhs_Etc"
  using assms by (auto simp: bind_Valid_def IsAutoRoot_def IsAutoEtc_def split: if_splits option.splits)

text \<open>C25: a valid mount point makes exactly one call, an invalid one none. The call acts on the path of the
  mount point, uses exactly the host paths it declares, which decides what path hiding sees, and
  makes them writable only if the configuration asks for it.\<close>

theorem fs_Apply_declared:
  "if fs_Valid c
   then \<exists>call p. fs_Apply autoEtcPrefix c = [call] \<and> fs_Path c = Some p \<and> call_target call = pathname p \<and>
          call_host call = fs_Host c \<and> call_writable call = fs_asks_writable c
   else fs_Apply autoEtcPrefix c = [] \<and> fs_Path c = None \<and> fs_Host c = []"
proof (cases c)
  case (FS_Bind b)
  show ?thesis
  proof (cases "bind_Valid b")
    case True
    then show ?thesis
    proof (cases rule: bind_Valid_cases)
      case (1 s)
      then have "\<not> IsAutoRoot b" "\<not> IsAutoEtc b" by (simp_all add: IsAutoRoot_def IsAutoEtc_def)
      with 1 True FS_Bind show ?thesis
        by (cases "bind_Target b") (simp_all add: fs_simps bit_bind_flags [simplified] Let_def)
    next
      case (2 s t)
      then have "\<not> IsAutoEtc b" by (simp add: IsAutoEtc_def)
      with 2 True FS_Bind show ?thesis by (simp add: fs_simps bit_bind_flags [simplified] Let_def)
    next
      case (3 s t)
      with True FS_Bind show ?thesis by (simp add: fs_simps Let_def)
    qed
  qed (simp add: FS_Bind fs_simps)
next
  case (FS_Ephemeral e)
  then show ?thesis by (auto simp: fs_simps eph_Valid_def Let_def)
next
  case (FS_Overlay x)
  then show ?thesis by (auto simp: fs_simps ov_Valid_def split: if_splits)
next
  case (FS_Link l)
  then show ?thesis by (auto simp: fs_simps lnk_Valid_def split: if_splits)
qed

subsection \<open>The JSON adapter\<close>

datatype fs_json_error = ErrFSNull | FSTypeError string | FSJson json_error | FSAbsolute string

text \<open>Fields of the decoded structs: a value of another kind is a type error, \<open>null\<close> resets a pointer
  and leaves anything else as it is; the last of several keys counts.
  When several fields are wrong the error is that of one of them.\<close>

definition fail_type :: "string \<Rightarrow> (fs_json_error, 'a) go" where
  "fail_type t = Fail (FSJson (UnmarshalTypeError t))"

fun dec_bool :: "json list \<Rightarrow> bool \<Rightarrow> (fs_json_error, bool) go" where
  "dec_bool [] b = Ret b"
| "dec_bool (JBool b' # vs) b = dec_bool vs b'"
| "dec_bool (JNull # vs) b = dec_bool vs b"
| "dec_bool (_ # vs) b = fail_type ''bool''"

fun dec_int :: "json list \<Rightarrow> int \<Rightarrow> (fs_json_error, int) go" where
  "dec_int [] i = Ret i"
| "dec_int (JNum i' # vs) i = (if - (2 ^ 63) \<le> i' \<and> i' < 2 ^ 63 then dec_int vs i' else fail_type ''int'')"
| "dec_int (JNull # vs) i = dec_int vs i"
| "dec_int (_ # vs) i = fail_type ''int''"

fun dec_perm :: "json list \<Rightarrow> nat \<Rightarrow> (fs_json_error, nat) go" where
  "dec_perm [] i = Ret i"
| "dec_perm (JNum i' # vs) i = (if 0 \<le> i' \<and> i' < 2 ^ 32 then dec_perm vs (nat i') else fail_type ''os.FileMode'')"
| "dec_perm (JNull # vs) i = dec_perm vs i"
| "dec_perm (_ # vs) i = fail_type ''os.FileMode''"

fun dec_string :: "json list \<Rightarrow> string \<Rightarrow> (fs_json_error, string) go" where
  "dec_string [] s = Ret s"
| "dec_string (JStr s' # vs) s = dec_string vs s'"
| "dec_string (JNull # vs) s = dec_string vs s"
| "dec_string (_ # vs) s = fail_type ''string''"

definition dec_abs1 :: "json \<Rightarrow> (fs_json_error, absolute option) go" where
  "dec_abs1 v =
     (case v of
        JNull \<Rightarrow> Ret None
      | JStr p \<Rightarrow> (case NewAbs p of Ret a \<Rightarrow> Ret (Some a) | Fail _ \<Rightarrow> Fail (FSAbsolute p) | Panic m \<Rightarrow> Panic m)
      | _ \<Rightarrow> fail_type ''string'')"

fun dec_abs :: "json list \<Rightarrow> absolute option \<Rightarrow> (fs_json_error, absolute option) go" where
  "dec_abs [] a = Ret a"
| "dec_abs (v # vs) a = bind_go (dec_abs1 v) (dec_abs vs)"

fun dec_abs_list :: "json list \<Rightarrow> absolute option list \<Rightarrow> (fs_json_error, absolute option list) go" where
  "dec_abs_list [] a = Ret a"
| "dec_abs_list (JArr xs # vs) a = bind_go (mapM_go dec_abs1 xs) (dec_abs_list vs)"
| "dec_abs_list (JNull # vs) a = dec_abs_list vs []"
| "dec_abs_list (_ # vs) a = fail_type ''[]*check.Absolute''"

definition enc_abs :: "absolute option \<Rightarrow> json" where
  "enc_abs a = (case a of None \<Rightarrow> JNull | Some a \<Rightarrow> JStr (pathname a))"

definition omit_abs :: "string \<Rightarrow> absolute option \<Rightarrow> (string \<times> json) list" where
  "omit_abs key a = (case a of None \<Rightarrow> [] | Some a \<Rightarrow> [(key, JStr (pathname a))])"

fun fs_fields :: "FilesystemConfig \<Rightarrow> (string \<times> json) list" where
  "fs_fields (FS_Bind b) =
     (''type'', JStr ''bind'') # omit_abs ''dst'' (bind_Target b) @ [(''src'', enc_abs (bind_Source b))]
     @ omitempty ''write'' (bind_Write b) @ omitempty ''dev'' (bind_Device b) @ omitempty ''ensure'' (bind_Ensure b)
     @ omitempty ''optional'' (bind_Optional b) @ omitempty ''special'' (bind_Special b)"
| "fs_fields (FS_Ephemeral e) =
     (''type'', JStr ''ephemeral'') # [(''dst'', enc_abs (eph_Target e))] @ omitempty ''write'' (eph_Write e)
     @ (if eph_Size e \<noteq> 0 then [(''size'', JNum (eph_Size e))] else [])
     @ (if eph_Perm e \<noteq> 0 then [(''perm'', JNum (int (eph_Perm e)))] else [])"
| "fs_fields (FS_Overlay x) =
     (''type'', JStr ''overlay'') # [(''dst'', enc_abs (ov_Target x)), (''lower'', JArr (map enc_abs (ov_Lower x)))]
     @ omit_abs ''upper'' (ov_Upper x) @ omit_abs ''work'' (ov_Work x)"
| "fs_fields (FS_Link l) =
     (''type'', JStr ''link'') # [(''dst'', enc_abs (lnk_Target l)), (''linkname'', JStr (lnk_Linkname l))]
     @ omitempty ''dereference'' (lnk_Dereference l)"

definition fs_MarshalJSON :: "FilesystemConfig option \<Rightarrow> (fs_json_error, json) go" where
  "fs_MarshalJSON f = (case f of None \<Rightarrow> Fail ErrFSNull | Some c \<Rightarrow> Ret (JObj (fs_fields c)))"

definition dec_bind :: "(string \<times> json) list \<Rightarrow> (fs_json_error, FSBind) go" where
  "dec_bind obj =
     bind_go (dec_abs (json_fields ''dst'' obj) None) (\<lambda>t. bind_go (dec_abs (json_fields ''src'' obj) None) (\<lambda>s.
     bind_go (dec_bool (json_fields ''write'' obj) False) (\<lambda>w. bind_go (dec_bool (json_fields ''dev'' obj) False) (\<lambda>d.
     bind_go (dec_bool (json_fields ''ensure'' obj) False) (\<lambda>e. bind_go (dec_bool (json_fields ''optional'' obj) False) (\<lambda>p.
     bind_go (dec_bool (json_fields ''special'' obj) False) (\<lambda>sp.
       Ret \<lparr>bind_Target = t, bind_Source = s, bind_Write = w, bind_Device = d, bind_Ensure = e,
            bind_Optional = p, bind_Special = sp\<rparr>)))))))"

definition dec_ephemeral :: "(string \<times> json) list \<Rightarrow> (fs_json_error, FSEphemeral) go" where
  "dec_ephemeral obj =
     bind_go (dec_abs (json_fields ''dst'' obj) None) (\<lambda>t. bind_go (dec_bool (json_fields ''write'' obj) False) (\<lambda>w.
     bind_go (dec_int (json_fields ''size'' obj) 0) (\<lambda>s. bind_go (dec_perm (json_fields ''perm'' obj) 0) (\<lambda>p.
       Ret \<lparr>eph_Target = t, eph_Write = w, eph_Size = s, eph_Perm = p\<rparr>))))"

definition dec_overlay :: "(string \<times> json) list \<Rightarrow> (fs_json_error, FSOverlay) go" where
  "dec_overlay obj =
     bind_go (dec_abs (json_fields ''dst'' obj) None) (\<lambda>t. bind_go (dec_abs_list (json_fields ''lower'' obj) []) (\<lambda>l.
     bind_go (dec_abs (json_fields ''upper'' obj) None) (\<lambda>u. bind_go (dec_abs (json_fields ''work'' obj) None) (\<lambda>w.
       Ret \<lparr>ov_Target = t, ov_Lower = l, ov_Upper = u, ov_Work = w\<rparr>))))"

definition dec_link :: "(string \<times> json) list \<Rightarrow> (fs_json_error, FSLink) go" where
  "dec_link obj =
     bind_go (dec_abs (json_fields ''dst'' obj) None) (\<lambda>t. bind_go (dec_string (json_fields ''linkname'' obj) []) (\<lambda>n.
     bind_go (dec_bool (json_fields ''dereference'' obj) False) (\<lambda>d.
       Ret \<lparr>lnk_Target = t, lnk_Linkname = n, lnk_Dereference = d\<rparr>)))"

definition fs_UnmarshalJSON :: "json \<Rightarrow> (fs_json_error, FilesystemConfig) go" where
  "fs_UnmarshalJSON data =
     (case data of
        JNull \<Rightarrow> Fail ErrFSNull
      | JObj obj \<Rightarrow>
          bind_go (dec_string (json_fields ''type'' obj) []) (\<lambda>t.
            if t = ''bind'' then bind_go (dec_bind obj) (\<lambda>b. Ret (FS_Bind b))
            else if t = ''ephemeral'' then bind_go (dec_ephemeral obj) (\<lambda>e. Ret (FS_Ephemeral e))
            else if t = ''overlay'' then bind_go (dec_overlay obj) (\<lambda>x. Ret (FS_Overlay x))
            else if t = ''link'' then bind_go (dec_link obj) (\<lambda>l. Ret (FS_Link l))
            else Fail (FSTypeError t))
      | _ \<Rightarrow> fail_type ''hst.fsType'')"

subsection \<open>Round trip\<close>

definition wf_opt :: "absolute option \<Rightarrow> bool" where
  "wf_opt a = (case a of None \<Rightarrow> True | Some a \<Rightarrow> wf_abs a)"

text \<open>What the Go types guarantee: checked pathnames, 64-bit sizes and 32-bit modes.\<close>

fun fs_wf :: "FilesystemConfig \<Rightarrow> bool" where
  "fs_wf (FS_Bind b) \<longleftrightarrow> wf_opt (bind_Target b) \<and> wf_opt (bind_Source b)"
| "fs_wf (FS_Ephemeral e) \<longleftrightarrow> wf_opt (eph_Target e) \<and> - (2 ^ 63) \<le> eph_Size e \<and> eph_Size e < 2 ^ 63 \<and> eph_Perm e < 2 ^ 32"
| "fs_wf (FS_Overlay x) \<longleftrightarrow> wf_opt (ov_Target x) \<and> list_all wf_opt (ov_Lower x) \<and> wf_opt (ov_Upper x) \<and> wf_opt (ov_Work x)"
| "fs_wf (FS_Link l) \<longleftrightarrow> wf_opt (lnk_Target l)"

lemma dec_enc_abs: "wf_opt a \<Longrightarrow> dec_abs1 (enc_abs a) = Ret a"
  by (cases a; simp add: dec_abs1_def enc_abs_def wf_opt_def wf_abs_def NewAbs_def unsafeAbs_def)

lemma dec_abs_enc: "wf_opt a \<Longrightarrow> dec_abs [enc_abs a] b = Ret a"
  by (simp add: dec_enc_abs)

lemma dec_abs_omit: "wf_opt a \<Longrightarrow> dec_abs (map snd (omit_abs key a)) None = Ret a"
  using dec_enc_abs [of a] by (cases a) (simp_all add: omit_abs_def enc_abs_def)

lemma mapM_enc_abs: "list_all wf_opt as \<Longrightarrow> mapM_go dec_abs1 (map enc_abs as) = Ret as"
  by (induction as) (simp_all add: dec_enc_abs)

lemma fs_keys:
  "lower_key ''type''" "lower_key ''dst''" "lower_key ''src''" "lower_key ''write''" "lower_key ''dev''"
  "lower_key ''ensure''" "lower_key ''optional''" "lower_key ''special''" "lower_key ''size''" "lower_key ''perm''"
  "lower_key ''lower''" "lower_key ''upper''" "lower_key ''work''" "lower_key ''linkname''" "lower_key ''dereference''"
  by (simp_all add: lower_key_def fold_byte_def)

lemma json_fields_omit_abs:
  "json_fields key (omit_abs key' a) = (if same_key key' key then map snd (omit_abs key' a) else [])"
  by (cases a) (simp_all add: omit_abs_def json_fields_def)

lemma json_fields_if:
  "json_fields k (if b then [(k', v)] else []) = (if b \<and> same_key k' k then [v] else [])"
  by (simp add: json_fields_def)

lemma dec_bool_omitted: "dec_bool (if b then [JBool True] else []) False = Ret b"
  by simp

lemmas json_key_simps = json_fields_Cons json_fields_append json_fields_omitempty json_fields_omit_abs
  same_key_lower fs_keys dec_abs_enc dec_abs_omit

lemma dec_string_1: "dec_string [JStr s] d = Ret s"
  by simp

lemma dec_fields_bind:
  "fs_wf (FS_Bind b) \<Longrightarrow> dec_bind (fs_fields (FS_Bind b)) = Ret b"
  by (simp add: dec_bind_def json_key_simps dec_bool_omitted del: dec_abs.simps dec_bool.simps)

lemma dec_fields_ephemeral:
  assumes "fs_wf (FS_Ephemeral e)"
  shows "dec_ephemeral (fs_fields (FS_Ephemeral e)) = Ret e"
proof -
  have "dec_int (if eph_Size e \<noteq> 0 then [JNum (eph_Size e)] else []) 0 = Ret (eph_Size e)"
    "dec_perm (if eph_Perm e \<noteq> 0 then [JNum (int (eph_Perm e))] else []) 0 = Ret (eph_Perm e)"
    using assms by auto
  then show ?thesis
    using assms by (simp add: dec_ephemeral_def json_key_simps json_fields_if dec_bool_omitted
        del: dec_abs.simps dec_bool.simps dec_int.simps dec_perm.simps)
qed

lemma dec_fields_overlay:
  "fs_wf (FS_Overlay x) \<Longrightarrow> dec_overlay (fs_fields (FS_Overlay x)) = Ret x"
  by (simp add: dec_overlay_def json_key_simps mapM_enc_abs del: dec_abs.simps)

lemma dec_fields_link:
  "fs_wf (FS_Link l) \<Longrightarrow> dec_link (fs_fields (FS_Link l)) = Ret l"
  by (simp add: dec_link_def json_key_simps dec_bool_omitted dec_string_1 del: dec_abs.simps dec_bool.simps dec_string.simps)

lemma fs_type_field:
  "json_fields ''type'' (fs_fields c) =
     [JStr (case c of FS_Bind _ \<Rightarrow> ''bind'' | FS_Ephemeral _ \<Rightarrow> ''ephemeral'' | FS_Overlay _ \<Rightarrow> ''overlay'' | FS_Link _ \<Rightarrow> ''link'')]"
  by (cases c) (simp_all add: json_key_simps json_fields_if)

text \<open>A mount point of any kind survives its JSON form: what \<open>UnmarshalJSON\<close> reads from the output
  of \<open>MarshalJSON\<close> is the mount point, with every field.\<close>

theorem fs_json_roundtrip:
  assumes "fs_wf c"
  shows "bind_go (fs_MarshalJSON (Some c)) fs_UnmarshalJSON = Ret c"
  using assms dec_fields_bind dec_fields_ephemeral dec_fields_overlay dec_fields_link
  by (cases c) (simp_all add: fs_MarshalJSON_def fs_UnmarshalJSON_def fs_type_field dec_string_1
      del: fs_fields.simps fs_wf.simps dec_string.simps)

theorem fs_json_roundtrip_witness:
  "bind_go (fs_MarshalJSON (Some (FS_Link \<lparr>lnk_Target = Some (Absolute ''/run/x''), lnk_Linkname = ''/y'', lnk_Dereference = True\<rparr>)))
     fs_UnmarshalJSON = Ret (FS_Link \<lparr>lnk_Target = Some (Absolute ''/run/x''), lnk_Linkname = ''/y'', lnk_Dereference = True\<rparr>)"
  by (rule fs_json_roundtrip) (simp add: wf_opt_def wf_abs_def slash_def)

end
