(* ===== verification/Cont_Ops.thy ===== *)
theory Cont_Ops
  imports Cont_Mount Hst_Fs
begin

text \<open>
  The setup operations of the container init: \<open>container/initbind.go\<close>, \<open>initdev.go\<close>, \<open>initmkdir.go\<close>,
  \<open>initoverlay.go\<close>, \<open>initplace.go\<close>, \<open>initproc.go\<close>, \<open>initremount.go\<close>, \<open>initsymlink.go\<close>, \<open>inittmpfs.go\<close>,
  \<open>autoetc.go\<close> and \<open>autoroot.go\<close>, each with \<open>Valid\<close>, \<open>early\<close> (which gives the updated operation),
  \<open>apply\<close> and \<open>Is\<close>, and the methods of \<open>Ops\<close> that append them. A nil operation is \<^term>\<open>None\<close> in the list of
  operations. Operations and pathnames are pointers in the source; \<open>Is\<close> compares what they point to.
\<close>

subsection \<open>State and errors of init.go\<close>

record setupState =
  st_nonrepeatable :: u64
  st_ParentPerm :: nat
  st_RetainSession :: bool

definition nrAutoEtc :: u64 where "nrAutoEtc = 1"
definition nrAutoRoot :: u64 where "nrAutoRoot = 2"

definition absStr :: "absolute option \<Rightarrow> (cerr, string) prog" where
  "absStr a =
     (case a of
        None \<Rightarrow> Done (Panic ''invalid memory address or nil pointer dereference'')
      | Some x \<Rightarrow>
          (case abs_String x of
             Ret s \<Rightarrow> Done (Ret s) | Fail e \<Rightarrow> Done (Fail (PathnameError e)) | Panic m \<Rightarrow> Done (Panic m)))"

definition newAbs :: "string \<Rightarrow> (cerr, absolute) prog" where
  "newAbs p =
     (case NewAbs p of
        Ret a \<Rightarrow> Done (Ret a) | Fail e \<Rightarrow> Done (Fail (PathnameError e)) | Panic m \<Rightarrow> Done (Panic m))"

definition absAppend :: "absolute option \<Rightarrow> string list \<Rightarrow> (cerr, absolute) prog" where
  "absAppend a elem = thn (absStr a) (\<lambda>s. Done (Ret (unsafeAbs (path_Join (s # elem)))))"

subsection \<open>initbind.go\<close>

record BindMountOp =
  b_sourceFinal :: "absolute option"
  b_Source :: "absolute option"
  b_Target :: "absolute option"
  b_Flags :: nat

definition bindop_Valid :: "BindMountOp \<Rightarrow> bool" where
  "bindop_Valid b \<longleftrightarrow>
     b_Source b \<noteq> None \<and> b_Target b \<noteq> None \<and>
     b_Flags b AND (BindOptional OR BindEnsure) \<noteq> (BindOptional OR BindEnsure)"

definition bindop_early :: "BindMountOp \<Rightarrow> (cerr, BindMountOp) prog" where
  "bindop_early b =
     thn (absStr (b_Source b)) (\<lambda>source.
     thn (if b_Flags b AND BindEnsure \<noteq> 0 then exec (MkdirAll source 448) else Done (Ret ())) (\<lambda>_.
     after (ask (EvalSymlinks source)) (\<lambda>r. case r of
       Fail err \<Rightarrow>
         if IsNotExist err \<and> b_Flags b AND BindOptional \<noteq> 0 then Done (Ret b) else Done (Fail err)
     | Ret v \<Rightarrow> thn (newAbs (v_str v)) (\<lambda>a. Done (Ret (b\<lparr>b_sourceFinal := Some a\<rparr>)))
     | Panic m \<Rightarrow> Done (Panic m))))"

definition bindop_flags :: "nat \<Rightarrow> u64" where
  "bindop_flags f =
     (let flags = MS_REC;
          flags = (if f AND BindWritable = 0 then flags OR MS_RDONLY else flags);
          flags = (if f AND BindDevice = 0 then flags OR MS_NODEV else flags)
      in flags)"

definition bindop_apply :: "nat \<Rightarrow> BindMountOp \<Rightarrow> (cerr, unit) prog" where
  "bindop_apply fu b =
     (case b_sourceFinal b of
        None \<Rightarrow>
          if b_Flags b AND BindOptional = 0 then Done (Fail (OpStateError ''bind'')) else Done (Ret ())
      | Some sf \<Rightarrow>
          thn (absStr (Some sf)) (\<lambda>sfs.
          thn (absStr (b_Target b)) (\<lambda>t.
          let source = toHost sfs; target = toSysroot t in
          thn (ask (Stat source)) (\<lambda>fi.
          thn (if v_dir fi then exec (MkdirAll target 448) else ensureFile target 292 448) (\<lambda>_.
          bindMount fu hostProc source target (bindop_flags (b_Flags b)))))))"

definition bindop_Is :: "BindMountOp \<Rightarrow> BindMountOp \<Rightarrow> bool" where
  "bindop_Is b v \<longleftrightarrow>
     bindop_Valid b \<and> bindop_Valid v \<and>
     abs_Is (b_Source b) (b_Source v) \<and> abs_Is (b_Target b) (b_Target v) \<and> b_Flags b = b_Flags v"

subsection \<open>initdev.go\<close>

record MountDevOp =
  d_Target :: "absolute option"
  d_Mqueue :: bool
  d_Write :: bool

definition devop_Valid :: "MountDevOp \<Rightarrow> bool" where
  "devop_Valid d \<longleftrightarrow> d_Target d \<noteq> None"

definition dev_nodes :: "string list" where
  "dev_nodes = [''null'', ''zero'', ''full'', ''random'', ''urandom'', ''tty'']"

definition dev_links :: "(string \<times> string) list" where
  "dev_links =
     [(fhs_Proc @ ''self/fd/0'', ''stdin''), (fhs_Proc @ ''self/fd/1'', ''stdout''), (fhs_Proc @ ''self/fd/2'', ''stderr''),
      (fhs_Proc @ ''self/fd'', ''fd''), (fhs_Proc @ ''kcore'', ''core''), (''pts/ptmx'', ''ptmx'')]"

definition devop_apply :: "nat \<Rightarrow> setupState \<Rightarrow> MountDevOp \<Rightarrow> (cerr, unit) prog" where
  "devop_apply fu st d =
     thn (absStr (d_Target d)) (\<lambda>t.
     let target = toSysroot t;
         devShmPath = path_Join [target, ''shm''];
         devPtsPath = path_Join [target, ''pts'']
     in
     thn (mountTmpfs SourceTmpfsDevtmpfs target (MS_NOSUID OR MS_NODEV) 0 (st_ParentPerm st)) (\<lambda>_.
     thn (each (\<lambda>name.
       let targetPath = path_Join [target, name] in
       thn (ensureFile targetPath 292 (st_ParentPerm st)) (\<lambda>_.
       bindMount fu hostProc (toHost (fhs_Dev @ name)) targetPath 0)) dev_nodes) (\<lambda>_.
     thn (each (\<lambda>(dest, name). exec (SysSymlink dest (path_Join [target, name]))) dev_links) (\<lambda>_.
     thn (each (\<lambda>name. exec (Mkdir name (st_ParentPerm st))) [devShmPath, devPtsPath]) (\<lambda>_.
     thn (mount SourceDevpts devPtsPath FstypeDevpts (MS_NOSUID OR MS_NOEXEC) ''newinstance,ptmxmode=0666,mode=620'') (\<lambda>_.
     thn (if st_RetainSession st then
            thn (Isatty 1) (\<lambda>tty.
              if tty then
                let consolePath = path_Join [target, ''console''] in
                thn (ensureFile consolePath 292 (st_ParentPerm st)) (\<lambda>_.
                thn (ask (Readlink (pp_stdout hostProc))) (\<lambda>name.
                bindMount fu hostProc (toHost (v_str name)) consolePath 0))
              else Done (Ret ()))
          else Done (Ret ())) (\<lambda>_.
     thn (if d_Mqueue d then
            let mqueueTarget = path_Join [target, ''mqueue''] in
            thn (exec (Mkdir mqueueTarget (st_ParentPerm st))) (\<lambda>_.
            mount SourceMqueue mqueueTarget FstypeMqueue (MS_NOSUID OR MS_NOEXEC OR MS_NODEV) [])
          else Done (Ret ())) (\<lambda>_.
     if d_Write d then Done (Ret ())
     else
       thn (remount fu hostProc target MS_RDONLY) (\<lambda>_.
       mountTmpfs SourceTmpfs devShmPath (MS_NOSUID OR MS_NODEV) 0 1023)))))))))"

definition devop_Is :: "MountDevOp \<Rightarrow> MountDevOp \<Rightarrow> bool" where
  "devop_Is d v \<longleftrightarrow>
     devop_Valid d \<and> devop_Valid v \<and>
     abs_Is (d_Target d) (d_Target v) \<and> d_Mqueue d = d_Mqueue v \<and> d_Write d = d_Write v"

subsection \<open>initmkdir.go\<close>

record MkdirOp =
  m_Path :: "absolute option"
  m_Perm :: nat

definition mkdirop_Valid :: "MkdirOp \<Rightarrow> bool" where
  "mkdirop_Valid m \<longleftrightarrow> m_Path m \<noteq> None"

definition mkdirop_apply :: "MkdirOp \<Rightarrow> (cerr, unit) prog" where
  "mkdirop_apply m = thn (absStr (m_Path m)) (\<lambda>p. exec (MkdirAll (toSysroot p) (m_Perm m)))"

definition mkdirop_Is :: "MkdirOp \<Rightarrow> MkdirOp \<Rightarrow> bool" where
  "mkdirop_Is m v \<longleftrightarrow>
     mkdirop_Valid m \<and> mkdirop_Valid v \<and> abs_Is (m_Path m) (m_Path v) \<and> m_Perm m = m_Perm v"

subsection \<open>initoverlay.go\<close>

definition intermediatePatternOverlayUpper :: string where "intermediatePatternOverlayUpper = ''overlay.upper.*''"
definition intermediatePatternOverlayWork :: string where "intermediatePatternOverlayWork = ''overlay.work.*''"

definition OverlayEphemeralUnexpectedUpper :: nat where "OverlayEphemeralUnexpectedUpper = 0"
definition OverlayReadonlyLower :: nat where "OverlayReadonlyLower = 1"
definition OverlayEmptyLower :: nat where "OverlayEmptyLower = 2"

record MountOverlayOp =
  o_Target :: "absolute option"
  o_Lower :: "absolute option list"
  o_lower :: "string list"
  o_Upper :: "absolute option"
  o_upper :: string
  o_Work :: "absolute option"
  o_work :: string
  o_ephemeral :: bool
  o_noPrefix :: bool

definition overlayop_Valid :: "MountOverlayOp \<Rightarrow> bool" where
  "overlayop_Valid x =
     (if o_Work x \<noteq> None \<and> o_Upper x = None then False
      else if List.member (o_Lower x) None then False
      else o_Target x \<noteq> None)"

text \<open>A pathname for the options of the mount: resolved, below the host root, escaped.\<close>

definition overlay_resolve :: "absolute option \<Rightarrow> (cerr, string) prog" where
  "overlay_resolve a =
     thn (absStr a) (\<lambda>s.
     thn (ask (EvalSymlinks s)) (\<lambda>v. Done (Ret (EscapeOverlayDataSegment (toHost (v_str v))))))"

primrec overlay_lowers :: "absolute option list \<Rightarrow> (cerr, string list) prog" where
  "overlay_lowers [] = Done (Ret [])"
| "overlay_lowers (a # as) =
     thn (overlay_resolve a) (\<lambda>s. thn (overlay_lowers as) (\<lambda>ss. Done (Ret (s # ss))))"

definition overlayop_early :: "MountOverlayOp \<Rightarrow> (cerr, MountOverlayOp) prog" where
  "overlayop_early x =
     thn (if o_Work x = None \<and> o_Upper x \<noteq> None then
            thn (absStr (o_Upper x)) (\<lambda>u.
              if u = fhs_Root then Done (Ret (x\<lparr>o_ephemeral := True\<rparr>))
              else Done (Fail (OverlayArgumentError OverlayEphemeralUnexpectedUpper u)))
          else Done (Ret x)) (\<lambda>x.
     thn (if \<not> o_ephemeral x then
            if (o_Upper x = None) \<noteq> (o_Work x = None) then Done (Fail (OpStateError ''overlay''))
            else
              thn (if o_Upper x \<noteq> None then
                     thn (overlay_resolve (o_Upper x)) (\<lambda>u. Done (Ret (x\<lparr>o_upper := u\<rparr>)))
                   else Done (Ret x)) (\<lambda>x.
              if o_Work x \<noteq> None then
                thn (overlay_resolve (o_Work x)) (\<lambda>w. Done (Ret (x\<lparr>o_work := w\<rparr>)))
              else Done (Ret x))
          else Done (Ret x)) (\<lambda>x.
     thn (overlay_lowers (o_Lower x)) (\<lambda>ls. Done (Ret (x\<lparr>o_lower := ls\<rparr>)))))"

definition overlay_options :: "MountOverlayOp \<Rightarrow> (cerr, string list) go" where
  "overlay_options x =
     bind_go
       (if o_upper x = [] \<and> o_work x = [] then
          if length (o_Lower x) < 2 then Fail (OverlayArgumentError OverlayReadonlyLower []) else Ret []
        else if length (o_Lower x) = 0 then Fail (OverlayArgumentError OverlayEmptyLower [])
        else Ret [OptionOverlayUpperdir @ ''='' @ o_upper x, OptionOverlayWorkdir @ ''='' @ o_work x])
       (\<lambda>options. Ret (options @
          [OptionOverlayLowerdir @ ''='' @ Join (o_lower x) SpecialOverlayPath, OptionOverlayUserxattr]))"

definition overlayop_apply :: "setupState \<Rightarrow> MountOverlayOp \<Rightarrow> (cerr, unit) prog" where
  "overlayop_apply st x =
     thn (absStr (o_Target x)) (\<lambda>t.
     let target = (if \<not> o_noPrefix x then toSysroot t else t) in
     thn (exec (MkdirAll target (st_ParentPerm st))) (\<lambda>_.
     thn (if o_ephemeral x then
            thn (ask (MkdirTemp fhs_Root intermediatePatternOverlayUpper)) (\<lambda>u.
            thn (ask (MkdirTemp fhs_Root intermediatePatternOverlayWork)) (\<lambda>w.
            Done (Ret (x\<lparr>o_upper := v_str u, o_work := v_str w\<rparr>))))
          else Done (Ret x)) (\<lambda>x.
     thn (Done (overlay_options x)) (\<lambda>options.
     mount SourceOverlay target FstypeOverlay 0 (Join options SpecialOverlayOption)))))"

definition overlayop_Is :: "MountOverlayOp \<Rightarrow> MountOverlayOp \<Rightarrow> bool" where
  "overlayop_Is x v \<longleftrightarrow>
     overlayop_Valid x \<and> overlayop_Valid v \<and>
     abs_Is (o_Target x) (o_Target v) \<and>
     list_all2 abs_Is (o_Lower x) (o_Lower v) \<and>
     abs_Is (o_Upper x) (o_Upper v) \<and> abs_Is (o_Work x) (o_Work v)"

subsection \<open>initplace.go\<close>

definition intermediatePatternTmpfile :: string where "intermediatePatternTmpfile = ''tmp.*''"

record TmpfileOp =
  t_Path :: "absolute option"
  t_Data :: string

definition tmpfileop_Valid :: "TmpfileOp \<Rightarrow> bool" where
  "tmpfileop_Valid t \<longleftrightarrow> t_Path t \<noteq> None"

definition tmpfileop_apply :: "nat \<Rightarrow> setupState \<Rightarrow> TmpfileOp \<Rightarrow> (cerr, unit) prog" where
  "tmpfileop_apply fu st t =
     thn (ask (CreateTemp fhs_Root intermediatePatternTmpfile)) (\<lambda>f.
     let tmpPath = v_str f in
     thn (exec (FileWrite tmpPath (t_Data t))) (\<lambda>_.
     thn (exec (FileClose tmpPath)) (\<lambda>_.
     thn (absStr (t_Path t)) (\<lambda>p.
     let target = toSysroot p in
     thn (ensureFile target 292 (st_ParentPerm st)) (\<lambda>_.
     thn (bindMount fu hostProc tmpPath target (MS_RDONLY OR MS_NODEV)) (\<lambda>_.
     exec (Remove tmpPath)))))))"

definition tmpfileop_Is :: "TmpfileOp \<Rightarrow> TmpfileOp \<Rightarrow> bool" where
  "tmpfileop_Is t v \<longleftrightarrow>
     tmpfileop_Valid t \<and> tmpfileop_Valid v \<and> abs_Is (t_Path t) (t_Path v) \<and> t_Data t = t_Data v"

subsection \<open>initproc.go\<close>

record MountProcOp =
  p_Target :: "absolute option"

definition procop_Valid :: "MountProcOp \<Rightarrow> bool" where
  "procop_Valid p \<longleftrightarrow> p_Target p \<noteq> None"

definition procop_apply :: "setupState \<Rightarrow> MountProcOp \<Rightarrow> (cerr, unit) prog" where
  "procop_apply st p =
     thn (absStr (p_Target p)) (\<lambda>t.
     let target = toSysroot t in
     thn (exec (MkdirAll target (st_ParentPerm st))) (\<lambda>_.
     mount SourceProc target FstypeProc (MS_NOSUID OR MS_NOEXEC OR MS_NODEV) []))"

definition procop_Is :: "MountProcOp \<Rightarrow> MountProcOp \<Rightarrow> bool" where
  "procop_Is p v \<longleftrightarrow> procop_Valid p \<and> procop_Valid v \<and> abs_Is (p_Target p) (p_Target v)"

subsection \<open>initremount.go\<close>

record RemountOp =
  r_Target :: "absolute option"
  r_Flags :: u64

definition remountop_Valid :: "RemountOp \<Rightarrow> bool" where
  "remountop_Valid r \<longleftrightarrow> r_Target r \<noteq> None"

definition remountop_apply :: "nat \<Rightarrow> RemountOp \<Rightarrow> (cerr, unit) prog" where
  "remountop_apply fu r = thn (absStr (r_Target r)) (\<lambda>t. remount fu hostProc (toSysroot t) (r_Flags r))"

definition remountop_Is :: "RemountOp \<Rightarrow> RemountOp \<Rightarrow> bool" where
  "remountop_Is r v \<longleftrightarrow>
     remountop_Valid r \<and> remountop_Valid v \<and> abs_Is (r_Target r) (r_Target v) \<and> r_Flags r = r_Flags v"

subsection \<open>initsymlink.go\<close>

record SymlinkOp =
  l_Target :: "absolute option"
  l_LinkName :: string
  l_Dereference :: bool

definition symlinkop_Valid :: "SymlinkOp \<Rightarrow> bool" where
  "symlinkop_Valid l \<longleftrightarrow> l_Target l \<noteq> None \<and> l_LinkName l \<noteq> []"

definition symlinkop_early :: "SymlinkOp \<Rightarrow> (cerr, SymlinkOp) prog" where
  "symlinkop_early l =
     (if l_Dereference l then
        if \<not> IsAbs (l_LinkName l) then Done (Fail (PathnameError (AbsoluteError (l_LinkName l))))
        else thn (ask (Readlink (l_LinkName l))) (\<lambda>v. Done (Ret (l\<lparr>l_LinkName := v_str v\<rparr>)))
      else Done (Ret l))"

definition symlinkop_apply :: "setupState \<Rightarrow> SymlinkOp \<Rightarrow> (cerr, unit) prog" where
  "symlinkop_apply st l =
     thn (absStr (l_Target l)) (\<lambda>t.
     let target = toSysroot t in
     thn (exec (MkdirAll (path_Dir target) (st_ParentPerm st))) (\<lambda>_.
     exec (SysSymlink (l_LinkName l) target)))"

definition symlinkop_Is :: "SymlinkOp \<Rightarrow> SymlinkOp \<Rightarrow> bool" where
  "symlinkop_Is l v \<longleftrightarrow>
     symlinkop_Valid l \<and> symlinkop_Valid v \<and>
     abs_Is (l_Target l) (l_Target v) \<and> l_LinkName l = l_LinkName v \<and> l_Dereference l = l_Dereference v"

subsection \<open>inittmpfs.go\<close>

record MountTmpfsOp =
  f_FSName :: string
  f_Path :: "absolute option"
  f_Flags :: u64
  f_Size :: int
  f_Perm :: nat

definition tmpfsop_Valid :: "MountTmpfsOp \<Rightarrow> bool" where
  "tmpfsop_Valid t \<longleftrightarrow> f_Path t \<noteq> None \<and> f_FSName t \<noteq> []"

definition tmpfsop_apply :: "MountTmpfsOp \<Rightarrow> (cerr, unit) prog" where
  "tmpfsop_apply t =
     (if f_Size t < 0 \<or> 2 ^ 63 - 1 < f_Size t then Done (Fail (TmpfsSizeError (f_Size t)))
      else thn (absStr (f_Path t)) (\<lambda>p.
        mountTmpfs (f_FSName t) (toSysroot p) (f_Flags t) (f_Size t) (f_Perm t)))"

definition tmpfsop_Is :: "MountTmpfsOp \<Rightarrow> MountTmpfsOp \<Rightarrow> bool" where
  "tmpfsop_Is t v \<longleftrightarrow>
     tmpfsop_Valid t \<and> tmpfsop_Valid v \<and>
     f_FSName t = f_FSName v \<and> abs_Is (f_Path t) (f_Path v) \<and>
     f_Flags t = f_Flags v \<and> f_Size t = f_Size v \<and> f_Perm t = f_Perm v"

subsection \<open>autoetc.go\<close>

definition etc_hostRel :: "string \<Rightarrow> string" where
  "etc_hostRel pre = ''.host/'' @ pre"

definition etc_hostPath :: "string \<Rightarrow> absolute" where
  "etc_hostPath pre = unsafeAbs (path_Join [fhs_Etc, etc_hostRel pre])"

definition autoetc_entry :: "string \<Rightarrow> string \<Rightarrow> string \<Rightarrow> (cerr, unit) prog" where
  "autoetc_entry target rel n =
     (if List.member [''.host'', ''passwd'', ''group''] n then Done (Ret ())
      else if n = ''mtab'' then exec (SysSymlink (fhs_Proc @ ''mounts'') (target @ n))
      else exec (SysSymlink (rel @ n) (target @ n)))"

definition autoetc_apply :: "setupState \<Rightarrow> string \<Rightarrow> (cerr, setupState) prog" where
  "autoetc_apply st pre =
     (if st_nonrepeatable st AND nrAutoEtc \<noteq> 0 then Done (Fail (OpRepeatError ''autoetc''))
      else
        let st = st\<lparr>st_nonrepeatable := st_nonrepeatable st OR nrAutoEtc\<rparr>;
            target = sysrootPath @ fhs_Etc;
            rel = etc_hostRel pre @ ''/''
        in
        thn (exec (MkdirAll target 493)) (\<lambda>_.
        thn (absStr (Some (etc_hostPath pre))) (\<lambda>hp.
        thn (ask (ReadDir (toSysroot hp))) (\<lambda>d.
        thn (each (autoetc_entry target rel) (v_names d)) (\<lambda>_. Done (Ret st))))))"

subsection \<open>autoroot.go\<close>

definition IsAutoRootBindable :: "string \<Rightarrow> bool" where
  "IsAutoRootBindable name \<longleftrightarrow> \<not> List.member [''proc'', ''dev'', ''tmp'', ''mnt'', ''etc'', []] name"

record AutoRootOp =
  a_Host :: "absolute option"
  a_Flags :: nat
  a_resolved :: "BindMountOp list"

definition autorootop_Valid :: "AutoRootOp \<Rightarrow> bool" where
  "autorootop_Valid r \<longleftrightarrow> a_Host r \<noteq> None"

primrec autoroot_entries :: "absolute option \<Rightarrow> nat \<Rightarrow> string list \<Rightarrow> (cerr, BindMountOp list) prog" where
  "autoroot_entries host flags [] = Done (Ret [])"
| "autoroot_entries host flags (name # names) =
     (if IsAutoRootBindable name then
        thn (absAppend host [name]) (\<lambda>source.
        thn (absAppend (Some (unsafeAbs fhs_Root)) [name]) (\<lambda>target.
        thn (bindop_early \<lparr>b_sourceFinal = None, b_Source = Some source, b_Target = Some target, b_Flags = flags\<rparr>) (\<lambda>op.
        thn (autoroot_entries host flags names) (\<lambda>ops. Done (Ret (op # ops))))))
      else autoroot_entries host flags names)"

definition autorootop_early :: "AutoRootOp \<Rightarrow> (cerr, AutoRootOp) prog" where
  "autorootop_early r =
     thn (absStr (a_Host r)) (\<lambda>h.
     thn (ask (ReadDir h)) (\<lambda>d.
     thn (autoroot_entries (a_Host r) (a_Flags r) (v_names d)) (\<lambda>ops. Done (Ret (r\<lparr>a_resolved := ops\<rparr>)))))"

definition autorootop_apply :: "nat \<Rightarrow> setupState \<Rightarrow> AutoRootOp \<Rightarrow> (cerr, setupState) prog" where
  "autorootop_apply fu st r =
     (if st_nonrepeatable st AND nrAutoRoot \<noteq> 0 then Done (Fail (OpRepeatError ''autoroot''))
      else
        let st = st\<lparr>st_nonrepeatable := st_nonrepeatable st OR nrAutoRoot\<rparr> in
        thn (each (bindop_apply fu) (a_resolved r)) (\<lambda>_. Done (Ret st)))"

definition autorootop_Is :: "AutoRootOp \<Rightarrow> AutoRootOp \<Rightarrow> bool" where
  "autorootop_Is r v \<longleftrightarrow>
     autorootop_Valid r \<and> autorootop_Valid v \<and> abs_Is (a_Host r) (a_Host v) \<and> a_Flags r = a_Flags v"

subsection \<open>The interface Op\<close>

datatype Op =
    OpBind BindMountOp
  | OpDev MountDevOp
  | OpMkdir MkdirOp
  | OpOverlay MountOverlayOp
  | OpTmpfile TmpfileOp
  | OpProc MountProcOp
  | OpRemount RemountOp
  | OpSymlink SymlinkOp
  | OpTmpfs MountTmpfsOp
  | OpAutoEtc string
  | OpAutoRoot AutoRootOp

fun Op_Valid :: "Op \<Rightarrow> bool" where
  "Op_Valid (OpBind b) = bindop_Valid b"
| "Op_Valid (OpDev d) = devop_Valid d"
| "Op_Valid (OpMkdir m) = mkdirop_Valid m"
| "Op_Valid (OpOverlay x) = overlayop_Valid x"
| "Op_Valid (OpTmpfile t) = tmpfileop_Valid t"
| "Op_Valid (OpProc p) = procop_Valid p"
| "Op_Valid (OpRemount r) = remountop_Valid r"
| "Op_Valid (OpSymlink l) = symlinkop_Valid l"
| "Op_Valid (OpTmpfs t) = tmpfsop_Valid t"
| "Op_Valid (OpAutoEtc _) = True"
| "Op_Valid (OpAutoRoot r) = autorootop_Valid r"

definition mapP :: "('a \<Rightarrow> 'b) \<Rightarrow> ('e, 'a) prog \<Rightarrow> ('e, 'b) prog" where
  "mapP f p = thn p (\<lambda>x. Done (Ret (f x)))"

fun Op_early :: "Op \<Rightarrow> (cerr, Op) prog" where
  "Op_early (OpBind b) = mapP OpBind (bindop_early b)"
| "Op_early (OpOverlay x) = mapP OpOverlay (overlayop_early x)"
| "Op_early (OpSymlink l) = mapP OpSymlink (symlinkop_early l)"
| "Op_early (OpAutoRoot r) = mapP OpAutoRoot (autorootop_early r)"
| "Op_early x = Done (Ret x)"

fun Op_apply :: "nat \<Rightarrow> setupState \<Rightarrow> Op \<Rightarrow> (cerr, setupState) prog" where
  "Op_apply fu st (OpBind b) = mapP (\<lambda>_. st) (bindop_apply fu b)"
| "Op_apply fu st (OpDev d) = mapP (\<lambda>_. st) (devop_apply fu st d)"
| "Op_apply fu st (OpMkdir m) = mapP (\<lambda>_. st) (mkdirop_apply m)"
| "Op_apply fu st (OpOverlay x) = mapP (\<lambda>_. st) (overlayop_apply st x)"
| "Op_apply fu st (OpTmpfile t) = mapP (\<lambda>_. st) (tmpfileop_apply fu st t)"
| "Op_apply fu st (OpProc p) = mapP (\<lambda>_. st) (procop_apply st p)"
| "Op_apply fu st (OpRemount r) = mapP (\<lambda>_. st) (remountop_apply fu r)"
| "Op_apply fu st (OpSymlink l) = mapP (\<lambda>_. st) (symlinkop_apply st l)"
| "Op_apply fu st (OpTmpfs t) = mapP (\<lambda>_. st) (tmpfsop_apply t)"
| "Op_apply fu st (OpAutoEtc pre) = autoetc_apply st pre"
| "Op_apply fu st (OpAutoRoot r) = autorootop_apply fu st r"

fun Op_Is :: "Op \<Rightarrow> Op \<Rightarrow> bool" where
  "Op_Is (OpBind b) y = (case y of OpBind v \<Rightarrow> bindop_Is b v | _ \<Rightarrow> False)"
| "Op_Is (OpDev d) y = (case y of OpDev v \<Rightarrow> devop_Is d v | _ \<Rightarrow> False)"
| "Op_Is (OpMkdir m) y = (case y of OpMkdir v \<Rightarrow> mkdirop_Is m v | _ \<Rightarrow> False)"
| "Op_Is (OpOverlay x) y = (case y of OpOverlay v \<Rightarrow> overlayop_Is x v | _ \<Rightarrow> False)"
| "Op_Is (OpTmpfile t) y = (case y of OpTmpfile v \<Rightarrow> tmpfileop_Is t v | _ \<Rightarrow> False)"
| "Op_Is (OpProc p) y = (case y of OpProc v \<Rightarrow> procop_Is p v | _ \<Rightarrow> False)"
| "Op_Is (OpRemount r) y = (case y of OpRemount v \<Rightarrow> remountop_Is r v | _ \<Rightarrow> False)"
| "Op_Is (OpSymlink l) y = (case y of OpSymlink v \<Rightarrow> symlinkop_Is l v | _ \<Rightarrow> False)"
| "Op_Is (OpTmpfs t) y = (case y of OpTmpfs v \<Rightarrow> tmpfsop_Is t v | _ \<Rightarrow> False)"
| "Op_Is (OpAutoEtc e) y = (case y of OpAutoEtc v \<Rightarrow> (e = v) | _ \<Rightarrow> False)"
| "Op_Is (OpAutoRoot r) y = (case y of OpAutoRoot v \<Rightarrow> autorootop_Is r v | _ \<Rightarrow> False)"

text \<open>\<open>prefix\<close>: the prefix of the log message, and whether init prints the operation.\<close>

fun Op_prefix :: "Op \<Rightarrow> string \<times> bool" where
  "Op_prefix (OpBind _) = (''mounting'', False)"
| "Op_prefix (OpMkdir _) = (''creating'', True)"
| "Op_prefix (OpTmpfile _) = (''placing'', True)"
| "Op_prefix (OpRemount _) = (''remounting'', True)"
| "Op_prefix (OpSymlink _) = (''creating'', True)"
| "Op_prefix (OpAutoEtc _) = (''setting up'', True)"
| "Op_prefix (OpAutoRoot _) = (''setting up'', True)"
| "Op_prefix _ = (''mounting'', True)"

subsection \<open>The methods of Ops\<close>

type_synonym Ops = "Op option list"

definition Ops_Bind :: "absolute option \<Rightarrow> absolute option \<Rightarrow> nat \<Rightarrow> Ops \<Rightarrow> Ops" where
  "Ops_Bind source target flags f =
     f @ [Some (OpBind \<lparr>b_sourceFinal = None, b_Source = source, b_Target = target, b_Flags = flags\<rparr>)]"

definition Ops_Dev :: "absolute option \<Rightarrow> bool \<Rightarrow> Ops \<Rightarrow> Ops" where
  "Ops_Dev target mqueue f = f @ [Some (OpDev \<lparr>d_Target = target, d_Mqueue = mqueue, d_Write = False\<rparr>)]"

definition Ops_DevWritable :: "absolute option \<Rightarrow> bool \<Rightarrow> Ops \<Rightarrow> Ops" where
  "Ops_DevWritable target mqueue f = f @ [Some (OpDev \<lparr>d_Target = target, d_Mqueue = mqueue, d_Write = True\<rparr>)]"

definition Ops_Mkdir :: "absolute option \<Rightarrow> nat \<Rightarrow> Ops \<Rightarrow> Ops" where
  "Ops_Mkdir name perm f = f @ [Some (OpMkdir \<lparr>m_Path = name, m_Perm = perm\<rparr>)]"

definition Ops_Overlay :: "absolute option \<Rightarrow> absolute option \<Rightarrow> absolute option \<Rightarrow> absolute option list \<Rightarrow> Ops \<Rightarrow> Ops" where
  "Ops_Overlay target state work layers f =
     f @ [Some (OpOverlay \<lparr>o_Target = target, o_Lower = layers, o_lower = [], o_Upper = state, o_upper = [],
       o_Work = work, o_work = [], o_ephemeral = False, o_noPrefix = False\<rparr>)]"

definition Ops_OverlayEphemeral :: "absolute option \<Rightarrow> absolute option list \<Rightarrow> Ops \<Rightarrow> Ops" where
  "Ops_OverlayEphemeral target layers f = Ops_Overlay target (Some (unsafeAbs fhs_Root)) None layers f"

definition Ops_OverlayReadonly :: "absolute option \<Rightarrow> absolute option list \<Rightarrow> Ops \<Rightarrow> Ops" where
  "Ops_OverlayReadonly target layers f = Ops_Overlay target None None layers f"

definition Ops_Place :: "absolute option \<Rightarrow> string \<Rightarrow> Ops \<Rightarrow> Ops" where
  "Ops_Place name data f = f @ [Some (OpTmpfile \<lparr>t_Path = name, t_Data = data\<rparr>)]"

definition Ops_Proc :: "absolute option \<Rightarrow> Ops \<Rightarrow> Ops" where
  "Ops_Proc target f = f @ [Some (OpProc \<lparr>p_Target = target\<rparr>)]"

definition Ops_Remount :: "absolute option \<Rightarrow> u64 \<Rightarrow> Ops \<Rightarrow> Ops" where
  "Ops_Remount target flags f = f @ [Some (OpRemount \<lparr>r_Target = target, r_Flags = flags\<rparr>)]"

definition Ops_Link :: "absolute option \<Rightarrow> string \<Rightarrow> bool \<Rightarrow> Ops \<Rightarrow> Ops" where
  "Ops_Link target linkName dereference f =
     f @ [Some (OpSymlink \<lparr>l_Target = target, l_LinkName = linkName, l_Dereference = dereference\<rparr>)]"

definition Ops_Tmpfs :: "absolute option \<Rightarrow> int \<Rightarrow> nat \<Rightarrow> Ops \<Rightarrow> Ops" where
  "Ops_Tmpfs target sz perm f =
     f @ [Some (OpTmpfs \<lparr>f_FSName = SourceTmpfsEphemeral, f_Path = target, f_Flags = MS_NOSUID OR MS_NODEV,
       f_Size = sz, f_Perm = perm\<rparr>)]"

definition Ops_Readonly :: "absolute option \<Rightarrow> nat \<Rightarrow> Ops \<Rightarrow> Ops" where
  "Ops_Readonly target perm f =
     f @ [Some (OpTmpfs \<lparr>f_FSName = SourceTmpfsReadonly, f_Path = target, f_Flags = MS_RDONLY OR MS_NOSUID OR MS_NODEV,
       f_Size = 0, f_Perm = perm\<rparr>)]"

definition Ops_Etc :: "absolute option \<Rightarrow> string \<Rightarrow> Ops \<Rightarrow> Ops" where
  "Ops_Etc host pre f =
     Ops_Bind host (Some (etc_hostPath pre)) 0 (Ops_Mkdir (Some (unsafeAbs fhs_Etc)) 493 f) @ [Some (OpAutoEtc pre)]"

definition Ops_Root :: "absolute option \<Rightarrow> nat \<Rightarrow> Ops \<Rightarrow> Ops" where
  "Ops_Root host flags f = f @ [Some (OpAutoRoot \<lparr>a_Host = host, a_Flags = flags, a_resolved = []\<rparr>)]"

end
