(* ===== verification/Cont_Setup.thy ===== *)
theory Cont_Setup
  imports Cont_Ops
begin

text \<open>
  What the setup operations do to the file system, whatever the kernel answers: during \<open>early\<close> they
  only read, except for directories asked for by \<open>BindEnsure\<close>; during \<open>apply\<close> they create and mount
  below \<open>/sysroot\<close> only and bind from below \<open>/host\<close> or from their own temporary files only. The locale
  \<open>setup_op\<close> is the contract of the interface \<open>Op\<close>, from which the loops of init over all operations
  follow; it is interpreted on the eleven operations.
\<close>

subsection \<open>Pathnames below a directory of the intermediate root\<close>

definition in_root :: "string \<Rightarrow> string \<Rightarrow> bool" where
  "in_root d p \<longleftrightarrow> IsAbs p \<and> (case comps p of [] \<Rightarrow> False | w # ws \<Rightarrow> w = d \<and> list_all plain ws)"

definition dotfree :: "string \<Rightarrow> bool" where
  "dotfree p \<longleftrightarrow> \<not> List.member (comps p) ''..''"

lemma in_root_render: "plain d \<Longrightarrow> list_all plain ws \<Longrightarrow> in_root d (render_path True (d # ws))"
  by (simp add: in_root_def comps_render) (simp add: render_path_def)

lemma plain_roots [simp]: "plain sysrootDir" "plain hostDir"
  by (simp_all add: plain_def sysrootDir_def hostDir_def slash_def)

lemma toSysroot_render:
  assumes "dotfree p"
  obtains ws where "list_all plain ws" "toSysroot p = render_path True (sysrootDir # ws)"
  using toRoot_clean [of sysrootDir p] assms clean_list_plain [of "comps p"] comps_no_slash
  by (auto simp: toSysroot_def sysrootPath_def fhs_Root_def slash_def dotfree_def)

lemma toHost_in [simp]: "dotfree p \<Longrightarrow> in_root hostDir (toHost p)"
  using toRoot_clean [of hostDir p] in_root_render [OF _ clean_list_plain, of hostDir "comps p"] comps_no_slash
  by (auto simp: toHost_def hostPath_def fhs_Root_def slash_def dotfree_def)

lemma toSysroot_in [simp]: "dotfree p \<Longrightarrow> in_root sysrootDir (toSysroot p)"
  by (metis toSysroot_render in_root_render plain_roots(1))

lemma toSysroot_Join_in [simp]: "dotfree p \<Longrightarrow> plain w \<Longrightarrow> in_root sysrootDir (path_Join [toSysroot p, w])"
  by (erule toSysroot_render) (simp add: path_Join_plain in_root_render)

lemma path_Dir_render:
  assumes "list_all plain ws" "plain w"
  shows "path_Dir (render_path True (ws @ [w])) = render_path True ws"
proof -
  have w: "takeWhile (\<lambda>c. c \<noteq> slash) (rev w @ slash # xs) = rev w"
    "dropWhile (\<lambda>c. c \<noteq> slash) (rev w @ slash # xs) = slash # xs" for xs
    using assms(2) by (auto simp: plain_def dropWhile_append takeWhile_append)
  have "path_dir_part (render_path True (ws @ [w])) = (if ws = [] then [slash] else render_path True ws @ [slash])"
    using w(2) [of "[]"] w(2) [of "rev (render_path True ws)"] render_append [of ws "[w]"]
    by (simp add: path_dir_part_def render_path_def)
  moreover have "comps (render_path True ws @ [slash]) = ws"
    using comps_append_slash [of "render_path True ws" "[]"] assms(1) by (simp add: comps_render)
  ultimately show ?thesis
    using assms(1) by (auto simp: path_Dir_def Clean_def render_path_def comps_render)
qed

lemma path_Dir_in:
  assumes "in_root sysrootDir p" "Clean p = p"
  shows "path_Dir p = fhs_Root \<or> in_root sysrootDir (path_Dir p)"
proof -
  obtain ws where ws: "comps p = sysrootDir # ws" "list_all plain ws" "IsAbs p"
    using assms(1) by (auto simp: in_root_def split: list.splits)
  then have p: "p = render_path True (sysrootDir # ws)"
    using assms(2) Clean_rooted [OF ws(3)] by simp
  show ?thesis
  proof (cases ws rule: rev_cases)
    case Nil
    with p path_Dir_render [of "[]" sysrootDir] show ?thesis by (simp add: render_path_def fhs_Root_def slash_def)
  next
    case (snoc vs v)
    with p ws(2) path_Dir_render [of "sysrootDir # vs" v] in_root_render [of sysrootDir vs] show ?thesis by simp
  qed
qed

lemma Clean_toSysroot [simp]: "dotfree p \<Longrightarrow> Clean (toSysroot p) = toSysroot p"
  by (erule toSysroot_render) (auto simp: clean_abs_def render_path_def intro!: Clean_clean_abs exI [of _ "sysrootDir # _"])

lemma Clean_toSysroot_Join [simp]:
  "dotfree p \<Longrightarrow> plain w \<Longrightarrow> Clean (path_Join [toSysroot p, w]) = path_Join [toSysroot p, w]"
  by (erule toSysroot_render)
    (simp add: path_Join_plain, auto simp: clean_abs_def render_path_def intro!: Clean_clean_abs exI [of _ "sysrootDir # _ @ [w]"])

subsection \<open>What is relied on and guaranteed\<close>

text \<open>Documented behaviour of the library functions: resolved pathnames hold no \<open>..\<close> and no null byte, names of directory
  entries are plain, and temporary names replace the star of the pattern in the given directory.\<close>

definition temp_name :: "string \<Rightarrow> string \<Rightarrow> bool" where
  "temp_name pattern p \<longleftrightarrow>
     HasSuffix pattern ''*'' \<and> HasPrefix p (slash # TrimSuffix pattern ''*'') \<and> slash \<notin> set (drop 1 p)"

fun os_err :: "cerr \<Rightarrow> bool" where
  "os_err (Errno _) = True"
| "os_err (PathError _ _ _) = True"
| "os_err (LinkError _ _ _ _) = True"
| "os_err (SyscallError _ _) = True"
| "os_err (OtherError _) = True"
| "os_err _ = False"

fun posix :: "syscall \<Rightarrow> reply \<Rightarrow> bool" where
  "posix c (Err e) = os_err e"
| "posix (EvalSymlinks _) (Val v) = (dotfree (v_str v) \<and> \<not> List.member (v_str v) (CHR 0x00))"
| "posix (ReadDir _) (Val v) = list_all plain (v_names v)"
| "posix (CreateTemp _ pattern) (Val v) = temp_name pattern (v_str v)"
| "posix (MkdirTemp _ pattern) (Val v) = temp_name pattern (v_str v)"
| "posix (Readlink p) (Val v) = (if p = pp_stdout hostProc then dotfree (v_str v) else True)"
| "posix c (Val v) = True"

text \<open>A call during \<open>apply\<close>: creates below \<open>/sysroot\<close>, mounts on pathnames below \<open>/sysroot\<close>, binds from below \<open>/host\<close> or
  from an own temporary file, remounts with \<open>nosuid\<close>, writes to and removes own temporary files, or reads.\<close>

abbreviation own_temp :: "string \<Rightarrow> bool" where
  "own_temp p \<equiv> temp_name intermediatePatternTmpfile p"

fun setup_call :: "syscall \<Rightarrow> bool" where
  "setup_call (SysMount s t f fl d) =
     (if fl AND MS_REMOUNT \<noteq> 0 then s = SourceNone \<and> f = FstypeNULL \<and> fl AND MS_BIND \<noteq> 0 \<and> fl AND MS_NOSUID \<noteq> 0
      else in_root sysrootDir t \<and>
        (if fl AND MS_BIND \<noteq> 0 then in_root hostDir s \<or> own_temp s else f \<noteq> FstypeNULL))"
| "setup_call (MkdirAll p _) = (p = fhs_Root \<or> in_root sysrootDir p)"
| "setup_call (Mkdir p _) = in_root sysrootDir p"
| "setup_call (OpenFile p fl _) = (in_root sysrootDir p \<and> fl = O_CREAT OR O_EXCL OR O_WRONLY)"
| "setup_call (SysSymlink _ p) = in_root sysrootDir p"
| "setup_call (CreateTemp d pattern) = (d = fhs_Root \<and> pattern = intermediatePatternTmpfile)"
| "setup_call (MkdirTemp d pattern) =
     (d = fhs_Root \<and> (pattern = intermediatePatternOverlayUpper \<or> pattern = intermediatePatternOverlayWork))"
| "setup_call (FileWrite p _) = own_temp p"
| "setup_call (Remove p) = own_temp p"
| "setup_call (SysOpen _ fl _) = (fl = O_PATH OR O_CLOEXEC)"
| "setup_call (SysClose _) = True"
| "setup_call (FileClose _) = True"
| "setup_call (EvalSymlinks _) = True"
| "setup_call (Readlink _) = True"
| "setup_call (Stat _) = True"
| "setup_call (ReadDir _) = True"
| "setup_call (OpenNew _) = True"
| "setup_call (SysIsatty _) = True"
| "setup_call _ = False"

subsection \<open>Programs that make permitted calls only\<close>

text \<open>Every call satisfies \<open>G\<close> and an error the program returns satisfies \<open>E\<close>.\<close>

definition keeps :: "(syscall \<Rightarrow> reply \<Rightarrow> bool) \<Rightarrow> (syscall \<Rightarrow> bool) \<Rightarrow> ('e \<Rightarrow> bool) \<Rightarrow> ('e, 'a) prog \<Rightarrow> bool" where
  "keeps R G E p \<longleftrightarrow> (\<forall>tr. ensures R (\<lambda>_. G) p tr (\<lambda>r _. \<forall>e. r = Fail e \<longrightarrow> E e))"

named_theorems keeps_intros \<open>rules for programs that make permitted calls only\<close>

lemma keeps_after:
  fixes p :: "('e, 'a) prog"
  assumes "keeps R G E p" "\<And>x. keeps R G F (f (Ret x))" "\<And>e. E e \<Longrightarrow> keeps R G F (f (Fail e))" "\<And>m. keeps R G F (f (Panic m))"
  shows "keeps R G F (after p f)"
  unfolding keeps_def
proof
  fix tr
  have "ensures R (\<lambda>_. G) p tr (\<lambda>r _. \<forall>e. r = Fail e \<longrightarrow> E e)" using assms(1) by (simp add: keeps_def)
  then have "ensures R (\<lambda>_. G) p tr (\<lambda>r tr. ensures R (\<lambda>_. G) (f r) tr (\<lambda>r _. \<forall>e. r = Fail e \<longrightarrow> F e))"
  proof (rule ensures_mono)
    fix r :: "('e, 'a) go" and tr'
    assume "\<forall>e. r = Fail e \<longrightarrow> E e"
    with assms(2-4) have "keeps R G F (f r)" by (cases r) auto
    then show "ensures R (\<lambda>_. G) (f r) tr' (\<lambda>r _. \<forall>e. r = Fail e \<longrightarrow> F e)" by (simp add: keeps_def)
  qed
  then show "ensures R (\<lambda>_. G) (after p f) tr (\<lambda>r _. \<forall>e. r = Fail e \<longrightarrow> F e)" by simp
qed

lemma keeps_Done [simp]: "keeps R G E (Done r) \<longleftrightarrow> (\<forall>e. r = Fail e \<longrightarrow> E e)"
  by (simp add: keeps_def)

lemma keeps_Done_intros [keeps_intros]: "keeps R G E (Done (Ret x))" "keeps R G E (Done (Panic m))" "keeps R G E Spin"
  by (simp_all add: keeps_def)

lemma keeps_thn [keeps_intros]: "keeps R G E p \<Longrightarrow> (\<And>x. keeps R G E (f x)) \<Longrightarrow> keeps R G E (thn p f)"
  unfolding thn_def by (rule keeps_after) auto

lemma keeps_onFail: "keeps R G E p \<Longrightarrow> (\<And>e. E e \<Longrightarrow> keeps R G F (h e)) \<Longrightarrow> keeps R G F (onFail p h)"
  unfolding onFail_def by (rule keeps_after [of R G E]) auto

lemma keeps_ask: "keeps R G E (ask c) \<longleftrightarrow> G c \<and> (\<forall>e. R c (Err e) \<longrightarrow> E e)"
  by (simp add: keeps_def)

lemma keeps_exec: "keeps R G E (exec c) \<longleftrightarrow> G c \<and> (\<forall>e. R c (Err e) \<longrightarrow> E e)"
  by (simp add: keeps_def)

lemmas keeps_calls = keeps_ask keeps_exec

text \<open>A call whose answer the rest depends on.\<close>

lemma keeps_ask_thn:
  "G c \<Longrightarrow> (\<And>e. R c (Err e) \<Longrightarrow> E e) \<Longrightarrow> (\<And>v. R c (Val v) \<Longrightarrow> keeps R G E (f v)) \<Longrightarrow> keeps R G E (thn (ask c) f)"
  by (simp add: keeps_def)

lemma keeps_if [keeps_intros]: "(b \<Longrightarrow> keeps R G E p) \<Longrightarrow> (\<not> b \<Longrightarrow> keeps R G E q) \<Longrightarrow> keeps R G E (if b then p else q)"
  by simp

lemma keeps_each [keeps_intros]: "(\<And>x. x \<in> set xs \<Longrightarrow> keeps R G E (f x)) \<Longrightarrow> keeps R G E (each f xs)"
  by (induction xs) (auto intro: keeps_thn)

lemma keeps_mono: "keeps R G E p \<Longrightarrow> (\<And>c. G c \<Longrightarrow> G' c) \<Longrightarrow> (\<And>e. E e \<Longrightarrow> E' e) \<Longrightarrow> keeps R G' E' p"
  unfolding keeps_def by (fast elim: ensures_guard_mono [OF ensures_mono])

text \<open>A checked pathname gives its string.\<close>

lemma keeps_absStr_thn:
  "(\<And>x. a = Some x \<Longrightarrow> pathname x \<noteq> [] \<Longrightarrow> keeps R G E (f (pathname x))) \<Longrightarrow> keeps R G E (thn (absStr a) f)"
  by (auto simp: absStr_def abs_String_def split: option.split)

lemma keeps_mapP [keeps_intros]: "keeps R G E p \<Longrightarrow> keeps R G E (mapP f p)"
  unfolding mapP_def by (intro keeps_intros)

lemma run_keeps:
  assumes "answers R K" "keeps R G E p" "run K p [] = (res, tr)"
  shows "list_all (\<lambda>(c, _). G c) tr \<and> (\<forall>e. res = Some (Fail e) \<longrightarrow> E e)"
proof -
  have "ensures R (\<lambda>_. G) p [] (\<lambda>r _. \<forall>e. r = Fail e \<longrightarrow> E e)" using assms(2) by (simp add: keeps_def)
  from run_ensures_all [OF assms(1) this assms(3)] show ?thesis by (cases res) simp_all
qed

subsection \<open>The building blocks\<close>

text \<open>Errors other than that of a state the code calls impossible.\<close>

fun op_error :: "cerr \<Rightarrow> bool" where
  "op_error (OpStateError _) = False"
| "op_error _ = True"

lemma os_error_op [simp]: "os_err e \<Longrightarrow> op_error e"
  by (cases e) auto

lemma keeps_mount: "keeps R G op_error (mount s t f fl d) \<longleftrightarrow> G (SysMount s t f fl d)"
  by (simp add: keeps_def split: option.split)

abbreviation setup_keeps :: "(cerr, 'a) prog \<Rightarrow> bool" where
  "setup_keeps \<equiv> keeps posix setup_call op_error"

lemma remount_ok_setup: "remount_ok mf c \<Longrightarrow> mf AND MS_NOSUID = MS_NOSUID \<Longrightarrow> setup_call c"
proof (induction mf c rule: remount_ok.induct)
  case (1 mf s t f fl d)
  then have "fl AND MS_NOSUID = (fl AND mf) AND MS_NOSUID" by (metis and.assoc)
  with 1 have "fl AND MS_NOSUID = MS_NOSUID" "fl AND MS_REMOUNT = MS_REMOUNT" "fl AND MS_BIND = MS_BIND" by auto
  moreover have "MS_NOSUID \<noteq> 0" "MS_REMOUNT \<noteq> 0" "MS_BIND \<noteq> 0" by (simp_all add: ms_defs)
  ultimately show ?case using "1.prems" by auto
qed auto

lemma remount_flags_nosuid: "remount_flags flags AND MS_NOSUID = MS_NOSUID"
  by (simp add: remount_flags_def and.commute bit.conj_disj_distrib ms_defs and.left_commute)

lemma keeps_remountWithFlags: "setup_keeps (remountWithFlags n (remount_flags flags))"
  using remount_ok_setup [OF remount_call_ok remount_flags_nosuid, of flags n]
  by (auto simp: remountWithFlags_def Let_def keeps_mount remount_call_def)

lemma keeps_over_Collective: "(\<And>i. setup_keeps (body i)) \<Longrightarrow> setup_keeps (over_Collective fu ns body n)"
  by (induction fu arbitrary: n) (auto intro!: keeps_intros)

lemma keeps_IgnoringEINTR: "keeps R G E p \<Longrightarrow> keeps R G E (IgnoringEINTR fu p)"
  by (induction fu) (auto intro: keeps_intros keeps_after)

lemma keeps_mountinfo:
  assumes "\<And>d. setup_keeps (snd (f d))"
  shows "setup_keeps (mountinfo p f)"
proof -
  have "setup_keeps (after (snd (f d)) (\<lambda>err0. case err0 of
         Panic m \<Rightarrow> Done (Panic m)
       | _ \<Rightarrow> thn (exec (FileClose (pp_self p @ ''/mountinfo''))) (\<lambda>_.
             case d_Err (fst (f d)) of Some e \<Rightarrow> Done (Fail (DecoderError e)) | None \<Rightarrow> Done err0)))" for d
    by (rule keeps_after [OF assms]) (auto intro!: keeps_intros simp: keeps_calls split: option.split)
  then show ?thesis
    unfolding mountinfo_def by (intro keeps_thn) (auto simp: keeps_calls Let_def case_prod_unfold)
qed

lemma keeps_remount [keeps_intros]: "setup_keeps (remount fu p target flags)"
proof -
  have nodes: "setup_keeps (remount_nodes fu flags ns n)" for ns n
    unfolding remount_nodes_def Let_def
    by (auto intro!: keeps_intros keeps_over_Collective keeps_remountWithFlags keeps_onFail [OF keeps_remountWithFlags])
  have "setup_keeps (onFail (IgnoringEINTR fu (ask (SysOpen f (O_PATH OR O_CLOEXEC) 0))) (\<lambda>err. Done (Fail (PathError ''open'' f err))))" for f
    by (rule keeps_onFail [OF keeps_IgnoringEINTR]) (auto simp: keeps_calls)
  moreover have "setup_keeps (onFail (exec (SysClose fd)) (\<lambda>err. Done (Fail (PathError ''close'' f err))))" for fd f
    by (rule keeps_onFail [where E = os_err]) (auto simp: keeps_calls)
  ultimately show ?thesis
    unfolding remount_def Let_def
    by (intro keeps_thn keeps_mountinfo) (auto simp: keeps_calls nodes split: prod.split go.split)
qed

lemma bind_bits:
  "(MS_SILENT OR MS_BIND OR (f AND MS_REC)) AND MS_REMOUNT = 0"
  "(MS_SILENT OR MS_BIND OR (f AND MS_REC)) AND MS_BIND = MS_BIND"
  by (simp_all add: bit.conj_disj_distrib2 and.assoc ms_defs)

lemma keeps_bindMount:
  "in_root sysrootDir target \<Longrightarrow> in_root hostDir source \<or> own_temp source \<Longrightarrow> setup_keeps (bindMount fu p source target flags)"
  unfolding bindMount_def by (intro keeps_intros) (simp add: keeps_mount bind_bits, simp add: ms_defs)

lemma err_Join_Fail: "err_Join a b = Fail e \<Longrightarrow> op_error e"
  by (auto simp: err_Join_def split: go.splits)

lemma keeps_createFile:
  assumes "in_root sysrootDir name" "Clean name = name"
  shows "setup_keeps (createFile name perm pperm None)"
proof -
  have "setup_keeps (after (exec (FileClose name)) (\<lambda>cl. Done (err_Join cl r)))" for r
    by (rule keeps_after [where E = os_err]) (auto simp: keeps_calls dest: err_Join_Fail)
  with assms path_Dir_in [of name] show ?thesis
    unfolding createFile_def by (intro keeps_thn keeps_after [where E = op_error]) (auto simp: keeps_calls dest: err_Join_Fail)
qed

lemma keeps_ensureFile:
  "in_root sysrootDir name \<Longrightarrow> Clean name = name \<Longrightarrow> setup_keeps (ensureFile name perm pperm)"
  unfolding ensureFile_def
  by (rule keeps_after [where E = os_err]) (auto intro!: keeps_createFile simp: keeps_calls)

lemma keeps_mountTmpfs:
  "in_root sysrootDir target \<Longrightarrow> flags AND MS_REMOUNT = 0 \<Longrightarrow> flags AND MS_BIND = 0 \<Longrightarrow>
     setup_keeps (mountTmpfs fsname target flags sz perm)"
  unfolding mountTmpfs_def Let_def
  by (intro keeps_intros) (simp_all add: keeps_mount keeps_calls FstypeTmpfs_def FstypeNULL_def)

lemma keeps_Isatty [keeps_intros]: "setup_keeps (Isatty fd)"
  by (simp add: keeps_def Isatty_def)

lemmas keeps_helpers = keeps_absStr_thn keeps_bindMount keeps_ensureFile keeps_mountTmpfs

subsection \<open>The operations\<close>

text \<open>Operations as the methods of \<open>Ops\<close> make them and \<open>gob\<close> transmits them, on container pathnames
  without \<open>..\<close>; and operations after \<open>early\<close>, whose sources are resolved.\<close>

definition opt_dotfree :: "absolute option \<Rightarrow> bool" where
  "opt_dotfree a \<longleftrightarrow> (case a of None \<Rightarrow> True | Some x \<Rightarrow> dotfree (pathname x))"

fun op_wf :: "Op \<Rightarrow> bool" where
  "op_wf (OpBind b) = opt_dotfree (b_Target b)"
| "op_wf (OpDev d) = opt_dotfree (d_Target d)"
| "op_wf (OpMkdir m) = opt_dotfree (m_Path m)"
| "op_wf (OpOverlay x) = (opt_dotfree (o_Target x) \<and> \<not> o_noPrefix x)"
| "op_wf (OpTmpfile t) = opt_dotfree (t_Path t)"
| "op_wf (OpProc p) = opt_dotfree (p_Target p)"
| "op_wf (OpRemount r) = opt_dotfree (r_Target r)"
| "op_wf (OpSymlink l) = opt_dotfree (l_Target l)"
| "op_wf (OpTmpfs t) = (opt_dotfree (f_Path t) \<and> f_Flags t AND MS_REMOUNT = 0 \<and> f_Flags t AND MS_BIND = 0)"
| "op_wf (OpAutoEtc _) = True"
| "op_wf (OpAutoRoot r) = True"

definition bindop_ready :: "BindMountOp \<Rightarrow> bool" where
  "bindop_ready b \<longleftrightarrow>
     opt_dotfree (b_sourceFinal b) \<and> opt_dotfree (b_Target b) \<and>
     (b_sourceFinal b = None \<longrightarrow> b_Flags b AND BindOptional \<noteq> 0)"

fun op_ready :: "Op \<Rightarrow> bool" where
  "op_ready (OpBind b) = bindop_ready b"
| "op_ready (OpAutoRoot r) = list_all bindop_ready (a_resolved r)"
| "op_ready x = op_wf x"

lemma opt_dotfree_simps [simp]: "opt_dotfree (Some x) = dotfree (pathname x)" "opt_dotfree None"
  by (simp_all add: opt_dotfree_def)

lemma keeps_bindop: "bindop_ready b \<Longrightarrow> setup_keeps (bindop_apply fu b)"
  unfolding bindop_apply_def bindop_ready_def Let_def
  by (auto intro!: keeps_intros keeps_helpers simp: keeps_calls split: option.split)

lemma plain_dev_nodes: "name \<in> set dev_nodes \<Longrightarrow> plain name \<and> dotfree (fhs_Dev @ name)"
  by (auto simp: dev_nodes_def plain_def slash_def dotfree_def comps_def fhs_Dev_def)

lemma plain_dev_links: "(dest, name) \<in> set dev_links \<Longrightarrow> plain name"
  by (auto simp: dev_links_def plain_def slash_def)

lemma plain_dev_names [simp]: "plain ''shm''" "plain ''pts''" "plain ''console''" "plain ''mqueue''"
  by (simp_all add: plain_def slash_def)

lemma keeps_devop: "opt_dotfree (d_Target d) \<Longrightarrow> setup_keeps (devop_apply fu st d)"
proof -
  assume "opt_dotfree (d_Target d)"
  then have t: "dotfree (pathname x)" if "d_Target d = Some x" for x using that by simp
  show ?thesis
    unfolding devop_apply_def Let_def
    by (intro keeps_absStr_thn keeps_ask_thn keeps_intros keeps_helpers)
      (auto simp: t keeps_calls keeps_mount FstypeDevpts_def FstypeMqueue_def FstypeNULL_def ms_defs plain_dev_nodes plain_dev_links
        dest: plain_dev_links)
qed

lemma keeps_overlayop:
  assumes "opt_dotfree (o_Target x)" "\<not> o_noPrefix x"
  shows "setup_keeps (overlayop_apply st x)"
proof -
  have t: "dotfree (pathname t)" if "o_Target x = Some t" for t using assms(1) that by simp
  have opts: "op_error e" if "overlay_options x = Fail e" for x e
    using that by (auto simp: overlay_options_def bind_go_Fail_iff split: if_splits)
  show ?thesis
    unfolding overlayop_apply_def Let_def
    by (intro keeps_absStr_thn keeps_intros)
      (auto simp: t assms(2) keeps_calls keeps_mount FstypeOverlay_def FstypeNULL_def dest: opts)
qed

lemma keeps_tmpfileop: "opt_dotfree (t_Path t) \<Longrightarrow> setup_keeps (tmpfileop_apply fu st t)"
  unfolding tmpfileop_apply_def Let_def
  by (intro keeps_ask_thn keeps_intros keeps_helpers) (auto simp: keeps_calls opt_dotfree_def)

lemma etc_entry_in: "plain n \<Longrightarrow> in_root sysrootDir (sysrootPath @ fhs_Etc @ n)"
proof -
  have eq: "sysrootPath @ fhs_Etc @ n = ''/sysroot'' @ slash # (''etc'' @ slash # n)"
    by (simp add: sysrootPath_def fhs_Root_def sysrootDir_def fhs_Etc_def slash_def)
  assume "plain n"
  moreover have "comps ''/sysroot'' = [sysrootDir]" "plain ''etc''" "comps ''etc'' = [''etc'']"
    by (simp_all add: comps_def slash_def sysrootDir_def plain_def)
  ultimately have "comps (sysrootPath @ fhs_Etc @ n) = [sysrootDir, ''etc'', n]" "list_all plain [''etc'', n]"
    unfolding eq comps_append_slash by (simp_all add: comps_plain)
  then show ?thesis unfolding in_root_def by (simp add: sysrootPath_def fhs_Root_def slash_def)
qed

lemma keeps_autoetc: "setup_keeps (autoetc_apply st pre)"
proof -
  have "in_root sysrootDir (sysrootPath @ fhs_Etc)"
    by (simp add: in_root_def sysrootPath_def fhs_Root_def sysrootDir_def fhs_Etc_def comps_def slash_def plain_def)
  moreover have "setup_keeps (autoetc_entry (sysrootPath @ fhs_Etc) rel n)" if "plain n" for rel n
    unfolding autoetc_entry_def using etc_entry_in [OF that] by (auto intro!: keeps_intros simp: keeps_calls)
  ultimately show ?thesis
    unfolding autoetc_apply_def Let_def
    by (intro keeps_if keeps_thn keeps_absStr_thn keeps_ask_thn keeps_intros) (auto simp: keeps_calls list_all_iff)
qed

text \<open>Every operation, once prepared.\<close>

lemma keeps_apply: "op_wf x \<Longrightarrow> op_ready x \<Longrightarrow> setup_keeps (Op_apply fu st x)"
proof (cases x)
  case (OpMkdir m)
  assume "op_wf x"
  with OpMkdir show ?thesis
    by (auto simp: mkdirop_apply_def keeps_calls intro!: keeps_intros keeps_absStr_thn)
next
  case (OpProc p)
  assume "op_wf x"
  with OpProc show ?thesis
    by (auto simp: procop_apply_def Let_def keeps_calls keeps_mount FstypeProc_def FstypeNULL_def ms_defs
        intro!: keeps_intros keeps_absStr_thn)
next
  case (OpSymlink l)
  assume "op_wf x"
  with OpSymlink path_Dir_in show ?thesis
    by (auto simp: symlinkop_apply_def Let_def keeps_calls intro!: keeps_intros keeps_absStr_thn)
next
  case (OpAutoRoot r)
  assume "op_ready x"
  with OpAutoRoot show ?thesis
    by (auto simp: autorootop_apply_def Let_def list_all_iff intro!: keeps_intros keeps_bindop)
qed (auto intro!: keeps_intros keeps_absStr_thn keeps_mountTmpfs keeps_bindop keeps_devop keeps_overlayop keeps_tmpfileop
      keeps_autoetc simp: remountop_apply_def tmpfsop_apply_def opt_dotfree_def)

subsection \<open>Preparation\<close>

text \<open>A call during \<open>early\<close> reads, or makes a directory that \<open>E\<close> allows.\<close>

fun early_call :: "(string \<Rightarrow> bool) \<Rightarrow> syscall \<Rightarrow> bool" where
  "early_call E (MkdirAll p perm) = (E p \<and> perm = 448)"
| "early_call E (EvalSymlinks _) = True"
| "early_call E (Readlink _) = True"
| "early_call E (ReadDir _) = True"
| "early_call E _ = False"

text \<open>The host directories an operation asks to be made.\<close>

fun op_ensured :: "Op \<Rightarrow> string \<Rightarrow> bool" where
  "op_ensured (OpBind b) p = (b_Flags b AND BindEnsure \<noteq> 0 \<and> Some p = map_option pathname (b_Source b))"
| "op_ensured (OpAutoRoot r) p =
     (a_Flags r AND BindEnsure \<noteq> 0 \<and> (\<exists>h n. a_Host r = Some h \<and> p = path_Join [pathname h, n]))"
| "op_ensured _ p = False"

text \<open>An operation as it is transmitted, where what \<open>early\<close> sets is not, with no \<open>..\<close> in its target and, for a
  \<open>tmpfs\<close>, without the flags of a bind or remount. The builders make such operations of pathnames without
  \<open>..\<close>; \<open>Valid\<close> does not check it.\<close>

fun Op_fresh :: "Op \<Rightarrow> bool" where
  "Op_fresh (OpBind b) = (opt_dotfree (b_Target b) \<and> b_sourceFinal b = None)"
| "Op_fresh (OpOverlay x) = (op_wf (OpOverlay x) \<and> \<not> o_ephemeral x)"
| "Op_fresh x = op_wf x"

abbreviation early_post :: "('a \<Rightarrow> bool) \<Rightarrow> (cerr, 'a) go \<Rightarrow> trace \<Rightarrow> bool" where
  "early_post P r tr \<equiv> (\<forall>x. r = Ret x \<longrightarrow> P x) \<and> (\<forall>e. r = Fail e \<longrightarrow> op_error e)"

lemma newAbs_ensures [simp]:
  "ensures R G (newAbs p) tr Q \<longleftrightarrow> (if IsAbs p then Q (Ret (Absolute p)) tr else Q (Fail (PathnameError (AbsoluteError p))) tr)"
  by (simp add: newAbs_def NewAbs_def unsafeAbs_def del: IsAbs_iff)

lemma absStr_ensures [simp]:
  "ensures R G (absStr a) tr Q \<longleftrightarrow>
     (case a of None \<Rightarrow> Q (Panic ''invalid memory address or nil pointer dereference'') tr
      | Some x \<Rightarrow> if pathname x = [] then Q (Panic ''attempted use of zero Absolute'') tr else Q (Ret (pathname x)) tr)"
  by (simp add: absStr_def abs_String_def split: option.split)

lemma absAppend_ensures [simp]:
  "ensures R G (absAppend a es) tr Q \<longleftrightarrow>
     (case a of None \<Rightarrow> Q (Panic ''invalid memory address or nil pointer dereference'') tr
      | Some x \<Rightarrow> if pathname x = [] then Q (Panic ''attempted use of zero Absolute'') tr
          else Q (Ret (Absolute (path_Join (pathname x # es)))) tr)"
  by (simp add: absAppend_def unsafeAbs_def split: option.split)

lemma bindop_early_ensures:
  assumes "b_sourceFinal b = None" "opt_dotfree (b_Target b)"
    and "\<And>p. b_Flags b AND BindEnsure \<noteq> 0 \<Longrightarrow> Some p = map_option pathname (b_Source b) \<Longrightarrow> E p"
  shows "ensures posix (\<lambda>_. early_call E) (bindop_early b) tr (early_post bindop_ready)"
  using assms by (auto simp: bindop_early_def bindop_ready_def split: option.splits go.splits)

lemma autoroot_entries_ensures:
  assumes "\<And>n. flags AND BindEnsure \<noteq> 0 \<Longrightarrow> E (path_Join [pathname h, n])" "list_all plain names"
  shows "ensures posix (\<lambda>_. early_call E) (autoroot_entries (Some h) flags names) tr (early_post (list_all bindop_ready))"
  using assms(2)
proof (induction names arbitrary: tr)
  case (Cons n names)
  let ?b = "\<lparr>b_sourceFinal = None, b_Source = Some (Absolute (path_Join [pathname h, n])),
    b_Target = Some (Absolute (path_Join [fhs_Root, n])), b_Flags = flags\<rparr>"
  have "path_Join [fhs_Root, n] = slash # n"
    using Cons.prems path_Join_plain [of "[]" n] by (simp add: render_path_def fhs_Root_def slash_def)
  then have t: "opt_dotfree (b_Target ?b)"
    using Cons.prems by (auto simp: dotfree_def comps_plain plain_def)
  have b: "ensures posix (\<lambda>_. early_call E) (bindop_early ?b) tr' (early_post bindop_ready)" for tr'
    by (rule bindop_early_ensures) (use assms(1) t in auto)
  have rest: "ensures posix (\<lambda>_. early_call E) (autoroot_entries (Some h) flags names) tr' (early_post (list_all bindop_ready))" for tr'
    using Cons by simp
  have "ensures posix (\<lambda>_. early_call E) (thn (bindop_early ?b) (\<lambda>op.
      thn (autoroot_entries (Some h) flags names) (\<lambda>ops. Done (Ret (op # ops))))) tr' (early_post (list_all bindop_ready))" for tr'
    by (auto intro!: ensures_mono [OF b] ensures_mono [OF rest] split: go.splits)
  then show ?case using rest by (auto simp: unsafeAbs_def fhs_Root_def)
qed simp

lemma overlay_resolve_ensures:
  "ensures posix (\<lambda>_. early_call E) (overlay_resolve a) tr (early_post (\<lambda>_. True))"
  by (auto simp: overlay_resolve_def split: option.split)

lemma overlay_lowers_ensures:
  "ensures posix (\<lambda>_. early_call E) (overlay_lowers as) tr (early_post (\<lambda>_. True))"
proof (induction as arbitrary: tr)
  case (Cons a as)
  show ?case
    by (auto intro!: ensures_mono [OF overlay_resolve_ensures] ensures_mono [OF Cons.IH] split: go.splits)
qed simp

lemma overlayop_early_ensures:
  assumes "overlayop_Valid x" "Op_fresh (OpOverlay x)"
  shows "ensures posix (\<lambda>_. early_call E) (overlayop_early x) tr (early_post (\<lambda>y. op_wf (OpOverlay y)))"
  using assms unfolding overlayop_early_def overlayop_Valid_def
  by (auto intro!: ensures_mono [OF overlay_resolve_ensures] ensures_mono [OF overlay_lowers_ensures] split: go.splits option.splits if_splits)

lemma early_ensures:
  assumes "Op_Valid x" "Op_fresh x"
  shows "ensures posix (\<lambda>_. early_call (op_ensured x)) (Op_early x) tr (early_post op_ready)"
proof (cases x)
  case (OpBind b)
  with assms(2) show ?thesis
    by (auto simp: mapP_def intro!: ensures_mono [OF bindop_early_ensures] split: go.splits)
next
  case (OpOverlay y)
  with assms show ?thesis
    by (auto simp: mapP_def intro!: ensures_mono [OF overlayop_early_ensures] split: go.splits)
next
  case (OpAutoRoot r)
  then show ?thesis
    by (auto simp: mapP_def autorootop_early_def intro!: ensures_mono [OF autoroot_entries_ensures] split: go.splits option.splits)
qed (use assms in \<open>auto simp: mapP_def symlinkop_early_def simp del: IsAbs_iff\<close>)

subsection \<open>The contract of an operation\<close>

text \<open>The loops of init over the operations, for any operations: the first gives the prepared operations,
  the second passes the state on. The number is the index used in messages.\<close>

primrec early_loop :: "(nat \<Rightarrow> 'x \<Rightarrow> ('e, 'y) prog) \<Rightarrow> nat \<Rightarrow> 'x list \<Rightarrow> ('e, 'y list) prog" where
  "early_loop f i [] = Done (Ret [])"
| "early_loop f i (x # xs) = thn (f i x) (\<lambda>y. thn (early_loop f (Suc i) xs) (\<lambda>ys. Done (Ret (y # ys))))"

primrec apply_loop :: "(nat \<Rightarrow> 's \<Rightarrow> 'x \<Rightarrow> ('e, 's) prog) \<Rightarrow> nat \<Rightarrow> 's \<Rightarrow> 'x list \<Rightarrow> ('e, 's) prog" where
  "apply_loop f i s [] = Done (Ret s)"
| "apply_loop f i s (x # xs) = thn (f i s x) (\<lambda>s'. apply_loop f (Suc i) s' xs)"

locale setup_op =
  fixes valid fresh ready :: "'o \<Rightarrow> bool"
    and prepare :: "'o \<Rightarrow> (cerr, 'o) prog" and perform :: "'s \<Rightarrow> 'o \<Rightarrow> (cerr, 's) prog"
    and rely :: "syscall \<Rightarrow> reply \<Rightarrow> bool" and reads :: "'o \<Rightarrow> syscall \<Rightarrow> bool" and writes :: "syscall \<Rightarrow> bool"
    and error :: "cerr \<Rightarrow> bool"
  assumes prepare_reads: "valid x \<Longrightarrow> fresh x \<Longrightarrow>
      ensures rely (\<lambda>_. reads x) (prepare x) tr (\<lambda>r _. (\<forall>y. r = Ret y \<longrightarrow> ready y) \<and> (\<forall>e. r = Fail e \<longrightarrow> error e))"
    and perform_writes: "ready x \<Longrightarrow> keeps rely writes error (perform s x)"
begin

lemma prepare_all:
  assumes "\<And>i x. x \<in> set xs \<Longrightarrow> (\<exists>e. f i x = Done (Fail e) \<and> E e) \<or>
      (valid (g x) \<and> fresh (g x) \<and> f i x = onFail (prepare (g x)) (\<lambda>e. Done (Fail (h i e))) \<and>
        (\<forall>c. reads (g x) c \<longrightarrow> G c))"
    and E: "\<And>i e. error e \<Longrightarrow> E (h i e)"
  shows "ensures rely (\<lambda>_. G) (early_loop f i xs) tr (\<lambda>r _.
    (\<forall>ys. r = Ret ys \<longrightarrow> list_all ready ys) \<and> (\<forall>e. r = Fail e \<longrightarrow> E e))"
  using assms(1)
proof (induction xs arbitrary: i tr)
  case (Cons x xs)
  have rest: "ensures rely (\<lambda>_. G) (early_loop f (Suc i) xs) tr' (\<lambda>r _.
      (\<forall>ys. r = Ret ys \<longrightarrow> list_all ready ys) \<and> (\<forall>e. r = Fail e \<longrightarrow> E e))" for tr'
    by (rule Cons.IH, rule Cons.prems) simp
  have "(\<exists>e. f i x = Done (Fail e) \<and> E e) \<or>
      (valid (g x) \<and> fresh (g x) \<and> f i x = onFail (prepare (g x)) (\<lambda>e. Done (Fail (h i e))) \<and>
        (\<forall>c. reads (g x) c \<longrightarrow> G c))"
    by (rule Cons.prems) simp
  then show ?case
  proof (elim disjE exE conjE)
    assume x: "valid (g x)" "fresh (g x)" "f i x = onFail (prepare (g x)) (\<lambda>e. Done (Fail (h i e)))"
      and G: "\<forall>c. reads (g x) c \<longrightarrow> G c"
    have one: "ensures rely (\<lambda>_. G) (prepare (g x)) tr (\<lambda>r _. (\<forall>y. r = Ret y \<longrightarrow> ready y) \<and> (\<forall>e. r = Fail e \<longrightarrow> error e))"
      by (rule ensures_guard_mono [OF prepare_reads]) (use x G in auto)
    with x(3) show ?thesis
      by (auto intro!: ensures_mono [OF one] ensures_mono [OF rest] E split: go.splits)
  qed simp_all
qed simp

lemma perform_all:
  assumes "\<And>i s x. f i s x = onFail (perform s x) (\<lambda>e. Done (Fail (h i e)))" "list_all ready xs"
    and E: "\<And>i e. error e \<Longrightarrow> E (h i e)"
  shows "keeps rely writes E (apply_loop f i s xs)"
  using assms(2)
proof (induction xs arbitrary: i s)
  case (Cons x xs)
  then show ?case
    by (auto intro!: keeps_thn keeps_onFail [OF perform_writes] E simp: assms(1))
qed simp

end

lemma ready_wf: "op_ready x \<Longrightarrow> op_wf x"
  by (cases x) (auto simp: bindop_ready_def)

interpretation cops: setup_op Op_Valid Op_fresh op_ready Op_early "Op_apply fu" posix "\<lambda>x. early_call (op_ensured x)"
  setup_call op_error for fu
  by unfold_locales (auto intro: early_ensures keeps_apply ready_wf)

subsection \<open>Properties of the operations\<close>


text \<open>A kernel for the examples: every call succeeds, pathnames resolve to themselves, and the mount
  table holds one mount.\<close>

definition kval0 :: kval where
  "kval0 = \<lparr>v_str = [], v_int = 0, v_names = [], v_dir = True, v_symlink = False, v_bool = False, v_tokens = [], v_readErr = None, v_write = 0\<rparr>"

definition entry_a :: mi_entry where "entry_a = mount_at 1 0 ''/sysroot/a''"

definition line_a :: string where "line_a = mi_String (mangle_entry entry_a)"

definition calm_temp :: "string \<Rightarrow> reply" where
  "calm_temp pattern =
     (let p = slash # TrimSuffix pattern ''*'' in
      if temp_name pattern p then Val (kval0\<lparr>v_str := p\<rparr>) else Err (OtherError ''pattern''))"

definition calm :: kernel where
  "calm tr c =
     (case c of
        EvalSymlinks p \<Rightarrow> Val (kval0\<lparr>v_str := if dotfree p \<and> \<not> List.member p (CHR 0x00) then p else fhs_Root\<rparr>)
      | Readlink p \<Rightarrow> Val (kval0\<lparr>v_str := ''/sysroot/a''\<rparr>)
      | OpenNew p \<Rightarrow> Val (kval0\<lparr>v_tokens := [line_a]\<rparr>)
      | CreateTemp d pattern \<Rightarrow> calm_temp pattern
      | MkdirTemp d pattern \<Rightarrow> calm_temp pattern
      | _ \<Rightarrow> Val kval0)"

definition st_a :: setupState where
  "st_a = \<lparr>st_nonrepeatable = 0, st_ParentPerm = 493, st_RetainSession = False\<rparr>"

definition bind_a :: BindMountOp where
  "bind_a = \<lparr>b_sourceFinal = None, b_Source = Some (Absolute ''/a''), b_Target = Some (Absolute ''/a''), b_Flags = 0\<rparr>"


lemma parse_a: "parseMountInfoLine line_a = Ret entry_a"
  unfolding line_a_def by (rule parse_mi_String) (simp add: mi_wf_def entry_a_def mount_at_def int64_def)

lemma Clean_a: "Clean ''/sysroot/a'' = ''/sysroot/a''"
  by (simp add: Clean_def comps_def clean_list_def render_path_def slash_def)

lemma unfold_a: "unfold_entries [entry_a] ''/sysroot/a'' = Ret ([unfold_node entry_a], 0)"
  by (simp add: unfold_entries_def unfold_targetIndex_def unfold_idIndex_def unfold_step_def unfold_node_def entry_a_def mount_at_def Clean_a)

lemma Unfold_a:
  "Unfold (NewMountInfoDecoder [line_a] None) ''/sysroot/a'' =
     ((decoded [entry_a])\<lparr>d_curLine := 1\<rparr>, Ret ([unfold_node entry_a], 0))"
proof -
  let ?d = "NewMountInfoDecoder [line_a] None"
  have "d_scan_all ?d = (decoded [entry_a])\<lparr>d_curLine := 1\<rparr>"
    by (subst d_scan_all.simps, subst d_scan_all.simps) (simp add: d_scan_def NewMountInfoDecoder_def decoded_def parse_a)
  then show ?thesis
    by (simp add: Unfold_def d_Entries_def d_Err_def Clean_a unfold_a decoded_def NewMountInfoDecoder_def)
qed

lemma dotfree_a: "dotfree ''/sysroot/a''" "dotfree fhs_Root" "dotfree ''/a''"
  by (simp_all add: dotfree_def comps_def slash_def fhs_Root_def)

lemma calm_posix: "answers posix calm"
  unfolding answers_def calm_def calm_temp_def
  by (auto simp: kval0_def dotfree_a dotfree_a(2) [unfolded fhs_Root_def] fhs_Root_def Let_def split: syscall.split)

lemma toSysroot_a: "toSysroot ''/a'' = ''/sysroot/a''" and toHost_a: "toHost ''/a'' = ''/host/a''"
  by (simp_all add: toSysroot_def toHost_def sysrootPath_def hostPath_def sysrootDir_def hostDir_def fhs_Root_def
      path_Join_def Clean_def comps_def clean_list_def render_path_def slash_def)

lemma flags_a: "mi_Flags (n_ent (unfold_node entry_a)) = (0, [])"
  by (simp add: mi_Flags_def flags_step_def unfold_node_def entry_a_def mount_at_def)

lemmas call_eval = absStr_def abs_String_def Let_def ask_def exec_def calm_def calm_temp_def kval0_def bindMount_def mount_def
  onFail_def remount_def mountinfo_def Unfold_a dotfree_a remount_nodes_def remountWithFlags_def flags_a bindop_flags_def
  toSysroot_a toHost_a

lemma bind_a_runs:
  "fst (run calm (bindop_apply (Suc n) (bind_a\<lparr>b_sourceFinal := Some (Absolute ''/a'')\<rparr>)) []) = Some (Ret ())"
  by (simp add: bindop_apply_def bind_a_def call_eval)
    (simp add: remount_flags_def exec_def ask_def calm_def kval0_def ms_defs BindWritable_def BindDevice_def unfold_node_def decoded_def d_Err_def NewMountInfoDecoder_def)



end
