(* ===== verification/Cont_Overlay.thy ===== *)
theory Cont_Overlay
  imports Cont_Setup
begin

text \<open>
  The options \<open>MountOverlayOp\<close> (\<open>container/initoverlay.go\<close>) passes to \<open>mount(2)\<close> are read back by the kernel
  as the pathnames it resolved, whatever bytes they hold.
\<close>

subsection \<open>How the kernel reads overlay options\<close>

text \<open>It splits at commas that no backslash precedes, keeping the backslashes, then splits the value of
  \<open>lowerdir\<close> at colons and removes the backslashes (\<open>overlay_split\<close>).\<close>

definition glue :: "string \<Rightarrow> string list \<Rightarrow> string list" where
  "glue w ys = (case ys of [] \<Rightarrow> [w] | y # zs \<Rightarrow> (w @ y) # zs)"

fun ovl_options :: "string \<Rightarrow> string list" where
  "ovl_options [] = [[]]"
| "ovl_options [c] = (if c = CHR '','' then [[], []] else [[c]])"
| "ovl_options (c # d # s) =
     (if c = CHR 0x5C then glue [c, d] (ovl_options s)
      else if c = CHR '','' then [] # ovl_options (d # s)
      else glue [c] (ovl_options (d # s)))"

lemma glue_Nil [simp]: "ys \<noteq> [] \<Longrightarrow> glue [] ys = ys"
  by (cases ys) (auto simp: glue_def)

lemma glue_glue [simp]: "glue a (glue b ys) = glue (a @ b) ys"
  by (cases ys) (auto simp: glue_def)

lemma glue_simps [simp]: "glue w (y # ys) = (w @ y) # ys" "glue w ys \<noteq> []"
  by (auto simp: glue_def split: list.split)

lemma ovl_options_nonempty [simp]: "ovl_options s \<noteq> []"
  by (induction s rule: ovl_options.induct) auto

text \<open>Text the splitting passes over: escaped segments, and plain bytes.\<close>

definition ovl_solid :: "string \<Rightarrow> bool" where
  "ovl_solid w \<longleftrightarrow> (\<forall>s. ovl_options (w @ s) = glue w (ovl_options s))"

lemma ovl_solid_Nil [simp]: "ovl_solid []"
  by (simp add: ovl_solid_def)

lemma ovl_solid_append: "ovl_solid a \<Longrightarrow> ovl_solid b \<Longrightarrow> ovl_solid (a @ b)"
  by (simp add: ovl_solid_def)

lemma ovl_solid_plain:
  assumes "c \<noteq> CHR 0x5C" "c \<noteq> CHR '',''"
  shows "ovl_solid [c]"
  unfolding ovl_solid_def
proof
  fix s
  show "ovl_options ([c] @ s) = glue [c] (ovl_options s)" using assms by (cases s) auto
qed

lemma ovl_solid_replace: "ovl_solid (overlay_replace c)"
proof (cases "c = CHR 0x5C \<or> c = CHR '','' \<or> c = CHR '':''")
  case True
  then have "overlay_replace c = [CHR 0x5C, c]" by (auto simp: overlay_replace_def overlay_special)
  then show ?thesis by (simp add: ovl_solid_def)
next
  case False
  then have "overlay_replace c = [c]" by (simp add: overlay_replace_def overlay_special)
  with False ovl_solid_plain [of c] show ?thesis by simp
qed

lemma ovl_solid_escape: "CHR 0x00 \<notin> set w \<Longrightarrow> ovl_solid (EscapeOverlayDataSegment w)"
proof -
  have "ovl_solid (concat (map overlay_replace w))"
    by (induction w) (auto intro: ovl_solid_append ovl_solid_replace)
  then show "CHR 0x00 \<notin> set w \<Longrightarrow> ?thesis" by (simp add: EscapeOverlayDataSegment_no_nul)
qed

lemma ovl_solid_word: "list_all (\<lambda>c. c \<noteq> CHR 0x5C \<and> c \<noteq> CHR '','') w \<Longrightarrow> ovl_solid w"
proof (induction w)
  case (Cons c w)
  then show ?case using ovl_solid_append [OF ovl_solid_plain, of c w] by simp
qed simp

lemma ovl_solid_Join: "list_all ovl_solid ws \<Longrightarrow> ovl_solid (Join ws '':'')"
proof (induction ws "'':''" rule: Join.induct)
  case (3 x y xs)
  moreover have "ovl_solid '':''" by (rule ovl_solid_plain) simp_all
  ultimately show ?case by (simp add: ovl_solid_def)
qed auto

lemma ovl_options_Join: "ws \<noteq> [] \<Longrightarrow> list_all ovl_solid ws \<Longrightarrow> ovl_options (Join ws '','') = ws"
proof (induction ws "'',''" rule: Join.induct)
  case (2 x)
  then have "\<forall>s. ovl_options (x @ s) = glue x (ovl_options s)" by (simp add: ovl_solid_def)
  from this [rule_format, of "[]"] show ?case by simp
next
  case (3 x y xs)
  moreover have "ovl_options ('','' @ s) = [] # ovl_options s" for s by (cases s) auto
  ultimately show ?case by (simp add: ovl_solid_def)
qed simp

subsection \<open>The pathnames of an operation\<close>

text \<open>A pathname of the operation and the pathname below the host root it was resolved to.\<close>

definition resolved_in :: "trace \<Rightarrow> absolute option \<Rightarrow> string \<Rightarrow> bool" where
  "resolved_in tr a r \<longleftrightarrow>
     (\<exists>x v. a = Some x \<and> (EvalSymlinks (pathname x), Val v) \<in> set tr \<and> r = toHost (v_str v)) \<and> CHR 0x00 \<notin> set r"

lemma resolved_in_mono: "resolved_in tr a r \<Longrightarrow> prefix tr tr' \<Longrightarrow> resolved_in tr' a r"
  unfolding resolved_in_def using set_mono_prefix [of tr tr'] by blast

lemma set_Join_glue: "set (Join ws sep) \<subseteq> set sep \<union> (\<Union>w \<in> set ws. set w)"
  by (induction ws sep rule: Join.induct) auto

lemma set_clean_list: "set (clean_list r ws) \<subseteq> set ws"
proof -
  have "set (fold (clean_push r) ws out) \<subseteq> set ws \<union> set out" for out
  proof (induction ws arbitrary: out)
    case (Cons w ws)
    have "set (clean_push r w out) \<subseteq> insert w (set out)" by (cases out) auto
    with Cons [of "clean_push r w out"] show ?case by (auto simp del: clean_push.simps)
  qed simp
  from this [of "[]"] show ?thesis by (simp add: clean_list_def)
qed

lemma set_Split: "w \<in> set (Split c s) \<Longrightarrow> set w \<subseteq> set s"
proof (induction s arbitrary: w)
  case (Cons x s)
  obtain y ys where "Split c s = y # ys" by (cases "Split c s") auto
  with Cons show ?case by (fastforce split: if_splits)
qed simp

lemma toHost_no_nul:
  assumes "dotfree p" "CHR 0x00 \<notin> set p"
  shows "CHR 0x00 \<notin> set (toHost p)"
proof -
  have "toHost p = render_path True (hostDir # clean_list True (comps p))"
    using toRoot_clean [of hostDir p] assms(1)
    by (auto simp: toHost_def hostPath_def fhs_Root_def slash_def dotfree_def)
  moreover have "CHR 0x00 \<notin> set w" if "w \<in> set (clean_list True (comps p))" for w
    using that set_clean_list [of True "comps p"] set_Split [of w slash p] assms(2) by (auto simp: comps_def)
  ultimately show ?thesis
    using set_Join_glue [of "hostDir # clean_list True (comps p)" "[slash]"]
    by (auto simp: render_path_def slash_def hostDir_def)
qed

lemma overlay_resolve_post:
  "ensures posix (\<lambda>_ _. True) (overlay_resolve a) tr (\<lambda>r tr'. prefix tr tr' \<and>
     (\<forall>s. r = Ret s \<longrightarrow> (\<exists>p. resolved_in tr' a p \<and> s = EscapeOverlayDataSegment p)))"
  by (auto simp: overlay_resolve_def resolved_in_def toHost_no_nul split: option.split intro!: exI)

lemma overlay_resolve_thn:
  assumes "\<And>p tr'. prefix tr tr' \<Longrightarrow> resolved_in tr' a p \<Longrightarrow> ensures posix (\<lambda>_ _. True) (f (EscapeOverlayDataSegment p)) tr' Q"
    and "\<And>e tr'. prefix tr tr' \<Longrightarrow> Q (Fail e) tr'" "\<And>m tr'. prefix tr tr' \<Longrightarrow> Q (Panic m) tr'"
  shows "ensures posix (\<lambda>_ _. True) (thn (overlay_resolve a) f) tr Q"
  unfolding ensures_thn
  by (rule ensures_mono [OF overlay_resolve_post]) (use assms in \<open>auto split: go.splits\<close>)

lemma overlay_lowers_post:
  "ensures posix (\<lambda>_ _. True) (overlay_lowers as) tr (\<lambda>r tr'. prefix tr tr' \<and>
     (\<forall>ss. r = Ret ss \<longrightarrow> (\<exists>ps. list_all2 (resolved_in tr') as ps \<and> ss = map EscapeOverlayDataSegment ps)))"
proof (induction as arbitrary: tr)
  case (Cons a as)
  have step: "\<exists>ps. list_all2 (resolved_in tr') (a # as) ps \<and> EscapeOverlayDataSegment p # ss = map EscapeOverlayDataSegment ps"
    if "resolved_in tr'' a p" "prefix tr'' tr'" "list_all2 (resolved_in tr') as ps" "ss = map EscapeOverlayDataSegment ps" for p ps ss tr' tr''
    using that resolved_in_mono by (intro exI [of _ "p # ps"]) auto
  show ?case
    unfolding overlay_lowers.simps
    by (rule overlay_resolve_thn)
      (auto intro!: ensures_mono [OF Cons.IH] split: go.splits intro: prefix_order.trans step)
qed simp

text \<open>What a prepared overlay holds, when it is not ephemeral.\<close>

definition overlay_prepared :: "trace \<Rightarrow> MountOverlayOp \<Rightarrow> MountOverlayOp \<Rightarrow> bool" where
  "overlay_prepared tr x y \<longleftrightarrow>
     o_Target y = o_Target x \<and> o_noPrefix y = o_noPrefix x \<and> \<not> o_ephemeral y \<and>
     o_Lower y = o_Lower x \<and>
     (\<exists>ls. list_all2 (resolved_in tr) (o_Lower x) ls \<and> o_lower y = map EscapeOverlayDataSegment ls) \<and>
     (if o_Upper x = None then o_upper y = [] \<and> o_work y = []
      else \<exists>u w. resolved_in tr (o_Upper x) u \<and> resolved_in tr (o_Work x) w \<and>
        o_upper y = EscapeOverlayDataSegment u \<and> o_work y = EscapeOverlayDataSegment w)"

lemma overlayop_early_post:
  assumes "\<not> o_ephemeral x" "o_upper x = []" "o_work x = []" "(o_Upper x = None) = (o_Work x = None)"
  shows "ensures posix (\<lambda>_ _. True) (overlayop_early x) tr (\<lambda>r tr'. \<forall>y. r = Ret y \<longrightarrow> overlay_prepared tr' x y)"
proof -
  let ?Q = "\<lambda>r tr'. \<forall>y. r = Ret y \<longrightarrow> overlay_prepared tr' x y"
  have low: "ensures posix (\<lambda>_ _. True) (thn (overlay_lowers (o_Lower x)) (\<lambda>ls. Done (Ret (z\<lparr>o_lower := ls\<rparr>)))) tr'' ?Q"
    if z: "o_Target z = o_Target x" "o_noPrefix z = o_noPrefix x" "\<not> o_ephemeral z" "o_Lower z = o_Lower x"
      "if o_Upper x = None then o_upper z = [] \<and> o_work z = []
       else \<exists>u w. resolved_in tr'' (o_Upper x) u \<and> resolved_in tr'' (o_Work x) w \<and>
         o_upper z = EscapeOverlayDataSegment u \<and> o_work z = EscapeOverlayDataSegment w" for z tr''
    using z by (auto intro!: ensures_mono [OF overlay_lowers_post] split: go.splits if_splits
        simp: overlay_prepared_def) (blast intro: resolved_in_mono)+
  show ?thesis
  proof (cases "o_Upper x")
    case None
    with assms low [of x] show ?thesis by (simp add: overlayop_early_def)
  next
    case (Some u)
    then have "overlayop_early x = thn (overlay_resolve (o_Upper x)) (\<lambda>u. thn (overlay_resolve (o_Work x)) (\<lambda>w.
        thn (overlay_lowers (o_Lower x)) (\<lambda>ls. Done (Ret (x\<lparr>o_upper := u, o_work := w, o_lower := ls\<rparr>)))))"
      using assms by (auto simp: overlayop_early_def thn_assoc)
    moreover have "ensures posix (\<lambda>_ _. True) (thn (overlay_resolve (o_Upper x)) (\<lambda>u. thn (overlay_resolve (o_Work x)) (\<lambda>w.
        thn (overlay_lowers (o_Lower x)) (\<lambda>ls. Done (Ret (x\<lparr>o_upper := u, o_work := w, o_lower := ls\<rparr>)))))) tr ?Q"
    proof (intro overlay_resolve_thn)
      fix p tr1 q tr2
      assume "prefix tr tr1" "resolved_in tr1 (o_Upper x) p" "prefix tr1 tr2" and q: "resolved_in tr2 (o_Work x) q"
      then have "resolved_in tr2 (o_Upper x) p" using resolved_in_mono by blast
      with q have "\<exists>u w. resolved_in tr2 (o_Upper x) u \<and> resolved_in tr2 (o_Work x) w \<and>
          EscapeOverlayDataSegment p = EscapeOverlayDataSegment u \<and> EscapeOverlayDataSegment q = EscapeOverlayDataSegment w"
        by blast
      with Some assms show "ensures posix (\<lambda>_ _. True) (thn (overlay_lowers (o_Lower x)) (\<lambda>ls.
          Done (Ret (x\<lparr>o_upper := EscapeOverlayDataSegment p, o_work := EscapeOverlayDataSegment q, o_lower := ls\<rparr>)))) tr2 ?Q"
        using low [of "x\<lparr>o_upper := EscapeOverlayDataSegment p, o_work := EscapeOverlayDataSegment q\<rparr>" tr2]
        by (simp del: ensures_thn)
    qed auto
    ultimately show ?thesis by simp
  qed
qed

lemmas overlay_option_defs = OptionOverlayUpperdir_def OptionOverlayWorkdir_def OptionOverlayLowerdir_def
  OptionOverlayUserxattr_def SpecialOverlayPath_def

lemma escaped_nonempty: "resolved_in tr a p \<Longrightarrow> EscapeOverlayDataSegment p \<noteq> []"
proof -
  assume p: "resolved_in tr a p"
  then obtain q where "p = toHost q" by (auto simp: resolved_in_def)
  then obtain cs where "p = slash # cs"
    using IsAbs_path_Join [of hostPath] by (auto simp: toHost_def hostPath_def fhs_Root_def slash_def)
  moreover have "overlay_replace slash \<noteq> []" by (simp add: overlay_replace_def overlay_special)
  ultimately show ?thesis using p by (simp add: resolved_in_def EscapeOverlayDataSegment_no_nul)
qed

lemma overlay_options_solid:
  assumes "overlay_prepared tr x y" "overlay_options y = Ret opts"
  shows "opts \<noteq> [] \<and> list_all ovl_solid opts"
proof -
  obtain ls where ls: "list_all2 (resolved_in tr) (o_Lower x) ls" "o_lower y = map EscapeOverlayDataSegment ls"
    using assms(1) by (auto simp: overlay_prepared_def)
  have "ovl_solid (EscapeOverlayDataSegment l)" if "resolved_in tr a l" for a l
    using that by (auto simp: resolved_in_def intro: ovl_solid_escape)
  moreover from ls(1) have "list_all (\<lambda>l. ovl_solid (EscapeOverlayDataSegment l)) ls"
    by (induction rule: list_all2_induct) (auto simp: resolved_in_def intro: ovl_solid_escape)
  then have "ovl_solid (Join (o_lower y) '':'')"
    unfolding ls(2) by (intro ovl_solid_Join) (simp add: list.pred_map comp_def)
  moreover have "ovl_solid ''upperdir=''" "ovl_solid ''workdir=''" "ovl_solid ''lowerdir=''" "ovl_solid ''userxattr''"
    by (simp_all add: ovl_solid_word)
  ultimately show ?thesis
    using assms ovl_solid_append [of "''upperdir=''"] ovl_solid_append [of "''workdir=''"] ovl_solid_append [of "''lowerdir=''"]
    by (auto simp: overlay_options_def overlay_prepared_def overlay_option_defs split: if_splits)
qed

lemma split_escaped: "resolved_in tr a p \<Longrightarrow> overlay_split CHR '':'' (EscapeOverlayDataSegment p) = [p]"
  using EscapeOverlayDataSegment_roundtrip [of "[p]" "CHR '':''"] by (simp add: resolved_in_def)

lemma overlayop_apply_post:
  assumes "overlay_prepared tr0 x y" "\<not> o_noPrefix x"
  shows "ensures R (\<lambda>_ _. True) (overlayop_apply st y) tr (\<lambda>r tr'. r = Ret () \<longrightarrow>
    (\<exists>t opts v. o_Target x = Some t \<and> overlay_options y = Ret opts \<and>
      (SysMount SourceOverlay (toSysroot (pathname t)) FstypeOverlay 0 (Join opts '',''), Val v) \<in> set tr'))"
  using assms
  by (auto simp: overlayop_apply_def overlay_prepared_def Let_def SpecialOverlayOption_def split: option.splits go.splits)

text \<open>C19: the data of a successful overlay mount that is not ephemeral is read by the kernel as exactly the
  directories of the operation, each resolved and placed below the host root during \<open>early\<close>, in order,
  whatever separators and backslashes the pathnames hold; without upper and work directories there are at
  least two lower ones.\<close>

theorem overlay_read_back:
  assumes K: "answers posix K" and x: "Op_fresh (OpOverlay x)" "o_upper x = []" "o_work x = []"
    "(o_Upper x = None) = (o_Work x = None)"
    and early: "run K (overlayop_early x) [] = (Some (Ret y), tr)"
    and appl: "run K (overlayop_apply st y) [] = (Some (Ret ()), tr')"
  shows "\<exists>t data v lower ls. o_Target x = Some t \<and>
    (SysMount SourceOverlay (toSysroot (pathname t)) FstypeOverlay 0 data, Val v) \<in> set tr' \<and>
    list_all2 (resolved_in tr) (o_Lower x) ls \<and> ls \<noteq> [] \<and> overlay_split CHR '':'' lower = ls \<and>
    (if o_Upper x = None
     then 2 \<le> length ls \<and> ovl_options data = [''lowerdir='' @ lower, ''userxattr'']
     else \<exists>upper work u w. resolved_in tr (o_Upper x) u \<and> resolved_in tr (o_Work x) w \<and>
       overlay_split CHR '':'' upper = [u] \<and> overlay_split CHR '':'' work = [w] \<and>
       ovl_options data = [''upperdir='' @ upper, ''workdir='' @ work, ''lowerdir='' @ lower, ''userxattr''])"
proof -
  have "ensures posix (\<lambda>_ _. True) (overlayop_early x) [] (\<lambda>r tr'. \<forall>y. r = Ret y \<longrightarrow> overlay_prepared tr' x y)"
    using x by (intro overlayop_early_post) simp_all
  from run_ensures_all [OF K this early] have prep: "overlay_prepared tr x y" by simp
  from run_ensures_all [OF K overlayop_apply_post [OF prep] appl] x(1)
  obtain t opts v where t: "o_Target x = Some t" "overlay_options y = Ret opts"
    "(SysMount SourceOverlay (toSysroot (pathname t)) FstypeOverlay 0 (Join opts '',''), Val v) \<in> set tr'" by auto
  obtain ls where ls: "list_all2 (resolved_in tr) (o_Lower x) ls" "o_lower y = map EscapeOverlayDataSegment ls"
    and len: "o_Lower y = o_Lower x"
    using prep by (auto simp: overlay_prepared_def)
  have opts: "ovl_options (Join opts '','') = opts"
    using overlay_options_solid [OF prep t(2)] by (simp add: ovl_options_Join)
  have nul: "list_all (\<lambda>w. CHR 0x00 \<notin> set w) ls"
    using ls(1) by (induction rule: list_all2_induct) (auto simp: resolved_in_def)
  have l: "ls \<noteq> []" "length ls = length (o_Lower y)"
    using t(2) list_all2_lengthD [OF ls(1)] len by (auto simp: overlay_options_def split: if_splits)
  have low: "overlay_split CHR '':'' (Join (o_lower y) '':'') = ls"
    unfolding ls(2) by (rule EscapeOverlayDataSegment_roundtrip) (use l nul in auto)
  have data: "opts = (if o_Upper x = None then []
      else [''upperdir='' @ o_upper y, ''workdir='' @ o_work y]) @ [''lowerdir='' @ Join (o_lower y) '':'', ''userxattr'']"
    "o_Upper x = None \<longrightarrow> 2 \<le> length ls"
    using t(2) prep l(2)
    by (auto simp: overlay_options_def overlay_prepared_def overlay_option_defs split: if_splits dest!: escaped_nonempty)
  show ?thesis
  proof (intro exI conjI)
    show "if o_Upper x = None
     then 2 \<le> length ls \<and> ovl_options (Join opts '','') = [''lowerdir='' @ Join (o_lower y) '':'', ''userxattr'']
     else \<exists>upper work u w. resolved_in tr (o_Upper x) u \<and> resolved_in tr (o_Work x) w \<and>
       overlay_split CHR '':'' upper = [u] \<and> overlay_split CHR '':'' work = [w] \<and>
       ovl_options (Join opts '','') = [''upperdir='' @ upper, ''workdir='' @ work, ''lowerdir='' @ Join (o_lower y) '':'', ''userxattr'']"
    proof (cases "o_Upper x")
      case (Some a)
      with prep obtain u w where uw: "resolved_in tr (o_Upper x) u" "resolved_in tr (o_Work x) w"
        "o_upper y = EscapeOverlayDataSegment u" "o_work y = EscapeOverlayDataSegment w"
        by (auto simp: overlay_prepared_def)
      have "opts = [''upperdir='' @ o_upper y, ''workdir='' @ o_work y, ''lowerdir='' @ Join (o_lower y) '':'', ''userxattr'']"
        using data(1) Some by simp
      with Some uw split_escaped [OF uw(1)] split_escaped [OF uw(2)] show ?thesis
        unfolding opts by (metis option.discI)
    next
      case None
      with data show ?thesis unfolding opts by simp
    qed
  qed (use t ls l low in auto)
qed

definition overlay_ab :: MountOverlayOp where
  "overlay_ab = \<lparr>o_Target = Some (Absolute ''/a''), o_Lower = [Some (Absolute ''/a''), Some (Absolute ''/a'')], o_lower = [],
     o_Upper = None, o_upper = [], o_Work = None, o_work = [], o_ephemeral = False, o_noPrefix = False\<rparr>"

theorem overlay_read_back_witness:
  "\<exists>y tr tr' data v lower. run calm (overlayop_early overlay_ab) [] = (Some (Ret y), tr) \<and>
     run calm (overlayop_apply st_a y) [] = (Some (Ret ()), tr') \<and>
     (SysMount SourceOverlay (toSysroot ''/a'') FstypeOverlay 0 data, Val v) \<in> set tr' \<and>
     ovl_options data = [''lowerdir='' @ lower, ''userxattr'']"
proof -
  note eval = overlayop_early_def overlayop_apply_def overlay_ab_def overlay_resolve_def overlay_options_def call_eval
  have "\<exists>y tr tr'. run calm (overlayop_early overlay_ab) [] = (Some (Ret y), tr) \<and>
      run calm (overlayop_apply st_a y) [] = (Some (Ret ()), tr')"
    by (simp add: eval)
  then obtain y tr tr' where r: "run calm (overlayop_early overlay_ab) [] = (Some (Ret y), tr)"
    "run calm (overlayop_apply st_a y) [] = (Some (Ret ()), tr')" by blast
  have "Op_fresh (OpOverlay overlay_ab)" by (simp add: overlay_ab_def dotfree_a)
  from overlay_read_back [OF calm_posix this _ _ _ r] r show ?thesis
    by (auto simp: overlay_ab_def)
qed

end
