(* ===== verification/Cont_Init.thy ===== *)
theory Cont_Init
  imports Cont_Setup
begin

text \<open>
  The container init: \<open>container/init.go\<close> with \<open>container/capability.go\<close>, \<open>container/sysctl.go\<close> and the
  messages of \<open>container/errors.go\<close>. \<open>initEntrypoint\<close> is the sequence of its phases up to the start of the
  initial program; the loop that waits for processes and signals afterwards is a function of the events
  it receives. \<open>k.fatal\<close> ends the process: it is a failure with the message, the text of an error printed
  with \<open>%v\<close> being the error itself. The parameters \<open>receive\<close> decodes are an argument.
\<close>

subsection \<open>Messages of errors.go\<close>

datatype fatal = Fatal string | FatalErr string cerr

text \<open>\<open>messageFromError\<close>: the prefix of the message and the error of a supported type that follows it.
  Types are tried in order, each on the whole chain.\<close>

fun is_MountError :: "cerr \<Rightarrow> bool" where
  "is_MountError (MountError _ _ _ _ _ _) = True" | "is_MountError _ = False"

fun is_PathError :: "cerr \<Rightarrow> bool" where
  "is_PathError (PathError _ _ _) = True" | "is_PathError _ = False"

fun is_AbsoluteError :: "cerr \<Rightarrow> bool" where
  "is_AbsoluteError (PathnameError _) = True" | "is_AbsoluteError _ = False"

fun is_OpRepeatError :: "cerr \<Rightarrow> bool" where
  "is_OpRepeatError (OpRepeatError _) = True" | "is_OpRepeatError _ = False"

fun is_OpStateError :: "cerr \<Rightarrow> bool" where
  "is_OpStateError (OpStateError _) = True" | "is_OpStateError _ = False"

fun is_DecoderError :: "cerr \<Rightarrow> bool" where
  "is_DecoderError (DecoderError _) = True" | "is_DecoderError _ = False"

fun is_TmpfsSizeError :: "cerr \<Rightarrow> bool" where
  "is_TmpfsSizeError (TmpfsSizeError _) = True" | "is_TmpfsSizeError _ = False"

definition messagePrefix :: "(cerr \<Rightarrow> bool) \<Rightarrow> string \<Rightarrow> cerr \<Rightarrow> (string \<times> cerr) option" where
  "messagePrefix T pre err = map_option (\<lambda>e. (pre, e)) (find T (err_chain err))"

fun messageFromTypes :: "((cerr \<Rightarrow> bool) \<times> string) list \<Rightarrow> cerr \<Rightarrow> (string \<times> cerr) option" where
  "messageFromTypes [] err = None"
| "messageFromTypes ((T, pre) # ts) err =
     (case messagePrefix T pre err of Some m \<Rightarrow> Some m | None \<Rightarrow> messageFromTypes ts err)"

definition messageFromError :: "cerr \<Rightarrow> (string \<times> cerr) option" where
  "messageFromError err = messageFromTypes
     [(is_MountError, ''cannot ''), (is_PathError, ''cannot ''), (is_AbsoluteError, []), (is_OpRepeatError, []),
      (is_OpStateError, []), (is_DecoderError, ''cannot ''), (is_TmpfsSizeError, [])] err"

definition MountError_Error :: "(nat \<Rightarrow> string) \<Rightarrow> string \<Rightarrow> string \<Rightarrow> string \<Rightarrow> u64 \<Rightarrow> nat \<Rightarrow> string" where
  "MountError_Error strerror source target fstype flags errno =
     (if flags AND MS_BIND \<noteq> 0 then
        if flags AND MS_REMOUNT \<noteq> 0 then ''remount '' @ target @ '': '' @ strerror errno
        else ''bind '' @ source @ '' on '' @ target @ '': '' @ strerror errno
      else if fstype \<noteq> FstypeNULL then ''mount '' @ fstype @ '' on '' @ target @ '': '' @ strerror errno
      else ''mount '' @ target @ '': '' @ strerror errno)"

definition OpRepeatError_Error :: "string \<Rightarrow> string" where
  "OpRepeatError_Error e = e @ '' is not repeatable''"

definition OpStateError_Error :: "string \<Rightarrow> string" where
  "OpStateError_Error e = ''impossible '' @ e @ '' state reached''"

definition TmpfsSizeError_Error :: "int \<Rightarrow> string" where
  "TmpfsSizeError_Error e = ''tmpfs size '' @ Itoa e @ '' out of bounds''"

definition fat :: "(cerr \<Rightarrow> fatal) \<Rightarrow> (cerr, 'a) prog \<Rightarrow> (fatal, 'a) prog" where
  "fat h p = onFail p (\<lambda>e. Done (Fail (h e)))"

subsection \<open>capability.go and the calls of syscall.go\<close>

definition LINUX_CAPABILITY_VERSION_3 :: u32 where "LINUX_CAPABILITY_VERSION_3 = 0x20080522"
definition PR_SET_DUMPABLE :: u64 where "PR_SET_DUMPABLE = 0x4"
definition PR_CAPBSET_DROP :: u64 where "PR_CAPBSET_DROP = 0x18"
definition PR_SET_NO_NEW_PRIVS :: u64 where "PR_SET_NO_NEW_PRIVS = 0x26"
definition PR_CAP_AMBIENT :: u64 where "PR_CAP_AMBIENT = 0x2f"
definition PR_CAP_AMBIENT_RAISE :: u64 where "PR_CAP_AMBIENT_RAISE = 0x2"
definition PR_CAP_AMBIENT_CLEAR_ALL :: u64 where "PR_CAP_AMBIENT_CLEAR_ALL = 0x4"
definition PR_SET_PTRACER :: u64 where "PR_SET_PTRACER = 0x59616d61"
definition CAP_SYS_ADMIN :: u64 where "CAP_SYS_ADMIN = 0x15"
definition CAP_SETPCAP :: u64 where "CAP_SETPCAP = 0x8"
definition CAP_DAC_OVERRIDE :: u64 where "CAP_DAC_OVERRIDE = 0x1"
definition SUID_DUMP_DISABLE :: u64 where "SUID_DUMP_DISABLE = 0"
definition SUID_DUMP_USER :: u64 where "SUID_DUMP_USER = 1"

definition capToIndex :: "u64 \<Rightarrow> u64" where "capToIndex cap = drop_bit 5 cap"

definition capToMask :: "u64 \<Rightarrow> u32" where "capToMask cap = push_bit (unat (cap AND 31)) 1"

definition capset :: "u32 \<times> int \<Rightarrow> (u32 \<times> u32 \<times> u32) list \<Rightarrow> (cerr, unit) prog" where
  "capset hdr data = Call (SysCapset hdr data) (\<lambda>x. let (r, errno) = syscall_result x in
     if r \<noteq> 0 then Done (Fail errno) else Done (Ret ()))"

definition capBoundingSetDrop :: "u64 \<Rightarrow> (cerr, unit) prog" where
  "capBoundingSetDrop cap = Prctl PR_CAPBSET_DROP cap 0"

definition capAmbientClearAll :: "(cerr, unit) prog" where
  "capAmbientClearAll = Prctl PR_CAP_AMBIENT PR_CAP_AMBIENT_CLEAR_ALL 0"

definition capAmbientRaise :: "u64 \<Rightarrow> (cerr, unit) prog" where
  "capAmbientRaise cap = Prctl PR_CAP_AMBIENT PR_CAP_AMBIENT_RAISE cap"

definition SetPtracer :: "u64 \<Rightarrow> (cerr, unit) prog" where "SetPtracer pid = Prctl PR_SET_PTRACER pid 0"

definition SetDumpable :: "u64 \<Rightarrow> (cerr, unit) prog" where "SetDumpable dumpable = Prctl PR_SET_DUMPABLE dumpable 0"

definition SetNoNewPrivs :: "(cerr, unit) prog" where "SetNoNewPrivs = Prctl PR_SET_NO_NEW_PRIVS 1 0"

subsection \<open>sysctl.go\<close>

definition kernelOverflowuidPath :: string where "kernelOverflowuidPath = fhs_ProcSys @ ''kernel/overflowuid''"
definition kernelOverflowgidPath :: string where "kernelOverflowgidPath = fhs_ProcSys @ ''kernel/overflowgid''"
definition kernelCapLastCapPath :: string where "kernelCapLastCapPath = fhs_ProcSys @ ''kernel/cap_last_cap''"

definition ascii_space :: "char \<Rightarrow> bool" where
  "ascii_space c \<longleftrightarrow> List.member [CHR 0x09, CHR 0x0A, CHR 0x0B, CHR 0x0C, CHR 0x0D, CHR '' ''] c"

definition TrimSpace :: "string \<Rightarrow> string" where
  "TrimSpace s = rev (dropWhile ascii_space (rev (dropWhile ascii_space s)))"

definition readSysctl :: "string \<Rightarrow> (fatal, int) prog" where
  "readSysctl path =
     thn (fat (FatalErr (''cannot read '' @ path)) (ask (ReadFile path))) (\<lambda>v.
       case Atoi (TrimSpace (v_str v)) of
         Ret i \<Rightarrow> Done (Ret i)
       | Fail e \<Rightarrow> Done (Fail (Fatal (''cannot interpret '' @ path)))
       | Panic m \<Rightarrow> Done (Panic m))"

text \<open>All three values are read at the first use; a process that calls only \<open>LastCap\<close> reads them then.\<close>

definition mustReadSysctl :: "(fatal, int \<times> int \<times> int) prog" where
  "mustReadSysctl =
     thn (readSysctl kernelOverflowuidPath) (\<lambda>uid.
     thn (readSysctl kernelOverflowgidPath) (\<lambda>gid.
     thn (readSysctl kernelCapLastCapPath) (\<lambda>lastcap. Done (Ret (uid, gid, lastcap)))))"

definition LastCap :: "(fatal, u64) prog" where
  "LastCap = thn mustReadSysctl (\<lambda>(_, _, lastcap). Done (Ret (word_of_int lastcap)))"

definition OverflowUid :: "(fatal, int) prog" where
  "OverflowUid = thn mustReadSysctl (\<lambda>(uid, _, _). Done (Ret uid))"

definition OverflowGid :: "(fatal, int) prog" where
  "OverflowGid = thn mustReadSysctl (\<lambda>(_, gid, _). Done (Ret gid))"

subsection \<open>Parameters\<close>

record Params =
  pa_Dir :: "absolute option"
  pa_Env :: "string list"
  pa_Path :: "absolute option"
  pa_Args :: "string list"
  pa_CgroupPath :: "absolute option"
  pa_ForwardCancel :: bool
  pa_AdoptWaitDelay :: int
  pa_Uid :: int
  pa_Gid :: int
  pa_Hostname :: string
  pa_Ops :: "Ops option"
  pa_SeccompRules :: "NativeRule list"
  pa_SeccompFlags :: nat
  pa_SeccompPresets :: nat
  pa_SeccompDisable :: bool
  pa_ParentPerm :: nat
  pa_RetainSession :: bool
  pa_HostNet :: bool
  pa_HostAbstract :: bool
  pa_Privileged :: bool

record initParams = Params +
  ip_HostUid :: int
  ip_HostGid :: int
  ip_Count :: nat
  ip_Verbose :: bool

subsection \<open>The phases of initEntrypoint\<close>

definition intermediateHostPath :: string where "intermediateHostPath = fhs_Proc @ ''self/fd''"
definition setupEnv :: string where "setupEnv = ''HAKUREI_SETUP''"
definition EBADF :: nat where "EBADF = 9"
definition MNT_DETACH :: nat where "MNT_DETACH = 2"
definition O_DIRECTORY :: nat where "O_DIRECTORY = 0x10000"
definition ErrReceiveEnv :: cerr where "ErrReceiveEnv = OtherError ''environment variable not set''"

text \<open>A call that does not fail.\<close>

definition get_int :: "syscall \<Rightarrow> (fatal, int) prog" where
  "get_int c = Call c (\<lambda>x. Done (Ret (case x of Val v \<Rightarrow> v_int v | Err _ \<Rightarrow> -1)))"

definition init_receive :: "initParams \<Rightarrow> (fatal, initParams \<times> int) prog" where
  "init_receive params =
     after (ask (Receive setupEnv)) (\<lambda>r. case r of
       Fail err \<Rightarrow>
         if errno_Is err EBADF then Done (Fail (Fatal ''invalid setup descriptor''))
         else if List.member (err_chain err) ErrReceiveEnv then Done (Fail (Fatal (setupEnv @ '' not set'')))
         else Done (Fail (FatalErr ''cannot decode init setup payload: '' err))
     | Ret setupFd \<Rightarrow>
         if pa_Ops params = None then Done (Fail (Fatal ''invalid setup parameters''))
         else
           let params = (if pa_ParentPerm params = 0 then params\<lparr>pa_ParentPerm := 493\<rparr> else params)
           in Done (Ret (params, v_int setupFd + 1))
     | Panic m \<Rightarrow> Done (Panic m))"

definition id_map :: "int \<Rightarrow> int \<Rightarrow> string" where
  "id_map inner outer = Itoa inner @ '' '' @ Itoa outer @ '' 1'' @ [CHR 0x0A]"

definition init_idmap :: "initParams \<Rightarrow> (fatal, unit) prog" where
  "init_idmap params =
     thn (fat (FatalErr ''cannot set SUID_DUMP_USER: '') (SetDumpable SUID_DUMP_USER)) (\<lambda>_.
     thn (fat (FatalErr []) (exec (WriteFile (fhs_Proc @ ''self/uid_map'') (id_map (pa_Uid params) (ip_HostUid params)) 0))) (\<lambda>_.
     thn (onFail (exec (WriteFile (fhs_Proc @ ''self/setgroups'') (''deny'' @ [CHR 0x0A]) 0)) (\<lambda>err.
            if \<not> IsNotExist err then Done (Fail (FatalErr [] err)) else Done (Ret ()))) (\<lambda>_.
     thn (fat (FatalErr []) (exec (WriteFile (fhs_Proc @ ''self/gid_map'') (id_map (pa_Gid params) (ip_HostGid params)) 0))) (\<lambda>_.
     fat (FatalErr ''cannot set SUID_DUMP_DISABLE: '') (SetDumpable SUID_DUMP_DISABLE)))))"

definition op_fatal :: "string \<Rightarrow> nat \<Rightarrow> cerr \<Rightarrow> fatal" where
  "op_fatal verb i err =
     (case messageFromError err of
        Some (pre, e) \<Rightarrow> FatalErr pre e
      | None \<Rightarrow> FatalErr (''cannot '' @ verb @ '' op at index '' @ Itoa (int i) @ '': '') err)"

definition init_early_op :: "nat \<Rightarrow> Op option \<Rightarrow> (fatal, Op) prog" where
  "init_early_op i op =
     (case op of
        None \<Rightarrow> Done (Fail (Fatal (''invalid op at index '' @ Itoa (int i))))
      | Some x \<Rightarrow>
          if \<not> Op_Valid x then Done (Fail (Fatal (''invalid op at index '' @ Itoa (int i))))
          else onFail (Op_early x) (\<lambda>err. Done (Fail (op_fatal ''prepare'' i err))))"

definition init_early :: "Ops \<Rightarrow> (fatal, Op list) prog" where
  "init_early ops = early_loop init_early_op 0 ops"

definition init_pivot :: "(fatal, unit) prog" where
  "init_pivot =
     thn (fat (FatalErr ''cannot mount intermediate root: '' \<circ> optionalErrorUnwrap)
       (mount SourceTmpfsRootfs intermediateHostPath FstypeTmpfs (MS_NODEV OR MS_NOSUID) [])) (\<lambda>_.
     thn (fat (FatalErr ''cannot enter intermediate host path: '') (exec (Chdir intermediateHostPath))) (\<lambda>_.
     thn (fat (FatalErr []) (exec (Mkdir sysrootDir 493))) (\<lambda>_.
     thn (fat (FatalErr ''cannot bind sysroot: '' \<circ> optionalErrorUnwrap)
       (mount sysrootDir sysrootDir [] (MS_SILENT OR MS_BIND OR MS_REC) [])) (\<lambda>_.
     thn (fat (FatalErr []) (exec (Mkdir hostDir 493))) (\<lambda>_.
     thn (fat (FatalErr ''cannot pivot into intermediate root: '') (exec (PivotRoot intermediateHostPath hostDir))) (\<lambda>_.
     fat (FatalErr ''cannot enter intermediate root: '') (exec (Chdir fhs_Root))))))))"

definition init_apply_op :: "nat \<Rightarrow> nat \<Rightarrow> setupState \<Rightarrow> Op \<Rightarrow> (fatal, setupState) prog" where
  "init_apply_op fu i st x = onFail (Op_apply fu st x) (\<lambda>err. Done (Fail (op_fatal ''apply'' i err)))"

definition init_apply :: "nat \<Rightarrow> setupState \<Rightarrow> Op list \<Rightarrow> (fatal, setupState) prog" where
  "init_apply fu st ops = apply_loop (init_apply_op fu) 0 st ops"

definition init_leave :: "nat \<Rightarrow> (fatal, unit) prog" where
  "init_leave fu =
     thn (fat (FatalErr ''cannot make host root rprivate: '' \<circ> optionalErrorUnwrap)
       (mount hostDir hostDir [] (MS_SILENT OR MS_REC OR MS_PRIVATE) [])) (\<lambda>_.
     thn (fat (FatalErr ''cannot unmount host root: '') (exec (SysUnmount hostDir MNT_DETACH))) (\<lambda>_.
     thn (fat (FatalErr ''cannot open intermediate root: '') (IgnoringEINTR fu (ask (SysOpen fhs_Root O_DIRECTORY 0)))) (\<lambda>fd.
     thn (fat (FatalErr ''cannot enter sysroot: '') (exec (Chdir sysrootPath))) (\<lambda>_.
     thn (fat (FatalErr ''cannot pivot into sysroot: '') (exec (PivotRoot ''.'' ''.''))) (\<lambda>_.
     thn (fat (FatalErr ''cannot re-enter intermediate root: '') (exec (Fchdir (v_int fd)))) (\<lambda>_.
     thn (fat (FatalErr ''cannot unmount intermediate root: '') (exec (SysUnmount ''.'' MNT_DETACH))) (\<lambda>_.
     thn (fat (FatalErr ''cannot enter root: '') (exec (Chdir fhs_Root))) (\<lambda>_.
     fat (FatalErr ''cannot close intermediate root: '') (exec (SysClose (v_int fd)))))))))))"

text \<open>The capabilities dropped from the bounding set. The counter is a machine word: when the last
  capability is the largest word, the loop does not end.\<close>

definition dropped_caps :: "bool \<Rightarrow> u64 \<Rightarrow> u64 list" where
  "dropped_caps privileged lastcap =
     filter (\<lambda>i. \<not> (privileged \<and> i = CAP_SYS_ADMIN)) (map word_of_nat [0..<Suc (unat lastcap)])"

definition init_keep :: "bool \<Rightarrow> u32 \<times> u32" where
  "init_keep privileged =
     (if privileged then
        if capToIndex CAP_SYS_ADMIN = 0 then (capToMask CAP_SYS_ADMIN, 0) else (0, capToMask CAP_SYS_ADMIN)
      else (0, 0))"

definition init_caps :: "bool \<Rightarrow> u64 \<Rightarrow> (fatal, unit) prog" where
  "init_caps privileged lastcap =
     thn (fat (FatalErr ''cannot clear the ambient capability set: '') capAmbientClearAll) (\<lambda>_.
     thn (each (\<lambda>i. fat (FatalErr ''cannot drop capability from bounding set: '') (capBoundingSetDrop i))
       (dropped_caps privileged lastcap)) (\<lambda>_.
     if lastcap = - 1 then Spin
     else
       thn (if privileged then fat (FatalErr ''cannot raise CAP_SYS_ADMIN: '') (capAmbientRaise CAP_SYS_ADMIN)
            else Done (Ret ())) (\<lambda>_.
       let (k0, k1) = init_keep privileged in
       fat (FatalErr ''cannot capset: '')
         (capset (LINUX_CAPABILITY_VERSION_3, 0) [(0, k0, k0), (0, k1, k1)]))))"

definition init_filter :: "(string \<Rightarrow> int) \<Rightarrow> initParams \<Rightarrow> (fatal, unit) prog" where
  "init_filter snr params =
     (if \<not> pa_SeccompDisable params then
        let rules = pa_SeccompRules params;
            rules = (if length rules = 0 then Preset snr (pa_SeccompPresets params) (pa_SeccompFlags params) else rules)
        in fat (FatalErr ''cannot load syscall filter: '') (exec (SeccompLoad rules (pa_SeccompFlags params)))
      else Done (Ret ()))"

definition fatStr :: "absolute option \<Rightarrow> (fatal, string) prog" where
  "fatStr a = fat (FatalErr []) (absStr a)"

definition init_start :: "initParams \<Rightarrow> int \<Rightarrow> int \<Rightarrow> (fatal, int) prog" where
  "init_start params offsetSetup oldmask =
     (let extraFiles = map (\<lambda>i. offsetSetup + int i) [0..<ip_Count params] in
      thn (get_int (Umask (nat oldmask))) (\<lambda>_.
      thn (fat (FatalErr ''cannot close setup pipe: '') (exec CloseSetup)) (\<lambda>_.
      thn (fatStr (pa_Path params)) (\<lambda>path.
      thn (fatStr (pa_Dir params)) (\<lambda>dir.
      thn (fat (FatalErr []) (ask (Start path (pa_Args params) (pa_Env params) dir extraFiles))) (\<lambda>v.
      Done (Ret (v_int v))))))))"

definition init_identity :: "initParams \<Rightarrow> int \<Rightarrow> (fatal, initParams \<times> int \<times> int \<times> u64) prog" where
  "init_identity params offsetSetup =
     thn (init_idmap params) (\<lambda>_.
     thn (get_int (Umask 0)) (\<lambda>oldmask.
     thn (if pa_Hostname params \<noteq> [] then fat (FatalErr ''cannot set hostname: '') (exec (Sethostname (pa_Hostname params)))
          else Done (Ret ())) (\<lambda>_.
     thn LastCap (\<lambda>lastcap. Done (Ret (params, offsetSetup, oldmask, lastcap))))))"

definition init_prepare :: "initParams \<Rightarrow> (fatal, initParams \<times> int \<times> int \<times> u64) prog" where
  "init_prepare params0 =
     thn (get_int Getpid) (\<lambda>pid.
     if pid \<noteq> 1 then Done (Fail (Fatal ''this process must run as pid 1''))
     else after (SetPtracer 0) (\<lambda>_. thn (init_receive params0) (\<lambda>(params, offsetSetup). init_identity params offsetSetup)))"

definition init_enter :: "nat \<Rightarrow> (string \<Rightarrow> int) \<Rightarrow> initParams \<Rightarrow> u64 \<Rightarrow> (fatal, unit) prog" where
  "init_enter fu snr params lastcap =
     thn (fat (FatalErr ''cannot make / rslave: '' \<circ> optionalErrorUnwrap)
       (mount [] fhs_Root [] (MS_SILENT OR MS_SLAVE OR MS_REC) [])) (\<lambda>_.
     thn (init_early (the (pa_Ops params))) (\<lambda>ops.
     thn init_pivot (\<lambda>_.
     thn (init_apply fu \<lparr>st_nonrepeatable = 0, st_ParentPerm = pa_ParentPerm params,
            st_RetainSession = pa_RetainSession params\<rparr> ops) (\<lambda>_.
     thn (init_leave fu) (\<lambda>_.
     thn (init_caps (pa_Privileged params) lastcap) (\<lambda>_.
     init_filter snr params))))))"

definition initEntrypoint :: "nat \<Rightarrow> (string \<Rightarrow> int) \<Rightarrow> initParams \<Rightarrow> (fatal, int) prog" where
  "initEntrypoint fu snr params0 =
     thn (init_prepare params0) (\<lambda>(params, offsetSetup, oldmask, lastcap).
     thn (init_enter fu snr params lastcap) (\<lambda>_.
     init_start params offsetSetup oldmask))"

subsection \<open>What has happened when the initial program starts\<close>

fun is_Start :: "syscall \<Rightarrow> bool" where
  "is_Start (Start _ _ _ _ _) = True" | "is_Start _ = False"

text \<open>Calls that occur in a trace in the given order: each pattern is a call, and whether it succeeded.\<close>

fun matches :: "syscall \<times> bool \<Rightarrow> syscall \<times> reply \<Rightarrow> bool" where
  "matches (c, must) (c', x) = (c = c' \<and> (must \<longrightarrow> (case x of Val _ \<Rightarrow> True | Err _ \<Rightarrow> False)))"

fun ordered :: "(syscall \<times> bool) list \<Rightarrow> trace \<Rightarrow> bool" where
  "ordered [] tr = True"
| "ordered (p # ps) [] = False"
| "ordered (p # ps) (x # xs) = (if matches p x then ordered ps xs else ordered (p # ps) xs)"

lemma ordered_weaken:
  "(\<forall>ps x. ordered ps xs \<longrightarrow> ordered ps (x # xs)) \<and> (\<forall>p ps. ordered (p # ps) xs \<longrightarrow> ordered ps xs)"
proof (induction xs)
  case Nil
  show ?case by (metis neq_Nil_conv ordered.simps(1,2))
next
  case (Cons y ys)
  have drop: "ordered ps (y # ys)" if "ordered (p # ps) (y # ys)" for p ps
  proof -
    from that have "ordered ps ys \<or> ordered (p # ps) ys" by (simp split: if_splits)
    with Cons show ?thesis by blast
  qed
  have "ordered ps (x # y # ys)" if "ordered ps (y # ys)" for ps x
  proof (cases ps)
    case (Cons p ps')
    with that drop [of p ps'] show ?thesis by (simp del: ordered.simps(3) add: ordered.simps(3) [of p ps' x])
  qed simp
  with drop show ?case by blast
qed

lemma ordered_append: "ordered ps a \<Longrightarrow> ordered qs b \<Longrightarrow> ordered (ps @ qs) (a @ b)"
proof (induction ps a rule: ordered.induct)
  case (1 a)
  then show ?case by (induction a) (use ordered_weaken in auto)
qed (auto split: if_splits)

text \<open>Every call of the program satisfies \<open>G\<close>, and when it returns a value, the value satisfies \<open>S\<close> and the
  calls it made include the given ones in their order.\<close>

definition does :: "(syscall \<Rightarrow> reply \<Rightarrow> bool) \<Rightarrow> (syscall \<Rightarrow> bool) \<Rightarrow> (syscall \<times> bool) list \<Rightarrow> ('a \<Rightarrow> bool) \<Rightarrow> ('e, 'a) prog \<Rightarrow> bool" where
  "does R G ps S p \<longleftrightarrow> (\<forall>tr. ensures R (\<lambda>_. G) p tr (\<lambda>r tr'. \<forall>x. r = Ret x \<longrightarrow> S x \<and> (\<exists>new. tr' = tr @ new \<and> ordered ps new)))"

lemma does_thn:
  assumes "does R G ps S p" "\<And>x. S x \<Longrightarrow> does R G qs T (f x)"
  shows "does R G (ps @ qs) T (thn p f)"
  unfolding does_def
proof
  fix tr
  let ?Q = "\<lambda>tr. \<lambda>r tr'. \<forall>x. r = Ret x \<longrightarrow> T x \<and> (\<exists>new. tr' = tr @ new \<and> ordered (ps @ qs) new)"
  have "ensures R (\<lambda>_. G) p tr (\<lambda>r tr'. \<forall>x. r = Ret x \<longrightarrow> S x \<and> (\<exists>new. tr' = tr @ new \<and> ordered ps new))"
    using assms(1) by (simp add: does_def)
  then show "ensures R (\<lambda>_. G) (thn p f) tr (?Q tr)"
    unfolding ensures_thn
  proof (rule ensures_mono)
    fix r tr'
    assume r: "\<forall>x. r = Ret x \<longrightarrow> S x \<and> (\<exists>new. tr' = tr @ new \<and> ordered ps new)"
    have "ensures R (\<lambda>_. G) (f x) (tr @ new) (?Q tr)" if "S x" "ordered ps new" for x new
    proof (rule ensures_mono)
      show "ensures R (\<lambda>_. G) (f x) (tr @ new) (\<lambda>r tr'. \<forall>y. r = Ret y \<longrightarrow> T y \<and> (\<exists>b. tr' = (tr @ new) @ b \<and> ordered qs b))"
        using assms(2) [OF that(1), unfolded does_def] by blast
    qed (use that(2) in \<open>auto intro!: ordered_append\<close>)
    with r show "case r of Ret x \<Rightarrow> ensures R (\<lambda>_. G) (f x) tr' (?Q tr) | Fail e \<Rightarrow> ?Q tr (Fail e) tr' | Panic m \<Rightarrow> ?Q tr (Panic m) tr'"
      by (auto split: go.split)
  qed
qed

lemma does_Done [simp]: "does R G ps S (Done r) \<longleftrightarrow> (\<forall>x. r = Ret x \<longrightarrow> S x \<and> ps = [])"
  by (cases ps) (auto simp: does_def)

lemma does_Spin [simp]: "does R G ps S Spin"
  by (simp add: does_def)

text \<open>The rules for sequences whose first program makes one call that matters, or none.\<close>

lemma does_skip: "does R G [] S p \<Longrightarrow> (\<And>x. S x \<Longrightarrow> does R G qs T (f x)) \<Longrightarrow> does R G qs T (thn p f)"
  using does_thn [of R G "[]" S p qs T f] by simp

lemma does_call: "does R G [c] S p \<Longrightarrow> (\<And>x. S x \<Longrightarrow> does R G qs T (f x)) \<Longrightarrow> does R G (c # qs) T (thn p f)"
  using does_thn [of R G "[c]" S p qs T f] by simp

lemma does_then: "does R G ps S p \<Longrightarrow> (\<And>x. S x \<Longrightarrow> does R G [] T (f x)) \<Longrightarrow> does R G ps T (thn p f)"
  using does_thn [of R G ps S p "[]" T f] by simp

lemma does_weaken:
  assumes "does R G ps S p" "\<And>x new. S x \<Longrightarrow> ordered ps new \<Longrightarrow> T x \<and> ordered qs new"
  shows "does R G qs T p"
  unfolding does_def
proof
  fix tr
  have "ensures R (\<lambda>_. G) p tr (\<lambda>r tr'. \<forall>x. r = Ret x \<longrightarrow> S x \<and> (\<exists>new. tr' = tr @ new \<and> ordered ps new))"
    using assms(1) by (simp add: does_def)
  then show "ensures R (\<lambda>_. G) p tr (\<lambda>r tr'. \<forall>x. r = Ret x \<longrightarrow> T x \<and> (\<exists>new. tr' = tr @ new \<and> ordered qs new))"
  proof (rule ensures_mono)
    fix r tr'
    assume *: "\<forall>x. r = Ret x \<longrightarrow> S x \<and> (\<exists>new. tr' = tr @ new \<and> ordered ps new)"
    have "T x \<and> (\<exists>new. tr' = tr @ new \<and> ordered qs new)" if x: "r = Ret x" for x
    proof -
      from * x obtain new where "S x" "tr' = tr @ new" "ordered ps new" by blast
      with assms(2) [of x new] show ?thesis by simp
    qed
    then show "\<forall>x. r = Ret x \<longrightarrow> T x \<and> (\<exists>new. tr' = tr @ new \<and> ordered qs new)" by simp
  qed
qed

lemma does_fat: "does R G ps S p \<Longrightarrow> does R G ps S (fat h p)"
  unfolding does_def fat_def
  by (auto elim!: ensures_mono [rotated] dest!: spec split: go.split)

lemma does_exec: "G c \<Longrightarrow> does R G [(c, True)] (\<lambda>_. True) (exec c)"
  by (simp add: does_def)

lemma does_ask: "G c \<Longrightarrow> does R G [(c, True)] (\<lambda>_. True) (ask c)"
  by (simp add: does_def)

lemma does_mount: "G (SysMount s t f fl d) \<Longrightarrow> does R G [(SysMount s t f fl d, True)] (\<lambda>_. True) (mount s t f fl d)"
  by (simp add: does_def)

lemma does_Prctl: "G (SysPrctl a b c) \<Longrightarrow> does R G [(SysPrctl a b c, False)] (\<lambda>_. True) (Prctl a b c)"
  by (simp add: does_def)

lemma does_get_int: "G c \<Longrightarrow> does R G [] (\<lambda>_. True) (get_int c)"
  by (simp add: does_def get_int_def)

lemma does_forget: "does R G ps S p \<Longrightarrow> does R G [] S p"
  by (rule does_weaken) auto

lemma does_after_Prctl: "G (SysPrctl a b c) \<Longrightarrow> does R G ps S p \<Longrightarrow> does R G ps S (after (Prctl a b c) (\<lambda>_. p))"
proof -
  assume G: "G (SysPrctl a b c)" and p: "does R G ps S p"
  have "ensures R (\<lambda>_. G) p (tr @ [(SysPrctl a b c, x)])
      (\<lambda>r tr'. \<forall>y. r = Ret y \<longrightarrow> S y \<and> (\<exists>new. tr' = tr @ new \<and> ordered ps new))" for tr x
  proof (rule ensures_mono)
    show "ensures R (\<lambda>_. G) p (tr @ [(SysPrctl a b c, x)])
        (\<lambda>r tr'. \<forall>y. r = Ret y \<longrightarrow> S y \<and> (\<exists>new. tr' = (tr @ [(SysPrctl a b c, x)]) @ new \<and> ordered ps new))"
      using p unfolding does_def by (rule spec)
  qed (use ordered_weaken in auto)
  with G show ?thesis by (simp add: does_def)
qed

lemma does_each: "(\<And>x. x \<in> set xs \<Longrightarrow> does R G [g x] (\<lambda>_. True) (f x)) \<Longrightarrow> does R G (map g xs) (\<lambda>_. True) (each f xs)"
  by (induction xs) (auto intro!: does_call)

lemma does_keeps:
  assumes "keeps R G E p"
  shows "does R G [] (\<lambda>_. True) p"
proof -
  have *: "ensures R (\<lambda>_. G) p tr (\<lambda>r tr'. (\<forall>e. r = Fail e \<longrightarrow> E e) \<and> prefix tr tr')" for tr
    using assms by (intro ensures_prefix) (simp add: keeps_def)
  show ?thesis unfolding does_def by (auto intro!: ensures_mono [OF *] simp: prefix_def)
qed

lemma does_mono: "does R G ps S p \<Longrightarrow> (\<And>c. G c \<Longrightarrow> G' c) \<Longrightarrow> does R G' ps S p"
  unfolding does_def by (blast intro: ensures_guard_mono)

lemma does_rely: "does R G ps S p \<Longrightarrow> (\<And>c x. R' c x \<Longrightarrow> R c x) \<Longrightarrow> does R' G ps S p"
  unfolding does_def by (blast intro: ensures_rely_mono)


text \<open>The calls of init itself, apart from the start of the initial program.\<close>

fun init_call :: "syscall \<Rightarrow> bool" where
  "init_call (SysMount s t f fl d) = (d = [] \<and> List.member
     [([], fhs_Root, [], MS_SILENT OR MS_SLAVE OR MS_REC),
      (SourceTmpfsRootfs, intermediateHostPath, FstypeTmpfs, MS_NODEV OR MS_NOSUID),
      (sysrootDir, sysrootDir, [], MS_SILENT OR MS_BIND OR MS_REC),
      (hostDir, hostDir, [], MS_SILENT OR MS_REC OR MS_PRIVATE)] (s, t, f, fl))"
| "init_call (SysUnmount p fl) = ((p = hostDir \<or> p = ''.'') \<and> fl = MNT_DETACH)"
| "init_call (PivotRoot n old) = (n = intermediateHostPath \<and> old = hostDir \<or> n = ''.'' \<and> old = ''.'')"
| "init_call (Mkdir p perm) = ((p = sysrootDir \<or> p = hostDir) \<and> perm = 493)"
| "init_call (WriteFile p _ _) = List.member (map ((@) (fhs_Proc @ ''self/'')) [''uid_map'', ''setgroups'', ''gid_map'']) p"
| "init_call (ReadFile p) = List.member [kernelOverflowuidPath, kernelOverflowgidPath, kernelCapLastCapPath] p"
| "init_call (SysOpen p fl _) = (p = fhs_Root \<and> fl = O_DIRECTORY)"
| "init_call (Chdir _) = True"
| "init_call (Fchdir _) = True"
| "init_call (SysClose _) = True"
| "init_call Getpid = True"
| "init_call (SysPrctl _ _ _) = True"
| "init_call (SysCapset _ _) = True"
| "init_call (Receive _) = True"
| "init_call CloseSetup = True"
| "init_call (Umask _) = True"
| "init_call (Sethostname _) = True"
| "init_call (SeccompLoad _ _) = True"
| "init_call _ = False"

definition idmap_calls :: "initParams \<Rightarrow> (syscall \<times> bool) list" where
  "idmap_calls params =
     [(WriteFile (fhs_Proc @ ''self/uid_map'') (id_map (pa_Uid params) (ip_HostUid params)) 0, True),
      (WriteFile (fhs_Proc @ ''self/setgroups'') (''deny'' @ [CHR 0x0A]) 0, False),
      (WriteFile (fhs_Proc @ ''self/gid_map'') (id_map (pa_Gid params) (ip_HostGid params)) 0, True)]"

definition pivot_calls :: "(syscall \<times> bool) list" where
  "pivot_calls =
     [(SysMount SourceTmpfsRootfs intermediateHostPath FstypeTmpfs (MS_NODEV OR MS_NOSUID) [], True),
      (Chdir intermediateHostPath, True), (Mkdir sysrootDir 493, True),
      (SysMount sysrootDir sysrootDir [] (MS_SILENT OR MS_BIND OR MS_REC) [], True), (Mkdir hostDir 493, True),
      (PivotRoot intermediateHostPath hostDir, True), (Chdir fhs_Root, True)]"

definition leave_calls :: "(syscall \<times> bool) list" where
  "leave_calls = [(SysMount hostDir hostDir [] (MS_SILENT OR MS_REC OR MS_PRIVATE) [], True), (SysUnmount hostDir MNT_DETACH, True), (Chdir sysrootPath, True), (PivotRoot ''.'' ''.'', True),
     (SysUnmount ''.'' MNT_DETACH, True), (Chdir fhs_Root, True)]"

definition caps_calls :: "bool \<Rightarrow> u64 \<Rightarrow> (syscall \<times> bool) list" where
  "caps_calls privileged lastcap =
     (SysPrctl PR_CAP_AMBIENT PR_CAP_AMBIENT_CLEAR_ALL 0, False) #
     map (\<lambda>i. (SysPrctl PR_CAPBSET_DROP i 0, False)) (dropped_caps privileged lastcap) @
     [(case init_keep privileged of (k0, k1) \<Rightarrow>
         SysCapset (LINUX_CAPABILITY_VERSION_3, 0) [(0, k0, k0), (0, k1, k1)], True)]"

definition filter_calls :: "(string \<Rightarrow> int) \<Rightarrow> initParams \<Rightarrow> (syscall \<times> bool) list" where
  "filter_calls snr params =
     (if pa_SeccompDisable params then []
      else [(SeccompLoad (if pa_SeccompRules params = [] then Preset snr (pa_SeccompPresets params) (pa_SeccompFlags params)
               else pa_SeccompRules params) (pa_SeccompFlags params), True)])"

lemma does_init_idmap:
  assumes "\<And>c. init_call c \<Longrightarrow> G c"
  shows "does R G (idmap_calls params) (\<lambda>_. True) (init_idmap params)"
proof -
  let ?g = "WriteFile (fhs_Proc @ ''self/setgroups'') (''deny'' @ [CHR 0x0A]) 0"
  have g: "does R G [(?g, False)] (\<lambda>_. True) (onFail (exec ?g) (\<lambda>err.
      if \<not> IsNotExist err then Done (Fail (FatalErr [] err)) else Done (Ret ())))"
    using assms by (auto simp: does_def)
  show ?thesis unfolding init_idmap_def idmap_calls_def SetDumpable_def
    by (rule does_skip does_call does_fat does_exec g assms does_forget [OF does_fat, OF does_Prctl] | simp)+
qed

lemma does_init_pivot:
  assumes "\<And>c. init_call c \<Longrightarrow> G c"
  shows "does R G pivot_calls (\<lambda>_. True) init_pivot"
  unfolding init_pivot_def pivot_calls_def
  by (rule does_call does_fat does_mount does_exec assms | simp)+

lemma does_open:
  assumes "\<And>c. init_call c \<Longrightarrow> G c"
  shows "does R G [] (\<lambda>_. True) (fat h (IgnoringEINTR fu (ask (SysOpen fhs_Root O_DIRECTORY 0))))"
  by (intro does_fat does_keeps [where E = "\<lambda>_. True"] keeps_IgnoringEINTR) (simp add: keeps_ask assms)

lemma does_init_leave:
  assumes "\<And>c. init_call c \<Longrightarrow> G c"
  shows "does R G leave_calls (\<lambda>_. True) (init_leave fu)"
proof -
  have *: "G c \<Longrightarrow> does R G [(c, True)] (\<lambda>_. True) (fat h (exec c))" for c h
    by (intro does_fat does_exec)
  note call = does_call [OF *] and skip = does_skip [OF does_forget [OF *]]
  show ?thesis unfolding init_leave_def leave_calls_def
    by (rule does_call [OF does_fat, OF does_mount], simp add: assms, rule call, simp add: assms,
        rule does_skip [OF does_open], simp add: assms,
        rule call, simp add: assms, rule call, simp add: assms, rule skip, simp add: assms,
        rule call, simp add: assms, rule call, simp add: assms, rule does_forget [OF *], simp add: assms)
qed

lemma does_capset:
  assumes "\<And>c. init_call c \<Longrightarrow> G c"
  shows "does R G [(SysCapset hdr data, True)] (\<lambda>_. True) (capset hdr data)"
  using assms by (auto simp: does_def capset_def syscall_result_def split: reply.splits)

lemma does_init_caps:
  assumes "\<And>c. init_call c \<Longrightarrow> G c"
  shows "does R G (caps_calls privileged lastcap) (\<lambda>_. True) (init_caps privileged lastcap)"
proof -
  have p: "does R G [(SysPrctl a b c, False)] (\<lambda>_. True) (fat h (Prctl a b c))" for a b c h
    by (intro does_fat does_Prctl assms) simp
  have raise: "does R G [] (\<lambda>_. True) (fat h (capAmbientRaise CAP_SYS_ADMIN))" for h
    unfolding capAmbientRaise_def by (rule does_forget [OF p])
  obtain k0 k1 where k: "init_keep privileged = (k0, k1)" by (cases "init_keep privileged")
  show ?thesis
    unfolding init_caps_def caps_calls_def capAmbientClearAll_def capBoundingSetDrop_def k Let_def case_prod_conv
    by (rule does_call [OF p], rule does_thn [OF does_each], rule p)
      (auto intro!: does_skip [OF raise] does_fat does_capset assms)
qed

lemma does_init_filter:
  assumes "\<And>c. init_call c \<Longrightarrow> G c"
  shows "does R G (filter_calls snr params) (\<lambda>_. True) (init_filter snr params)"
  by (auto simp: init_filter_def filter_calls_def Let_def intro!: does_fat does_exec assms)

lemma does_readSysctl:
  assumes "\<And>c. init_call c \<Longrightarrow> G c" "init_call (ReadFile p)"
  shows "does R G [] (\<lambda>n. \<exists>v. R (ReadFile p) (Val v) \<and> Atoi (TrimSpace (v_str v)) = Ret n) (readSysctl p)"
  using assms by (auto simp: does_def readSysctl_def fat_def split: go.splits)

text \<open>The kernel assumed: pathname resolution as documented, and a fixed number of the last capability.\<close>

definition init_rely :: "int \<Rightarrow> syscall \<Rightarrow> reply \<Rightarrow> bool" where
  "init_rely lastcap c x \<longleftrightarrow> posix c x \<and>
     (\<forall>v. c = ReadFile kernelCapLastCapPath \<and> x = Val v \<longrightarrow> Atoi (TrimSpace (v_str v)) = Ret lastcap)"

lemma does_LastCap:
  assumes "\<And>c. init_call c \<Longrightarrow> G c"
  shows "does (init_rely lastcap) G [] (\<lambda>n. n = word_of_int lastcap) LastCap"
proof -
  note read = does_readSysctl [OF assms, where R = "init_rely lastcap"]
  have "does (init_rely lastcap) G [] (\<lambda>(_, _, n). n = lastcap) mustReadSysctl"
    unfolding mustReadSysctl_def
    by (rule does_skip [OF read], assumption, simp)+ (auto simp: init_rely_def)
  then show ?thesis
    unfolding LastCap_def by (rule does_skip) auto
qed

text \<open>The parameters in effect are those received, with a default for one field.\<close>

definition received :: "initParams \<Rightarrow> initParams \<Rightarrow> bool" where
  "received params0 params \<longleftrightarrow> pa_Ops params0 \<noteq> None \<and> (\<exists>perm. params = params0\<lparr>pa_ParentPerm := perm\<rparr>)"

lemma does_init_receive:
  assumes "\<And>c. init_call c \<Longrightarrow> G c"
  shows "does R G [] (\<lambda>(params, _). received params0 params) (init_receive params0)"
proof -
  have "\<exists>perm. params0 = params0\<lparr>pa_ParentPerm := perm\<rparr>" by (rule exI [of _ "pa_ParentPerm params0"]) simp
  then show ?thesis
    using assms by (auto simp: does_def init_receive_def received_def Let_def)
qed

lemma received_idmap: "received params0 params \<Longrightarrow> idmap_calls params = idmap_calls params0"
  by (auto simp: received_def idmap_calls_def)

lemma does_init_prepare:
  assumes "\<And>c. init_call c \<Longrightarrow> G c"
  shows "does (init_rely lastcap) G (idmap_calls params0) (\<lambda>(params, _, _, n). received params0 params \<and> n = word_of_int lastcap)
    (init_prepare params0)"
proof -
  let ?S = "\<lambda>(params, _, _, n). received params0 params \<and> n = word_of_int lastcap"
  have int: "does (init_rely lastcap) G [] (\<lambda>_. True) (get_int c)" if "init_call c" for c
    by (rule does_get_int) (use that assms in blast)
  have host: "does (init_rely lastcap) G [] (\<lambda>_. True) (if h \<noteq> [] then fat g (exec (Sethostname h)) else Done (Ret ()))" for h g
    by (auto intro!: does_forget [OF does_fat, OF does_exec] assms)
  have tail: "does (init_rely lastcap) G (idmap_calls params0) ?S (init_identity params offset)"
    if "received params0 params" for params offset
    unfolding init_identity_def
    by (rule does_then [OF does_init_idmap [where params = params, unfolded received_idmap [OF that]]], erule assms,
        rule does_skip [OF int], simp, rule does_skip [OF host],
        rule does_skip [OF does_LastCap], erule assms) (simp add: that)
  show ?thesis
    unfolding init_prepare_def SetPtracer_def
    by (rule does_skip [OF int], simp, split if_split, intro conjI impI, simp, rule does_after_Prctl, rule assms, simp,
        rule does_skip [OF does_init_receive], erule assms, split prod.split, intro allI impI, rule tail, simp)
qed

text \<open>What init may do before it starts the initial program.\<close>

definition prepare_call :: "Ops \<Rightarrow> syscall \<Rightarrow> bool" where
  "prepare_call ops c \<longleftrightarrow> list_ex (\<lambda>x. case x of None \<Rightarrow> False | Some y \<Rightarrow> early_call (op_ensured y) c) ops"

definition init_guard :: "Ops \<Rightarrow> syscall \<Rightarrow> bool" where
  "init_guard ops c \<longleftrightarrow> init_call c \<or> setup_call c \<or> prepare_call ops c"

definition ops_fresh :: "Ops \<Rightarrow> bool" where
  "ops_fresh ops \<longleftrightarrow> list_all (\<lambda>x. case x of None \<Rightarrow> True | Some y \<Rightarrow> Op_fresh y) ops"

lemma init_guard_call: "init_call c \<Longrightarrow> init_guard ops c"
  by (simp add: init_guard_def)

lemma does_init_early:
  assumes "ops_fresh ops"
  shows "does posix (prepare_call ops) [] (list_all op_ready) (init_early ops)"
proof -
  have *: "ensures posix (\<lambda>_. prepare_call ops) (early_loop init_early_op 0 ops) tr
      (\<lambda>r _. (\<forall>ys. r = Ret ys \<longrightarrow> list_all op_ready ys) \<and> (\<forall>e. r = Fail e \<longrightarrow> True))" for tr
  proof (rule cops.prepare_all [where g = the and h = "op_fatal ''prepare''"])
    fix i x
    assume x: "x \<in> set ops"
    show "(\<exists>e. init_early_op i x = Done (Fail e) \<and> True) \<or> (Op_Valid (the x) \<and> Op_fresh (the x) \<and>
        init_early_op i x = onFail (Op_early (the x)) (\<lambda>e. Done (Fail (op_fatal ''prepare'' i e))) \<and>
        (\<forall>c. early_call (op_ensured (the x)) c \<longrightarrow> prepare_call ops c))"
    proof (cases x)
      case (Some y)
      with x assms have "Op_fresh y" by (auto simp: ops_fresh_def list_all_iff)
      moreover have "prepare_call ops c" if "early_call (op_ensured y) c" for c
        using x Some that by (auto simp: prepare_call_def list_ex_iff intro!: bexI [of _ x])
      ultimately show ?thesis using Some by (auto simp: init_early_op_def)
    qed (simp add: init_early_op_def)
  qed simp
  show ?thesis
    unfolding does_def init_early_def by (auto intro!: ensures_mono [OF ensures_prefix [OF *]] simp: prefix_def)
qed

lemma does_init_apply:
  assumes "list_all op_ready ops"
  shows "does posix setup_call [] (\<lambda>_. True) (init_apply fu st ops)"
proof -
  have "keeps posix setup_call (\<lambda>_. True) (init_apply fu st ops)"
    unfolding init_apply_def by (rule cops.perform_all [OF _ assms]) (simp_all add: init_apply_op_def)
  then show ?thesis by (rule does_keeps)
qed

text \<open>The calls made before the initial program starts, in order.\<close>

definition init_calls :: "(string \<Rightarrow> int) \<Rightarrow> initParams \<Rightarrow> u64 \<Rightarrow> (syscall \<times> bool) list" where
  "init_calls snr params lastcap =
     idmap_calls params @ (SysMount [] fhs_Root [] (MS_SILENT OR MS_SLAVE OR MS_REC) [], True) # pivot_calls @
     leave_calls @ caps_calls (pa_Privileged params) lastcap @ filter_calls snr params"

lemma does_init_enter:
  assumes "pa_Ops params = Some ops" "ops_fresh ops"
  shows "does (init_rely n) (init_guard ops) ((SysMount [] fhs_Root [] (MS_SILENT OR MS_SLAVE OR MS_REC) [], True) #
     pivot_calls @ leave_calls @ caps_calls (pa_Privileged params) lastcap @ filter_calls snr params) (\<lambda>_. True)
     (init_enter fu snr params lastcap)"
proof -
  have rely: "does posix G ps S p \<Longrightarrow> (\<And>c. G c \<Longrightarrow> init_guard ops c) \<Longrightarrow> does (init_rely n) (init_guard ops) ps S p" for G ps S p
    by (erule does_rely [THEN does_mono]) (simp_all add: init_rely_def)
  note call = init_guard_call [where ops = ops]
  show ?thesis
    unfolding init_enter_def assms(1) option.sel
    by (rule does_call [OF does_fat, OF does_mount], rule call, simp, rule does_skip [OF rely, OF does_init_early],
        rule assms(2), simp add: init_guard_def, rule does_thn [OF does_init_pivot], erule call,
        rule does_skip [OF rely, OF does_init_apply], assumption, simp add: init_guard_def,
        rule does_thn [OF does_init_leave], erule call, rule does_thn [OF does_init_caps], erule call,
        rule does_init_filter, erule call)
qed

lemma ordered_more: "ordered ps a \<Longrightarrow> ordered ps (a @ b)"
  using ordered_append [of ps a "[]" b] by simp

lemma init_start_ensures:
  assumes "ordered ps tr" "\<And>c. init_call c \<Longrightarrow> G c"
  shows "ensures R (\<lambda>tr c. G c \<or> is_Start c \<and> ordered ps tr) (init_start params offset oldmask) tr (\<lambda>_ _. True)"
  using assms
  by (auto simp: init_start_def Let_def get_int_def fat_def fatStr_def absStr_def abs_String_def split: option.split intro!: ordered_more)

lemma does_ensures:
  assumes "does R G ps S p" "ordered qs tr"
    and "\<And>x tr'. S x \<Longrightarrow> ordered (qs @ ps) tr' \<Longrightarrow> ensures R (\<lambda>tr c. G c \<or> H tr c) (f x) tr' (\<lambda>_ _. True)"
  shows "ensures R (\<lambda>tr c. G c \<or> H tr c) (thn p f) tr (\<lambda>_ _. True)"
  unfolding ensures_thn
proof (rule ensures_mono)
  show "ensures R (\<lambda>tr c. G c \<or> H tr c) p tr (\<lambda>r tr'. \<forall>x. r = Ret x \<longrightarrow> S x \<and> (\<exists>new. tr' = tr @ new \<and> ordered ps new))"
    using assms(1) unfolding does_def by (blast intro: ensures_guard_mono)
qed (auto intro!: assms(3) ordered_append [OF assms(2)] split: go.splits)

lemma init_ensures:
  assumes "pa_Ops params = Some ops" "ops_fresh ops"
  shows "ensures (init_rely n) (\<lambda>tr c. init_guard ops c \<or> is_Start c \<and> ordered (init_calls snr params (word_of_int n)) tr)
    (initEntrypoint fu snr params) [] (\<lambda>_ _. True)"
proof -
  let ?G = "\<lambda>tr c. init_guard ops c \<or> is_Start c \<and> ordered (init_calls snr params (word_of_int n)) tr"
  have "ensures (init_rely n) ?G (thn (init_enter fu snr params' (word_of_int n)) (\<lambda>_. init_start params' offset oldmask)) tr (\<lambda>_ _. True)"
    if "received params params'" "ordered (idmap_calls params) tr" for params' offset oldmask tr
  proof (rule does_ensures [OF does_init_enter that(2)])
    show "pa_Ops params' = Some ops" "ops_fresh ops" using assms that(1) by (auto simp: received_def)
  qed (use that(1) in \<open>auto intro!: init_start_ensures init_guard_call simp: init_calls_def filter_calls_def received_def\<close>)
  then show ?thesis
    unfolding initEntrypoint_def
    by (intro does_ensures [OF does_init_prepare [where lastcap = n], where qs = "[]"] init_guard_call)
      (auto simp: assms simp del: ensures_thn)
qed

text \<open>C2: whatever a kernel with the documented behaviour answers, when init starts the initial program it
  has, in this order and successfully where the kernel reports success: mapped the one user and group
  with supplementary groups denied, stopped mount propagation to the host, pivoted into the intermediate
  root, detached the host root, pivoted into the new root and detached the intermediate root, cleared the
  ambient capabilities, asked for every capability up to the last one to be dropped from the bounding
  set (but \<open>CAP_SYS_ADMIN\<close> when privileged), set the remaining capabilities, and loaded the filter
  unless it is disabled.\<close>

theorem init_start_guarded:
  assumes "answers (init_rely n) K" "pa_Ops params = Some ops" "ops_fresh ops"
    and "run K (initEntrypoint fu snr params) [] = (res, pre @ (Start path args env dir fds, x) # post)"
  shows "ordered (init_calls snr params (word_of_int n)) pre"
proof -
  from run_ensures [OF assms(1) init_ensures [OF assms(2,3)] assms(4)]
  have "init_guard ops (Start path args env dir fds) \<or> ordered (init_calls snr params (word_of_int n)) pre"
    by (auto dest!: spec [of _ "length pre"])
  then show ?thesis by (auto simp: init_guard_def prepare_call_def list_ex_iff split: option.splits)
qed

subsection \<open>The phases of init\<close>

text \<open>A run of a sequence: the calls of its first program, and then those of the rest if it returned.\<close>

lemma run_phase:
  assumes "answers R K" "does R G ps S p" "run K (thn p f) tr = (res, tr'')"
  shows "\<exists>new. list_all (\<lambda>(c, _). G c) new \<and>
    (tr'' = tr @ new \<or> (\<exists>x. S x \<and> ordered ps new \<and> run K (f x) (tr @ new) = (res, tr'')))"
proof -
  obtain r tr' where r: "run K p tr = (r, tr')" by (cases "run K p tr")
  have "ensures R (\<lambda>_. G) p tr (\<lambda>r tr'. \<forall>x. r = Ret x \<longrightarrow> S x \<and> (\<exists>new. tr' = tr @ new \<and> ordered ps new))"
    using assms(2) by (simp add: does_def)
  from run_ensures [OF assms(1) this r] obtain new where new: "tr' = tr @ new" "\<forall>i < length new. G (fst (new ! i))"
      and ret: "case r of None \<Rightarrow> True | Some r \<Rightarrow> \<forall>x. r = Ret x \<longrightarrow> S x \<and> (\<exists>new. tr' = tr @ new \<and> ordered ps new)"
    by blast
  from new(2) have all: "list_all (\<lambda>(c, _). G c) new" by (simp add: list_all_length case_prod_unfold)
  show ?thesis
    using assms(3) new(1) all ret r by (cases r) (auto simp: run_thn intro!: exI [of _ new] split: go.splits)
qed

lemma does_any:
  assumes "\<And>tr. ensures R (\<lambda>_. G) p tr (\<lambda>_ _. True)"
  shows "does R G [] (\<lambda>_. True) p"
  unfolding does_def by (auto intro!: ensures_mono [OF ensures_prefix [OF assms]] simp: prefix_def)

text \<open>A trace in phases: each phase makes calls of its kind only, and the next one begins only when the calls
  it has to make succeeded in their order.\<close>

fun phases :: "((syscall \<Rightarrow> bool) \<times> (syscall \<times> bool) list) list \<Rightarrow> trace \<Rightarrow> bool" where
  "phases [] tr \<longleftrightarrow> tr = []"
| "phases ((G, ps) # gs) tr \<longleftrightarrow>
     (\<exists>a rest. tr = a @ rest \<and> list_all (\<lambda>(c, _). G c) a \<and> (rest = [] \<or> ordered ps a) \<and> phases gs rest)"

lemma phases_Nil [simp]: "phases gs []"
  by (induction gs) auto

definition phased :: "(syscall \<Rightarrow> reply \<Rightarrow> bool) \<Rightarrow> ((syscall \<Rightarrow> bool) \<times> (syscall \<times> bool) list) list \<Rightarrow> ('e, 'a) prog \<Rightarrow> bool" where
  "phased R gs p \<longleftrightarrow> (\<forall>K tr res tr'. answers R K \<longrightarrow> run K p tr = (res, tr') \<longrightarrow> (\<exists>new. tr' = tr @ new \<and> phases gs new))"

lemma phased_thn:
  assumes "does R G ps S p" "\<And>x. S x \<Longrightarrow> phased R gs (f x)"
  shows "phased R ((G, ps) # gs) (thn p f)"
  unfolding phased_def
proof (intro allI impI)
  fix K tr res tr'
  assume K: "answers R K" and "run K (thn p f) tr = (res, tr')"
  from run_phase [OF K assms(1) this(2)] obtain a where a: "list_all (\<lambda>(c, _). G c) a"
    and rest: "tr' = tr @ a \<or> (\<exists>x. S x \<and> ordered ps a \<and> run K (f x) (tr @ a) = (res, tr'))" by blast
  from rest show "\<exists>new. tr' = tr @ new \<and> phases ((G, ps) # gs) new"
  proof (elim disjE exE conjE)
    assume "tr' = tr @ a"
    moreover have "phases ((G, ps) # gs) a" unfolding phases.simps by (rule exI [of _ a]) (simp add: a)
    ultimately show ?thesis by blast
  next
    fix x
    assume x: "S x" "ordered ps a" "run K (f x) (tr @ a) = (res, tr')"
    with K assms(2) obtain b where "tr' = (tr @ a) @ b" "phases gs b" unfolding phased_def by blast
    with a x(2) show ?thesis by (intro exI [of _ "a @ b"]) auto
  qed
qed

lemma phased_last:
  assumes "does R G ps S p"
  shows "phased R [(G, [])] p"
  unfolding phased_def
proof (intro allI impI)
  fix K tr res tr'
  assume K: "answers R K" and run: "run K p tr = (res, tr')"
  from assms have "ensures R (\<lambda>_. G) p tr (\<lambda>r tr'. \<forall>x. r = Ret x \<longrightarrow> S x \<and> (\<exists>new. tr' = tr @ new \<and> ordered ps new))"
    by (simp add: does_def)
  from run_ensures [OF K this run] obtain new where "tr' = tr @ new" "\<forall>i < length new. G (fst (new ! i))" by blast
  then show "\<exists>new. tr' = tr @ new \<and> phases [(G, [])] new"
    by (simp add: list_all_length case_prod_unfold)
qed

text \<open>The phases of init.\<close>

definition init_phases :: "(string \<Rightarrow> int) \<Rightarrow> initParams \<Rightarrow> Ops \<Rightarrow> u64 \<Rightarrow> ((syscall \<Rightarrow> bool) \<times> (syscall \<times> bool) list) list" where
  "init_phases snr params ops lastcap =
     [(init_call, idmap_calls params),
      (init_call, [(SysMount [] fhs_Root [] (MS_SILENT OR MS_SLAVE OR MS_REC) [], True)]),
      (prepare_call ops, []), (init_call, pivot_calls), (setup_call, []), (init_call, leave_calls),
      (init_call, caps_calls (pa_Privileged params) lastcap), (init_call, filter_calls snr params),
      (\<lambda>c. init_call c \<or> is_Start c, [])]"

lemma init_start_last: "phased R [(\<lambda>c. init_call c \<or> is_Start c, [])] (init_start params offset oldmask)"
proof (rule phased_last [OF does_any])
  fix tr
  show "ensures R (\<lambda>_ c. init_call c \<or> is_Start c) (init_start params offset oldmask) tr (\<lambda>_ _. True)"
    using init_start_ensures [of "[]" tr init_call R params offset oldmask] by simp
qed

lemma init_phased:
  assumes "pa_Ops params = Some ops" "ops_fresh ops"
  shows "phased (init_rely n) (init_phases snr params ops (word_of_int n)) (initEntrypoint fu snr params)"
proof -
  have rely: "does posix G ps S p \<Longrightarrow> does (init_rely n) G ps S p" for G ps S p
    by (erule does_rely) (simp add: init_rely_def)
  have "phased (init_rely n) (tl (init_phases snr params ops (word_of_int n)))
      (thn (init_enter fu snr p (word_of_int n)) (\<lambda>_. init_start p offset oldmask))"
    if "received params p" for p offset oldmask
  proof -
    have p: "the (pa_Ops p) = ops" "pa_Privileged params = pa_Privileged p" "filter_calls snr params = filter_calls snr p"
      using that assms(1) by (auto simp: received_def filter_calls_def)
    show ?thesis
      unfolding init_phases_def init_enter_def p thn_assoc list.sel
      by (rule phased_thn [OF does_fat, OF does_mount], simp, rule phased_thn [OF rely, OF does_init_early], rule assms(2),
          rule phased_thn [OF does_init_pivot], assumption, rule phased_thn [OF rely, OF does_init_apply], assumption,
          rule phased_thn [OF does_init_leave], assumption, rule phased_thn [OF does_init_caps], assumption,
          rule phased_thn [OF does_init_filter], assumption, rule init_start_last)
  qed
  then show ?thesis
    unfolding initEntrypoint_def init_phases_def list.sel
    by (intro phased_thn [OF does_init_prepare]) auto
qed


text \<open>An example: init with one bind operation, on the kernel of the examples, as process 1 of a system with
  two capabilities that answers every \<open>prctl\<close> with \<open>x\<close>.\<close>

definition calm_init :: "reply \<Rightarrow> kernel" where
  "calm_init x tr c =
     (case c of
        Getpid \<Rightarrow> Val (kval0\<lparr>v_int := 1\<rparr>)
      | ReadFile p \<Rightarrow> Val (kval0\<lparr>v_str := ''1'' @ [CHR 0x0A]\<rparr>)
      | SysPrctl _ _ _ \<Rightarrow> x
      | _ \<Rightarrow> calm tr c)"

definition params_a :: initParams where
  "params_a = \<lparr>pa_Dir = Some (Absolute ''/''), pa_Env = [], pa_Path = Some (Absolute ''/a''), pa_Args = [''a''],
     pa_CgroupPath = None, pa_ForwardCancel = False, pa_AdoptWaitDelay = 0, pa_Uid = 1000, pa_Gid = 100, pa_Hostname = [],
     pa_Ops = Some [Some (OpBind bind_a)], pa_SeccompRules = [], pa_SeccompFlags = 0, pa_SeccompPresets = 0,
     pa_SeccompDisable = False, pa_ParentPerm = 0, pa_RetainSession = False, pa_HostNet = False, pa_HostAbstract = False,
     pa_Privileged = False, ip_HostUid = 1000, ip_HostGid = 100, ip_Count = 0, ip_Verbose = False\<rparr>"

lemma Prctl_Call: "Prctl a b c = Call (SysPrctl a b c) (\<lambda>_. Done (Ret ()))"
  by (simp add: Prctl_def case_prod_unfold Let_def)

lemma lastcap_a: "Atoi (TrimSpace (''1'' @ [CHR 0x0A])) = Ret 1"
proof -
  have "digit_char 1 = CHR ''1''" by code_simp
  then have "TrimSpace (''1'' @ [CHR 0x0A]) = Itoa 1"
    by (simp add: TrimSpace_def ascii_space_def Itoa_def format_nat.simps)
  then show ?thesis by (simp add: Atoi_Itoa int64_def)
qed

lemma calm_init_rely: "answers (init_rely 1) (calm_init (Val kval0))"
proof -
  have "posix c (calm tr c)" for tr c using calm_posix by (simp add: answers_def)
  then show ?thesis
    using lastcap_a by (auto simp: answers_def init_rely_def calm_init_def kval0_def split: syscall.split)
qed

lemma prepare_a: "fst (run (calm_init x) (init_prepare params_a) []) = Some (Ret (params_a\<lparr>pa_ParentPerm := 493\<rparr>, 1, 0, 1))"
  using lastcap_a
  by (simp add: init_prepare_def init_receive_def init_identity_def init_idmap_def params_a_def get_int_def fat_def SetPtracer_def SetDumpable_def Prctl_Call
      calm_init_def calm_def kval0_def exec_def ask_def onFail_def LastCap_def mustReadSysctl_def readSysctl_def syscall_result_def)

lemma early_a: "fst (run (calm_init x) (init_early [Some (OpBind bind_a)]) tr) =
    Some (Ret [OpBind (bind_a\<lparr>b_sourceFinal := Some (Absolute ''/a'')\<rparr>)])"
  by (simp add: init_early_def init_early_op_def bindop_Valid_def bindop_early_def bind_a_def call_eval mapP_def newAbs_def NewAbs_def
      unsafeAbs_def BindEnsure_def BindOptional_def slash_def calm_init_def)

lemma apply_a: "fst (run (calm_init x) (init_apply 1 st [OpBind (bind_a\<lparr>b_sourceFinal := Some (Absolute ''/a'')\<rparr>)]) tr) = Some (Ret st)"
  by (simp add: init_apply_def init_apply_op_def mapP_def bindop_apply_def bind_a_def call_eval calm_init_def)
    (simp add: remount_flags_def exec_def ask_def calm_def calm_init_def kval0_def ms_defs BindWritable_def BindDevice_def unfold_node_def decoded_def d_Err_def NewMountInfoDecoder_def)

lemma pivot_a: "fst (run (calm_init x) init_pivot tr) = Some (Ret ())"
  by (simp add: init_pivot_def fat_def onFail_def mount_def exec_def ask_def calm_init_def calm_def)

lemma leave_a: "fst (run (calm_init x) (init_leave 1) tr) = Some (Ret ())"
  by (simp add: init_leave_def fat_def onFail_def mount_def exec_def ask_def calm_init_def calm_def)

lemma caps_a: "fst (run (calm_init x) (init_caps False 1) tr) = Some (Ret ())"
  by (simp add: init_caps_def dropped_caps_def capAmbientClearAll_def capBoundingSetDrop_def fat_def onFail_def Prctl_Call capset_def
      syscall_result_def Let_def case_prod_unfold calm_init_def calm_def kval0_def)

lemma filter_a: "fst (run (calm_init x) (init_filter snr (params_a\<lparr>pa_ParentPerm := 493\<rparr>)) tr) = Some (Ret ())"
  by (simp add: init_filter_def params_a_def Let_def fat_def onFail_def exec_def ask_def calm_init_def calm_def)

lemma start_a: "\<exists>pre. run (calm_init x) (init_start (params_a\<lparr>pa_ParentPerm := 493\<rparr>) 1 0) tr =
    (Some (Ret 0), pre @ [(Start ''/a'' [''a''] [] ''/'' [], Val kval0)])"
  by (simp add: init_start_def params_a_def Let_def get_int_def fat_def fatStr_def absStr_def abs_String_def onFail_def exec_def ask_def
      calm_init_def calm_def kval0_def)

lemma run_thn_Ret: "fst (run K p tr) = Some (Ret x) \<Longrightarrow> (\<And>tr'. P (run K (f x) tr')) \<Longrightarrow> P (run K (thn p f) tr)"
  by (cases "run K p tr") (auto simp: run_thn)

lemma enter_a: "fst (run (calm_init x) (init_enter 1 snr (params_a\<lparr>pa_ParentPerm := 493\<rparr>) 1) tr) = Some (Ret ())"
proof -
  let ?p = "params_a\<lparr>pa_ParentPerm := 493\<rparr>"
  have slave: "fst (run (calm_init x) (fat h (mount [] fhs_Root [] (MS_SILENT OR MS_SLAVE OR MS_REC) [])) tr) = Some (Ret ())" for h tr
    by (simp add: fat_def onFail_def mount_def exec_def ask_def calm_init_def calm_def)
  have ops: "the (pa_Ops ?p) = [Some (OpBind bind_a)]" "pa_Privileged ?p = False" by (simp_all add: params_a_def)
  show ?thesis
    unfolding init_enter_def ops
    by (rule run_thn_Ret [OF slave], rule run_thn_Ret [OF early_a], rule run_thn_Ret [OF pivot_a], rule run_thn_Ret [OF apply_a],
        rule run_thn_Ret [OF leave_a], rule run_thn_Ret [OF caps_a], rule filter_a)
qed

lemma init_a: "\<exists>pre. run (calm_init x) (initEntrypoint 1 snr params_a) [] =
    (Some (Ret 0), pre @ [(Start ''/a'' [''a''] [] ''/'' [], Val kval0)])"
  unfolding initEntrypoint_def
  by (rule run_thn_Ret [OF prepare_a], unfold case_prod_conv, rule run_thn_Ret [OF enter_a], rule start_a)

lemma fresh_a: "ops_fresh [Some (OpBind bind_a)]"
  by (simp add: ops_fresh_def bind_a_def dotfree_a)

text \<open>C40: init does not notice when the kernel refuses it a \<open>prctl\<close>: with every such call answered by an error,
  among them the ones that make the process undumpable, clear the ambient capabilities and drop the
  bounding set, init goes on to start the initial program. The wrapper compares an unsigned result with
  zero.\<close>

theorem init_starts_without_prctl:
  "(\<exists>pre. run (calm_init (Err (Errno 1))) (initEntrypoint 1 snr params_a) [] =
      (Some (Ret 0), pre @ [(Start ''/a'' [''a''] [] ''/'' [], Val kval0)])) \<and>
    (\<forall>K op b c tr. run K (Prctl op b c) tr = (Some (Ret ()), tr @ [(SysPrctl op b c, K tr (SysPrctl op b c))]))"
  using init_a by (simp add: Prctl_Call)

theorem init_start_guarded_witness:
  "\<exists>pre. run (calm_init (Val kval0)) (initEntrypoint 1 (\<lambda>_. 0) params_a) [] =
      (Some (Ret 0), pre @ [(Start ''/a'' [''a''] [] ''/'' [], Val kval0)]) \<and>
    ordered (init_calls (\<lambda>_. 0) params_a 1) pre"
proof -
  obtain pre where pre: "run (calm_init (Val kval0)) (initEntrypoint 1 (\<lambda>_. 0) params_a) [] =
      (Some (Ret 0), pre @ (Start ''/a'' [''a''] [] ''/'' [], Val kval0) # [])" using init_a by blast
  from init_start_guarded [OF calm_init_rely _ fresh_a pre] pre show ?thesis by (auto simp: params_a_def)
qed


end
