(* ===== verification/Cont_Reap.thy ===== *)
theory Cont_Reap
  imports Cont_Init
begin

text \<open>
  The end of \<open>initEntrypoint\<close> in \<open>container/init.go\<close>: the thread that reaps processes and the loop that
  waits for it, for signals and for the timeout. The thread is a function of the answers of \<open>wait4\<close>; the
  loop is a step function on the message it receives, run over the sequence of messages its \<open>select\<close>
  picks. The theorems are about every interleaving of what is sent on the channels.
\<close>

subsection \<open>WaitStatus of package syscall\<close>

definition ws_Exited :: "u32 \<Rightarrow> bool" where "ws_Exited w \<longleftrightarrow> w AND 0x7F = 0"

definition ws_Signaled :: "u32 \<Rightarrow> bool" where "ws_Signaled w \<longleftrightarrow> w AND 0x7F \<noteq> 0x7F \<and> w AND 0x7F \<noteq> 0"

definition ws_ExitStatus :: "u32 \<Rightarrow> int" where
  "ws_ExitStatus w = (if \<not> ws_Exited w then -1 else uint (drop_bit 8 w AND 0xFF))"

definition ws_Signal :: "u32 \<Rightarrow> int" where
  "ws_Signal w = (if \<not> ws_Signaled w then -1 else uint (w AND 0x7F))"

subsection \<open>The thread that reaps\<close>

definition ECHILD :: nat where "ECHILD = 10"

type_synonym winfo = "int \<times> u32"

text \<open>An answer of \<open>wait4\<close> is an error, with -1 for the process, or a process and its status. The thread
  waits when there is no further answer; otherwise it has closed the channel, with a message when
  the error was not the expected one (0 stands for no error). The numbers -1 and -2 are its markers.\<close>

datatype reaper = Waiting | Closed "nat option"

fun wait_loop :: "(nat + winfo) list \<Rightarrow> winfo list \<times> reaper" where
  "wait_loop [] = ([], Waiting)"
| "wait_loop (Inl err # ws) =
     (if err = EINTR then wait_loop ws else ([], Closed (if err = ECHILD then None else Some err)))"
| "wait_loop (Inr w # ws) =
     (if fst w = -1 then ([], Closed (Some 0))
      else if fst w = -2 then wait_loop ws
      else (let (ws', r) = wait_loop ws in (w # ws', r)))"

subsection \<open>The loop of init\<close>

definition SIGINT :: nat where "SIGINT = 2"
definition SIGQUIT :: nat where "SIGQUIT = 3"
definition SIGTERM :: nat where "SIGTERM = 15"
definition CancelSignal :: nat where "CancelSignal = 12"

datatype message = Sig nat | Info winfo | InfoClosed | TimedOut

text \<open>What the loop keeps: the exit code, and how often it has started the timeout and closed the extra files.
  A step gives the signals it sends to the initial program.\<close>

record reap_state =
  rs_r :: int
  rs_timers :: nat

datatype reap_result = Continue reap_state "nat list" | Exit int

definition exit_code :: "u32 \<Rightarrow> int" where
  "exit_code w = (if ws_Exited w then ws_ExitStatus w else if ws_Signaled w then 128 + ws_Signal w else 255)"

definition reap_step :: "initParams \<Rightarrow> int \<Rightarrow> reap_state \<Rightarrow> message \<Rightarrow> reap_result" where
  "reap_step params pid st m =
     (case m of
        Sig s \<Rightarrow>
          if s = CancelSignal \<and> pa_ForwardCancel params then Continue st [SIGINT]
          else if s = SIGTERM \<or> s = SIGQUIT then Continue st [s]
          else Exit 0
      | InfoClosed \<Rightarrow> Exit (rs_r st)
      | Info (wpid, wstatus) \<Rightarrow>
          if wpid = pid then Continue (st\<lparr>rs_timers := Suc (rs_timers st), rs_r := exit_code wstatus\<rparr>) []
          else Continue st []
      | TimedOut \<Rightarrow> Exit (rs_r st))"

text \<open>The loop over the messages received: the state it waits in, or the code it exits with, and the signals
  forwarded.\<close>

fun reap_loop :: "initParams \<Rightarrow> int \<Rightarrow> reap_state \<Rightarrow> message list \<Rightarrow> (reap_state + int) \<times> nat list" where
  "reap_loop params pid st [] = (Inl st, [])"
| "reap_loop params pid st (m # ms) =
     (case reap_step params pid st m of
        Exit r \<Rightarrow> (Inr r, [])
      | Continue st' sigs \<Rightarrow> (let (res, sigs') = reap_loop params pid st' ms in (res, sigs @ sigs')))"

definition reap_start :: reap_state where "reap_start = \<lparr>rs_r = 2, rs_timers = 0\<rparr>"

subsection \<open>The status\<close>

lemma uint_and_bound: "uint ((w :: u32) AND 0xFF) \<le> 255" "uint ((w :: u32) AND 0x7F) \<le> 127"
proof -
  have "w AND 0xFF \<le> 0xFF" "w AND 0x7F \<le> 0x7F" by (simp_all add: word_and_le1)
  then show "uint (w AND 0xFF) \<le> 255" "uint (w AND 0x7F) \<le> 127" by (simp_all add: word_le_def)
qed

lemma exit_code_bounds: "0 \<le> exit_code w \<and> exit_code w \<le> 255"
  using uint_and_bound(1) [of "drop_bit 8 w"] uint_and_bound(2) [of w]
  by (auto simp: exit_code_def ws_ExitStatus_def ws_Signal_def)

subsection \<open>Every interleaving\<close>

definition last_status :: "int \<Rightarrow> winfo list \<Rightarrow> int \<Rightarrow> int" where
  "last_status pid ws r = foldl (\<lambda>r (wpid, w). if wpid = pid then exit_code w else r) r ws"

definition forwards :: "initParams \<Rightarrow> nat \<Rightarrow> nat option" where
  "forwards params s =
     (if s = CancelSignal \<and> pa_ForwardCancel params then Some SIGINT
      else if s = SIGTERM \<or> s = SIGQUIT then Some s else None)"

text \<open>The last message of the channel ends the loop, and signals are forwarded in their order.\<close>

lemma reap_interleaved:
  assumes "ms \<in> shuffles (map Sig sigs) (map Info ws @ [e])" "e = InfoClosed \<or> e = TimedOut"
    and "list_all (\<lambda>s. forwards params s \<noteq> None) sigs"
  shows "fst (reap_loop params pid st ms) = Inr (last_status pid ws (rs_r st)) \<and>
    prefix (snd (reap_loop params pid st ms)) (map (the \<circ> forwards params) sigs)"
  using assms
proof (induction ms arbitrary: sigs ws st)
  case Nil
  then show ?case by simp
next
  case (Cons m ms)
  from Cons.prems(1) consider
      (sig) s sigs' where "sigs = s # sigs'" "m = Sig s" "ms \<in> shuffles (map Sig sigs') (map Info ws @ [e])"
    | (info) w ws' where "ws = w # ws'" "m = Info w" "ms \<in> shuffles (map Sig sigs) (map Info ws' @ [e])"
    | (last) "ws = []" "m = e"
    by (auto simp: Cons_in_shuffles_iff neq_Nil_conv Cons_eq_map_conv Cons_eq_append_conv append_eq_Cons_conv
        hd_append tl_append map_tl split: list.splits)
  then show ?case
  proof cases
    case sig
    with Cons.prems(2,3) Cons.IH [OF sig(3)] show ?thesis
      by (auto simp: reap_step_def forwards_def case_prod_unfold split: if_splits)
  next
    case info
    with Cons.prems(2,3) Cons.IH [OF info(3)] show ?thesis
      by (cases w) (auto simp: reap_step_def last_status_def case_prod_unfold)
  next
    case last
    with Cons.prems(2) show ?thesis by (auto simp: reap_step_def last_status_def)
  qed
qed

lemma last_status_decided: "pid \<notin> fst ` set b \<Longrightarrow> last_status pid (a @ (pid, w) # b) r = exit_code w"
proof -
  have "pid \<notin> fst ` set b \<Longrightarrow> last_status pid b r = r" for r
    by (induction b arbitrary: r) (auto simp: last_status_def)
  then show "pid \<notin> fst ` set b \<Longrightarrow> last_status pid (a @ (pid, w) # b) r = exit_code w"
    by (simp add: last_status_def)
qed

text \<open>C10: however the channels interleave, when the reaping thread has seen the initial process end and every
  signal received is one that is forwarded, init exits when no process is left or the timeout elapses,
  with the status of the initial process: its exit code, or 128 and the signal it died of. The code
  fits the 8 bits the parent sees, and signals are forwarded in the order they arrived.\<close>

theorem init_exit_code:
  assumes "fst (wait_loop replies) = (a @ (pid, w) # b) @ rest" "pid \<notin> fst ` set b"
    and "e = InfoClosed \<and> rest = [] \<or> e = TimedOut"
    and "ms \<in> shuffles (map Sig sigs) (map Info (a @ (pid, w) # b) @ [e])"
    and "list_all (\<lambda>s. forwards params s \<noteq> None) sigs"
  shows "fst (reap_loop params pid reap_start ms) = Inr (exit_code w) \<and> 0 \<le> exit_code w \<and> exit_code w \<le> 255 \<and>
    prefix (snd (reap_loop params pid reap_start ms)) (map (the \<circ> forwards params) sigs)"
  using reap_interleaved [OF assms(4) _ assms(5), of pid reap_start] assms(2,3) exit_code_bounds [of w]
  by (auto simp: last_status_decided)

text \<open>C20: when \<open>wait4\<close> reports processes, interruptions and finally that there is no child, the thread
  reports every process once, in order, and closes the channel without a message; the loop of init then
  exits whatever forwarded signals arrive in between.\<close>

theorem init_reaps_all:
  assumes "list_all (\<lambda>x. x = Inl EINTR \<or> (\<exists>p w. x = Inr (p, w) \<and> 0 < p)) replies"
    and "ms \<in> shuffles (map Sig sigs) (map Info (fst (wait_loop (replies @ [Inl ECHILD]))) @ [InfoClosed])"
    and "list_all (\<lambda>s. forwards params s \<noteq> None) sigs"
  shows "wait_loop (replies @ [Inl ECHILD]) = (concat (map (\<lambda>x. case x of Inr w \<Rightarrow> [w] | Inl _ \<Rightarrow> []) replies), Closed None) \<and>
    (\<exists>r. fst (reap_loop params pid reap_start ms) = Inr r)"
proof -
  have "wait_loop (replies @ [Inl ECHILD]) = (concat (map (\<lambda>x. case x of Inr w \<Rightarrow> [w] | Inl _ \<Rightarrow> []) replies), Closed None)"
    using assms(1) by (induction replies) (auto simp: ECHILD_def EINTR_def)
  with reap_interleaved [OF assms(2) _ assms(3), of pid reap_start] show ?thesis by blast
qed

lemma shuffles_left: "xs @ ys \<in> shuffles xs ys"
  by (induction xs) (auto simp: shuffles.simps Cons_in_shuffles_leftI)

theorem init_exit_code_witness:
  "fst (reap_loop params_a 7 reap_start [Sig SIGTERM, Info (9, 0), Info (7, 15), InfoClosed]) = Inr 143"
proof -
  have e: "exit_code 15 = 143" by (simp add: exit_code_def ws_Exited_def ws_Signaled_def ws_Signal_def)
  have ms: "[Sig SIGTERM, Info (9, 0), Info (7, 15), InfoClosed] \<in> shuffles (map Sig [SIGTERM]) (map Info ([(9, 0)] @ (7, 15) # []) @ [InfoClosed])"
    using shuffles_left [of "[Sig SIGTERM]"] by simp
  have ws: "fst (wait_loop [Inr (9, 0), Inl EINTR, Inr (7, 15), Inl ECHILD]) = ([(9, 0)] @ (7, 15) # []) @ []"
    by (simp add: EINTR_def ECHILD_def)
  have sigs: "list_all (\<lambda>s. forwards params_a s \<noteq> None) [SIGTERM]" by (simp add: forwards_def)
  from init_exit_code [OF ws _ _ ms sigs] show ?thesis unfolding e by (simp del: reap_loop.simps)
qed

theorem init_reaps_all_witness:
  "wait_loop ([Inl EINTR, Inr (7, 0)] @ [Inl ECHILD]) = ([(7, 0)], Closed None) \<and>
   (\<exists>r. fst (reap_loop params_a 7 reap_start [Sig SIGTERM, Info (7, 0), InfoClosed]) = Inr r)"
proof -
  have "[Sig SIGTERM, Info (7, 0), InfoClosed] \<in> shuffles (map Sig [SIGTERM]) (map Info (fst (wait_loop ([Inl EINTR, Inr (7, 0)] @ [Inl ECHILD]))) @ [InfoClosed])"
    using shuffles_left [of "[Sig SIGTERM]"] by (simp add: EINTR_def ECHILD_def)
  from init_reaps_all [OF _ this, of params_a 7] show ?thesis by (simp add: forwards_def SIGTERM_def)
qed

end
