(* ===== verification/Cont_Start.thy ===== *)
theory Cont_Start
  imports Cont_Init
begin

text \<open>
  The parent of the container init: \<open>container/landlock.go\<close>, \<open>container/params.go\<close> and
  \<open>container/container.go\<close>. Starting the process is the call \<open>StartInit\<close> with the attributes the kernel
  gets to see; the values of an interrupted start are kept in the container it returns, next to the
  error. Ids, the verbosity and the text of an error are arguments.
\<close>

subsection \<open>landlock.go\<close>

definition LANDLOCK_CREATE_RULESET_VERSION :: u64 where "LANDLOCK_CREATE_RULESET_VERSION = 1"
definition LANDLOCK_SCOPE_ABSTRACT_UNIX_SOCKET :: u64 where "LANDLOCK_SCOPE_ABSTRACT_UNIX_SOCKET = 1"
definition LANDLOCK_SCOPE_SIGNAL :: u64 where "LANDLOCK_SCOPE_SIGNAL = 2"

definition access_fs_names :: "string list" where
  "access_fs_names = [''execute'', ''write_file'', ''read_file'', ''read_dir'', ''remove_dir'', ''remove_file'', ''make_char'',
     ''make_dir'', ''make_reg'', ''make_sock'', ''make_fifo'', ''make_block'', ''make_sym'', ''fs_refer'', ''fs_truncate'', ''fs_ioctl_dev'']"

definition access_net_names :: "string list" where "access_net_names = [''bind_tcp'', ''connect_tcp'']"

definition scope_names :: "string list" where "scope_names = [''abstract_unix_socket'', ''signal'']"

text \<open>The three \<open>String\<close> methods are one function of the names of the bits: the cases of the switch, then
  the loop over the bits below the delimiter.\<close>

definition landlock_single :: "string list \<Rightarrow> u64 \<Rightarrow> string option" where
  "landlock_single names f = map_option snd (find (\<lambda>(i, _). f = push_bit i 1) (enumerate 0 names))"

definition landlock_bits :: "string list \<Rightarrow> u64 \<Rightarrow> string list" where
  "landlock_bits names f = map snd (filter (\<lambda>(i, _). f AND push_bit i 1 \<noteq> 0) (enumerate 0 names))"

definition landlock_String :: "string list \<Rightarrow> u64 \<Rightarrow> string" where
  "landlock_String names f =
     (case landlock_single names f of
        Some n \<Rightarrow> n
      | None \<Rightarrow> (let c = landlock_bits names f in if length c = 0 then ''NULL'' else Join c '' ''))"

text \<open>The switch agrees with the loop: every mask is printed as the names of its known bits, in order.\<close>

lemma filter_enumerate: "i < length xs \<Longrightarrow> filter (\<lambda>(j, _). j = k + i) (enumerate k xs) = [(k + i, xs ! i)]"
proof (induction xs arbitrary: i k)
  case (Cons x xs)
  have later: "filter (\<lambda>(j, _). j = k) (enumerate (Suc k) xs) = []"
    by (auto simp: filter_empty_conv in_set_enumerate_eq)
  show ?case
  proof (cases i)
    case (Suc m)
    with Cons.IH [of m "Suc k"] Cons.prems show ?thesis by simp
  qed (simp add: later)
qed simp

lemma landlock_String_bits:
  assumes "length names \<le> 64"
  shows "landlock_String names f = (if landlock_bits names f = [] then ''NULL'' else Join (landlock_bits names f) '' '')"
proof (cases "landlock_single names f")
  case (Some n)
  then obtain i where i: "f = push_bit i 1" "i < length names" "n = names ! i"
    by (auto simp: landlock_single_def find_Some_iff nth_enumerate_eq)
  have iff: "f AND push_bit j 1 \<noteq> 0 \<longleftrightarrow> j = i" if "j < length names" for j
  proof -
    have "f AND push_bit j 1 = (if j = i then push_bit i 1 else 0)"
      using that i(2) assms by (auto simp: i(1) bit_eq_iff bit_simps)
    moreover have "push_bit i 1 \<noteq> (0 :: u64)" using i(2) assms by (simp add: push_bit_of_1)
    ultimately show ?thesis by simp
  qed
  have "landlock_bits names f = map snd (filter (\<lambda>(j, _). j = 0 + i) (enumerate 0 names))"
    unfolding landlock_bits_def
    by (intro arg_cong [where f = "map snd"] filter_cong) (use iff in \<open>fastforce simp: in_set_enumerate_eq simp del: push_bit_of_1\<close>)+
  then have "landlock_bits names f = [n]" using filter_enumerate [OF i(2), of 0] i(3) by simp
  with Some show ?thesis by (simp add: landlock_String_def)
qed (simp add: landlock_String_def Let_def)

definition AccessFS_String :: "u64 \<Rightarrow> string" where "AccessFS_String = landlock_String access_fs_names"
definition AccessNet_String :: "u64 \<Rightarrow> string" where "AccessNet_String = landlock_String access_net_names"
definition Scope_String :: "u64 \<Rightarrow> string" where "Scope_String = landlock_String scope_names"

record RulesetAttr =
  ra_HandledAccessFS :: u64
  ra_HandledAccessNet :: u64
  ra_Scoped :: u64

definition RulesetAttr_String :: "RulesetAttr option \<Rightarrow> string" where
  "RulesetAttr_String r =
     (case r of
        None \<Rightarrow> ''NULL''
      | Some a \<Rightarrow>
          (let elems =
             (if ra_HandledAccessFS a > 0 then [''fs: '' @ AccessFS_String (ra_HandledAccessFS a)] else []) @
             (if ra_HandledAccessNet a > 0 then [''net: '' @ AccessNet_String (ra_HandledAccessNet a)] else []) @
             (if ra_Scoped a > 0 then [''scoped: '' @ Scope_String (ra_Scoped a)] else [])
           in if length elems = 0 then ''0'' else Join elems '', ''))"

definition RulesetAttr_Create :: "RulesetAttr option \<Rightarrow> u64 \<Rightarrow> (cerr, int) prog" where
  "RulesetAttr_Create r flags =
     Call (LandlockCreateRuleset (map_option (\<lambda>a. (ra_HandledAccessFS a, ra_HandledAccessNet a, ra_Scoped a)) r) flags) (\<lambda>x.
       let (rulesetFd, errno) = syscall_result x; fd = sint rulesetFd in
       if fd < 0 then Done (Fail errno)
       else if r \<noteq> None then Call (SetCloseOnExec fd) (\<lambda>_. Done (Ret fd))
       else Done (Ret fd))"

definition LandlockGetABI :: "(cerr, int) prog" where
  "LandlockGetABI = RulesetAttr_Create None LANDLOCK_CREATE_RULESET_VERSION"

definition LandlockRestrictSelf :: "int \<Rightarrow> u64 \<Rightarrow> (cerr, unit) prog" where
  "LandlockRestrictSelf rulesetFd flags =
     Call (LandlockRestrict rulesetFd flags) (\<lambda>x. let (r, errno) = syscall_result x in
       if r \<noteq> 0 then Done (Fail errno) else Done (Ret ()))"

subsection \<open>params.go\<close>

text \<open>\<open>Setup\<close> appends the read end of a new pipe to the files and gives the descriptor it will have in the
  child, and the write end.\<close>

definition Setup :: "int list \<Rightarrow> (cerr, int \<times> int \<times> int list) prog" where
  "Setup extraFiles =
     thn (ask NewPipe) (\<lambda>v. Done (Ret (3 + int (length extraFiles), v_write v, extraFiles @ [v_int v])))"

text \<open>\<open>Receive\<close> over the variables of the environment; \<open>decode\<close> reads the parameters from a descriptor and
  \<open>open_fd\<close> tells whether \<open>os.NewFile\<close> accepts it.\<close>

definition EDOM :: nat where "EDOM = 33"

definition params_Receive :: "(string \<Rightarrow> string option) \<Rightarrow> (num_error \<Rightarrow> cerr) \<Rightarrow> (int \<Rightarrow> bool) \<Rightarrow> (int \<Rightarrow> (cerr, 'p) go) \<Rightarrow> string \<Rightarrow>
    (cerr, 'p \<times> int) go" where
  "params_Receive env num_err open_fd decode key =
     (case env key of
        None \<Rightarrow> Fail ErrReceiveEnv
      | Some s \<Rightarrow>
          (case Atoi s of
             Fail e \<Rightarrow> Fail (optionalErrorUnwrap (num_err e))
           | Panic m \<Rightarrow> Panic m
           | Ret fd \<Rightarrow>
               if \<not> open_fd fd then Fail (Errno EDOM)
               else bind_go (decode fd) (\<lambda>params. Ret (params, fd))))"

subsection \<open>Errors of container.go\<close>

record StartError =
  se_Fatal :: bool
  se_Step :: string
  se_Err :: cerr
  se_Origin :: bool
  se_Passthrough :: bool

fun is_SyscallError :: "cerr \<Rightarrow> bool" where
  "is_SyscallError (SyscallError _ _) = True" | "is_SyscallError _ = False"

fun is_NumError :: "cerr \<Rightarrow> bool" where
  "is_NumError (NumError _ _ _) = True" | "is_NumError _ = False"

definition StartError_Error :: "(cerr \<Rightarrow> string) \<Rightarrow> StartError \<Rightarrow> string" where
  "StartError_Error Error e =
     (if se_Passthrough e then Error (se_Err e)
      else if se_Origin e then se_Step e
      else case find is_SyscallError (err_chain (se_Err e)) of
             Some x \<Rightarrow> se_Step e @ '' '' @ Error x
           | None \<Rightarrow> se_Step e @ '': '' @ Error (se_Err e))"

definition StartError_Message :: "(string \<Rightarrow> string) \<Rightarrow> (cerr \<Rightarrow> string) \<Rightarrow> StartError \<Rightarrow> string" where
  "StartError_Message quote Error e =
     (if se_Passthrough e then
        if list_ex is_PathError (err_chain (se_Err e)) \<or> list_ex is_SyscallError (err_chain (se_Err e)) then
          ''cannot '' @ Error (se_Err e)
        else (case find is_NumError (err_chain (se_Err e)) of
                Some (NumError _ num err) \<Rightarrow> ''cannot parse '' @ quote num @ '': '' @ Error err
              | _ \<Rightarrow> Error (se_Err e))
      else if se_Origin e then se_Step e
      else ''cannot '' @ StartError_Error Error e)"

datatype start_error = Started StartError | Plain cerr

definition startError :: "bool \<Rightarrow> string \<Rightarrow> cerr \<Rightarrow> bool \<Rightarrow> bool \<Rightarrow> start_error" where
  "startError fatal step err origin passthrough =
     Started \<lparr>se_Fatal = fatal, se_Step = step, se_Err = err, se_Origin = origin, se_Passthrough = passthrough\<rparr>"

subsection \<open>Containers\<close>

text \<open>The command of a container: whether its process was started, its files and environment.\<close>

record Cmd =
  cmd_Process :: bool
  cmd_Args :: "string list"
  cmd_Env :: "string list"
  cmd_Dir :: string
  cmd_ExtraFiles :: "int list"

text \<open>The channel \<open>wait\<close> is nil, open or closed.\<close>

datatype chan = Nil_chan | Open_chan | Closed_chan

record Container = Params +
  c_ExtraFiles :: "int list"
  c_setup :: "int option"
  c_wait :: chan
  c_cancelled :: bool
  c_cmd :: "Cmd option"

text \<open>What the package computes once: the error of \<open>ensureCloseOnExec\<close> and the values of \<open>sysctl.go\<close>.\<close>

record once =
  on_closeOnExec :: "cerr option option"
  on_sysctl :: "(int \<times> int \<times> int) option"

definition fdPrefixPath :: string where "fdPrefixPath = ''/proc/self/fd/''"

primrec close_all :: "(num_error \<Rightarrow> string \<Rightarrow> cerr) \<Rightarrow> string list \<Rightarrow> (cerr, unit) prog" where
  "close_all num_err [] = Done (Ret ())"
| "close_all num_err (n # ns) =
     (case Atoi n of
        Fail e \<Rightarrow> Done (Fail (num_err e n))
      | Panic m \<Rightarrow> Done (Panic m)
      | Ret fd \<Rightarrow> Call (SetCloseOnExec fd) (\<lambda>_. close_all num_err ns))"

definition ensureCloseOnExec :: "(num_error \<Rightarrow> string \<Rightarrow> cerr) \<Rightarrow> once \<Rightarrow> (fatal, start_error option \<times> once) prog" where
  "ensureCloseOnExec num_err g =
     (let result = (\<lambda>err g. Done (Ret (map_option (\<lambda>e. startError True ''set FD_CLOEXEC on all open files'' e False True) err, g)))
      in case on_closeOnExec g of
           Some err \<Rightarrow> result err g
         | None \<Rightarrow>
             after (thn (ask (ReadDir fdPrefixPath)) (\<lambda>d. close_all num_err (v_names d))) (\<lambda>r.
               case r of
                 Ret _ \<Rightarrow> result None (g\<lparr>on_closeOnExec := Some None\<rparr>)
               | Fail e \<Rightarrow> result (Some e) (g\<lparr>on_closeOnExec := Some (Some e)\<rparr>)
               | Panic m \<Rightarrow> Done (Panic m)))"

definition sysctlOnce :: "once \<Rightarrow> (fatal, (int \<times> int \<times> int) \<times> once) prog" where
  "sysctlOnce g =
     (case on_sysctl g of
        Some v \<Rightarrow> Done (Ret (v, g))
      | None \<Rightarrow> thn mustReadSysctl (\<lambda>v. Done (Ret (v, g\<lparr>on_sysctl := Some v\<rparr>))))"

text \<open>The ids: an id below one becomes the overflow id.\<close>

definition start_ids :: "once \<Rightarrow> Container \<Rightarrow> (fatal, Container \<times> once) prog" where
  "start_ids g p =
     thn (if pa_Uid p < 1 then thn (sysctlOnce g) (\<lambda>((uid, _, _), g). Done (Ret (p\<lparr>pa_Uid := uid\<rparr>, g))) else Done (Ret (p, g))) (\<lambda>(p, g).
     if pa_Gid p < 1 then thn (sysctlOnce g) (\<lambda>((_, gid, _), g). Done (Ret (p\<lparr>pa_Gid := gid\<rparr>, g))) else Done (Ret (p, g)))"

definition second :: int where "second = 1000000000"

definition start_defaults :: "Container \<Rightarrow> Container" where
  "start_defaults p =
     (let p = (if \<not> pa_RetainSession p then p\<lparr>pa_SeccompPresets := pa_SeccompPresets p OR PresetDenyTTY\<rparr> else p);
          p = (if pa_AdoptWaitDelay p = 0 then p\<lparr>pa_AdoptWaitDelay := 5 * second\<rparr> else p);
          p = (if pa_AdoptWaitDelay p < 0 then p\<lparr>pa_AdoptWaitDelay := 0\<rparr> else p)
      in p)"

definition CLONE_NEWPID :: u64 where "CLONE_NEWPID = 0x20000000"
definition CLONE_NEWNS :: u64 where "CLONE_NEWNS = 0x20000"
definition CLONE_NEWIPC :: u64 where "CLONE_NEWIPC = 0x08000000"
definition CLONE_NEWUTS :: u64 where "CLONE_NEWUTS = 0x04000000"
definition CLONE_NEWCGROUP :: u64 where "CLONE_NEWCGROUP = 0x02000000"
definition CLONE_NEWNET :: u64 where "CLONE_NEWNET = 0x40000000"

definition start_cloneflags :: "Container \<Rightarrow> u64" where
  "start_cloneflags p =
     (let flags = CLONE_NEWUSER OR CLONE_NEWPID OR CLONE_NEWNS OR CLONE_NEWIPC OR CLONE_NEWUTS OR CLONE_NEWCGROUP
      in if \<not> pa_HostNet p then flags OR CLONE_NEWNET else flags)"

definition start_ambient :: "u64 list" where "start_ambient = [CAP_SYS_ADMIN, CAP_SETPCAP, CAP_DAC_OVERRIDE]"

definition initName :: string where "initName = ''init''"

text \<open>What happens on the locked thread: no new privileges, landlock, and the start of the process. The signal
  on the death of the parent is always \<open>SIGKILL\<close> and not an argument of \<open>StartInit\<close>.\<close>

definition start_ruleset :: "Container \<Rightarrow> RulesetAttr" where
  "start_ruleset p = \<lparr>ra_HandledAccessFS = 0, ra_HandledAccessNet = 0,
     ra_Scoped = LANDLOCK_SCOPE_SIGNAL OR (if \<not> pa_HostAbstract p then LANDLOCK_SCOPE_ABSTRACT_UNIX_SOCKET else 0)\<rparr>"

definition start_enforce :: "Container \<Rightarrow> (start_error, unit) prog" where
  "start_enforce p =
     thn (onFail (RulesetAttr_Create (Some (start_ruleset p)) 0) (\<lambda>err. Done (Fail (startError True ''create landlock ruleset'' err False False)))) (\<lambda>rulesetFd.
     thn (onFail (LandlockRestrictSelf rulesetFd 0) (\<lambda>err.
            Call (SysClose rulesetFd) (\<lambda>_. Done (Fail (startError True ''enforce landlock ruleset'' err False False))))) (\<lambda>_.
     Call (SysClose rulesetFd) (\<lambda>_. Done (Ret ()))))"

definition start_landlock :: "Container \<Rightarrow> (start_error, unit) prog" where
  "start_landlock p =
     after LandlockGetABI (\<lambda>r.
       case r of
         Fail err \<Rightarrow>
           if pa_HostAbstract p then Done (Ret ()) else Done (Fail (startError False ''get landlock ABI'' err False False))
       | Panic m \<Rightarrow> Done (Panic m)
       | Ret abi \<Rightarrow>
           if abi < 6 then
             if pa_HostAbstract p then Done (Ret ())
             else Done (Fail (startError False ''kernel version too old for LANDLOCK_SCOPE_ABSTRACT_UNIX_SOCKET'' (Errno (nat ENOSYS)) True False))
           else start_enforce p)"

definition start_thread :: "Container \<Rightarrow> string list \<Rightarrow> int option \<Rightarrow> (start_error, unit) prog" where
  "start_thread p env cgroupFd =
     thn (onFail SetNoNewPrivs (\<lambda>err. Done (Fail (startError True ''prctl(PR_SET_NO_NEW_PRIVS)'' err False False)))) (\<lambda>_.
     thn (start_landlock p) (\<lambda>_.
     onFail (exec (StartInit (start_cloneflags p) (\<not> pa_RetainSession p) start_ambient cgroupFd env))
       (\<lambda>err. Done (Fail (startError False ''start container init'' err False True)))))"

text \<open>\<open>Start\<close> after its checks: the files and environment of the command, then the thread.\<close>

definition start_run :: "Container \<Rightarrow> Cmd \<Rightarrow> int option \<Rightarrow> (fatal, start_error option \<times> Container) prog" where
  "start_run p cmd cgroupFd =
     after (Setup (cmd_ExtraFiles cmd)) (\<lambda>r.
       case r of
         Fail err \<Rightarrow> Done (Ret (Some (startError True ''set up params stream'' err False False), p))
       | Panic m \<Rightarrow> Done (Panic m)
       | Ret (fd, f, files) \<Rightarrow>
           let env = [setupEnv @ ''='' @ Itoa fd];
               cmd = cmd\<lparr>cmd_Env := env, cmd_ExtraFiles := files @ c_ExtraFiles p\<rparr>;
               p = p\<lparr>c_setup := Some f, c_wait := Open_chan, c_cmd := Some cmd\<rparr>
           in after (start_thread p env cgroupFd) (\<lambda>r.
                case r of
                  Ret _ \<Rightarrow> Done (Ret (None, p\<lparr>c_cmd := Some (cmd\<lparr>cmd_Process := True\<rparr>)\<rparr>))
                | Fail e \<Rightarrow> Done (Ret (Some e, p))
                | Panic m \<Rightarrow> Done (Panic m)))"

text \<open>The directory of the control group is closed when the method returns.\<close>

definition start_cgroup :: "Container \<Rightarrow> Cmd \<Rightarrow> (fatal, start_error option \<times> Container) prog" where
  "start_cgroup p cmd =
     (case pa_CgroupPath p of
        None \<Rightarrow> start_run p cmd None
      | Some a \<Rightarrow>
          thn (fatStr (Some a)) (\<lambda>path.
          after (ask (OpenFile path O_CLOEXEC 0)) (\<lambda>r.
            case r of
              Fail err \<Rightarrow> Done (Ret (Some (startError False ''open cgroup directory'' err False False), p))
            | Panic m \<Rightarrow> Done (Panic m)
            | Ret f \<Rightarrow> thn (start_run p cmd (Some (v_int f))) (\<lambda>res. Call (FileClose path) (\<lambda>_. Done (Ret res))))))"

definition Container_Start :: "(num_error \<Rightarrow> string \<Rightarrow> cerr) \<Rightarrow> once \<Rightarrow> Container \<Rightarrow>
    (fatal, start_error option \<times> Container \<times> once) prog" where
  "Container_Start num_err g p =
     (case c_cmd p of
        None \<Rightarrow> Done (Ret (Some (Plain (OtherError ''container: starting an invalid container'')), p, g))
      | Some cmd \<Rightarrow>
          if pa_Ops p = None \<or> pa_Ops p = Some [] then
            Done (Ret (Some (Plain (OtherError ''container: starting an invalid container'')), p, g))
          else if cmd_Process cmd then Done (Ret (Some (Plain (OtherError ''container: already started'')), p, g))
          else
            thn (ensureCloseOnExec num_err g) (\<lambda>(err, g).
            case err of
              Some e \<Rightarrow> Done (Ret (Some e, p, g))
            | None \<Rightarrow>
                thn (start_ids g p) (\<lambda>(p, g).
                let cmd = cmd\<lparr>cmd_Args := [initName], cmd_Dir := fhs_Root\<rparr>;
                    p = (start_defaults p)\<lparr>c_cmd := Some cmd\<rparr>
                in thn (start_cgroup p cmd) (\<lambda>(err, p). Done (Ret (err, p, g))))))"

definition EINVAL :: nat where "EINVAL = 22"

text \<open>\<open>Serve\<close> also gives the parameters it has written.\<close>

definition served :: "int \<Rightarrow> int \<Rightarrow> bool \<Rightarrow> Container \<Rightarrow> initParams" where
  "served uid gid verbose p =
     Params.extend (Params.truncate p) (initParams.fields uid gid (length (c_ExtraFiles p)) verbose)"

definition Container_Serve :: "int \<Rightarrow> int \<Rightarrow> bool \<Rightarrow> Container \<Rightarrow> (fatal, start_error option \<times> initParams option \<times> Container) prog" where
  "Container_Serve uid gid verbose p =
     (case c_setup p of
        None \<Rightarrow> Done (Panic ''invalid serve'')
      | Some setup_fd \<Rightarrow>
        let p = p\<lparr>c_setup := None\<rparr> in
        after (exec (PipeSetDeadline setup_fd)) (\<lambda>r.
          case r of
            Fail err \<Rightarrow> Done (Ret (Some (startError True ''set init pipe deadline'' err False True), None, p))
          | Panic m \<Rightarrow> Done (Panic m)
          | Ret _ \<Rightarrow>
              if pa_Path p = None then
                Done (Ret (Some (startError False ''invalid executable pathname'' (Errno EINVAL) True False), None, p\<lparr>c_cancelled := True\<rparr>))
              else
                let p = (if pa_Dir p = None then p\<lparr>pa_Dir := Some (Absolute fhs_Root)\<rparr> else p) in
                after (exec (PipeEncode setup_fd)) (\<lambda>r. Call (PipeClose setup_fd) (\<lambda>_.
                  case r of
                    Ret _ \<Rightarrow> Done (Ret (None, Some (served uid gid verbose p), p))
                  | Fail err \<Rightarrow> Done (Ret (Some (Plain err), None, p\<lparr>c_cancelled := True\<rparr>))
                  | Panic m \<Rightarrow> Done (Panic m)))))"

definition Container_Wait :: "Container \<Rightarrow> (fatal, cerr option \<times> Container) prog" where
  "Container_Wait p =
     (case c_cmd p of
        None \<Rightarrow> Done (Ret (Some (Errno EINVAL), p))
      | Some cmd \<Rightarrow>
          if \<not> cmd_Process cmd then Done (Ret (Some (Errno EINVAL), p))
          else after (exec WaitInit) (\<lambda>r.
            let p = p\<lparr>c_cancelled := True\<rparr> in
            case r of
              Ret _ \<Rightarrow>
                (case c_wait p of
                   Nil_chan \<Rightarrow> Done (Ret (None, p))
                 | Open_chan \<Rightarrow> Done (Ret (None, p\<lparr>c_wait := Closed_chan\<rparr>))
                 | Closed_chan \<Rightarrow> Done (Panic ''close of closed channel''))
            | Fail err \<Rightarrow> Done (Ret (Some err, p))
            | Panic m \<Rightarrow> Done (Panic m)))"

definition Container_New :: Container where
  "Container_New = \<lparr>pa_Dir = None, pa_Env = [], pa_Path = None, pa_Args = [], pa_CgroupPath = None, pa_ForwardCancel = False,
     pa_AdoptWaitDelay = 0, pa_Uid = 0, pa_Gid = 0, pa_Hostname = [], pa_Ops = Some [], pa_SeccompRules = [], pa_SeccompFlags = 0,
     pa_SeccompPresets = 0, pa_SeccompDisable = False, pa_ParentPerm = 0, pa_RetainSession = False, pa_HostNet = False,
     pa_HostAbstract = False, pa_Privileged = False, c_ExtraFiles = [], c_setup = None, c_wait = Nil_chan, c_cancelled = False,
     c_cmd = Some \<lparr>cmd_Process = False, cmd_Args = [], cmd_Env = [], cmd_Dir = [], cmd_ExtraFiles = []\<rparr>\<rparr>"

definition NewCommand :: "absolute option \<Rightarrow> string \<Rightarrow> string list \<Rightarrow> Container" where
  "NewCommand path name args = Container_New\<lparr>pa_Path := path, pa_Args := name # args\<rparr>"

subsection \<open>What holds when the process is started\<close>

fun is_StartInit :: "syscall \<Rightarrow> bool" where
  "is_StartInit (StartInit _ _ _ _ _) = True" | "is_StartInit _ = False"

definition ns_flags :: u64 where
  "ns_flags = CLONE_NEWUSER OR CLONE_NEWPID OR CLONE_NEWNS OR CLONE_NEWIPC OR CLONE_NEWUTS OR CLONE_NEWCGROUP"

text \<open>The process gets namespaces of its own, no new privileges was asked for before, and a landlock domain
  that keeps abstract sockets apart is in force unless the container shares them.\<close>

definition enforced :: "Container \<Rightarrow> trace \<Rightarrow> bool" where
  "enforced p tr \<longleftrightarrow> ordered [(SysPrctl PR_SET_NO_NEW_PRIVS 1 0, False)] tr \<and>
     (pa_HostAbstract p \<or> (\<exists>fd. ordered
        [(SysPrctl PR_SET_NO_NEW_PRIVS 1 0, False),
         (LandlockCreateRuleset (Some (0, 0, LANDLOCK_SCOPE_SIGNAL OR LANDLOCK_SCOPE_ABSTRACT_UNIX_SOCKET)) 0, True),
         (LandlockRestrict fd 0, True)] tr))"

definition start_guard :: "Container \<Rightarrow> trace \<Rightarrow> syscall \<Rightarrow> bool" where
  "start_guard p tr c \<longleftrightarrow>
     (case c of
        StartInit flags setsid ambient cgroupFd env \<Rightarrow>
          flags = ns_flags OR (if pa_HostNet p then 0 else CLONE_NEWNET) \<and> setsid = (\<not> pa_RetainSession p) \<and> enforced p tr
      | _ \<Rightarrow> True)"

lemma ordered_suffix: "ordered ps b \<Longrightarrow> ordered ps (a @ b)"
  using ordered_append [of "[]" a ps b] by simp

lemma ordered_Cons_more: "ordered ps b \<Longrightarrow> ordered ps (x # b)"
  using ordered_suffix [of ps b "[x]"] by simp

lemma enforced_suffix: "enforced p b \<Longrightarrow> enforced p (a @ b)"
  by (auto simp: enforced_def intro: ordered_suffix)

lemma landlock_ensures:
  "ensures R (start_guard p) (start_landlock p) tr (\<lambda>r tr'. r = Ret () \<longrightarrow> (\<exists>new. tr' = tr @ new \<and>
     (pa_HostAbstract p \<or> (\<exists>fd. ordered
        [(LandlockCreateRuleset (Some (0, 0, LANDLOCK_SCOPE_SIGNAL OR LANDLOCK_SCOPE_ABSTRACT_UNIX_SOCKET)) 0, True),
         (LandlockRestrict fd 0, True)] new))))"
  by (auto simp: start_landlock_def LandlockGetABI_def RulesetAttr_Create_def LandlockRestrictSelf_def start_enforce_def
      start_ruleset_def start_guard_def Let_def syscall_result_def case_prod_unfold split: reply.splits)

lemma start_thread_ensures:
  "ensures R (start_guard p) (start_thread p env cgroupFd) tr (\<lambda>_ _. True)"
proof -
  let ?nnp = "SysPrctl PR_SET_NO_NEW_PRIVS 1 0"
  have flags: "start_cloneflags p = ns_flags OR (if pa_HostNet p then 0 else CLONE_NEWNET)"
    by (simp add: start_cloneflags_def ns_flags_def Let_def)
  have enf: "enforced p (tr @ (?nnp, x) # new)"
    if "pa_HostAbstract p \<or> (\<exists>fd. ordered
        [(LandlockCreateRuleset (Some (0, 0, LANDLOCK_SCOPE_SIGNAL OR LANDLOCK_SCOPE_ABSTRACT_UNIX_SOCKET)) 0, True),
         (LandlockRestrict fd 0, True)] new)" for x new
    by (rule enforced_suffix) (use that in \<open>auto simp: enforced_def\<close>)
  show ?thesis
    unfolding start_thread_def SetNoNewPrivs_def
    by (auto simp: start_guard_def flags intro!: ensures_mono [OF landlock_ensures] enf split: go.splits)
qed

text \<open>The guard is kept by the programs around the thread; none of them starts a process.\<close>

lemma start_guard_other: "\<not> is_StartInit c \<Longrightarrow> start_guard p tr c"
  by (cases c) (simp_all add: start_guard_def)

lemma start_guard_cong:
  "pa_HostNet p = pa_HostNet q \<Longrightarrow> pa_RetainSession p = pa_RetainSession q \<Longrightarrow> pa_HostAbstract p = pa_HostAbstract q \<Longrightarrow>
     start_guard p = start_guard q"
  by (simp add: start_guard_def enforced_def fun_eq_iff split: syscall.split)

lemma start_run_ensures: "ensures R (start_guard p) (start_run p cmd cgroupFd) tr (\<lambda>_ _. True)"
proof -
  let ?q = "\<lambda>f cmd. p\<lparr>c_setup := Some f, c_wait := Open_chan, c_cmd := Some cmd\<rparr>"
  have t: "ensures R (start_guard p) (start_thread (?q f c) env cgroupFd) tr' (\<lambda>_ _. True)" for f c env tr'
    using start_thread_ensures [of R "?q f c"] by (simp add: start_guard_cong [of "?q f c" p])
  show ?thesis
    unfolding start_run_def Setup_def Let_def
    by (auto simp: start_guard_other intro!: ensures_mono [OF t] split: go.split)
qed

lemma start_cgroup_ensures: "ensures R (start_guard p) (start_cgroup p cmd) tr (\<lambda>_ _. True)"
  unfolding start_cgroup_def
  by (auto simp: start_guard_other fatStr_def fat_def absStr_def abs_String_def start_run_ensures
      intro!: ensures_mono [OF start_run_ensures] split: option.split go.split)

lemma close_all_ensures:
  "ensures R (start_guard p) (close_all num_err ns) tr (\<lambda>r tr'. r = Ret () \<longrightarrow>
     (\<exists>fds new. mapM_go Atoi ns = Ret fds \<and> tr' = tr @ new \<and> ordered (map (\<lambda>fd. (SetCloseOnExec fd, False)) fds) new))"
proof (induction ns arbitrary: tr)
  case (Cons n ns)
  show ?case
    by (auto simp: start_guard_other intro!: ensures_mono [OF Cons.IH] split: go.split)
qed auto

text \<open>Every file that was open is closed on execution, now or by an earlier start.\<close>

definition files_closed :: "once \<Rightarrow> trace \<Rightarrow> bool" where
  "files_closed g tr \<longleftrightarrow> on_closeOnExec g \<noteq> None \<or> (\<exists>v fds. (ReadDir fdPrefixPath, Val v) \<in> set tr \<and>
     mapM_go Atoi (v_names v) = Ret fds \<and> ordered (map (\<lambda>fd. (SetCloseOnExec fd, False)) fds) tr)"

lemma files_closed_more: "files_closed g tr \<Longrightarrow> files_closed g (tr @ new)"
  unfolding files_closed_def by (metis (no_types, lifting) UnI1 ordered_more set_append)

lemma ensures_inv: "I tr \<Longrightarrow> (\<And>tr x. I tr \<Longrightarrow> I (tr @ [x])) \<Longrightarrow> ensures R (\<lambda>tr _. I tr) p tr (\<lambda>_. I)"
  by (induction p arbitrary: tr) auto

lemma ensureCloseOnExec_ensures:
  "ensures R (\<lambda>tr c. start_guard p tr c \<and> \<not> is_StartInit c) (ensureCloseOnExec num_err g) tr
     (\<lambda>r tr'. \<forall>g'. r = Ret (None, g') \<longrightarrow> files_closed g tr')"
proof -
  have no: "ensures R (\<lambda>_ c. \<not> is_StartInit c) (close_all num_err ns) tr' (\<lambda>_ _. True)" for ns tr'
    by (induction ns arbitrary: tr') (auto split: go.split)
  have c: "ensures R (\<lambda>tr c. start_guard p tr c \<and> \<not> is_StartInit c) (close_all num_err ns) tr' (\<lambda>r tr''. r = Ret () \<longrightarrow>
     (\<exists>fds new. mapM_go Atoi ns = Ret fds \<and> tr'' = tr' @ new \<and> ordered (map (\<lambda>fd. (SetCloseOnExec fd, False)) fds) new))" for ns tr'
    using ensures_conj [OF close_all_ensures no] by simp
  have closed: "files_closed g (tr @ (ReadDir fdPrefixPath, Val v) # new)"
    if "mapM_go Atoi (v_names v) = Ret fds" "ordered (map (\<lambda>fd. (SetCloseOnExec fd, False)) fds) new" for v fds new
    using that ordered_suffix [of _ "(ReadDir fdPrefixPath, Val v) # new" tr]
    by (auto simp: files_closed_def intro!: exI [of _ v] exI [of _ fds] ordered_Cons_more ordered_suffix)
  show ?thesis
    unfolding ensureCloseOnExec_def Let_def
    by (auto simp: start_guard_other files_closed_def [of g tr] startError_def intro!: ensures_mono [OF c] closed split: option.split go.splits)
qed

lemma start_ids_ensures:
  "ensures R (\<lambda>tr c. start_guard p tr c) (start_ids g p) tr
     (\<lambda>r _. \<forall>p' g'. r = Ret (p', g') \<longrightarrow> start_guard p' = start_guard p)"
  by (auto simp: start_ids_def sysctlOnce_def mustReadSysctl_def readSysctl_def fat_def start_guard_other split: option.split go.split
      intro!: start_guard_cong)

lemma start_ensures:
  "ensures R (\<lambda>tr c. start_guard p tr c \<and> (is_StartInit c \<longrightarrow> files_closed g tr)) (Container_Start num_err g p) tr (\<lambda>_ _. True)"
proof -
  let ?G = "\<lambda>tr c. start_guard p tr c \<and> (is_StartInit c \<longrightarrow> files_closed g tr)"
  have closed: "ensures R ?G q tr' Q"
    if "ensures R (start_guard p) q tr' Q" "files_closed g tr'" for tr' Q and q :: "('e, 'a) prog"
  proof -
    have "ensures R (\<lambda>tr _. files_closed g tr) q tr' (\<lambda>_. files_closed g)"
      using that(2) by (rule ensures_inv) (rule files_closed_more)
    from ensures_conj [OF that(1) this] show ?thesis
      by (rule ensures_guard_mono [OF ensures_mono]) auto
  qed
  have first: "ensures R ?G (ensureCloseOnExec num_err g) tr' (\<lambda>r tr''. \<forall>g'. r = Ret (None, g') \<longrightarrow> files_closed g tr'')" for tr'
    by (rule ensures_guard_mono [OF ensureCloseOnExec_ensures]) auto
  have cgroup: "ensures R ?G (start_cgroup ((start_defaults p')\<lparr>c_cmd := c\<rparr>) cmd) tr' (\<lambda>_ _. True)"
    if "files_closed g tr'" "start_guard p' = start_guard p" for p' c cmd tr'
  proof -
    have "start_guard ((start_defaults p')\<lparr>c_cmd := c\<rparr>) = start_guard p'"
      by (rule start_guard_cong) (simp_all add: start_defaults_def Let_def)
    with start_cgroup_ensures [of R "(start_defaults p')\<lparr>c_cmd := c\<rparr>"] that show ?thesis by (intro closed) simp_all
  qed
  have ids: "ensures R ?G (start_ids g' p) tr' (\<lambda>r tr''. (\<forall>p' g''. r = Ret (p', g'') \<longrightarrow> start_guard p' = start_guard p) \<and> files_closed g tr'')"
    if f: "files_closed g tr'" for g' tr'
    by (rule ensures_mono [OF ensures_prefix [OF closed [OF start_ids_ensures f]]]) (use f in \<open>auto simp: prefix_def files_closed_more\<close>)
  show ?thesis
    unfolding Container_Start_def
    by (auto simp: Let_def intro!: ensures_mono [OF first] ensures_mono [OF ids] ensures_mono [OF cgroup] split: option.split go.splits)
qed

text \<open>C13: whatever the kernel answers, when the process of the container is started it gets user, pid, mount,
  ipc, uts and cgroup namespaces of its own, a network namespace unless the host network is shared and a
  session of its own unless the session is retained; before that no new privileges was requested, every
  open file was marked to be closed on execution, and a landlock domain that keeps abstract sockets and
  signals apart is in force unless abstract sockets are shared.\<close>

theorem Start_guarded:
  assumes "run K (Container_Start num_err g p) [] = (res, pre @ (StartInit flags setsid ambient cgroupFd env, x) # post)"
  shows "flags = ns_flags OR (if pa_HostNet p then 0 else CLONE_NEWNET) \<and> setsid = (\<not> pa_RetainSession p) \<and>
    enforced p pre \<and> files_closed g pre"
proof -
  have "answers (\<lambda>_ _. True) K" by (simp add: answers_def)
  from run_ensures [OF this start_ensures assms]
  have "start_guard p pre (StartInit flags setsid ambient cgroupFd env) \<and>
      (is_StartInit (StartInit flags setsid ambient cgroupFd env) \<longrightarrow> files_closed g pre)"
    by (auto dest!: spec [of _ "length pre"])
  then show ?thesis by (simp add: start_guard_def)
qed

subsection \<open>From Start and Serve to init\<close>

definition started_cmd :: "Cmd \<Rightarrow> int \<Rightarrow> int list \<Rightarrow> Cmd" where
  "started_cmd cmd pipe files = cmd\<lparr>cmd_Env := [setupEnv @ ''='' @ Itoa (3 + int (length (cmd_ExtraFiles cmd)))],
     cmd_ExtraFiles := cmd_ExtraFiles cmd @ [pipe] @ files, cmd_Process := True\<rparr>"

lemma any_ensures: "(\<And>r tr. Q r tr) \<Longrightarrow> ensures R (\<lambda>_ _. True) p tr Q"
  by (induction p arbitrary: tr) auto

text \<open>What has happened stays in the trace.\<close>

lemma ensures_happened: "x \<in> set tr \<Longrightarrow> ensures R (\<lambda>_ _. True) p tr (\<lambda>_ tr'. x \<in> set tr')"
  by (rule ensures_mono [OF ensures_extends]) (auto dest: set_mono_prefix)

abbreviation started :: "Container \<Rightarrow> Cmd \<Rightarrow> trace \<Rightarrow> Container \<Rightarrow> bool" where
  "started p cmd tr p' \<equiv> \<exists>v. (NewPipe, Val v) \<in> set tr \<and>
     p' = p\<lparr>c_setup := Some (v_write v), c_wait := Open_chan, c_cmd := Some (started_cmd cmd (v_int v) (c_ExtraFiles p))\<rparr>"

lemma start_run_post:
  "ensures R (\<lambda>_ _. True) (start_run p cmd cgroupFd) tr (\<lambda>r tr'. \<forall>p'. r = Ret (None, p') \<longrightarrow> started p cmd tr' p')"
  unfolding start_run_def Setup_def Let_def
  by (simp, intro allI impI, rule ensures_mono [OF ensures_happened [of "(NewPipe, Val _)"]])
    (auto simp: started_cmd_def split: go.splits)

lemma start_cgroup_post:
  "ensures R (\<lambda>_ _. True) (start_cgroup p cmd) tr (\<lambda>r tr'. \<forall>p'. r = Ret (None, p') \<longrightarrow> started p cmd tr' p')"
  unfolding start_cgroup_def
  by (auto simp: fatStr_def fat_def absStr_def abs_String_def startError_def start_run_post
      intro!: ensures_mono [OF start_run_post] split: option.split go.split)

definition ids_kept :: "Container \<Rightarrow> int \<Rightarrow> int \<Rightarrow> bool" where
  "ids_kept p uid gid \<longleftrightarrow> (1 \<le> pa_Uid p \<longrightarrow> uid = pa_Uid p) \<and> (1 \<le> pa_Gid p \<longrightarrow> gid = pa_Gid p)"

lemma start_ids_post:
  "ensures R (\<lambda>_ _. True) (start_ids g p) tr (\<lambda>r _. \<forall>p' g'. r = Ret (p', g') \<longrightarrow>
     (\<exists>uid gid. p' = p\<lparr>pa_Uid := uid, pa_Gid := gid\<rparr> \<and> ids_kept p uid gid))"
proof -
  have eq: "pa_Uid p < 1 \<Longrightarrow> \<exists>uid gid. p\<lparr>pa_Uid := u\<rparr> = p\<lparr>pa_Uid := uid, pa_Gid := gid\<rparr> \<and> ids_kept p uid gid"
    "pa_Gid p < 1 \<Longrightarrow> \<exists>uid gid. p\<lparr>pa_Gid := u\<rparr> = p\<lparr>pa_Uid := uid, pa_Gid := gid\<rparr> \<and> ids_kept p uid gid"
    "\<exists>uid gid. p = p\<lparr>pa_Uid := uid, pa_Gid := gid\<rparr> \<and> ids_kept p uid gid" for u
    by (rule exI [of _ u], rule exI [of _ "pa_Gid p"], simp add: ids_kept_def)
      (rule exI [of _ "pa_Uid p"], rule exI [of _ u], simp add: ids_kept_def,
        rule exI [of _ "pa_Uid p"], rule exI [of _ "pa_Gid p"], simp add: ids_kept_def)
  have both: "\<exists>uid gid. p\<lparr>pa_Uid := u, pa_Gid := v\<rparr> = p\<lparr>pa_Uid := uid, pa_Gid := gid\<rparr> \<and> ids_kept p uid gid"
    if "pa_Uid p < 1" "pa_Gid p < 1" for u v
    using that by (auto simp: ids_kept_def)
  show ?thesis
    by (auto simp: start_ids_def sysctlOnce_def mustReadSysctl_def readSysctl_def fat_def eq both split: option.split go.split)
qed

lemma ensureCloseOnExec_any: "ensures R (\<lambda>_ _. True) (ensureCloseOnExec num_err g) tr (\<lambda>_ _. True)"
  by (rule any_ensures) simp

lemma start_post:
  "ensures R (\<lambda>_ _. True) (Container_Start num_err g p) tr (\<lambda>r tr'. \<forall>p' g'. r = Ret (None, p', g') \<longrightarrow>
     (\<exists>cmd uid gid. c_cmd p = Some cmd \<and> pa_Ops p \<noteq> None \<and> pa_Ops p \<noteq> Some [] \<and> ids_kept p uid gid \<and>
       started (start_defaults (p\<lparr>pa_Uid := uid, pa_Gid := gid\<rparr>)) (cmd\<lparr>cmd_Args := [initName], cmd_Dir := fhs_Root\<rparr>) tr' p'))"
proof -
  have files: "c_ExtraFiles (start_defaults p) = c_ExtraFiles p" for p by (simp add: start_defaults_def Let_def)
  show ?thesis
    unfolding Container_Start_def
    by (auto simp: Let_def files intro!: ensures_mono [OF ensureCloseOnExec_any] ensures_mono [OF start_ids_post] ensures_mono [OF start_cgroup_post]
        split: option.split go.splits) blast
qed

definition served_dir :: "Container \<Rightarrow> absolute" where
  "served_dir p = (case pa_Dir p of None \<Rightarrow> Absolute fhs_Root | Some d \<Rightarrow> d)"

lemma serve_post:
  "ensures R (\<lambda>_ _. True) (Container_Serve uid gid verbose p) tr (\<lambda>r tr'. \<forall>params p'. r = Ret (None, Some params, p') \<longrightarrow>
     pa_Path p \<noteq> None \<and> (\<exists>fd v. c_setup p = Some fd \<and> (PipeEncode fd, Val v) \<in> set tr') \<and>
     params = served uid gid verbose (p\<lparr>c_setup := None, pa_Dir := Some (served_dir p)\<rparr>))"
proof -
  have eq: "p\<lparr>c_setup := None, pa_Dir := Some d\<rparr> = p\<lparr>c_setup := None\<rparr>" if "pa_Dir p = Some d" for d
    using that by (cases p) simp
  show ?thesis
    by (auto simp: Container_Serve_def startError_def Let_def eq served_dir_def split: option.split)
qed

text \<open>The variable of the environment that names the setup pipe, as init looks it up.\<close>

definition lookupEnv :: "string list \<Rightarrow> string \<Rightarrow> string option" where
  "lookupEnv env key = map_option (drop (Suc (length key))) (find (\<lambda>kv. HasPrefix kv (key @ ''='')) env)"

lemma lookupEnv_setup: "lookupEnv [setupEnv @ ''='' @ s] setupEnv = Some s"
  by (simp add: lookupEnv_def HasPrefix_def)

lemma start_defaults_facts:
  "pa_RetainSession p \<or> pa_SeccompPresets (start_defaults p) AND PresetDenyTTY = PresetDenyTTY" "0 \<le> pa_AdoptWaitDelay (start_defaults p)"
  "pa_Ops (start_defaults p) = pa_Ops p" "pa_Path (start_defaults p) = pa_Path p" "c_ExtraFiles (start_defaults p) = c_ExtraFiles p"
proof -
  have "(a OR k) AND k = k" for a k :: nat by (rule bit_eqI) (auto simp: bit_simps)
  then show "pa_RetainSession p \<or> pa_SeccompPresets (start_defaults p) AND PresetDenyTTY = PresetDenyTTY"
    by (simp add: start_defaults_def Let_def)
qed (simp_all add: start_defaults_def Let_def second_def)

text \<open>The descriptors a process started by \<open>os/exec\<close> inherits: the extra files, from the third on.\<close>

definition inherited :: "Cmd \<Rightarrow> int \<Rightarrow> int option" where
  "inherited cmd fd = (if 3 \<le> fd \<and> nat (fd - 3) < length (cmd_ExtraFiles cmd) then Some (cmd_ExtraFiles cmd ! nat (fd - 3)) else None)"

text \<open>What init decodes from a descriptor: the parameters if it is the read end of the pipe they were written to.\<close>

definition pipe_decode :: "Cmd \<Rightarrow> int \<Rightarrow> 'p \<Rightarrow> int \<Rightarrow> (cerr, 'p) go" where
  "pipe_decode cmd read_end params fd = (if inherited cmd fd = Some read_end then Ret params else Fail (OtherError ''not the setup pipe''))"

text \<open>The parameters that are to reach init.\<close>

definition handed_over :: "Container \<Rightarrow> int \<Rightarrow> int \<Rightarrow> Params" where
  "handed_over p uid gid = (Params.truncate p)\<lparr>pa_Dir := Some (served_dir p), pa_Uid := uid, pa_Gid := gid,
     pa_SeccompPresets := (if pa_RetainSession p then pa_SeccompPresets p else pa_SeccompPresets p OR PresetDenyTTY),
     pa_AdoptWaitDelay := (if pa_AdoptWaitDelay p = 0 then 5 * second else max 0 (pa_AdoptWaitDelay p))\<rparr>"

lemma served_handed_over:
  "Params.truncate (served huid hgid verbose ((start_defaults (p\<lparr>pa_Uid := uid, pa_Gid := gid\<rparr>))\<lparr>c_setup := s, c_wait := ch,
     c_cmd := cmd, c_setup := s', pa_Dir := Some (served_dir p)\<rparr>)) = handed_over p uid gid"
  by (auto simp: served_def handed_over_def start_defaults_def served_dir_def Let_def Params.defs initParams.defs second_def max_def)

text \<open>C14: a container that starts and serves its parameters hands them over completely: the descriptor the
  environment of init names is, among the descriptors it inherits, the read end of the pipe \<open>Start\<close> made, and
  \<open>Serve\<close> has written to the write end of the same pipe; the extra files of the caller follow it
  in their order; and every parameter is that of the caller, except for terminal input denied unless
  the session is retained, the default of the delay, ids below one replaced and the default
  of the working directory; with them the ids of the host, the number of extra files and the verbosity.\<close>

theorem Start_Serve_handoff:
  assumes "run K (Container_Start num_err g p) [] = (Some (Ret (None, p', g')), tr)"
    and "run K' (Container_Serve huid hgid verbose p') [] = (Some (Ret (None, Some params, p'')), tr')"
    and "c_cmd p = Some cmd" "length (cmd_ExtraFiles cmd) < 2 ^ 62"
  shows "\<exists>cmd' fd pipe v uid gid. c_cmd p' = Some cmd' \<and> cmd_Process cmd' \<and>
    (NewPipe, Val pipe) \<in> set tr \<and> (PipeEncode (v_write pipe), Val v) \<in> set tr' \<and>
    params_Receive (lookupEnv (cmd_Env cmd')) num_err' (\<lambda>fd. 0 \<le> fd) (pipe_decode cmd' (v_int pipe) params) setupEnv = Ret (params, fd) \<and>
    (\<forall>i < length (c_ExtraFiles p). inherited cmd' (fd + 1 + int i) = Some (c_ExtraFiles p ! i)) \<and>
    Params.truncate params = handed_over p uid gid \<and> ids_kept p uid gid \<and> pa_Ops params \<noteq> None \<and> pa_Path params \<noteq> None \<and>
    ip_HostUid params = huid \<and> ip_HostGid params = hgid \<and> ip_Count params = length (c_ExtraFiles p) \<and> ip_Verbose params = verbose"
proof -
  have any: "answers (\<lambda>_ _. True) K" "answers (\<lambda>_ _. True) K'" by (simp_all add: answers_def)
  let ?cmd = "\<lambda>v. started_cmd (cmd\<lparr>cmd_Args := [initName], cmd_Dir := fhs_Root\<rparr>) (v_int v) (c_ExtraFiles p)"
  have same: "c_ExtraFiles (start_defaults p) = c_ExtraFiles p" "pa_Dir (start_defaults p) = pa_Dir p"
    "pa_Path (start_defaults p) = pa_Path p" "pa_Ops (start_defaults p) = pa_Ops p" for p
    by (simp_all add: start_defaults_def Let_def)
  obtain pipe u gi where ops: "pa_Ops p \<noteq> None" and ids: "ids_kept p u gi" and pipe: "(NewPipe, Val pipe) \<in> set tr"
      and p': "p' = (start_defaults (p\<lparr>pa_Uid := u, pa_Gid := gi\<rparr>))\<lparr>c_setup := Some (v_write pipe), c_wait := Open_chan,
        c_cmd := Some (?cmd pipe)\<rparr>"
    using run_ensures [OF any(1) start_post assms(1)] assms(3) by (auto simp: same)
  obtain v where path: "pa_Path p' \<noteq> None" and v: "(PipeEncode (v_write pipe), Val v) \<in> set tr'"
      and params: "params = served huid hgid verbose (p'\<lparr>c_setup := None, pa_Dir := Some (served_dir p')\<rparr>)"
    using run_ensures [OF any(2) serve_post assms(2)] by (auto simp: p')
  have dir: "served_dir p' = served_dir p" by (simp add: p' served_dir_def same)
  let ?fd = "3 + int (length (cmd_ExtraFiles cmd))"
  have "(2 :: nat) ^ 62 = 4611686018427387904" "(2 :: int) ^ 63 = 9223372036854775808" by simp_all
  with assms(4) have "?fd < 2 ^ 63" by linarith
  then have "Atoi (Itoa ?fd) = Ret ?fd" by (intro Atoi_Itoa) simp_all
  then have recv: "params_Receive (lookupEnv (cmd_Env (?cmd pipe))) num_err' (\<lambda>fd. 0 \<le> fd)
      (pipe_decode (?cmd pipe) (v_int pipe) params) setupEnv = Ret (params, ?fd)"
    using lookupEnv_setup [of "Itoa ?fd"] by (simp add: params_Receive_def started_cmd_def pipe_decode_def inherited_def)
  have nth: "inherited (?cmd pipe) (?fd + 1 + int i) = Some (c_ExtraFiles p ! i)" if "i < length (c_ExtraFiles p)" for i
  proof -
    have "nat (?fd + 1 + int i - 3) = length (cmd_ExtraFiles cmd) + Suc i" by simp
    with that show ?thesis by (simp add: started_cmd_def inherited_def nth_append)
  qed
  have fields: "Params.truncate params = handed_over p u gi"
    unfolding params dir unfolding p' by (rule served_handed_over)
  have rest: "pa_Ops params = pa_Ops p" "pa_Path params = pa_Path p'" "ip_HostUid params = huid" "ip_HostGid params = hgid"
    "ip_Count params = length (c_ExtraFiles p)" "ip_Verbose params = verbose"
    by (simp_all add: params served_def Params.defs initParams.defs p' same)
  show ?thesis
    by (rule exI [of _ "?cmd pipe"], rule exI [of _ ?fd], rule exI [of _ pipe], rule exI [of _ v], rule exI [of _ u], rule exI [of _ gi])
      (use recv nth ops path ids pipe v fields rest in \<open>auto simp: p' started_cmd_def\<close>)
qed

text \<open>An example: a container with one operation and one extra file.\<close>

definition container_a :: Container where
  "container_a = (NewCommand (Some (Absolute ''/a'')) ''a'' [])\<lparr>pa_Ops := Some [Some (OpBind bind_a)], pa_Uid := 1000, pa_Gid := 100, c_ExtraFiles := [9]\<rparr>"

definition calm_start :: kernel where
  "calm_start tr c =
     (case c of
        LandlockCreateRuleset a _ \<Rightarrow> Val (kval0\<lparr>v_int := if a = None then 6 else 4\<rparr>)
      | NewPipe \<Rightarrow> Val (kval0\<lparr>v_int := 8, v_write := 10\<rparr>)
      | _ \<Rightarrow> calm tr c)"

definition once_a :: once where "once_a = \<lparr>on_closeOnExec = None, on_sysctl = None\<rparr>"

definition started_a :: Container where
  "started_a = (start_defaults container_a)\<lparr>c_setup := Some 10, c_wait := Open_chan,
     c_cmd := Some (started_cmd \<lparr>cmd_Process = False, cmd_Args = [initName], cmd_Env = [], cmd_Dir = fhs_Root, cmd_ExtraFiles = []\<rparr> 8 [9])\<rparr>"

lemma start_a_runs: "\<exists>pre flags setsid ambient cg env. run calm_start (Container_Start (\<lambda>_ _. Errno 0) once_a container_a) [] =
    (Some (Ret (None, started_a, once_a\<lparr>on_closeOnExec := Some None\<rparr>)), pre @ [(StartInit flags setsid ambient cg env, Val kval0)])"
  by (simp add: Container_Start_def container_a_def NewCommand_def Container_New_def once_a_def ensureCloseOnExec_def start_ids_def start_defaults_def
      start_cgroup_def start_run_def Setup_def start_thread_def SetNoNewPrivs_def Prctl_Call start_landlock_def LandlockGetABI_def
      RulesetAttr_Create_def start_enforce_def LandlockRestrictSelf_def syscall_result_def Let_def ask_def exec_def onFail_def
      calm_start_def calm_def kval0_def started_a_def started_cmd_def)
    (rule exI, rule TrueI)

lemma serve_a_runs: "\<exists>params p tr. run calm_start (Container_Serve 1000 100 False started_a) [] = (Some (Ret (None, Some params, p)), tr)"
  by (simp add: Container_Serve_def started_a_def container_a_def NewCommand_def Container_New_def Let_def start_defaults_def exec_def ask_def calm_start_def calm_def)

theorem Start_guarded_witness:
  "\<exists>pre flags setsid ambient cg env. run calm_start (Container_Start (\<lambda>_ _. Errno 0) once_a container_a) [] =
      (Some (Ret (None, started_a, once_a\<lparr>on_closeOnExec := Some None\<rparr>)), pre @ [(StartInit flags setsid ambient cg env, Val kval0)]) \<and>
    enforced container_a pre \<and> files_closed once_a pre"
  using start_a_runs Start_guarded [of calm_start "\<lambda>_ _. Errno 0" once_a container_a _ _ _ _ _ _ _ _ "[]"] by blast

theorem Start_Serve_handoff_witness:
  "\<exists>params p tr. run calm_start (Container_Serve 1000 100 False started_a) [] = (Some (Ret (None, Some params, p)), tr) \<and>
    Params.truncate params = handed_over container_a 1000 100"
proof -
  obtain tr where s: "run calm_start (Container_Start (\<lambda>_ _. Errno 0) once_a container_a) [] =
      (Some (Ret (None, started_a, once_a\<lparr>on_closeOnExec := Some None\<rparr>)), tr)" using start_a_runs by blast
  obtain params p tr' where r: "run calm_start (Container_Serve 1000 100 False started_a) [] = (Some (Ret (None, Some params, p)), tr')"
    using serve_a_runs by blast
  have "c_cmd container_a = Some \<lparr>cmd_Process = False, cmd_Args = [], cmd_Env = [], cmd_Dir = [], cmd_ExtraFiles = []\<rparr>"
    "pa_Uid container_a = 1000" "pa_Gid container_a = 100"
    by (simp_all add: container_a_def NewCommand_def Container_New_def)
  with Start_Serve_handoff [OF s r, of _ "\<lambda>_. Errno 0"] r show ?thesis by (fastforce simp: ids_kept_def)
qed

end
