(* ===== verification/Hsu.thy ===== *)
theory Hsu
  imports Go_Num Go_Path
begin

text \<open>
  The setuid helper \<open>cmd/hsu\<close>: the constants of \<open>hst.go\<close>, the parsers of \<open>parse.go\<close>
  (\<open>parseUint32Fast\<close>, \<open>parseConfig\<close>, \<open>mustParseConfig\<close>, \<open>mustReadIdentity\<close>) and the
  privilege drop of \<open>main.go\<close>. Machine integers keep their width (\<open>uint32\<close> is \<^typ>\<open>u32\<close>);
  the process environment, the file contents and the answers of the kernel are fields of
  \<open>hsu_env\<close>; the system calls \<open>main\<close> makes after authentication are recorded in order.
\<close>

subsection \<open>hst.go\<close>

definition userOffset :: nat where "userOffset = 100000"
definition rangeSize :: nat where "rangeSize = userOffset div 10"
definition appStart :: nat where "appStart = rangeSize * 1"
definition appEnd :: nat where "appEnd = appStart + rangeSize - 1"
definition identityStart :: nat where "identityStart = 0"
definition identityEnd :: nat where "identityEnd = appEnd - appStart"

lemmas hsu_consts = userOffset_def rangeSize_def appStart_def appEnd_def
  identityStart_def identityEnd_def

definition toUser :: "u32 \<Rightarrow> u32 \<Rightarrow> u32" where
  "toUser userid appid = userid * of_nat userOffset + of_nat appStart + appid"

subsection \<open>parse.go\<close>

definition useridStart :: nat where "useridStart = 0"
definition useridEnd :: nat where "useridEnd = useridStart + rangeSize - 1"

lemmas userid_consts = useridStart_def useridEnd_def hsu_consts

datatype uint_error = ZeroLength | TooLong | InvalidCharacter char nat

fun parseUint32Fast_loop :: "nat \<Rightarrow> u32 \<Rightarrow> string \<Rightarrow> (uint_error, u32) go" where
  "parseUint32Fast_loop i n [] = Ret n"
| "parseUint32Fast_loop i n (c # cs) =
     (let ch = (word_of_nat (of_char c) :: u8) - 48 in
      if 9 < ch then Fail (InvalidCharacter c i)
      else parseUint32Fast_loop (Suc i) (n * 10 + ucast ch) cs)"

definition parseUint32Fast :: "string \<Rightarrow> (uint_error, u32) go" where
  "parseUint32Fast s =
     (let sLen = length s in
      if sLen < 1 then Fail ZeroLength
      else if 10 < sLen then Fail TooLong
      else parseUint32Fast_loop 0 0 s)"

text \<open>A \<open>bufio.Scanner\<close> is the list of tokens it delivers and the error it ends with, if any.\<close>

type_synonym scanner = "string list \<times> string option"

datatype config_error = InvalidEntry nat | InvalidParentUid nat | InvalidUserid nat | ScanError string

fun parseConfig_loop :: "nat \<Rightarrow> string list \<Rightarrow> string option \<Rightarrow> u32 \<Rightarrow> u32 \<times> bool \<times> config_error option" where
  "parseConfig_loop line [] serr puid =
     (of_nat useridEnd + 1, False, map_option ScanError serr)"
| "parseConfig_loop line (text # rest) serr puid =
     (let line = Suc line; bad = of_nat useridEnd + 1 in
      case SplitN 2 CHR '' '' text of
        [f0, f1] \<Rightarrow>
          (case parseUint32Fast f0 of
             Ret puid0 \<Rightarrow>
               if puid0 < 1 then (bad, False, Some (InvalidParentUid line))
               else if puid0 = puid then
                 (case parseUint32Fast f1 of
                    Ret userid \<Rightarrow>
                      if userid < of_nat useridStart \<or> of_nat useridEnd < userid
                      then (bad, False, Some (InvalidUserid line))
                      else (userid, True, None)
                  | _ \<Rightarrow> (bad, False, Some (InvalidUserid line)))
               else parseConfig_loop line rest serr puid
           | _ \<Rightarrow> (bad, False, Some (InvalidParentUid line)))
      | _ \<Rightarrow> (bad, False, Some (InvalidEntry line)))"

definition parseConfig :: "scanner \<Rightarrow> u32 \<Rightarrow> u32 \<times> bool \<times> config_error option" where
  "parseConfig r puid = parseConfig_loop 0 (fst r) (snd r) puid"

text \<open>The process as \<open>hsu\<close> sees it: its credentials, environment and supplementary groups, the
  file system calls with their answers (\<open>Inl\<close> an error message) and the error, if any, the
  kernel answers each system call of the privilege drop with.\<close>

datatype hsu_syscall =
    Setresgid int int int
  | Setgroups "int list"
  | Setresuid int int int
  | SetNoNewPrivs
  | Exec string "string list" "string list"

record stat_t =
  st_perm :: nat
  st_uid :: nat
  st_gid :: nat

record hsu_env =
  Geteuid :: int
  Getegid :: int
  Getgid :: int
  Getuid :: int
  Getppid :: int
  hakureiPath :: string
  Readlink :: "string \<Rightarrow> string + string"
  Stat :: "string \<Rightarrow> string + stat_t"
  Open :: "string \<Rightarrow> string + scanner"
  CloseErr :: "string \<Rightarrow> string option"
  LookupEnv :: "string \<Rightarrow> string option"
  Getgroups :: "string + int list"
  syscall_err :: "hsu_syscall \<Rightarrow> string option"

text \<open>How the process ends: \<open>log.Fatal\<close>, the userid printed before \<open>os.Exit(0)\<close>, a panic, or the
  shim executed in its place.\<close>

datatype hsu_end = Fatal string | PrintUserid u32 | PanicEnd string | Executed

definition hsuConfPath :: string where "hsuConfPath = ''/etc/hsurc''"

fun config_error_string :: "config_error \<Rightarrow> string" where
  "config_error_string (InvalidEntry n) = ''invalid entry on line '' @ format_nat 10 n"
| "config_error_string (InvalidParentUid n) = ''invalid parent uid on line '' @ format_nat 10 n"
| "config_error_string (InvalidUserid n) = ''invalid userid on line '' @ format_nat 10 n"
| "config_error_string (ScanError m) = m"

definition mustParseConfig :: "hsu_env \<Rightarrow> int \<Rightarrow> (hsu_end, u32) go" where
  "mustParseConfig e puid =
     (if 2 ^ 32 - 1 < puid then Fail (Fatal (''got impossible uid '' @ Itoa puid))
      else case Open e hsuConfPath of
        Inl m \<Rightarrow> Fail (Fatal m)
      | Inr f \<Rightarrow>
          (case parseConfig f (word_of_int puid) of
             (userid, ok, Some err) \<Rightarrow> Fail (Fatal (config_error_string err))
           | (userid, ok, None) \<Rightarrow>
               (case CloseErr e hsuConfPath of
                  Some m \<Rightarrow> Fail (Fatal m)
                | None \<Rightarrow>
                    if \<not> ok then Fail (Fatal (''uid '' @ Itoa puid @ '' is not in the hsurc file''))
                    else Ret userid)))"

definition envIdentity :: string where "envIdentity = ''HAKUREI_IDENTITY''"

definition mustReadIdentity :: "hsu_env \<Rightarrow> (hsu_end, u32) go" where
  "mustReadIdentity e =
     (case LookupEnv e envIdentity of
        None \<Rightarrow> Fail (Fatal ''HAKUREI_IDENTITY not set'')
      | Some as \<Rightarrow>
          (case parseUint32Fast as of
             Ret identity \<Rightarrow>
               if identity < of_nat identityStart \<or> of_nat identityEnd < identity
               then Fail (Fatal ''invalid identity'')
               else Ret identity
           | _ \<Rightarrow> Fail (Fatal ''invalid identity'')))"

subsection \<open>main.go\<close>

definition envShim :: string where "envShim = ''HAKUREI_SHIM''"
definition envGroups :: string where "envGroups = ''HAKUREI_GROUPS''"

text \<open>Lines 40 to 78: who may start the program.\<close>

definition hsu_checks :: "hsu_env \<Rightarrow> (hsu_end, string) go" where
  "hsu_checks e =
     (if Geteuid e \<noteq> 0 then
        Fail (Fatal ''this program must be owned by uid 0 and have the setuid bit set'')
      else if Getegid e \<noteq> Getgid e then
        Fail (Fatal ''this program must not have the setgid bit set'')
      else if Getuid e = 0 then
        Fail (Fatal ''this program must not be started by root'')
      else if \<not> IsAbs (hakureiPath e) then
        Fail (Fatal ''this program is compiled incorrectly'')
      else case Readlink e (path_Join [''/proc'', Itoa (Getppid e), ''exe'']) of
        Inl m \<Rightarrow> Fail (Fatal (''cannot read parent executable path: '' @ m))
      | Inr p \<Rightarrow>
          if HasSuffix p '' (deleted)'' then
            Fail (Fatal ''hakurei executable has been deleted'')
          else if p \<noteq> hakureiPath e then
            Fail (Fatal ''this program must be started by hakurei'')
          else (case Stat e hsuConfPath of
              Inl m \<Rightarrow> Fail (Fatal m)
            | Inr st \<Rightarrow>
                if st_perm st \<noteq> 256 then Fail (Fatal ''bad hsurc perm'')
                else if st_uid st \<noteq> 0 \<or> st_gid st \<noteq> 0 then
                  Fail (Fatal ''hsurc must be owned by uid 0'')
                else Ret p))"

text \<open>Lines 81 to 91: the setup file descriptor passed through to the shim.\<close>

definition hsu_setup_fd :: "hsu_env \<Rightarrow> u32 \<Rightarrow> (hsu_end, string) go" where
  "hsu_setup_fd e userid =
     (case LookupEnv e envShim of
        None \<Rightarrow> Fail (PrintUserid userid)
      | Some s \<Rightarrow>
          (case s of
             [c] \<Rightarrow>
               if (of_char CHR ''9'' :: nat) < of_char c \<or> of_char c < (of_char CHR ''3'' :: nat)
               then Fail (Fatal ''HAKUREI_SHIM holds an invalid value'')
               else Ret s
           | _ \<Rightarrow> Fail (Fatal ''HAKUREI_SHIM holds an invalid value'')))"

definition uidStart :: int where "uidStart = 10000"
definition uidEnd :: int where "uidEnd = 999919999"

text \<open>Lines 111 to 137: the supplementary groups.\<close>

definition hsu_group :: "hsu_env \<Rightarrow> int \<Rightarrow> int list \<Rightarrow> string \<Rightarrow> (hsu_end, int) go" where
  "hsu_group e uid suppCurrent s =
     (case Atoi s of
        Ret gid \<Rightarrow>
          if 0 < gid \<and> gid \<noteq> uid \<and> gid \<noteq> Getgid e \<and> List.member suppCurrent gid then Ret gid
          else Fail (Fatal (''invalid gid '' @ Itoa gid))
      | _ \<Rightarrow> Fail (Fatal (''cannot parse '' @ s)))"

definition hsu_groups :: "hsu_env \<Rightarrow> int \<Rightarrow> (hsu_end, int list) go" where
  "hsu_groups e uid =
     (case LookupEnv e envGroups of
        None \<Rightarrow> Ret [uid]
      | Some gs \<Rightarrow>
          (case Getgroups e of
             Inl m \<Rightarrow> Fail (Fatal (''cannot get groups: '' @ m))
           | Inr suppCurrent \<Rightarrow>
               bind_go (mapM_go (hsu_group e uid suppCurrent) (Split CHR '' '' gs))
                 (\<lambda>supp. Ret (supp @ [uid]))))"

text \<open>Lines 139 to 156: the calls of the privilege drop with the messages of their failures,
  made in order until one fails.\<close>

definition hsu_drop :: "int \<Rightarrow> int list \<Rightarrow> string \<Rightarrow> string \<Rightarrow> (hsu_syscall \<times> string) list" where
  "hsu_drop uid suppGroups toolPath shimSetupFd =
     [(Setresgid uid uid uid, ''cannot set gid: ''),
      (Setgroups suppGroups, ''cannot set supplementary groups: ''),
      (Setresuid uid uid uid, ''cannot set uid: ''),
      (SetNoNewPrivs, ''cannot set no_new_privs flag: ''),
      (Exec toolPath [''hakurei'', ''shim''] [envShim @ ''='' @ shimSetupFd], ''cannot start shim: '')]"

fun hsu_calls :: "hsu_env \<Rightarrow> (hsu_syscall \<times> string) list \<Rightarrow> hsu_syscall list \<times> hsu_end" where
  "hsu_calls e [] = ([], Executed)"
| "hsu_calls e ((c, m) # cs) =
     (case syscall_err e c of
        Some err \<Rightarrow> ([c], Fatal (m @ err))
      | None \<Rightarrow> (let (tr, r) = hsu_calls e cs in (c # tr, r)))"

definition hsu_main :: "hsu_env \<Rightarrow> hsu_syscall list \<times> hsu_end" where
  "hsu_main e =
     (case bind_go (hsu_checks e) (\<lambda>toolPath.
           bind_go (mustParseConfig e (Getuid e)) (\<lambda>userid.
           bind_go (hsu_setup_fd e userid) (\<lambda>shimSetupFd.
           bind_go (mustReadIdentity e) (\<lambda>identity.
             let uid = uint (toUser userid identity) in
             if uid < uidStart \<or> uidEnd \<le> uid then Fail (PanicEnd ''uid out of bounds'')
             else bind_go (hsu_groups e uid) (\<lambda>suppGroups.
               Ret (hsu_drop uid suppGroups toolPath shimSetupFd)))))) of
        Fail r \<Rightarrow> ([], r)
      | Panic m \<Rightarrow> ([], PanicEnd m)
      | Ret calls \<Rightarrow> hsu_calls e calls)"

subsection \<open>Decimal numbers at 32 bits\<close>

text \<open>The value of a string of decimal digits.\<close>

fun dec_val :: "nat \<Rightarrow> string \<Rightarrow> nat" where
  "dec_val n [] = n"
| "dec_val n (c # cs) = dec_val (n * 10 + (of_char c - 48)) cs"

definition is_digit :: "char \<Rightarrow> bool" where
  "is_digit c \<longleftrightarrow> 48 \<le> (of_char c :: nat) \<and> (of_char c :: nat) \<le> 57"

lemma byte_minus_48:
  "(9 < (word_of_nat (of_char c) :: u8) - 48) \<longleftrightarrow> \<not> is_digit c"
  "is_digit c \<Longrightarrow> unat ((word_of_nat (of_char c) :: u8) - 48) = of_char c - 48"
proof -
  have c: "unat (word_of_nat (of_char c) :: u8) = of_char c"
    using of_char_less_256 [of c] by (simp add: unat_of_nat)
  show "is_digit c \<Longrightarrow> unat ((word_of_nat (of_char c) :: u8) - 48) = of_char c - 48"
    using c by (simp add: is_digit_def unat_sub word_le_nat_alt)
  show "(9 < (word_of_nat (of_char c) :: u8) - 48) \<longleftrightarrow> \<not> is_digit c"
    using c of_char_less_256 [of c]
    by (simp add: is_digit_def word_less_nat_alt unat_sub_if' word_le_nat_alt) arith
qed

lemma dec_val_cong_u32:
  "(word_of_nat k :: u32) = word_of_nat l \<Longrightarrow>
     (word_of_nat (dec_val k s) :: u32) = word_of_nat (dec_val l s)"
proof (induction s arbitrary: k l)
  case (Cons c s)
  from Cons.prems have "(word_of_nat (k * 10 + (of_char c - 48)) :: u32) = word_of_nat (l * 10 + (of_char c - 48))"
    by simp
  then show ?case by (simp only: dec_val.simps) (rule Cons.IH)
qed simp

lemma parseUint32Fast_loop_Ret_iff:
  "parseUint32Fast_loop i n s = Ret m \<longleftrightarrow>
     list_all is_digit s \<and> m = word_of_nat (dec_val (unat n) s)"
proof (induction s arbitrary: i n)
  case Nil
  then show ?case by auto
next
  case (Cons c s)
  show ?case
  proof (cases "is_digit c")
    case True
    let ?ch = "(word_of_nat (of_char c) :: u8) - 48"
    have d: "(ucast ?ch :: u32) = word_of_nat (of_char c - 48)"
      using byte_minus_48(2) [OF True] by (metis of_nat_unat)
    have "(word_of_nat (unat (n * 10 + ucast ?ch)) :: u32) = word_of_nat (unat n * 10 + (of_char c - 48))"
      by (simp add: d)
    then have "(word_of_nat (dec_val (unat (n * 10 + ucast ?ch)) s) :: u32) =
        word_of_nat (dec_val (unat n * 10 + (of_char c - 48)) s)"
      by (rule dec_val_cong_u32)
    with True Cons show ?thesis
      by (simp add: byte_minus_48(1) Let_def)
  next
    case False
    then show ?thesis by (simp add: byte_minus_48(1) Let_def)
  qed
qed

lemma dec_val_append: "dec_val n (xs @ ys) = dec_val (dec_val n xs) ys"
  by (induction xs arbitrary: n) simp_all

lemma digit_char_dec:
  "d < 10 \<Longrightarrow> is_digit (digit_char d) \<and> (of_char (digit_char d) :: nat) = 48 + d"
  by (simp add: is_digit_def digit_char_def)

lemma dec_val_format: "dec_val 0 (format_nat 10 n) = n"
proof (induction "10 :: nat" n rule: format_nat.induct)
  case (1 n)
  show ?case
  proof (cases "n < 10")
    case True
    then show ?thesis by (simp add: format_nat.simps [of 10 n] digit_char_dec)
  next
    case False
    with "1" have "dec_val 0 (format_nat 10 (n div 10)) = n div 10" by simp
    with False show ?thesis
      by (simp add: format_nat.simps [of 10 n] dec_val_append digit_char_dec)
  qed
qed

lemma list_all_digit_format: "list_all is_digit (format_nat 10 n)"
  by (auto simp: list_all_iff digit_char_dec dest: set_format_nat [rotated])

lemma length_format_nat_le: "n < 10 ^ Suc k \<Longrightarrow> length (format_nat 10 n) \<le> Suc k"
proof (induction k arbitrary: n)
  case 0
  then show ?case by (simp add: format_nat.simps [of 10 n])
next
  case (Suc k)
  show ?case
  proof (cases "n < 10")
    case True
    then show ?thesis by (simp add: format_nat.simps [of 10 n])
  next
    case False
    have "n div 10 < 10 ^ Suc k" using Suc.prems by (simp add: less_mult_imp_div_less)
    then have "length (format_nat 10 (n div 10)) \<le> Suc k" by (rule Suc.IH)
    with False show ?thesis by (simp add: format_nat.simps [of 10 n])
  qed
qed

subsection \<open>Properties of the parsers\<close>

text \<open>\<open>parseUint32Fast\<close> succeeds exactly on the strings of one to ten decimal digits, and
  its value is the number they denote modulo \<open>2 ^ 32\<close>.\<close>

theorem parseUint32Fast_spec:
  "parseUint32Fast s = Ret n \<longleftrightarrow>
     1 \<le> length s \<and> length s \<le> 10 \<and> list_all is_digit s \<and> n = word_of_nat (dec_val 0 s)"
  by (auto simp: parseUint32Fast_def Let_def parseUint32Fast_loop_Ret_iff Suc_le_eq)

lemma parseUint32Fast_Ret_iff:
  "parseUint32Fast s = Ret n \<longleftrightarrow>
     s \<noteq> [] \<and> length s \<le> 10 \<and> list_all is_digit s \<and> n = word_of_nat (dec_val 0 s)"
  by (auto simp: parseUint32Fast_def Let_def parseUint32Fast_loop_Ret_iff)

text \<open>Every \<open>uint32\<close> value survives printing in decimal and \<open>parseUint32Fast\<close>.\<close>

lemma parseUint32Fast_format:
  "parseUint32Fast (format_nat 10 (unat n)) = Ret n"
proof -
  have "unat n < 10 ^ Suc 9" using unat_u32_less [of n] by simp
  then have "length (format_nat 10 (unat n)) \<le> 10"
    using length_format_nat_le [of "unat n" 9] by simp
  then show ?thesis
    by (simp add: parseUint32Fast_Ret_iff list_all_digit_format dec_val_format)
qed

text \<open>A line of the configuration: the parent uid, a space and the userid field.\<close>

definition config_line :: "string \<Rightarrow> u32 \<Rightarrow> string \<Rightarrow> bool" where
  "config_line l p f \<longleftrightarrow>
     (\<exists>f0. l = f0 @ CHR '' '' # f \<and> CHR '' '' \<notin> set f0 \<and> parseUint32Fast f0 = Ret p \<and> p \<noteq> 0)"

lemma SplitN_2_pair:
  "SplitN 2 c s = [a, b] \<longleftrightarrow> Cut c s = Some (a, b)"
  by (auto simp: SplitN_2 split: option.splits)

lemma SplitN_2_cases:
  obtains a b where "SplitN 2 c s = [a, b]" | "SplitN 2 c s = [s]"
  by (cases "Cut c s") (auto simp: SplitN_2)

lemma config_lineI:
  "SplitN 2 CHR '' '' l = [f0, f1] \<Longrightarrow> parseUint32Fast f0 = Ret p \<Longrightarrow> p \<noteq> 0 \<Longrightarrow> config_line l p f1"
  unfolding SplitN_2_pair Cut_Some_iff config_line_def by auto

lemma config_lineE:
  assumes "config_line l p f1"
  obtains f0 where "SplitN 2 CHR '' '' l = [f0, f1]" "parseUint32Fast f0 = Ret p" "p \<noteq> 0"
  using assms unfolding config_line_def by (auto simp: SplitN_2_pair Cut_Some_iff)

lemma parseConfig_loop_ok_imp:
  assumes "parseConfig_loop n ls serr puid = (userid, True, err)"
  shows "err = None \<and> (\<exists>pre l post f.
     ls = pre @ l # post \<and> config_line l puid f \<and> parseUint32Fast f = Ret userid \<and>
     unat userid \<le> useridEnd \<and> list_all (\<lambda>l'. \<exists>p g. config_line l' p g \<and> p \<noteq> puid) pre)"
  using assms
proof (induction ls arbitrary: n)
  case (Cons l ls)
  obtain f0 f1 where s: "SplitN 2 CHR '' '' l = [f0, f1]"
    using Cons.prems by (cases rule: SplitN_2_cases [of "CHR '' ''" l]) (auto simp: Let_def)
  obtain p where p: "parseUint32Fast f0 = Ret p" "p \<noteq> 0"
    using Cons.prems s
    by (cases "parseUint32Fast f0") (auto simp: Let_def word_less_1 split: if_splits)
  have cl: "config_line l p f1" using s p by (rule config_lineI)
  show ?case
  proof (cases "p = puid")
    case True
    with Cons.prems s p have "parseUint32Fast f1 = Ret userid" and "err = None"
      and "\<not> of_nat useridEnd < userid"
      by (auto simp: Let_def word_less_1 split: go.splits if_splits)
    moreover have "unat (of_nat useridEnd :: u32) = useridEnd"
      by (simp add: userid_consts)
    ultimately show ?thesis
      using True cl by (intro conjI exI [of _ "[]"] exI [of _ l] exI [of _ ls] exI [of _ f1])
        (auto simp: word_less_nat_alt)
  next
    case False
    with Cons.prems s p have "parseConfig_loop (Suc n) ls serr puid = (userid, True, err)"
      by (auto simp: Let_def word_less_1)
    from Cons.IH [OF this] obtain pre l2 post f where "err = None" "ls = pre @ l2 # post"
      "config_line l2 puid f" "parseUint32Fast f = Ret userid" "unat userid \<le> useridEnd"
      "list_all (\<lambda>l'. \<exists>p g. config_line l' p g \<and> p \<noteq> puid) pre" by auto
    with cl False show ?thesis
      by (intro conjI exI [of _ "l # pre"] exI [of _ l2] exI [of _ post] exI [of _ f]) auto
  qed
qed (simp add: Let_def)

lemma parseConfig_loop_skip:
  assumes "list_all (\<lambda>l'. \<exists>p g. config_line l' p g \<and> p \<noteq> puid) pre"
  shows "parseConfig_loop n (pre @ ls) serr puid = parseConfig_loop (n + length pre) ls serr puid"
  using assms
proof (induction pre arbitrary: n)
  case (Cons l pre)
  then obtain p g where "config_line l p g" "p \<noteq> puid" by auto
  then have "parseConfig_loop n (l # pre @ ls) serr puid = parseConfig_loop (Suc n) (pre @ ls) serr puid"
    by (auto elim!: config_lineE simp: Let_def word_less_1)
  with Cons show ?case by simp
qed simp

lemma parseConfig_loop_hit:
  assumes "config_line l puid f" "parseUint32Fast f = Ret userid" "unat userid \<le> useridEnd"
  shows "parseConfig_loop n (l # post) serr puid = (userid, True, None)"
proof -
  have "unat (of_nat useridEnd :: u32) = useridEnd" by (simp add: userid_consts)
  with assms(3) have "\<not> of_nat useridEnd < userid" by (simp add: word_less_nat_alt)
  with assms(1,2) show ?thesis
    by (auto elim!: config_lineE simp: Let_def word_less_1 useridStart_def)
qed

declare parseConfig_loop.simps(2) [simp del]

text \<open>C22: \<open>parseConfig\<close> authorises \<open>puid\<close> with \<open>userid\<close> exactly when the first line
  whose parent uid is \<open>puid\<close> gives that userid, the userid is in range, and every line
  before it is well formed and of another user: the first occurrence takes effect.\<close>

theorem parseConfig_authorised_iff:
  "parseConfig r puid = (userid, True, err) \<longleftrightarrow>
     err = None \<and> (\<exists>pre l post f.
       fst r = pre @ l # post \<and> config_line l puid f \<and> parseUint32Fast f = Ret userid \<and>
       unat userid \<le> useridEnd \<and> list_all (\<lambda>l'. \<exists>p g. config_line l' p g \<and> p \<noteq> puid) pre)"
  (is "?L \<longleftrightarrow> ?R")
proof
  assume ?L
  then show ?R unfolding parseConfig_def by (rule parseConfig_loop_ok_imp)
next
  assume ?R
  then obtain pre l post f where "err = None" "fst r = pre @ l # post" "config_line l puid f"
    "parseUint32Fast f = Ret userid" "unat userid \<le> useridEnd"
    "list_all (\<lambda>l'. \<exists>p g. config_line l' p g \<and> p \<noteq> puid) pre" by auto
  then show ?L by (simp add: parseConfig_def parseConfig_loop_skip parseConfig_loop_hit)
qed

lemma parseConfig_userid:
  "parseConfig r puid = (userid, True, err) \<Longrightarrow> unat userid \<le> useridEnd"
  unfolding parseConfig_def by (drule parseConfig_loop_ok_imp) auto

text \<open>A ten digit parent uid above the range of \<open>uint32\<close> is accepted and wraps around: the
  entry \<open>4294968296 0\<close>, whose number is no uid, authorises the user with uid 1000.\<close>

theorem parseConfig_wraps:
  "parseUint32Fast ''4294968296'' = Ret 1000 \<and>
   parseConfig ([''4294968296 0''], None) 1000 = (0, True, None)"
proof
  show *: "parseUint32Fast ''4294968296'' = Ret 1000"
    by (simp add: parseUint32Fast_Ret_iff is_digit_def word_eq_iff_unsigned)
  have "SplitN 2 CHR '' '' ''4294968296 0'' = [''4294968296'', ''0'']"
    by (simp add: SplitN_2)
  then have "config_line ''4294968296 0'' 1000 ''0''"
    using * by (rule config_lineI) simp
  moreover have "parseUint32Fast ''0'' = Ret 0"
    by (simp add: parseUint32Fast_Ret_iff is_digit_def)
  ultimately show "parseConfig ([''4294968296 0''], None) 1000 = (0, True, None)"
    by (simp add: parseConfig_def parseConfig_loop_hit)
qed

subsection \<open>The target uid\<close>

lemma unat_toUser:
  assumes "unat userid \<le> useridEnd" "unat identity \<le> identityEnd"
  shows "unat (toUser userid identity) = unat userid * 100000 + 10000 + unat identity"
proof -
  have u: "unat userid \<le> 9999" and i: "unat identity \<le> 9999"
    using assms by (simp_all add: userid_consts)
  have "toUser userid identity = word_of_nat (unat userid * 100000 + 10000 + unat identity)"
    by (simp add: toUser_def hsu_consts)
  then show ?thesis
    using unat_of_nat_u32 [of "unat userid * 100000 + 10000 + unat identity"] u i by simp
qed

lemma toUser_bounds:
  assumes "unat userid \<le> useridEnd" "unat identity \<le> identityEnd"
  shows "10000 \<le> unat (toUser userid identity) \<and> unat (toUser userid identity) \<le> 999919999"
  using assms by (simp add: unat_toUser) (simp add: userid_consts)

text \<open>Two authorised users, or two identities of one user, never share a kernel uid: on the
  ranges \<open>hsu\<close> admits, \<open>toUser\<close> does not wrap and is injective.\<close>

theorem toUser_injective:
  assumes "unat u1 \<le> useridEnd" "unat a1 \<le> identityEnd" "unat u2 \<le> useridEnd" "unat a2 \<le> identityEnd"
  shows "toUser u1 a1 = toUser u2 a2 \<longleftrightarrow> u1 = u2 \<and> a1 = a2"
proof
  assume "toUser u1 a1 = toUser u2 a2"
  then have e: "unat u1 * 100000 + unat a1 = unat u2 * 100000 + unat a2"
    using unat_toUser [OF assms(1,2)] unat_toUser [OF assms(3,4)] by simp
  have a: "unat a1 < 100000" "unat a2 < 100000" using assms by (simp_all add: userid_consts)
  have "unat u1 = unat u2"
    using arg_cong [OF e, of "\<lambda>x. x div 100000"] a by simp
  moreover have "unat a1 = unat a2"
    using arg_cong [OF e, of "\<lambda>x. x mod 100000"] a by simp
  ultimately show "u1 = u2 \<and> a1 = a2" by (simp only: unsigned_word_eqI)
qed simp

theorem toUser_injective_witness:
  "unat (0 :: u32) \<le> useridEnd \<and> unat (9 :: u32) \<le> identityEnd \<and> unat (1 :: u32) \<le> useridEnd \<and>
   (toUser 0 9 = toUser 1 9 \<longleftrightarrow> (0 :: u32) = 1 \<and> (9 :: u32) = 9)"
proof -
  have h: "unat (0 :: u32) \<le> useridEnd" "unat (9 :: u32) \<le> identityEnd" "unat (1 :: u32) \<le> useridEnd"
    by (simp_all add: userid_consts)
  show ?thesis using h toUser_injective [OF h(1) h(2) h(3) h(2)] by blast
qed

subsection \<open>Properties of the privilege drop\<close>

lemma hsu_calls_prefix: "hsu_calls e cs = (tr, r) \<Longrightarrow> prefix tr (map fst cs)"
  by (induction cs arbitrary: tr r rule: hsu_calls.induct)
    (auto split: option.splits prod.splits)

lemma hsu_calls_Executed: "hsu_calls e cs = (tr, Executed) \<Longrightarrow> tr = map fst cs"
  by (induction cs arbitrary: tr rule: hsu_calls.induct)
    (auto split: option.splits prod.splits)

lemma hsu_checks_Ret:
  "hsu_checks e = Ret p \<Longrightarrow>
     Geteuid e = 0 \<and> Getuid e \<noteq> 0 \<and> p = hakureiPath e \<and>
     Readlink e (path_Join [''/proc'', Itoa (Getppid e), ''exe'']) = Inr (hakureiPath e) \<and>
     (\<exists>st. Stat e hsuConfPath = Inr st \<and> st_perm st = 256 \<and> st_uid st = 0 \<and> st_gid st = 0)"
  unfolding hsu_checks_def by (auto split: if_splits sum.splits)

lemma mustParseConfig_Ret:
  "mustParseConfig e puid = Ret userid \<Longrightarrow>
     \<exists>f. Open e hsuConfPath = Inr f \<and> parseConfig f (word_of_int puid) = (userid, True, None)"
  unfolding mustParseConfig_def by (auto split: if_splits sum.splits prod.splits option.splits)

lemma mustReadIdentity_Ret: "mustReadIdentity e = Ret a \<Longrightarrow> unat a \<le> identityEnd"
proof -
  assume "mustReadIdentity e = Ret a"
  then have "\<not> of_nat identityEnd < a"
    unfolding mustReadIdentity_def by (auto split: if_splits go.splits option.splits)
  moreover have "unat (of_nat identityEnd :: u32) = identityEnd"
    by (simp add: hsu_consts)
  ultimately show ?thesis by (simp add: word_less_nat_alt)
qed

lemma hsu_groups_Ret:
  assumes "hsu_groups e uid = Ret gs"
  shows "last gs = uid \<and>
    set (butlast gs) \<subseteq> {g. \<exists>cur. Getgroups e = Inr cur \<and> g \<in> set cur \<and> 0 < g \<and> g \<noteq> Getgid e}"
proof (cases "LookupEnv e envGroups")
  case None
  with assms show ?thesis by (auto simp: hsu_groups_def)
next
  case (Some s)
  with assms obtain cur supp where g: "Getgroups e = Inr cur" "gs = supp @ [uid]"
    and "mapM_go (hsu_group e uid cur) (Split CHR '' '' s) = Ret supp"
    by (auto simp: hsu_groups_def split: sum.splits)
  then have "list_all2 (\<lambda>x y. hsu_group e uid cur x = Ret y) (Split CHR '' '' s) supp"
    by (simp add: mapM_go_Ret_iff)
  then have "\<exists>x. hsu_group e uid cur x = Ret y" if "y \<in> set supp" for y
    using that by (auto simp: list_all2_conv_all_nth in_set_conv_nth)
  then show ?thesis
    using g by (fastforce simp: hsu_group_def split: go.splits if_splits)
qed

text \<open>C1: whenever \<open>hsu\<close> makes a privileged call, it was started setuid root by the configured
  hakurei executable on behalf of a user the protected configuration authorises, and the
  calls are, in this order and with no call left out before another, the change of the group
  id, of the supplementary groups, of the user id, the no_new_privs flag and the shim: all
  with the one uid of that user and a valid identity, and with no supplementary group the
  caller is not already in.\<close>

theorem hsu_main_privilege_drop:
  assumes "hsu_main e = (tr, r)" and "tr \<noteq> []"
  shows "Geteuid e = 0 \<and> Getuid e \<noteq> 0 \<and>
    Readlink e (path_Join [''/proc'', Itoa (Getppid e), ''exe'']) = Inr (hakureiPath e) \<and>
    (\<exists>st. Stat e hsuConfPath = Inr st \<and> st_perm st = 256 \<and> st_uid st = 0 \<and> st_gid st = 0) \<and>
    (\<exists>f userid identity uid gs fd.
       Open e hsuConfPath = Inr f \<and>
       parseConfig f (word_of_int (Getuid e)) = (userid, True, None) \<and>
       unat identity \<le> identityEnd \<and>
       uid = uint (toUser userid identity) \<and> uidStart \<le> uid \<and> uid < uidEnd \<and>
       last gs = uid \<and>
       set (butlast gs) \<subseteq> {g. \<exists>cur. Getgroups e = Inr cur \<and> g \<in> set cur \<and> 0 < g \<and> g \<noteq> Getgid e} \<and>
       prefix tr [Setresgid uid uid uid, Setgroups gs, Setresuid uid uid uid, SetNoNewPrivs,
         Exec (hakureiPath e) [''hakurei'', ''shim''] [envShim @ ''='' @ fd]] \<and>
       (r = Executed \<longrightarrow> length tr = 5))"
proof -
  obtain p userid fd identity gs where
    c: "hsu_checks e = Ret p" "mustParseConfig e (Getuid e) = Ret userid"
      "mustReadIdentity e = Ret identity"
    and b: "\<not> uint (toUser userid identity) < uidStart" "\<not> uidEnd \<le> uint (toUser userid identity)"
    and g: "hsu_groups e (uint (toUser userid identity)) = Ret gs"
    and tr: "hsu_calls e (hsu_drop (uint (toUser userid identity)) gs p fd) = (tr, r)"
    using assms unfolding hsu_main_def
    by (auto split: go.splits if_splits simp: Let_def)
  let ?uid = "uint (toUser userid identity)"
  obtain f where f: "Open e hsuConfPath = Inr f"
    "parseConfig f (word_of_int (Getuid e)) = (userid, True, None)"
    using mustParseConfig_Ret [OF c(2)] by auto
  have ex: "r = Executed \<longrightarrow> length tr = 5"
  proof
    assume "r = Executed"
    with tr have "tr = map fst (hsu_drop ?uid gs p fd)" by (auto dest: hsu_calls_Executed)
    then show "length tr = 5" by (simp add: hsu_drop_def)
  qed
  have "prefix tr [Setresgid ?uid ?uid ?uid, Setgroups gs, Setresuid ?uid ?uid ?uid, SetNoNewPrivs,
         Exec (hakureiPath e) [''hakurei'', ''shim''] [envShim @ ''='' @ fd]]"
    using hsu_calls_prefix [OF tr] hsu_checks_Ret [OF c(1)] by (simp add: hsu_drop_def)
  with hsu_checks_Ret [OF c(1)] mustReadIdentity_Ret [OF c(3)] hsu_groups_Ret [OF g] b f ex
  show ?thesis by (auto simp: not_less not_le)
qed

text \<open>A process that passes every check, for given configuration lines and identity.\<close>

definition hsu_sample :: "string list \<Rightarrow> string \<Rightarrow> hsu_env" where
  "hsu_sample ls ident =
     \<lparr> Geteuid = 0, Getegid = 100, Getgid = 100, Getuid = 1000, Getppid = 7,
       hakureiPath = ''/bin/hakurei'',
       Readlink = (\<lambda>_. Inr ''/bin/hakurei''),
       Stat = (\<lambda>_. Inr \<lparr>st_perm = 256, st_uid = 0, st_gid = 0\<rparr>),
       Open = (\<lambda>_. Inr (ls, None)), CloseErr = (\<lambda>_. None),
       LookupEnv = (\<lambda>k. if k = envShim then Some ''3'' else if k = envIdentity then Some ident
                    else if k = envGroups then Some ''27'' else None),
       Getgroups = Inr [100, 27], syscall_err = (\<lambda>_. None) \<rparr>"

lemma hsu_sample_runs:
  "hsu_main (hsu_sample [''1000 0''] ''9'') =
     ([Setresgid 10009 10009 10009, Setgroups [27, 10009], Setresuid 10009 10009 10009, SetNoNewPrivs,
       Exec ''/bin/hakurei'' [''hakurei'', ''shim''] [''HAKUREI_SHIM=3'']], Executed)"
proof -
  let ?e = "hsu_sample [''1000 0''] ''9''"
  have "hsu_checks ?e = Ret ''/bin/hakurei''"
    by (simp add: hsu_checks_def hsu_sample_def HasSuffix_def slash_def)
  moreover have "mustParseConfig ?e (Getuid ?e) = Ret 0"
    by (simp add: mustParseConfig_def hsu_sample_def parseConfig_def parseConfig_loop.simps(2)
        SplitN_2 parseUint32Fast_def userid_consts)
  moreover have "hsu_setup_fd ?e 0 = Ret ''3''"
    by (simp add: hsu_setup_fd_def hsu_sample_def)
  moreover have "mustReadIdentity ?e = Ret 9"
    by (simp add: mustReadIdentity_def hsu_sample_def envShim_def envIdentity_def
        parseUint32Fast_def hsu_consts)
  moreover have "hsu_groups ?e 10009 = Ret [27, 10009]"
    by (simp add: hsu_groups_def hsu_sample_def hsu_group_def envShim_def envIdentity_def
        envGroups_def Atoi_def ParseUint_def digit_val_def)
  ultimately show ?thesis
    by (simp add: hsu_main_def toUser_def hsu_consts uidStart_def uidEnd_def hsu_drop_def)
      (simp add: hsu_sample_def envShim_def)
qed

theorem hsu_main_privilege_drop_witness:
  "\<exists>uid gs fd. uidStart \<le> uid \<and> uid < uidEnd \<and> last gs = uid \<and>
     prefix (fst (hsu_main (hsu_sample [''1000 0''] ''9'')))
       [Setresgid uid uid uid, Setgroups gs, Setresuid uid uid uid, SetNoNewPrivs,
        Exec (hakureiPath (hsu_sample [''1000 0''] ''9'')) [''hakurei'', ''shim''] [envShim @ ''='' @ fd]]"
  unfolding hsu_sample_runs fst_conv
  using hsu_main_privilege_drop [OF hsu_sample_runs list.distinct(2)]
  by (elim conjE exE) (intro exI conjI)

lemma toUser_last:
  assumes "unat userid \<le> useridEnd" "unat identity \<le> identityEnd"
  shows "uint (toUser userid identity) < uidStart \<or> uidEnd \<le> uint (toUser userid identity) \<longleftrightarrow>
    userid = of_nat useridEnd \<and> identity = of_nat identityEnd"
proof -
  have b: "unat userid \<le> 9999" "unat identity \<le> 9999"
    using assms by (simp_all add: userid_consts)
  define m k where "m = unat userid" and "k = unat identity"
  have "uint (toUser userid identity) = int (m * 100000 + 10000 + k)"
    unfolding m_def k_def uint_nat using unat_toUser [OF assms] by (simp only:)
  moreover have "m \<le> 9999" "k \<le> 9999" using b by (simp_all add: m_def k_def)
  ultimately have "uint (toUser userid identity) < uidStart \<or> uidEnd \<le> uint (toUser userid identity) \<longleftrightarrow>
      m = 9999 \<and> k = 9999"
    by (simp add: uidStart_def uidEnd_def) arith
  also have "\<dots> \<longleftrightarrow> userid = 9999 \<and> identity = 9999"
    by (auto simp: m_def k_def intro!: unsigned_word_eqI [where ?'a = nat])
  finally show ?thesis by (simp add: userid_consts)
qed

lemma mapM_go_Fail: "mapM_go f xs = Fail x \<Longrightarrow> \<exists>y. f y = Fail x"
  by (induction xs) (auto simp: bind_go_Fail_iff)

lemma mapM_go_Panic: "mapM_go f xs = Panic m \<Longrightarrow> \<exists>y. f y = Panic m"
proof (induction xs)
  case (Cons x xs)
  then show ?case by (cases "f x"; cases "mapM_go f xs") auto
qed simp

text \<open>No other step ends with this panic.\<close>

lemma hsu_no_bounds_panic:
  "hsu_checks e \<noteq> Fail (PanicEnd m)" "hsu_checks e \<noteq> Panic m"
  "mustParseConfig e puid \<noteq> Fail (PanicEnd m)" "mustParseConfig e puid \<noteq> Panic m"
  "hsu_setup_fd e u \<noteq> Fail (PanicEnd m)" "hsu_setup_fd e u \<noteq> Panic m"
  "mustReadIdentity e \<noteq> Fail (PanicEnd m)" "mustReadIdentity e \<noteq> Panic m"
  "hsu_groups e uid \<noteq> Fail (PanicEnd m)" "hsu_groups e uid \<noteq> Panic m"
  "hsu_calls e (hsu_drop uid gs p fd) \<noteq> ([], x)"
  subgoal by (auto simp: hsu_checks_def split: sum.splits)
  subgoal by (auto simp: hsu_checks_def split: sum.splits)
  subgoal by (auto simp: mustParseConfig_def split: sum.splits option.splits prod.splits)
  subgoal by (auto simp: mustParseConfig_def split: sum.splits option.splits prod.splits)
  subgoal by (auto simp: hsu_setup_fd_def split: option.splits list.splits)
  subgoal by (auto simp: hsu_setup_fd_def split: option.splits list.splits)
  subgoal by (auto simp: mustReadIdentity_def split: option.splits go.splits)
  subgoal by (auto simp: mustReadIdentity_def split: option.splits go.splits)
  subgoal by (auto simp: hsu_groups_def hsu_group_def bind_go_Fail_iff split: option.splits sum.splits go.splits
        if_splits dest!: mapM_go_Fail)
  subgoal by (cases "LookupEnv e envGroups"; cases "Getgroups e")
      (auto simp: hsu_groups_def hsu_group_def bind_go_Panic_iff split: go.splits if_splits dest!: mapM_go_Panic)
  subgoal by (simp add: hsu_drop_def split: option.splits prod.splits)
  done

text \<open>C38: the final bounds check, which means to catch bugs, rejects exactly one
  combination that passed all the others: the last identity of the last userid, whose uid is
  the one the source names \<open>last possible uid outcome\<close>.\<close>

theorem hsu_main_panics_iff:
  "hsu_main e = ([], PanicEnd ''uid out of bounds'') \<longleftrightarrow>
     (\<exists>p fd. hsu_checks e = Ret p \<and> mustParseConfig e (Getuid e) = Ret (of_nat useridEnd) \<and>
       hsu_setup_fd e (of_nat useridEnd) = Ret fd \<and> mustReadIdentity e = Ret (of_nat identityEnd))"
  (is "?L \<longleftrightarrow> ?R")
proof -
  have "?L \<longleftrightarrow> (\<exists>p userid fd identity. hsu_checks e = Ret p \<and> mustParseConfig e (Getuid e) = Ret userid \<and>
      hsu_setup_fd e userid = Ret fd \<and> mustReadIdentity e = Ret identity \<and>
      (uint (toUser userid identity) < uidStart \<or> uidEnd \<le> uint (toUser userid identity)))"
    using hsu_no_bounds_panic unfolding hsu_main_def Let_def
    by (auto simp: bind_go_Fail_iff bind_go_Panic_iff split: go.splits if_splits)
  also have "\<dots> \<longleftrightarrow> ?R"
  proof -
    have "(uint (toUser u a) < uidStart \<or> uidEnd \<le> uint (toUser u a)) \<longleftrightarrow>
        u = of_nat useridEnd \<and> a = of_nat identityEnd"
      if "mustParseConfig e (Getuid e) = Ret u" "mustReadIdentity e = Ret a" for u a
      using that by (intro toUser_last) (auto dest: mustParseConfig_Ret mustReadIdentity_Ret parseConfig_userid)
    then show ?thesis by blast
  qed
  finally show ?thesis .
qed

end
