(* ===== verification/Hst_Config.thy ===== *)
theory Hst_Config
  imports Hst_Fs Dbus
begin

text \<open>
  The configuration of a container: \<open>hst/config.go\<close> with \<open>Validate\<close>, \<open>hst/container.go\<close> with
  the flags, the control group pathnames and the JSON adapter, and \<open>AppError\<close> of \<open>hst/hst.go\<close>.
  Maps are association lists in the order an iteration visits them.
\<close>

subsection \<open>hst.go\<close>

datatype cfg_error =
  ErrConfigNull | ErrIdentityBounds | ErrEnviron | ErrCgroupPath | CfgEINVAL | OtherCfg string

datatype AppError = AppError (ae_Step: string) (ae_Err: cfg_error) (ae_Msg: string)

text \<open>\<open>text\<close> is the \<open>Error\<close> method of the wrapped error, \<open>named\<close> whether it is of a type that names its
  operation.\<close>

definition AppError_Message :: "(cfg_error \<Rightarrow> string) \<Rightarrow> (cfg_error \<Rightarrow> bool) \<Rightarrow> AppError \<Rightarrow> string" where
  "AppError_Message text named e =
     (if ae_Msg e \<noteq> [] then ae_Msg e
      else if named (ae_Err e) then ''cannot '' @ text (ae_Err e)
      else ''cannot '' @ ae_Step e @ '': '' @ text (ae_Err e))"

subsection \<open>container.go: flags\<close>

type_synonym Flags = u64

definition FMultiarch :: Flags where "FMultiarch = push_bit 0 1"
definition FSeccompCompat :: Flags where "FSeccompCompat = push_bit 1 1"
definition FDevel :: Flags where "FDevel = push_bit 2 1"
definition FUserns :: Flags where "FUserns = push_bit 3 1"
definition FHostNet :: Flags where "FHostNet = push_bit 4 1"
definition FHostAbstract :: Flags where "FHostAbstract = push_bit 5 1"
definition FTty :: Flags where "FTty = push_bit 6 1"
definition FMapRealUID :: Flags where "FMapRealUID = push_bit 7 1"
definition FDevice :: Flags where "FDevice = push_bit 8 1"
definition FShareRuntime :: Flags where "FShareRuntime = push_bit 9 1"
definition FShareTmpdir :: Flags where "FShareTmpdir = push_bit 10 1"
definition fMax :: Flags where "fMax = push_bit 11 1"
definition FAll :: Flags where "FAll = fMax - 1"

lemmas flag_bits = FMultiarch_def FSeccompCompat_def FDevel_def FUserns_def FHostNet_def
  FHostAbstract_def FTty_def FMapRealUID_def FDevice_def FShareRuntime_def FShareTmpdir_def

text \<open>The flags below \<open>fMax\<close> in the order of the loop, with the names of the switch.\<close>

definition flag_names :: "(Flags \<times> string) list" where
  "flag_names =
     [(FMultiarch, ''multiarch''), (FSeccompCompat, ''compat''), (FDevel, ''devel''), (FUserns, ''userns''),
      (FHostNet, ''net''), (FHostAbstract, ''abstract''), (FTty, ''tty''), (FMapRealUID, ''mapuid''),
      (FDevice, ''device''), (FShareRuntime, ''runtime''), (FShareTmpdir, ''tmpdir'')]"

definition Flags_String :: "Flags \<Rightarrow> string" where
  "Flags_String flags =
     (case map_of flag_names flags of
        Some s \<Rightarrow> s
      | None \<Rightarrow>
          (let s = map snd (filter (\<lambda>(f, _). flags AND f \<noteq> 0) flag_names) in
           if s = [] then ''none'' else Join s '', ''))"

subsection \<open>container.go: configuration\<close>

record CgroupConfig =
  cc_Slice :: string
  cc_LimitCPU :: u64
  cc_LimitMemory :: u64
  cc_LimitPids :: int

record ContainerConfig =
  c_Hostname :: string
  c_WaitDelay :: int
  c_Env :: "(string \<times> string) list"
  c_Filesystem :: "FilesystemConfig option list"
  c_Username :: string
  c_Shell :: "absolute option"
  c_Home :: "absolute option"
  c_Path :: "absolute option"
  c_Args :: "string list"
  c_Flags :: Flags
  c_Cgroup :: "CgroupConfig option"

definition CgroupRoot :: string where "CgroupRoot = ''/sys/fs/cgroup''"
definition defaultCgroupSlice :: string where "defaultCgroupSlice = CgroupRoot @ ''/hakurei.slice''"

definition slicePath :: "CgroupConfig \<Rightarrow> (cfg_error, absolute) go" where
  "slicePath c =
     (let base = (if cc_Slice c = [] then defaultCgroupSlice else cc_Slice c);
          base = (if \<not> IsAbs base then path_Join [CgroupRoot, base] else base);
          cleaned = Clean base in
      case NewAbs cleaned of Ret a \<Rightarrow> Ret a | Fail _ \<Rightarrow> Fail ErrCgroupPath | Panic m \<Rightarrow> Panic m)"

definition SlicePath :: "CgroupConfig option \<Rightarrow> (cfg_error, absolute) go" where
  "SlicePath c = (case c of None \<Rightarrow> Fail CfgEINVAL | Some c \<Rightarrow> slicePath c)"

definition abs_append :: "absolute \<Rightarrow> string list \<Rightarrow> (cfg_error, absolute) go" where
  "abs_append a es = (case abs_Append a es of Ret b \<Rightarrow> Ret b | Panic m \<Rightarrow> Panic m | Fail (AbsoluteError p) \<Rightarrow> Panic p)"

definition instanceRoot :: "CgroupConfig \<Rightarrow> string \<Rightarrow> (cfg_error, absolute) go" where
  "instanceRoot c identity = bind_go (slicePath c) (\<lambda>slice. abs_append slice [''hakurei-'' @ identity])"

definition InstancePath :: "CgroupConfig option \<Rightarrow> string \<Rightarrow> ID option \<Rightarrow> (cfg_error, absolute) go" where
  "InstancePath c identity ident =
     (case (c, ident) of
        (Some c, Some a) \<Rightarrow> bind_go (instanceRoot c identity) (\<lambda>root. abs_append root [ID_String a])
      | _ \<Rightarrow> Fail CfgEINVAL)"

definition validation :: "cfg_error \<Rightarrow> string \<Rightarrow> AppError" where
  "validation err message = AppError ''validate configuration'' err message"

definition Cgroup_Validate :: "CgroupConfig option \<Rightarrow> (AppError, unit) go" where
  "Cgroup_Validate c =
     (case c of
        None \<Rightarrow> Ret ()
      | Some c \<Rightarrow>
          if cc_LimitPids c < 0 then Fail (validation CfgEINVAL ''cgroup limit pids cannot be negative'')
          else case slicePath c of
              Ret _ \<Rightarrow> Ret ()
            | Fail e \<Rightarrow> Fail (validation e ''invalid cgroup slice'')
            | Panic m \<Rightarrow> Panic m)"

definition validateCgroup :: "ContainerConfig \<Rightarrow> (AppError, unit) go" where
  "validateCgroup config = (case c_Cgroup config of None \<Rightarrow> Ret () | Some c \<Rightarrow> Cgroup_Validate (Some c))"

subsection \<open>config.go\<close>

record ExtraPermConfig =
  ep_Ensure :: bool
  ep_Path :: "absolute option"
  ep_Read :: bool
  ep_Write :: bool
  ep_Execute :: bool

definition ExtraPermConfig_String :: "ExtraPermConfig option \<Rightarrow> string" where
  "ExtraPermConfig_String e =
     (case e of
        None \<Rightarrow> ''<invalid>''
      | Some e \<Rightarrow>
          (case ep_Path e of
             None \<Rightarrow> ''<invalid>''
           | Some p \<Rightarrow>
               [if ep_Read e then CHR ''r'' else CHR ''-'', if ep_Write e then CHR ''w'' else CHR ''-'',
                if ep_Execute e then CHR ''x'' else CHR ''-'']
               @ (if ep_Ensure e then ''+'' else []) @ '':'' @ pathname p))"

record Config =
  cfg_ID :: string
  cfg_Enablements :: "Enablement option"
  cfg_SessionBus :: "BusConfig option"
  cfg_SystemBus :: "BusConfig option"
  cfg_DirectWayland :: bool
  cfg_ExtraPerms :: "ExtraPermConfig list"
  cfg_Identity :: int
  cfg_Groups :: "string list"
  cfg_Container :: "ContainerConfig option"

datatype validate_error = InvalidConfig AppError | InvalidInterface BadInterfaceError

definition bad_env_key :: "string \<Rightarrow> bool" where
  "bad_env_key key \<longleftrightarrow> ContainsByte key CHR ''='' \<or> ContainsByte key CHR 0x00"

fun validate_env :: "(string \<Rightarrow> string) \<Rightarrow> (string \<times> string) list \<Rightarrow> (validate_error, unit) go" where
  "validate_env quote [] = Ret ()"
| "validate_env quote ((key, _) # env) =
     (if bad_env_key key
      then Fail (InvalidConfig (validation ErrEnviron (''invalid environment variable '' @ quote key)))
      else validate_env quote env)"

definition validate_bus :: "BusConfig option \<Rightarrow> string \<Rightarrow> (validate_error, unit) go" where
  "validate_bus c segment =
     (case CheckInterfaces c segment of None \<Rightarrow> Ret () | Some e \<Rightarrow> Fail (InvalidInterface e))"

definition validate_nonnil :: "'a option \<Rightarrow> string \<Rightarrow> (validate_error, 'a) go" where
  "validate_nonnil x message =
     (case x of None \<Rightarrow> Fail (InvalidConfig (validation ErrConfigNull message)) | Some y \<Rightarrow> Ret y)"

definition lift_app :: "(AppError, 'a) go \<Rightarrow> (validate_error, 'a) go" where
  "lift_app r = (case r of Ret x \<Rightarrow> Ret x | Fail e \<Rightarrow> Fail (InvalidConfig e) | Panic m \<Rightarrow> Panic m)"

definition Config_Validate :: "(string \<Rightarrow> string) \<Rightarrow> Config option \<Rightarrow> (validate_error, unit) go" where
  "Config_Validate quote config =
     bind_go (validate_nonnil config ''invalid configuration'') (\<lambda>config.
     if cfg_Identity config < int (unat IdentityStart) \<or> int (unat IdentityEnd) < cfg_Identity config
     then Fail (InvalidConfig (validation ErrIdentityBounds (''identity '' @ Itoa (cfg_Identity config) @ '' out of range'')))
     else
       bind_go (validate_bus (cfg_SessionBus config) ''session'') (\<lambda>_.
       bind_go (validate_bus (cfg_SystemBus config) ''system'') (\<lambda>_.
       bind_go (validate_nonnil (cfg_Container config) ''configuration missing container state'') (\<lambda>container.
       bind_go (validate_nonnil (c_Home container) ''container configuration missing path to home directory'') (\<lambda>_.
       bind_go (validate_nonnil (c_Shell container) ''container configuration missing path to shell'') (\<lambda>_.
       bind_go (validate_nonnil (c_Path container) ''container configuration missing path to initial program'') (\<lambda>_.
       bind_go (lift_app (validateCgroup container)) (\<lambda>_.
         validate_env quote (c_Env container)))))))))"

subsection \<open>Control group pathnames\<close>

lemma slicePath_Ret: "\<exists>bs. list_all plain bs \<and> slicePath c = Ret (Absolute (render_path True bs))"
proof -
  have "IsAbs CgroupRoot" "IsAbs defaultCgroupSlice"
    by (simp_all add: CgroupRoot_def defaultCgroupSlice_def slash_def)
  moreover obtain base where b: "base = (if cc_Slice c = [] then defaultCgroupSlice else cc_Slice c)" by simp
  ultimately have "IsAbs (if \<not> IsAbs base then path_Join [CgroupRoot, base] else base)" (is "IsAbs ?p")
    using IsAbs_path_Join [of CgroupRoot "[base]"] by (simp del: IsAbs_iff)
  from clean_abs_Clean [OF this] obtain bs where bs: "list_all plain bs" "Clean ?p = render_path True bs"
    by (auto simp: clean_abs_def)
  moreover have "NewAbs (render_path True bs) = Ret (Absolute (render_path True bs))"
    by (simp add: NewAbs_def unsafeAbs_def render_path_def)
  ultimately show ?thesis by (auto simp: slicePath_def b [symmetric] Let_def simp del: IsAbs_iff)
qed

lemma abs_append_plain:
  assumes "list_all plain bs" "plain w"
  shows "abs_append (Absolute (render_path True bs)) [w] = Ret (Absolute (render_path True (bs @ [w])))"
proof -
  have "wf_abs (Absolute (render_path True bs))" by (simp add: wf_abs_def render_path_def)
  from abs_Append_wf [OF this] path_Join_plain [OF assms] show ?thesis
    by (simp add: abs_append_def)
qed

lemma plain_instance: "slash \<notin> set identity \<Longrightarrow> plain (''hakurei-'' @ identity)"
  by (simp add: plain_def slash_def)

lemma hex_encode_chars: "c \<in> set (hex_encode s) \<Longrightarrow> c \<noteq> slash \<and> c \<noteq> CHR ''.''"
proof (induction s)
  case (Cons x s)
  have "digit_char d \<noteq> slash \<and> digit_char d \<noteq> CHR ''.''" if "d < 16" for d
    using hex_val_digit_char [OF that] by (auto simp: slash_def hex_val_def digit_val_def)
  moreover have "(of_char x :: nat) div 16 < 16"
    using of_char_less_256 [of x] by (simp add: less_mult_imp_div_less)
  ultimately show ?case using Cons by auto
qed simp

lemma plain_ID: "a \<noteq> [] \<Longrightarrow> plain (ID_String a)"
  using hex_encode_chars [of _ a] by (cases a) (auto simp: plain_def ID_String_def)

text \<open>The control group of an instance is two components below the slice, named after its identity and
  its identifier, whatever slice is configured; resolving the slice never fails.\<close>

lemma instance_paths:
  assumes "slash \<notin> set identity" "a \<noteq> []"
  shows "\<exists>bs. list_all plain bs \<and> SlicePath (Some c) = Ret (Absolute (render_path True bs)) \<and>
    InstancePath (Some c) identity (Some a) =
      Ret (Absolute (render_path True (bs @ [''hakurei-'' @ identity, ID_String a]))) \<and>
    list_all plain [''hakurei-'' @ identity, ID_String a]"
proof -
  obtain bs where bs: "list_all plain bs" "slicePath c = Ret (Absolute (render_path True bs))"
    using slicePath_Ret [of c] by blast
  have w: "plain (''hakurei-'' @ identity)" "plain (ID_String a)"
    using plain_instance [OF assms(1)] plain_ID [OF assms(2)] by blast+
  have "list_all plain (bs @ [''hakurei-'' @ identity])" using bs(1) w(1) by simp
  from abs_append_plain [OF bs(1) w(1)] abs_append_plain [OF this w(2)] bs w show ?thesis
    by (intro exI [of _ bs]) (simp add: SlicePath_def InstancePath_def instanceRoot_def)
qed

text \<open>A relative slice is not confined to the root of the control group hierarchy, and the error that
  documents a slice outside of the filesystem root is never returned.\<close>

theorem SlicePath_escapes:
  "SlicePath (Some \<lparr>cc_Slice = ''../../../etc'', cc_LimitCPU = 0, cc_LimitMemory = 0, cc_LimitPids = 0\<rparr>) =
     Ret (Absolute ''/etc'') \<and> SlicePath (Some c) \<noteq> Fail ErrCgroupPath"
proof
  show "SlicePath (Some \<lparr>cc_Slice = ''../../../etc'', cc_LimitCPU = 0, cc_LimitMemory = 0, cc_LimitPids = 0\<rparr>) =
     Ret (Absolute ''/etc'')"
    by (simp add: SlicePath_def slicePath_def CgroupRoot_def path_Join_def Clean_def comps_def clean_list_def
        render_path_def slash_def Let_def NewAbs_def unsafeAbs_def)
  show "SlicePath (Some c) \<noteq> Fail ErrCgroupPath"
    using slicePath_Ret [of c] by (auto simp: SlicePath_def)
qed

subsection \<open>Validation\<close>

lemma validate_env_Ret: "validate_env quote env = Ret () \<longleftrightarrow> list_all (\<lambda>(key, _). \<not> bad_env_key key) env"
  by (induction quote env rule: validate_env.induct) auto

lemma validate_bus_Ret: "validate_bus c segment = Ret () \<longleftrightarrow> list_all good_interface (Interfaces c)"
  by (auto simp: validate_bus_def CheckInterfaces_None split: option.splits)
     (metis CheckInterfaces_None option.distinct(1))

lemma validate_nonnil_Ret: "validate_nonnil x m = Ret y \<longleftrightarrow> x = Some y"
  by (simp add: validate_nonnil_def split: option.splits)

lemma validateCgroup_Ret:
  "lift_app (validateCgroup c) = Ret () \<longleftrightarrow> (case c_Cgroup c of None \<Rightarrow> True | Some g \<Rightarrow> 0 \<le> cc_LimitPids g)"
  using slicePath_Ret
  by (auto simp: lift_app_def validateCgroup_def Cgroup_Validate_def split: option.splits)
     (metis go.simps(10))

lemma validate_no_panic:
  "no_panic (validate_env quote env)" "no_panic (validate_bus c segment)" "no_panic (validate_nonnil x m)"
  "no_panic (lift_app (validateCgroup cc))"
proof -
  show "no_panic (validate_env quote env)" by (induction quote env rule: validate_env.induct) auto
  show "no_panic (validate_bus c segment)" "no_panic (validate_nonnil x m)"
    by (auto simp: validate_bus_def validate_nonnil_def split: option.splits)
  show "no_panic (lift_app (validateCgroup cc))"
    using slicePath_Ret
    by (auto simp: lift_app_def validateCgroup_def Cgroup_Validate_def split: option.splits go.splits)
       (metis go.distinct(3))
qed

definition container_ok :: "ContainerConfig \<Rightarrow> bool" where
  "container_ok c \<longleftrightarrow>
     c_Home c \<noteq> None \<and> c_Shell c \<noteq> None \<and> c_Path c \<noteq> None \<and>
     (case c_Cgroup c of None \<Rightarrow> True | Some g \<Rightarrow> 0 \<le> cc_LimitPids g) \<and>
     list_all (\<lambda>(key, _). \<not> bad_env_key key) (c_Env c)"

lemma identity_ends: "uint IdentityStart = 0" "uint IdentityEnd = 9999"
  by (simp_all add: uid_ranges)

lemma Config_Validate_identity:
  "Config_Validate quote (Some c) = Ret () \<Longrightarrow> 0 \<le> cfg_Identity c \<and> cfg_Identity c \<le> 9999"
  by (auto simp: Config_Validate_def validate_nonnil_def identity_ends split: if_splits)

lemma Config_Validate_Ret:
  "Config_Validate quote config = Ret () \<longleftrightarrow>
     (case config of
        None \<Rightarrow> False
      | Some c \<Rightarrow>
          0 \<le> cfg_Identity c \<and> cfg_Identity c \<le> 9999 \<and>
          list_all good_interface (Interfaces (cfg_SessionBus c) @ Interfaces (cfg_SystemBus c)) \<and>
          (case cfg_Container c of None \<Rightarrow> False | Some cc \<Rightarrow> container_ok cc))"
proof (cases config)
  case (Some c)
  then show ?thesis
    by (cases "cfg_Container c")
      (auto simp: Config_Validate_def identity_ends validate_nonnil_Ret validate_bus_Ret validateCgroup_Ret validate_env_Ret
        container_ok_def)
qed (simp add: Config_Validate_def validate_nonnil_def)

text \<open>C24: \<open>Validate\<close> accepts a configuration exactly when its identity is in the range \<open>hsu\<close> enforces, the
  bus names are well formed, the container has a home, a shell and a program, the pids limit is
  not negative and no environment key holds \<open>=\<close> or NUL; it never panics.\<close>

theorem Config_Validate_iff:
  "(Config_Validate quote config = Ret () \<longleftrightarrow>
     (case config of
        None \<Rightarrow> False
      | Some c \<Rightarrow>
          0 \<le> cfg_Identity c \<and> cfg_Identity c \<le> 9999 \<and>
          list_all good_interface (Interfaces (cfg_SessionBus c) @ Interfaces (cfg_SystemBus c)) \<and>
          (case cfg_Container c of None \<Rightarrow> False | Some cc \<Rightarrow> container_ok cc))) \<and>
   no_panic (Config_Validate quote config)"
proof
  show "no_panic (Config_Validate quote config)"
    unfolding Config_Validate_def by (intro no_panic_bind_go validate_no_panic no_panic_if) simp
qed (rule Config_Validate_Ret)

subsection \<open>The JSON adapter\<close>

text \<open>The Boolean fields of \<open>containerConfigJSON\<close>: key, flag and whether \<open>false\<close> is left out.\<close>

definition flag_keys :: "(string \<times> Flags \<times> bool) list" where
  "flag_keys =
     [(''seccomp_compat'', FSeccompCompat, True), (''devel'', FDevel, True), (''userns'', FUserns, True),
      (''host_net'', FHostNet, True), (''host_abstract'', FHostAbstract, True), (''tty'', FTty, True),
      (''multiarch'', FMultiarch, True), (''map_real_uid'', FMapRealUID, False), (''device'', FDevice, True),
      (''share_runtime'', FShareRuntime, True), (''share_tmpdir'', FShareTmpdir, True)]"

text \<open>The keys of the embedded \<open>*ContainerConfigF\<close>; its flags are not among them.\<close>

definition embedded_keys :: "string list" where
  "embedded_keys = [''hostname'', ''wait_delay'', ''env'', ''filesystem'', ''username'', ''shell'', ''home'', ''path'', ''args'', ''cgroup'']"

text \<open>The fields of the embedded struct are written and read by \<open>encoding/json\<close> (\<open>enc\<close>, \<open>dec\<close>).\<close>

definition flag_field :: "Flags \<Rightarrow> string \<times> Flags \<times> bool \<Rightarrow> (string \<times> json) list" where
  "flag_field flags kfo =
     (case kfo of (key, f, omit) \<Rightarrow>
        if flags AND f \<noteq> 0 then [(key, JBool True)] else if omit then [] else [(key, JBool False)])"

definition Container_MarshalJSON ::
  "(ContainerConfig \<Rightarrow> (string \<times> json) list) \<Rightarrow> ContainerConfig option \<Rightarrow> (json_error, json) go" where
  "Container_MarshalJSON enc c =
     (case c of
        None \<Rightarrow> Fail JSON_EINVAL
      | Some c \<Rightarrow> Ret (JObj (enc c @ concat (map (flag_field (c_Flags c)) flag_keys))))"

fun read_flags :: "(string \<times> json) list \<Rightarrow> (string \<times> Flags \<times> bool) list \<Rightarrow> Flags \<Rightarrow> (json_error, Flags) go" where
  "read_flags obj [] flags = Ret flags"
| "read_flags obj ((key, f, _) # ks) flags =
     bind_go (json_bool (json_fields key obj) False) (\<lambda>b. read_flags obj ks (if b then flags OR f else flags))"

text \<open>The decoder allocates the embedded pointer when it meets one of its keys; a document without any
  leaves it nil, as does \<open>null\<close>, and copying from it panics.\<close>

definition Container_UnmarshalJSON ::
  "((string \<times> json) list \<Rightarrow> (json_error, ContainerConfig) go) \<Rightarrow> ContainerConfig option \<Rightarrow> json \<Rightarrow> (json_error, ContainerConfig) go" where
  "Container_UnmarshalJSON dec c data =
     (case c of
        None \<Rightarrow> Fail JSON_EINVAL
      | Some _ \<Rightarrow>
          (case data of
             JNull \<Rightarrow> Panic ''nil pointer dereference''
           | JObj obj \<Rightarrow>
               bind_go (read_flags obj flag_keys 0) (\<lambda>flags.
               if \<not> list_ex (\<lambda>(k, _). list_ex (same_key k) embedded_keys) obj
               then Panic ''nil pointer dereference''
               else bind_go (dec obj) (\<lambda>v. Ret (v\<lparr>c_Flags := flags\<rparr>)))
           | _ \<Rightarrow> Fail (UnmarshalTypeError ''struct'')))"

lemma json_fields_flag_field:
  "json_fields key (flag_field flags (k, f, om)) =
     (if same_key k key then (if flags AND f \<noteq> 0 then [JBool True] else if om then [] else [JBool False]) else [])"
  by (simp add: flag_field_def json_fields_def)

lemma json_fields_concat: "json_fields key (concat xss) = concat (map (json_fields key) xss)"
  by (induction xss) (simp_all add: json_fields_append)

lemma flag_keys_lower: "list_all (\<lambda>(k, _). lower_key k) flag_keys"
  by (simp add: flag_keys_def lower_key_def fold_byte_def)

lemma flag_keys_distinct: "distinct (map fst flag_keys)"
  by (simp add: flag_keys_def)

lemma json_fields_flags:
  assumes "distinct (map fst ks)" "list_all (\<lambda>(k, _). lower_key k) ks" "(key, f, om) \<in> set ks"
  shows "json_fields key (concat (map (flag_field flags) ks)) = json_fields key (flag_field flags (key, f, om))"
  using assms
proof (induction ks)
  case (Cons kfo ks)
  obtain k f' om' where kfo: "kfo = (k, f', om')" by (cases kfo)
  show ?case
  proof (cases "k = key")
    case True
    with Cons.prems kfo have "f' = f" "om' = om" by (auto simp: rev_image_eqI)
    moreover have "json_fields key (flag_field flags x) = []" if "x \<in> set ks" for x
    proof -
      obtain k2 f2 om2 where x: "x = (k2, f2, om2)" by (rule prod_cases3)
      have "k2 \<noteq> key" "lower_key k2" "lower_key key"
        using that x Cons.prems True kfo by (auto simp: list_all_iff rev_image_eqI)
      then show ?thesis by (simp add: x json_fields_flag_field same_key_lower)
    qed
    ultimately show ?thesis
      using True kfo by (simp add: json_fields_append json_fields_concat)
  next
    case False
    have "lower_key k" "lower_key key" using Cons.prems kfo by (auto simp: list_all_iff)
    with False have "json_fields key (flag_field flags kfo) = []"
      by (simp add: kfo json_fields_flag_field same_key_lower)
    with False Cons kfo show ?thesis by (simp add: json_fields_append)
  qed
qed simp

lemma json_bool_flag:
  "json_bool (json_fields key (flag_field flags (key, f, om))) False = Ret (flags AND f \<noteq> 0)"
  by (simp add: json_fields_flag_field same_key_def)

lemma single_bit:
  "(if flags AND push_bit n 1 \<noteq> 0 then acc OR push_bit n 1 else acc) = acc OR (flags AND push_bit n (1 :: Flags))"
proof -
  have "flags AND push_bit n 1 = (if bit flags n then push_bit n 1 else 0)"
    by (rule bit_word_eqI) (auto simp: bit_simps)
  then show ?thesis by simp
qed

definition one_bit :: "Flags \<Rightarrow> bool" where
  "one_bit f \<longleftrightarrow> (\<exists>n. f = push_bit n 1)"

lemma read_flags_fields:
  assumes "\<And>key f om. (key, f, om) \<in> set ks \<Longrightarrow>
      json_fields key obj = json_fields key (flag_field flags (key, f, om))"
    and "\<And>key f om. (key, f, om) \<in> set ks \<Longrightarrow> one_bit f"
  shows "read_flags obj ks acc = Ret (acc OR (flags AND foldr (OR) (map (\<lambda>x. fst (snd x)) ks) 0))"
  using assms
proof (induction ks arbitrary: acc)
  case (Cons kfo ks)
  obtain key f om where kfo: "kfo = (key, f, om)" by (rule prod_cases3)
  obtain n where f: "f = push_bit n 1" using Cons.prems(2) [of key f om] kfo by (auto simp: one_bit_def)
  have "json_bool (json_fields key obj) False = Ret (flags AND f \<noteq> 0)"
    using Cons.prems(1) [of key f om] kfo json_bool_flag by simp
  moreover have "(if flags AND f \<noteq> 0 then acc OR f else acc) = acc OR (flags AND f)"
    unfolding f by (rule single_bit)
  moreover have "read_flags obj ks (acc OR (flags AND f)) =
      Ret ((acc OR (flags AND f)) OR (flags AND foldr (OR) (map (\<lambda>x. fst (snd x)) ks) 0))"
    using Cons.IH Cons.prems by (meson list.set_intros(2))
  ultimately show ?case
    by (simp add: kfo bit.conj_disj_distrib or.assoc)
qed simp

lemma flag_keys_all: "foldr (OR) (map (\<lambda>x. fst (snd x)) flag_keys) 0 = FAll"
  by (simp add: flag_keys_def flag_bits FAll_def fMax_def push_bit_eq_mult)

lemma one_bit_flags:
  "one_bit FMultiarch" "one_bit FSeccompCompat" "one_bit FDevel" "one_bit FUserns" "one_bit FHostNet"
  "one_bit FHostAbstract" "one_bit FTty" "one_bit FMapRealUID" "one_bit FDevice" "one_bit FShareRuntime"
  "one_bit FShareTmpdir"
  unfolding one_bit_def flag_bits by (rule exI, rule refl)+

lemma flag_keys_bits: "(key, f, om) \<in> set flag_keys \<Longrightarrow> one_bit f"
  using one_bit_flags by (auto simp: flag_keys_def)

text \<open>Reading back the JSON form of a container configuration gives the defined flags, and every other
  bit is dropped, when the embedded struct writes none of the keys of the flags and its own codec
  is faithful; but a document without any field of the embedded struct, such as \<open>{}\<close>, panics.\<close>

theorem Container_json_flags:
  assumes enc: "\<And>key f om. (key, f, om) \<in> set flag_keys \<Longrightarrow> json_fields key (enc c) = []"
    and emb: "list_ex (\<lambda>(k, _). list_ex (same_key k) embedded_keys) (enc c)"
    and dec: "\<And>fl. dec (enc c @ fl) = Ret (c\<lparr>c_Flags := 0\<rparr>)"
  shows "bind_go (Container_MarshalJSON enc (Some c)) (Container_UnmarshalJSON dec (Some c0)) =
      Ret (c\<lparr>c_Flags := c_Flags c AND FAll\<rparr>) \<and>
    Container_UnmarshalJSON dec (Some c0) (JObj []) = Panic ''nil pointer dereference''"
proof
  let ?obj = "enc c @ concat (map (flag_field (c_Flags c)) flag_keys)"
  have "read_flags ?obj flag_keys 0 = Ret (0 OR (c_Flags c AND foldr (OR) (map (\<lambda>x. fst (snd x)) flag_keys) 0))"
    using enc by (intro read_flags_fields flag_keys_bits)
      (auto simp: json_fields_append json_fields_flags [OF flag_keys_distinct flag_keys_lower])
  then show "bind_go (Container_MarshalJSON enc (Some c)) (Container_UnmarshalJSON dec (Some c0)) =
      Ret (c\<lparr>c_Flags := c_Flags c AND FAll\<rparr>)"
    using emb dec by (simp add: Container_MarshalJSON_def Container_UnmarshalJSON_def flag_keys_all)
  show "Container_UnmarshalJSON dec (Some c0) (JObj []) = Panic ''nil pointer dereference''"
  proof -
    have "read_flags [] ks fl = Ret fl" for ks fl by (induction ks arbitrary: fl) auto
    then show ?thesis by (simp add: Container_UnmarshalJSON_def)
  qed
qed

definition container0 :: ContainerConfig where
  "container0 = \<lparr>c_Hostname = ''h'', c_WaitDelay = 0, c_Env = [], c_Filesystem = [], c_Username = [], c_Shell = None,
     c_Home = None, c_Path = None, c_Args = [], c_Flags = 0xFFFF, c_Cgroup = None\<rparr>"

theorem Container_json_flags_witness:
  "bind_go (Container_MarshalJSON (\<lambda>_. [(''hostname'', JStr ''h'')]) (Some container0))
     (Container_UnmarshalJSON (\<lambda>_. Ret (container0\<lparr>c_Flags := 0\<rparr>)) (Some container0)) =
   Ret (container0\<lparr>c_Flags := 0xFFFF AND FAll\<rparr>)"
proof -
  have "lower_key ''hostname''" by (simp add: lower_key_def fold_byte_def)
  moreover have "\<not> List.member (map fst flag_keys) ''hostname''" by (simp add: flag_keys_def)
  ultimately have "json_fields key [(''hostname'', JStr ''h'')] = []" if "(key, f, om) \<in> set flag_keys" for key f om
    using that flag_keys_lower by (force simp: json_fields_Cons same_key_lower list_all_iff)
  moreover have "list_ex (\<lambda>(k, _). list_ex (same_key k) embedded_keys) [(''hostname'', JStr ''h'')]"
    by (simp add: embedded_keys_def same_key_def)
  ultimately show ?thesis
    using Container_json_flags [of "\<lambda>_. [(''hostname'', JStr ''h'')]" container0 "\<lambda>_. Ret (container0\<lparr>c_Flags := 0\<rparr>)" container0]
    by (simp add: container0_def)
qed

end
