(* ===== verification/Out_State.thy ===== *)
theory Out_State
  imports Sys_Commit Hst_Config
begin

text \<open>
  The state \<open>internal/outcome/outcome.go\<close> shares between the privileged process and the shim, with the
  environment it is made from: \<open>internal/env\<close>, \<open>internal/validate\<close> and \<open>hsu.go\<close>. The methods of
  \<open>syscallDispatcher\<close> are fields of the record \<open>outk\<close>; while a configuration is finalised they are only
  asked for information, so they are functions of their arguments. Verbose logging is left out.
\<close>

subsection \<open>The dispatcher\<close>

text \<open>Errors of the filesystem as far as the code tells them apart, and what \<open>stat\<close> gives.\<close>

datatype fs_err = FsNotExist | FsErr string

record FileInfo =
  fi_IsDir :: bool
  fi_Size :: int
  fi_Mode :: nat

text \<open>How running \<open>hsu\<close> without arguments ends: its output, an exit status, a missing file or another error.\<close>

datatype cmd_end = CmdOutput string | CmdExit int | CmdNotExist | CmdErr string

datatype group_err = UnknownGroup | GroupErr string

record outk =
  ok_lookupEnv :: "string \<Rightarrow> string option"
  ok_getpid :: int
  ok_getuid :: int
  ok_getgid :: int
  ok_overflowUid :: int
  ok_overflowGid :: int
  ok_tempdir :: string
  ok_stat :: "string \<Rightarrow> fs_err + FileInfo"
  ok_open :: "string \<Rightarrow> fs_err option"
  ok_read :: "string \<Rightarrow> string \<times> fs_err option"
  ok_close :: "string \<Rightarrow> fs_err option"
  ok_readdir :: "string \<Rightarrow> fs_err + string list"
  ok_evalSymlinks :: "string \<Rightarrow> fs_err + string"
  ok_lookupGroupId :: "string \<Rightarrow> group_err + string"
  ok_cmdOutput :: cmd_end
  ok_hsuPath :: string
  ok_dbusAddress :: "string \<times> string"
  ok_loginNameMax :: nat
  ok_verbose :: bool
  ok_quote :: "string \<Rightarrow> string"
  ok_modeString :: "nat \<Rightarrow> string"
  ok_errv :: errv

subsection \<open>Errors\<close>

text \<open>\<open>OFatal\<close> and \<open>OExit\<close> leave the process.\<close>

datatype out_error =
    NotEnabled | OApp AppError | OAddress BadAddressError | OBus OpError | OValidate validate_error
  | ENOTRECOVERABLE | OCfg cfg_error | OInvalidBuffer | OFatal string | OExit int

definition newWithMessageError :: "string \<Rightarrow> cfg_error \<Rightarrow> out_error" where
  "newWithMessageError msg err = OApp (AppError ''finalise'' err msg)"

definition newWithMessage :: "string \<Rightarrow> out_error" where
  "newWithMessage msg = newWithMessageError msg (OtherCfg ''invalid argument'')"

definition fs_cause :: "fs_err \<Rightarrow> cfg_error" where
  "fs_cause e = OtherCfg (case e of FsNotExist \<Rightarrow> ''file does not exist'' | FsErr m \<Rightarrow> m)"

definition stepError :: "string \<Rightarrow> cfg_error \<Rightarrow> out_error" where
  "stepError step err = OApp (AppError step err [])"

text \<open>Operations on checked pathnames do not return errors, they panic on the zero value.\<close>

definition lift_abs :: "(abs_error, 'a) go \<Rightarrow> ('e, 'a) go" where
  "lift_abs r = (case r of Ret x \<Rightarrow> Ret x | Panic m \<Rightarrow> Panic m | Fail (AbsoluteError p) \<Rightarrow> Panic p)"

definition nil_deref :: "('e, 'a) go" where
  "nil_deref = Panic ''invalid memory address or nil pointer dereference''"

fun deref :: "'a option \<Rightarrow> ('e, 'a) go" where
  "deref None = nil_deref"
| "deref (Some x) = Ret x"

definition append_path :: "absolute \<Rightarrow> string list \<Rightarrow> ('e, absolute) go" where
  "append_path a es = lift_abs (abs_Append a es)"

subsection \<open>internal/env\<close>

record env_Paths =
  e_TempDir :: "absolute option"
  e_RuntimePath :: "absolute option"

record hst_Paths =
  h_TempDir :: absolute
  h_SharePath :: absolute
  h_RuntimePath :: absolute
  h_RunDirPath :: absolute

definition Paths_Copy :: "env_Paths option \<Rightarrow> int \<Rightarrow> ('e, hst_Paths) go" where
  "Paths_Copy env userid =
     (case Option.bind env e_TempDir of
        None \<Rightarrow> Panic ''attempting to use an invalid Paths''
      | Some tempDir \<Rightarrow>
          bind_go (append_path tempDir [''hakurei.'' @ Itoa userid]) (\<lambda>sharePath.
          bind_go (case e_RuntimePath (the env) of
                     None \<Rightarrow> append_path sharePath [''compat'']
                   | Some a \<Rightarrow> Ret a) (\<lambda>runtimePath.
          bind_go (append_path runtimePath [''hakurei'']) (\<lambda>runDirPath.
            Ret \<lparr>h_TempDir = tempDir, h_SharePath = sharePath, h_RuntimePath = runtimePath, h_RunDirPath = runDirPath\<rparr>))))"

definition CopyPathsFunc :: "string \<Rightarrow> (string \<Rightarrow> string) \<Rightarrow> (out_error, env_Paths) go" where
  "CopyPathsFunc tempdir getenv =
     (case NewAbs tempdir of
        Ret tempDir \<Rightarrow>
          Ret \<lparr>e_TempDir = Some tempDir,
               e_RuntimePath = (case NewAbs (getenv ''XDG_RUNTIME_DIR'') of Ret a \<Rightarrow> Some a | _ \<Rightarrow> None)\<rparr>
      | _ \<Rightarrow> Fail (OFatal (''invalid TMPDIR: path '' @ tempdir @ '' is not absolute'')))"

subsection \<open>internal/validate\<close>

text \<open>\<open>filepath.Rel\<close> on rooted pathnames, the ones it is called with: what is left of the base after the
  common components is left upwards, then the rest of the target is entered.\<close>

fun strip_common :: "string list \<Rightarrow> string list \<Rightarrow> string list \<times> string list" where
  "strip_common (b # bs) (t # ts) = (if b = t then strip_common bs ts else (b # bs, t # ts))"
| "strip_common bs ts = (bs, ts)"

definition filepath_Rel :: "string \<Rightarrow> string \<Rightarrow> (string, string) go" where
  "filepath_Rel basepath targpath =
     (let base = Clean basepath; targ = Clean targpath in
      if targ = base then Ret ''.''
      else if IsAbs base \<noteq> IsAbs targ then
        Fail (''Rel: can'' @ [CHR 0x27] @ ''t make '' @ targpath @ '' relative to '' @ basepath)
      else
        (let (bs, ts) = strip_common (comps base) (comps targ) in
         Ret (Join (replicate (length bs) ''..'' @ ts) [slash])))"

definition DeepContainsH :: "string \<Rightarrow> string \<Rightarrow> (string, bool) go" where
  "DeepContainsH basepath targpath =
     bind_go (filepath_Rel basepath targpath) (\<lambda>rel. Ret (rel \<noteq> ''..'' \<and> \<not> HasPrefix rel ''../''))"

text \<open>The expression is compiled by \<open>MustCompilePOSIX\<close>, in which \<open>^\<close> and \<open>$\<close> match at the ends of every
  line, and \<open>MatchString\<close> looks for a match anywhere.\<close>

definition char_in :: "char \<times> char \<Rightarrow> char \<Rightarrow> bool" where
  "char_in r c = ((of_char (fst r) :: nat) \<le> of_char c \<and> (of_char c :: nat) \<le> of_char (snd r))"

definition name_head :: "char \<Rightarrow> bool" where
  "name_head c = list_ex (\<lambda>r. char_in r c) [(CHR ''a'', CHR ''z''), (CHR ''A'', CHR ''Z'')]"

definition name_tail :: "char \<Rightarrow> bool" where
  "name_tail c = (name_head c \<or> char_in (CHR ''0'', CHR ''9'') c \<or> List.member ''_-'' c)"

fun name_line :: "string \<Rightarrow> bool" where
  "name_line [] = False"
| "name_line (c # cs) = (name_head c \<and> list_all name_tail (if cs \<noteq> [] \<and> last cs = CHR ''$'' then butlast cs else cs))"

definition nameRegex_MatchString :: "string \<Rightarrow> bool" where
  "nameRegex_MatchString s = list_ex name_line (Split (CHR 0x0A) s)"

definition IsValidUsername :: "nat \<Rightarrow> string \<Rightarrow> bool" where
  "IsValidUsername loginNameMax username \<longleftrightarrow> length username < loginNameMax \<and> nameRegex_MatchString username"

subsection \<open>hsu.go\<close>

text \<open>\<open>Hsu\<close> caches the answer of the helper: \<^term>\<open>None\<close> until \<open>ID\<close> is called.\<close>

datatype hsu_error = HsuInvalid string | ErrHsuAccess | HsuMissing string | HsuErr string

type_synonym Hsu = "(int \<times> hsu_error option) option"

definition Hsu_ID :: "outk \<Rightarrow> Hsu \<Rightarrow> (int \<times> hsu_error option) \<times> Hsu" where
  "Hsu_ID k h =
     (case h of
        Some r \<Rightarrow> (r, h)
      | None \<Rightarrow>
          (let r = (case ok_cmdOutput k of
                      CmdOutput p \<Rightarrow>
                        (case Atoi p of
                           Ret n \<Rightarrow> (n, None)
                         | r \<Rightarrow> (if r \<noteq> Fail ErrRange then 0 else if HasPrefix p ''-'' then - (2 ^ 63) else 2 ^ 63 - 1,
                                  Some (HsuInvalid ''invalid uid string from hsu'')))
                    | CmdExit code \<Rightarrow> (-1, Some (if code = 1 then ErrHsuAccess else HsuErr (''exit status '' @ Itoa code)))
                    | CmdNotExist \<Rightarrow> (-1, Some (HsuMissing (''the setuid helper is missing: '' @ ok_hsuPath k)))
                    | CmdErr m \<Rightarrow> (-1, Some (HsuErr m)))
           in (r, Some r)))"

definition MustID :: "outk \<Rightarrow> Hsu \<Rightarrow> (out_error, int) go" where
  "MustID k h =
     (case Hsu_ID k h of
        ((n, None), _) \<Rightarrow> Ret n
      | ((_, Some ErrHsuAccess), _) \<Rightarrow> Fail (OExit 1)
      | ((_, Some (HsuInvalid m)), _) \<Rightarrow> Fail (OFatal m)
      | ((_, Some (HsuMissing m)), _) \<Rightarrow> Fail (OFatal m)
      | ((_, Some (HsuErr m)), _) \<Rightarrow> Fail (OFatal (''cannot retrieve user id from setuid wrapper: '' @ m)))"

subsection \<open>outcome.go: the state\<close>

text \<open>The operations of an outcome with the fields that are sent to the shim, in the order of the source files
  \<open>spcontainer.go\<close>, \<open>spcgroup.go\<close>, \<open>spruntime.go\<close>, \<open>sptmpdir.go\<close>, \<open>spaccount.go\<close>, \<open>spwayland.go\<close>, \<open>spx11.go\<close>,
  \<open>sppulse.go\<close>, \<open>spdbus.go\<close>. The cookie is the buffer and its size.\<close>

datatype outcomeOp =
    SpParams string bool
  | SpCgroup string
  | SpRuntime nat
  | SpTmpdir
  | SpAccount
  | SpWayland "absolute option"
  | SpX11 string
  | SpPulse "(string \<times> int) option"
  | SpDBus bool
  | SpFilesystem "absolute list"

record shimParams =
  sh_PrivPID :: int
  sh_WaitDelay :: int
  sh_Verbose :: bool
  sh_Ops :: "outcomeOp list option"

definition shim_valid :: "shimParams option \<Rightarrow> bool" where
  "shim_valid p = (case p of None \<Rightarrow> False | Some p \<Rightarrow> 0 < sh_PrivPID p)"

text \<open>The unexported fields, which \<open>populateLocal\<close> sets; a \<open>stringPair\<close> is the value or its text as used.\<close>

record outcomeLocal =
  lo_id :: string
  lo_identity :: string
  lo_uid :: int
  lo_mapuid :: string
  lo_mapgid :: string
  lo_sc :: hst_Paths

record outcomeState =
  s_Shim :: "shimParams option"
  s_ID :: "ID option"
  s_Identity :: int
  s_UserID :: int
  s_Container :: "ContainerConfig option"
  s_Mapuid :: int
  s_Mapgid :: int
  s_Paths :: "env_Paths option"
  s_local :: "outcomeLocal option"

definition state_valid :: "outcomeState \<Rightarrow> bool" where
  "state_valid s \<longleftrightarrow> shim_valid (s_Shim s) \<and> s_ID s \<noteq> None \<and> s_Container s \<noteq> None \<and> s_Paths s \<noteq> None"

definition WaitDelayDefault :: int where "WaitDelayDefault = 5 * 10 ^ 9"
definition WaitDelayMax :: int where "WaitDelayMax = 30 * 10 ^ 9"

definition bounded_delay :: "int \<Rightarrow> int" where
  "bounded_delay d =
     (if d < 0 then 0
      else if d = 0 then WaitDelayDefault
      else if WaitDelayMax < d then WaitDelayMax
      else d)"

definition newOutcomeState :: "outk \<Rightarrow> ID option \<Rightarrow> Config \<Rightarrow> Hsu \<Rightarrow> (out_error, outcomeState) go" where
  "newOutcomeState k ident config hsu =
     bind_go (MustID k hsu) (\<lambda>userid.
     bind_go (CopyPathsFunc (ok_tempdir k) (\<lambda>key. case ok_lookupEnv k key of None \<Rightarrow> [] | Some v \<Rightarrow> v)) (\<lambda>paths.
     bind_go (deref (cfg_Container config)) (\<lambda>c.
       let mapped = c_Flags c AND FMapRealUID \<noteq> 0 in
       Ret \<lparr>s_Shim = Some \<lparr>sh_PrivPID = ok_getpid k, sh_WaitDelay = bounded_delay (c_WaitDelay c),
              sh_Verbose = ok_verbose k, sh_Ops = None\<rparr>,
            s_ID = ident, s_Identity = cfg_Identity config, s_UserID = userid, s_Container = Some c,
            s_Mapuid = (if mapped then ok_getuid k else ok_overflowUid k),
            s_Mapgid = (if mapped then ok_getgid k else ok_overflowGid k),
            s_Paths = Some paths, s_local = None\<rparr>)))"

definition ToUser_int :: "int \<Rightarrow> int \<Rightarrow> int" where
  "ToUser_int userid appid = userid * 100000 + 10000 + appid"

text \<open>\<open>nils\<close>: whether the dispatcher or the message interface is nil.\<close>

definition populateLocal :: "bool \<Rightarrow> outcomeState \<Rightarrow> (out_error, outcomeState) go" where
  "populateLocal nils s =
     (if \<not> state_valid s \<or> nils then Fail (newWithMessage ''impossible outcome state reached'')
      else if s_local s \<noteq> None then Panic ''attempting to call populateLocal twice''
      else
        bind_go (Paths_Copy (s_Paths s) (s_UserID s)) (\<lambda>sc.
          Ret (s\<lparr>s_local := Some \<lparr>lo_id = ID_String (the (s_ID s)), lo_identity = Itoa (s_Identity s),
             lo_uid = ToUser_int (s_UserID s) (s_Identity s), lo_mapuid = Itoa (s_Mapuid s), lo_mapgid = Itoa (s_Mapgid s),
             lo_sc = sc\<rparr>\<rparr>)))"

definition instancePath :: "outcomeLocal \<Rightarrow> ('e, absolute) go" where
  "instancePath l = append_path (h_SharePath (lo_sc l)) [lo_id l]"

definition runtimePath :: "outcomeLocal \<Rightarrow> ('e, absolute) go" where
  "runtimePath l = append_path (h_RunDirPath (lo_sc l)) [lo_id l]"

subsection \<open>Pathnames of a populated state\<close>

lemma lift_abs_Append: "wf_abs a \<Longrightarrow> append_path a es = Ret (Absolute (path_Join (pathname a # es)))"
  using abs_Append_wf [of a es] by (simp add: append_path_def lift_abs_def)

end
