(* ===== verification/Out_System.thy ===== *)
theory Out_System
  imports Out_State Cont_Ops
begin

text \<open>
  The privileged half of an outcome: \<open>outcomeStateSys\<close> of \<open>internal/outcome/outcome.go\<close>, the methods
  \<open>toSystem\<close> of the \<open>sp*.go\<close> files in the order they run, and \<open>finalise.go\<close>. They register operations of
  \<open>internal/system\<close> (theory \<open>Sys_Commit\<close>) for a configuration and fill in what is sent to the shim.
\<close>

subsection \<open>outcome.go\<close>

record outcomeStateSys =
  y_useRuntimeDir :: bool
  y_sharePath :: "absolute option"
  y_runtimeSharePath :: "absolute option"
  y_appId :: string
  y_et :: Enablement
  y_directWayland :: bool
  y_extraPerms :: "ExtraPermConfig list"
  y_sessionBus :: "BusConfig option"
  y_systemBus :: "BusConfig option"
  y_sys :: I
  y_state :: outcomeState

abbreviation y_local :: "outcomeStateSys \<Rightarrow> outcomeLocal" where
  "y_local st \<equiv> the (s_local (y_state st))"

abbreviation y_sc :: "outcomeStateSys \<Rightarrow> hst_Paths" where
  "y_sc st \<equiv> lo_sc (y_local st)"

abbreviation y_container :: "outcomeStateSys \<Rightarrow> ContainerConfig" where
  "y_container st \<equiv> the (s_Container (y_state st))"

type_synonym 'a sysr = "(out_error, 'a \<times> outcomeStateSys) go"

definition newSys :: "Config \<Rightarrow> I \<Rightarrow> outcomeState \<Rightarrow> outcomeStateSys" where
  "newSys config sys s =
     \<lparr>y_useRuntimeDir = False, y_sharePath = None, y_runtimeSharePath = None,
      y_appId = cfg_ID config, y_et = Enablements_Unwrap (cfg_Enablements config),
      y_directWayland = cfg_DirectWayland config, y_extraPerms = cfg_ExtraPerms config,
      y_sessionBus = cfg_SessionBus config, y_systemBus = cfg_SystemBus config,
      y_sys = sys, y_state = s\<rparr>"

text \<open>A call on the system operations.\<close>

definition on_sys :: "(I \<Rightarrow> (abs_error, I) go) \<Rightarrow> outcomeStateSys \<Rightarrow> (out_error, outcomeStateSys) go" where
  "on_sys f st = bind_go (lift_abs (f (y_sys st))) (\<lambda>sys. Ret (st\<lparr>y_sys := sys\<rparr>))"

text \<open>A directory that is made if missing, with an entry in its access control list.\<close>

definition ensure_perm :: "absolute \<Rightarrow> nat \<Rightarrow> acl_perm list \<Rightarrow> outcomeStateSys \<Rightarrow> (out_error, outcomeStateSys) go" where
  "ensure_perm a perm perms st =
     bind_go (on_sys (\<lambda>sys. Ensure sys a perm) st) (on_sys (\<lambda>sys. UpdatePermType sys User a perms))"

definition ensureRuntimeDir :: "outcomeStateSys \<Rightarrow> (out_error, outcomeStateSys) go" where
  "ensureRuntimeDir st =
     (if y_useRuntimeDir st then Ret st
      else
        bind_go (ensure_perm (h_RuntimePath (y_sc st)) 448 [Execute] (st\<lparr>y_useRuntimeDir := True\<rparr>))
          (ensure_perm (h_RunDirPath (y_sc st)) 448 [Execute]))"

definition sys_instance :: "outcomeStateSys \<Rightarrow> absolute sysr" where
  "sys_instance st =
     (case y_sharePath st of
        Some a \<Rightarrow> Ret (a, st)
      | None \<Rightarrow>
          bind_go (instancePath (y_local st)) (\<lambda>a.
          bind_go (on_sys (\<lambda>sys. Ephemeral sys Process a 457) (st\<lparr>y_sharePath := Some a\<rparr>)) (\<lambda>st. Ret (a, st))))"

definition sys_runtime :: "outcomeStateSys \<Rightarrow> absolute sysr" where
  "sys_runtime st =
     (case y_runtimeSharePath st of
        Some a \<Rightarrow> Ret (a, st)
      | None \<Rightarrow>
          bind_go (ensureRuntimeDir st) (\<lambda>st.
          bind_go (runtimePath (y_local st)) (\<lambda>a.
          bind_go (on_sys (\<lambda>sys. Ephemeral sys Process a 448) (st\<lparr>y_runtimeSharePath := Some a\<rparr>)) (\<lambda>st.
          bind_go (on_sys (\<lambda>sys. UpdatePerm sys a [Execute]) st) (\<lambda>st. Ret (a, st))))))"

subsection \<open>spcontainer.go: spParamsOp\<close>

definition params_toSystem :: "outk \<Rightarrow> outcomeStateSys \<Rightarrow> outcomeOp sysr" where
  "params_toSystem k st =
     (let term = ok_lookupEnv k ''TERM'' in
      bind_go (on_sys (\<lambda>sys. Ensure sys (h_SharePath (y_sc st)) 457) st) (\<lambda>st.
        Ret (SpParams (case term of None \<Rightarrow> [] | Some t \<Rightarrow> t) (term \<noteq> None), st)))"

subsection \<open>spcgroup.go\<close>

definition lift_cfg :: "(cfg_error, 'a) go \<Rightarrow> (out_error, 'a) go" where
  "lift_cfg r = (case r of Ret x \<Rightarrow> Ret x | Fail e \<Rightarrow> Fail (OCfg e) | Panic m \<Rightarrow> Panic m)"

definition cgroup_toSystem :: "outcomeStateSys \<Rightarrow> outcomeOp sysr" where
  "cgroup_toSystem st =
     (case c_Cgroup (y_container st) of
        None \<Rightarrow> Fail NotEnabled
      | Some c \<Rightarrow>
          bind_go (lift_cfg (SlicePath (Some c))) (\<lambda>slice.
          bind_go (lift_cfg (InstancePath (Some c) (lo_identity (y_local st)) (s_ID (y_state st)))) (\<lambda>inst.
          bind_go (on_sys (\<lambda>sys. I_Cgroup (Some sys) (Some slice) (Some inst)
                     \<lparr>cl_CPU = cc_LimitCPU c, cl_Memory = cc_LimitMemory c, cl_Pids = cc_LimitPids c\<rparr>) st) (\<lambda>st.
            Ret (SpCgroup (pathname inst), st)))))"

subsection \<open>spruntime.go, sptmpdir.go\<close>

definition sessionTypeUnspec :: nat where "sessionTypeUnspec = 0"
definition sessionTypeTTY :: nat where "sessionTypeTTY = 1"
definition sessionTypeX11 :: nat where "sessionTypeX11 = 2"
definition sessionTypeWayland :: nat where "sessionTypeWayland = 3"

text \<open>\<open>commonPaths\<close> of both: a directory in the share directory and the one of the identity in it.\<close>

definition commonPaths :: "string \<Rightarrow> outcomeLocal \<Rightarrow> ('e, absolute \<times> absolute) go" where
  "commonPaths name l =
     bind_go (append_path (h_SharePath (lo_sc l)) [name]) (\<lambda>dir.
     bind_go (append_path dir [lo_identity l]) (\<lambda>inst. Ret (dir, inst)))"

definition shared_dirs :: "string \<Rightarrow> nat \<Rightarrow> outcomeStateSys \<Rightarrow> (out_error, outcomeStateSys) go" where
  "shared_dirs name perm st =
     bind_go (commonPaths name (y_local st)) (\<lambda>(dir, inst).
     bind_go (ensure_perm dir 448 [Execute] st) (ensure_perm inst perm [Read, Write, Execute]))"

definition runtime_toSystem :: "outcomeStateSys \<Rightarrow> outcomeOp sysr" where
  "runtime_toSystem st =
     bind_go (if c_Flags (y_container st) AND FShareRuntime \<noteq> 0 then shared_dirs ''runtime'' 448 st else Ret st) (\<lambda>st.
       Ret (SpRuntime (if y_et st AND EWayland \<noteq> 0 then sessionTypeWayland
                       else if y_et st AND EX11 \<noteq> 0 then sessionTypeX11
                       else sessionTypeTTY), st))"

definition tmpdir_toSystem :: "outcomeStateSys \<Rightarrow> outcomeOp sysr" where
  "tmpdir_toSystem st =
     bind_go (if c_Flags (y_container st) AND FShareTmpdir \<noteq> 0 then shared_dirs ''tmpdir'' 960 st else Ret st)
       (\<lambda>st. Ret (SpTmpdir, st))"

subsection \<open>spaccount.go\<close>

definition account_toSystem :: "outk \<Rightarrow> outcomeStateSys \<Rightarrow> outcomeOp sysr" where
  "account_toSystem k st =
     (case s_Container (y_state st) of
        None \<Rightarrow> Fail ENOTRECOVERABLE
      | Some c \<Rightarrow>
          if c_Home c = None \<or> c_Shell c = None then Fail ENOTRECOVERABLE
          else if c_Username c \<noteq> [] \<and> \<not> IsValidUsername (ok_loginNameMax k) (c_Username c)
          then Fail (newWithMessage (''invalid user name '' @ ok_quote k (c_Username c)))
          else Ret (SpAccount, st))"

subsection \<open>spwayland.go\<close>

definition wayland_Display :: string where "wayland_Display = ''WAYLAND_DISPLAY''"
definition wayland_FallbackName :: string where "wayland_FallbackName = ''wayland-0''"

definition wayland_socket :: "outk \<Rightarrow> absolute \<Rightarrow> (out_error, absolute) go" where
  "wayland_socket k runtime =
     (case ok_lookupEnv k wayland_Display of
        None \<Rightarrow> append_path runtime [wayland_FallbackName]
      | Some name \<Rightarrow> (case NewAbs name of Ret a \<Rightarrow> Ret a | _ \<Rightarrow> append_path runtime [name]))"

definition wayland_toSystem :: "outk \<Rightarrow> outcomeStateSys \<Rightarrow> outcomeOp sysr" where
  "wayland_toSystem k st =
     (if y_et st AND EWayland = 0 then Fail NotEnabled
      else
        bind_go (wayland_socket k (h_RuntimePath (y_sc st))) (\<lambda>socketPath.
        if \<not> y_directWayland st then
          (let appId = (if y_appId st = [] then ''app.hakurei.'' @ lo_id (y_local st) else y_appId st) in
           bind_go (sys_instance st) (\<lambda>(inst, st).
           bind_go (append_path inst [''wayland'']) (\<lambda>dst.
             Ret (SpWayland None, st\<lparr>y_sys := I_Wayland (y_sys st) dst socketPath appId (lo_id (y_local st))\<rparr>))))
        else
          bind_go (ensureRuntimeDir st) (\<lambda>st.
          bind_go (on_sys (\<lambda>sys. UpdatePermType sys EWayland socketPath [Read, Write, Execute]) st) (\<lambda>st.
            Ret (SpWayland (Some socketPath), st)))))"

subsection \<open>spx11.go\<close>

definition absX11SocketDir :: absolute where
  "absX11SocketDir = Absolute (path_Join [fhs_Tmp, ''.X11-unix''])"

text \<open>The socket a display names, if it is local.\<close>

definition x11_socket :: "string \<Rightarrow> (out_error, absolute option) go" where
  "x11_socket d =
     (if 1 < length d \<and> hd d = CHR '':'' then
        (case Atoi (tl d) of
           Ret n \<Rightarrow>
             if 0 \<le> n then bind_go (append_path absX11SocketDir [''X'' @ Itoa n]) (\<lambda>a. Ret (Some a)) else Ret None
         | _ \<Rightarrow> Ret None)
      else if 5 < length d \<and> HasPrefix d ''unix:'' then
        (case NewAbs (drop 5 d) of Ret a \<Rightarrow> Ret (Some a) | _ \<Rightarrow> Ret None)
      else Ret None)"

text \<open>Access to the socket if it exists; the display to use in the container.\<close>

definition x11_grant :: "outk \<Rightarrow> string \<Rightarrow> absolute option \<Rightarrow> outcomeStateSys \<Rightarrow> string sysr" where
  "x11_grant k d socketPath st =
     (case socketPath of
        None \<Rightarrow> Ret (d, st)
      | Some a \<Rightarrow>
          (case ok_stat k (pathname a) of
             Inl FsNotExist \<Rightarrow> Ret (d, st)
           | Inl err \<Rightarrow> Fail (stepError (''access X11 socket '' @ ok_quote k (pathname a)) (fs_cause err))
           | Inr _ \<Rightarrow>
               bind_go (on_sys (\<lambda>sys. UpdatePermType sys EX11 a [Read, Write, Execute]) st) (\<lambda>st.
                 Ret (if c_Flags (y_container st) AND FHostAbstract = 0 then ''unix:'' @ pathname a else d, st))))"

definition x11_toSystem :: "outk \<Rightarrow> outcomeStateSys \<Rightarrow> outcomeOp sysr" where
  "x11_toSystem k st =
     (if y_et st AND EX11 = 0 then Fail NotEnabled
      else
        case ok_lookupEnv k ''DISPLAY'' of
          None \<Rightarrow> Fail (newWithMessage ''DISPLAY is not set'')
        | Some d \<Rightarrow>
            bind_go (x11_socket d) (\<lambda>socketPath.
            bind_go (x11_grant k d socketPath st) (\<lambda>(d, st).
              Ret (SpX11 d, st\<lparr>y_sys := ChangeHosts (y_sys st) (''#'' @ Itoa (lo_uid (y_local st)))\<rparr>))))"

subsection \<open>sppulse.go\<close>

definition pulseCookieSizeMax :: nat where "pulseCookieSizeMax = 2 ^ 8"

definition pulse_commonPaths :: "outcomeLocal \<Rightarrow> ('e, absolute \<times> absolute) go" where
  "pulse_commonPaths l =
     bind_go (append_path (h_RuntimePath (lo_sc l)) [''pulse'']) (\<lambda>dir.
     bind_go (append_path dir [''native'']) (\<lambda>socket. Ret (dir, socket)))"

text \<open>A cookie below the directory a variable names: \<^term>\<open>None\<close> to go on looking.\<close>

definition cookie_below :: "outk \<Rightarrow> string \<Rightarrow> string list \<Rightarrow> (out_error, absolute option) go" where
  "cookie_below k p es =
     (case NewAbs p of
        Ret a \<Rightarrow>
          bind_go (append_path a es) (\<lambda>cookie.
            case ok_stat k (pathname cookie) of
              Inl FsNotExist \<Rightarrow> Ret None
            | Inl err \<Rightarrow> Fail (stepError ''access PulseAudio cookie'' (fs_cause err))
            | Inr fi \<Rightarrow> Ret (if fi_IsDir fi then None else Some cookie))
      | _ \<Rightarrow> Fail (stepError ''locate PulseAudio cookie'' (OtherCfg p)))"

definition discoverPulseCookie :: "outk \<Rightarrow> (out_error, absolute option) go" where
  "discoverPulseCookie k =
     (case ok_lookupEnv k ''PULSE_COOKIE'' of
        Some p \<Rightarrow>
          (case NewAbs p of
             Ret a \<Rightarrow> Ret (Some a)
           | _ \<Rightarrow> Fail (stepError ''locate PulseAudio cookie'' (OtherCfg p)))
      | None \<Rightarrow>
          bind_go (case ok_lookupEnv k ''HOME'' of None \<Rightarrow> Ret None | Some p \<Rightarrow> cookie_below k p [''.pulse-cookie'']) (\<lambda>r.
            case r of
              Some a \<Rightarrow> Ret (Some a)
            | None \<Rightarrow>
                (case ok_lookupEnv k ''XDG_CONFIG_HOME'' of
                   None \<Rightarrow> Ret None
                 | Some p \<Rightarrow> cookie_below k p [''pulse'', ''cookie''])))"

text \<open>What is left in the buffer after reading, and how many bytes were read. Reading gives at most as many
  bytes as the buffer holds; the end of the file is no error.\<close>

definition loadFile :: "outk \<Rightarrow> string \<Rightarrow> string \<Rightarrow> string \<Rightarrow> (out_error, string \<times> int) go" where
  "loadFile k description path buf =
     (let n = length buf in
      if n = 0 then Fail OInvalidBuffer
      else
        case ok_stat k path of
          Inl err \<Rightarrow> Fail (stepError (''access '' @ description) (fs_cause err))
        | Inr fi \<Rightarrow>
            if fi_IsDir fi then Fail (stepError (''read '' @ description) (OtherCfg (''stat '' @ path @ '': is a directory'')))
            else if int n < fi_Size fi then
              Fail (newWithMessageError (description @ '' at '' @ ok_quote k path @ '' exceeds expected size'')
                (OtherCfg (''stat '' @ path @ '': cannot allocate memory'')))
            else
              case ok_open k path of
                Some err \<Rightarrow> Fail (stepError (''open '' @ description) (fs_cause err))
              | None \<Rightarrow>
                  (case ok_read k path of
                     (_, Some err) \<Rightarrow> Fail (stepError (''read '' @ description) (fs_cause err))
                   | (bytes, None) \<Rightarrow>
                       (let got = take n bytes in
                        case ok_close k path of
                          Some err \<Rightarrow> Fail (stepError (''close '' @ description) (fs_cause err))
                        | None \<Rightarrow> Ret (got @ drop (length got) buf, int (length got)))))"

definition pulse_checks :: "outk \<Rightarrow> absolute \<Rightarrow> absolute \<Rightarrow> (out_error, unit) go" where
  "pulse_checks k dir socket =
     (let qdir = ok_quote k (pathname dir); qsocket = ok_quote k (pathname socket) in
      case ok_stat k (pathname dir) of
        Inl FsNotExist \<Rightarrow>
          Fail (newWithMessageError (''PulseAudio directory '' @ qdir @ '' not found'') (fs_cause FsNotExist))
      | Inl err \<Rightarrow> Fail (stepError (''access PulseAudio directory '' @ qdir) (fs_cause err))
      | Inr _ \<Rightarrow>
          (case ok_stat k (pathname socket) of
             Inl FsNotExist \<Rightarrow>
               Fail (newWithMessageError (''PulseAudio directory '' @ qdir @ '' found but socket does not exist'')
                 (fs_cause FsNotExist))
           | Inl err \<Rightarrow> Fail (stepError (''access PulseAudio socket '' @ qsocket) (fs_cause err))
           | Inr fi \<Rightarrow>
               if fi_Mode fi AND 6 \<noteq> 6 then
                 Fail (newWithMessage (''unexpected permissions on '' @ qsocket @ '': '' @ ok_modeString k (fi_Mode fi)))
               else Ret ()))"

definition pulse_toSystem :: "outk \<Rightarrow> outcomeStateSys \<Rightarrow> outcomeOp sysr" where
  "pulse_toSystem k st =
     (if y_et st AND EPulse = 0 then Fail NotEnabled
      else
        bind_go (pulse_commonPaths (y_local st)) (\<lambda>(dir, socket).
        bind_go (pulse_checks k dir socket) (\<lambda>_.
        bind_go (sys_runtime st) (\<lambda>(rt, st).
        bind_go (append_path rt [''pulse'']) (\<lambda>dst.
        bind_go (on_sys (\<lambda>sys. Link sys socket dst) st) (\<lambda>st.
        bind_go (discoverPulseCookie k) (\<lambda>cookie.
          case cookie of
            None \<Rightarrow> Ret (SpPulse None, st)
          | Some a \<Rightarrow>
              bind_go (loadFile k ''PulseAudio cookie'' (pathname a) (replicate pulseCookieSizeMax (CHR 0x00))) (\<lambda>c.
                Ret (SpPulse (Some c), st)))))))))"

subsection \<open>spdbus.go\<close>

definition lift_bus :: "(OpError, 'a) go \<Rightarrow> (out_error, 'a) go" where
  "lift_bus r = (case r of Ret x \<Rightarrow> Ret x | Fail e \<Rightarrow> Fail (OBus e) | Panic m \<Rightarrow> Panic m)"

definition dbus_toSystem :: "outk \<Rightarrow> outcomeStateSys \<Rightarrow> outcomeOp sysr" where
  "dbus_toSystem k st =
     (if y_et st AND EDBus = 0 then Fail NotEnabled
      else
        (let st = (if y_sessionBus st = None then st\<lparr>y_sessionBus := Some (NewConfig (y_appId st) True True)\<rparr> else st) in
         bind_go (sys_instance st) (\<lambda>(inst, st).
         bind_go (append_path inst [''bus'']) (\<lambda>sessionPath.
         bind_go (sys_instance st) (\<lambda>(inst, st).
         bind_go (append_path inst [''system_bus_socket'']) (\<lambda>systemPath.
         bind_go (lift_bus (ProxyDBus (ok_errv k) (y_sys st) (y_sessionBus st) (y_systemBus st)
             (fst (ok_dbusAddress k), pathname sessionPath) (snd (ok_dbusAddress k), pathname systemPath))) (\<lambda>sys.
         bind_go (on_sys (\<lambda>sys. UpdatePerm sys sessionPath [Read, Write]) (st\<lparr>y_sys := sys\<rparr>)) (\<lambda>st.
           if y_systemBus st = None then Ret (SpDBus False, st)
           else
             bind_go (on_sys (\<lambda>sys. UpdatePerm sys systemPath [Read, Write]) st) (\<lambda>st.
               Ret (SpDBus True, st))))))))))"

subsection \<open>spcontainer.go: spFilesystemOp\<close>

definition varRunNscd :: string where "varRunNscd = fhs_Var @ ''run/nscd''"

text \<open>The root filesystem if it is the first mount point, the mount points after it, and the root if it is a
  collection of binds.\<close>

definition resolveRoot :: "ContainerConfig \<Rightarrow> FilesystemConfig option \<times> FilesystemConfig option list \<times> FSBind option" where
  "resolveRoot c =
     (case c_Filesystem c of
        [] \<Rightarrow> (None, [], None)
      | f # fs \<Rightarrow>
          if FilesystemConfigJSON_Valid f \<and> map_option pathname (fs_Path (the f)) = Some fhs_Root
          then (f, fs, case the f of FS_Bind b \<Rightarrow> if IsAutoRoot b then Some b else None | _ \<Rightarrow> None)
          else (None, f # fs, None))"

definition out_evalSymlinks :: "outk \<Rightarrow> string \<Rightarrow> string \<Rightarrow> (out_error, string) go" where
  "out_evalSymlinks k step v =
     (case ok_evalSymlinks k v of
        Inr p \<Rightarrow> Ret p
      | Inl FsNotExist \<Rightarrow> Ret v
      | Inl err \<Rightarrow> Fail (stepError step (fs_cause err)))"

definition flatten_perm :: "ExtraPermConfig \<Rightarrow> outcomeStateSys \<Rightarrow> (out_error, outcomeStateSys) go" where
  "flatten_perm p st =
     (case ep_Path p of
        None \<Rightarrow> Ret st
      | Some a \<Rightarrow>
          (let perms = (if ep_Read p then [Read] else []) @ (if ep_Write p then [Write] else [])
                 @ (if ep_Execute p then [Execute] else []) in
           bind_go (if ep_Ensure p then on_sys (\<lambda>sys. Ensure sys a 448) st else Ret st)
             (on_sys (\<lambda>sys. UpdatePermType sys User a perms))))"

fun flattenExtraPerms :: "ExtraPermConfig list \<Rightarrow> outcomeStateSys \<Rightarrow> (out_error, outcomeStateSys) go" where
  "flattenExtraPerms [] st = Ret st"
| "flattenExtraPerms (p # ps) st = bind_go (flatten_perm p st) (flattenExtraPerms ps)"

text \<open>The directories of the unix sockets of an address.\<close>

definition socket_dirs :: "AddrEntry list \<Rightarrow> string list" where
  "socket_dirs entries =
     concat (map (\<lambda>e. if Method e \<noteq> ''unix'' then []
        else map (\<lambda>kv. path_Dir (snd kv)) (filter (\<lambda>kv. fst kv = ''path'' \<and> IsAbs (snd kv)) (Values e))) entries)"

definition hide_candidates :: "outk \<Rightarrow> hst_Paths \<Rightarrow> (out_error, string list) go" where
  "hide_candidates k sc =
     (let addr = (case ok_lookupEnv k SystemBusAddress of None \<Rightarrow> FallbackSystemBusAddress | Some a \<Rightarrow> a) in
      case Parse addr of
        Panic m \<Rightarrow> Panic m
      | Fail e \<Rightarrow> Fail (OAddress e)
      | Ret entries \<Rightarrow>
          mapM_go (out_evalSymlinks k ''evaluate path hiding target'')
            ([pathname (h_RuntimePath sc), pathname (h_SharePath sc), varRunNscd] @ socket_dirs entries))"

fun check_filesystem :: "nat \<Rightarrow> FilesystemConfig option list \<Rightarrow> (out_error, unit) go" where
  "check_filesystem i [] = Ret ()"
| "check_filesystem i (c # cs) =
     (if \<not> FilesystemConfigJSON_Valid c then Fail (newWithMessage (''invalid filesystem at index '' @ Itoa (int i)))
      else check_filesystem (Suc i) cs)"

text \<open>The host pathnames the configured mount points make available, those of an automatic root one by one.\<close>

definition hide_sources :: "outk \<Rightarrow> ContainerConfig \<Rightarrow> (out_error, absolute list) go" where
  "hide_sources k c =
     (case resolveRoot c of
        (_, filesystem, autoroot) \<Rightarrow>
          bind_go (check_filesystem 0 filesystem) (\<lambda>_.
          bind_go
            (case autoroot of
               None \<Rightarrow> Ret []
             | Some b \<Rightarrow>
                 (case ok_readdir k (pathname (the (bind_Source b))) of
                    Inl err \<Rightarrow> Fail (stepError ''access autoroot source'' (fs_cause err))
                  | Inr names \<Rightarrow>
                      mapM_go (\<lambda>name. append_path (the (bind_Source b)) [name]) (filter IsAutoRootBindable names)))
            (\<lambda>auto_sources. Ret (concat (map (\<lambda>f. fs_Host (the f)) filesystem) @ auto_sources))))"

text \<open>One source against the candidates, each with whether it was matched before.\<close>

fun hide_match :: "string \<Rightarrow> (string \<times> bool) list \<Rightarrow> (out_error, (string \<times> bool) list) go" where
  "hide_match p [] = Ret []"
| "hide_match p ((h, matched) # hs) =
     bind_go (if matched then Ret True
              else case DeepContainsH p h of
                  Ret ok \<Rightarrow> Ret ok
                | Fail m \<Rightarrow> Fail (stepError ''determine path hiding outcome'' (OtherCfg m))
                | Panic m \<Rightarrow> Panic m) (\<lambda>b.
     bind_go (hide_match p hs) (\<lambda>hs'. Ret ((h, b) # hs')))"

fun hide_loop :: "string list \<Rightarrow> (string \<times> bool) list \<Rightarrow> (out_error, (string \<times> bool) list) go" where
  "hide_loop [] hs = Ret hs"
| "hide_loop (p # ps) hs = bind_go (hide_match p hs) (hide_loop ps)"

definition hide_abs :: "outk \<Rightarrow> string \<Rightarrow> (out_error, absolute) go" where
  "hide_abs k h =
     (case NewAbs h of
        Ret a \<Rightarrow> Ret a
      | _ \<Rightarrow> Fail (newWithMessage (''invalid path hiding candidate '' @ ok_quote k h)))"

definition hide_paths :: "outk \<Rightarrow> hst_Paths \<Rightarrow> ContainerConfig \<Rightarrow> (out_error, absolute list) go" where
  "hide_paths k sc c =
     bind_go (hide_candidates k sc) (\<lambda>hidePaths.
     bind_go (hide_sources k c) (\<lambda>hidePathSource.
     bind_go (mapM_go (\<lambda>a. out_evalSymlinks k ''evaluate path hiding source'' (pathname a)) hidePathSource) (\<lambda>evaluated.
     bind_go (hide_loop evaluated (map (\<lambda>h. (h, False)) hidePaths)) (\<lambda>hs.
       mapM_go (\<lambda>h. hide_abs k (fst h)) (filter snd hs)))))"

definition filesystem_toSystem :: "outk \<Rightarrow> outcomeStateSys \<Rightarrow> outcomeOp sysr" where
  "filesystem_toSystem k st =
     bind_go (hide_paths k (y_sc st) (y_container st)) (\<lambda>hide.
     bind_go (flattenExtraPerms (y_extraPerms st) st) (\<lambda>st. Ret (SpFilesystem hide, st)))"

subsection \<open>outcome.go: toSystem\<close>

definition outcome_ops :: "outk \<Rightarrow> (outcomeStateSys \<Rightarrow> outcomeOp sysr) list" where
  "outcome_ops k =
     [params_toSystem k, cgroup_toSystem, runtime_toSystem, tmpdir_toSystem, account_toSystem k,
      wayland_toSystem k, x11_toSystem k, pulse_toSystem k, dbus_toSystem k, filesystem_toSystem k]"

fun toSystem_loop :: "(outcomeStateSys \<Rightarrow> outcomeOp sysr) list \<Rightarrow> outcomeOp list \<Rightarrow> outcomeStateSys \<Rightarrow> outcomeOp list sysr" where
  "toSystem_loop [] acc st = Ret (acc, st)"
| "toSystem_loop (op # ops) acc st =
     (case op st of
        Ret (x, st') \<Rightarrow> toSystem_loop ops (acc @ [x]) st'
      | Fail NotEnabled \<Rightarrow> toSystem_loop ops acc st
      | Fail e \<Rightarrow> Fail e
      | Panic m \<Rightarrow> Panic m)"

definition toSystem :: "outk \<Rightarrow> outcomeStateSys \<Rightarrow> (out_error, outcomeStateSys) go" where
  "toSystem k st =
     (case s_Shim (y_state st) of
        None \<Rightarrow> Fail (newWithMessage ''invalid ops state reached'')
      | Some sh \<Rightarrow>
          if sh_Ops sh \<noteq> None then Fail (newWithMessage ''invalid ops state reached'')
          else
            bind_go (toSystem_loop (outcome_ops k) [] st) (\<lambda>(ops, st).
              Ret (st\<lparr>y_state := (y_state st)\<lparr>s_Shim := Some (sh\<lparr>sh_Ops := Some ops\<rparr>)\<rparr>\<rparr>)))"

subsection \<open>finalise.go\<close>

record outcome_t =
  oc_supp :: "string list"
  oc_sys :: I
  oc_state :: outcomeState
  oc_config :: Config

definition lookup_group :: "outk \<Rightarrow> string \<Rightarrow> (out_error, string) go" where
  "lookup_group k name =
     (case ok_lookupGroupId k name of
        Inr gid \<Rightarrow> Ret gid
      | Inl UnknownGroup \<Rightarrow>
          Fail (newWithMessageError (''unknown group '' @ ok_quote k name) (OtherCfg (''group: unknown group '' @ name)))
      | Inl (GroupErr m) \<Rightarrow> Fail (OApp (AppError ''look up group by name'' (OtherCfg m) m)))"

definition lift_validate :: "(validate_error, 'a) go \<Rightarrow> (out_error, 'a) go" where
  "lift_validate r = (case r of Ret x \<Rightarrow> Ret x | Fail e \<Rightarrow> Fail (OValidate e) | Panic m \<Rightarrow> Panic m)"

text \<open>\<open>nils\<close>: whether the context is nil; \<open>before\<close>: whether the outcome was finalised before.\<close>

definition finalise :: "outk \<Rightarrow> bool \<Rightarrow> bool \<Rightarrow> ID option \<Rightarrow> Config option \<Rightarrow> (out_error, outcome_t) go" where
  "finalise k nils before ident config =
     (if nils \<or> ident = None then Panic ''invalid call to finalise''
      else if before then Panic ''attempting to finalise twice''
      else
        bind_go (lift_validate (Config_Validate (ok_quote k) config)) (\<lambda>_.
        bind_go (mapM_go (lookup_group k) (cfg_Groups (the config))) (\<lambda>supp.
        bind_go (newOutcomeState k ident (the config) None) (\<lambda>s.
        bind_go (populateLocal False s) (\<lambda>s.
        bind_go (New False (lo_uid (the (s_local s)))) (\<lambda>sys.
        bind_go (toSystem k (newSys (the config) sys s)) (\<lambda>st.
          Ret \<lparr>oc_supp = supp, oc_sys = y_sys st, oc_state = y_state st, oc_config = the config\<rparr>)))))))"

end
