(* ===== verification/Out_Container.thy ===== *)
theory Out_Container
  imports Out_System Cont_Start "HOL-Library.AList"
begin

text \<open>
  The container half of an outcome: \<open>outcomeStateParams\<close> of \<open>internal/outcome/outcome.go\<close> and the methods
  \<open>toContainer\<close> of the \<open>sp*.go\<close> files, which turn the operations received by the shim into the parameters of
  the container (\<open>Params\<close> of theory \<open>Cont_Init\<close>) with the setup operations of theory \<open>Cont_Ops\<close>. The
  environment is an association list without repeated keys.
\<close>

subsection \<open>outcome.go\<close>

record outcomeStateParams =
  z_params :: Params
  z_env :: "(string \<times> string) list"
  z_filesystem :: "FilesystemConfig option list"
  z_runtimeDir :: "absolute option"
  z_AutoEtcPrefix :: string
  z_state :: outcomeState

abbreviation z_local :: "outcomeStateParams \<Rightarrow> outcomeLocal" where
  "z_local st \<equiv> the (s_local (z_state st))"

abbreviation z_container :: "outcomeStateParams \<Rightarrow> ContainerConfig" where
  "z_container st \<equiv> the (s_Container (z_state st))"

abbreviation z_flag :: "outcomeStateParams \<Rightarrow> Flags \<Rightarrow> bool" where
  "z_flag st f \<equiv> c_Flags (z_container st) AND f \<noteq> 0"

definition Params_zero :: Params where
  "Params_zero =
     \<lparr>pa_Dir = None, pa_Env = [], pa_Path = None, pa_Args = [], pa_CgroupPath = None, pa_ForwardCancel = False,
      pa_AdoptWaitDelay = 0, pa_Uid = 0, pa_Gid = 0, pa_Hostname = [], pa_Ops = None, pa_SeccompRules = [],
      pa_SeccompFlags = 0, pa_SeccompPresets = 0, pa_SeccompDisable = False, pa_ParentPerm = 0,
      pa_RetainSession = False, pa_HostNet = False, pa_HostAbstract = False, pa_Privileged = False\<rparr>"

definition newParams :: "outcomeState \<Rightarrow> outcomeStateParams" where
  "newParams s =
     \<lparr>z_params = Params_zero, z_env = c_Env (the (s_Container s)), z_filesystem = [], z_runtimeDir = None,
      z_AutoEtcPrefix = [], z_state = s\<rparr>"

definition setenv :: "string \<Rightarrow> string \<Rightarrow> outcomeStateParams \<Rightarrow> outcomeStateParams" where
  "setenv key value st = st\<lparr>z_env := AList.update key value (z_env st)\<rparr>"

text \<open>A method of the embedded \<open>Ops\<close>, which is nil before the first operation has run.\<close>

definition on_ops :: "(Ops \<Rightarrow> Ops) \<Rightarrow> outcomeStateParams \<Rightarrow> (out_error, outcomeStateParams) go" where
  "on_ops f st =
     bind_go (deref (pa_Ops (z_params st))) (\<lambda>ops. Ret (st\<lparr>z_params := (z_params st)\<lparr>pa_Ops := Some (f ops)\<rparr>\<rparr>))"

text \<open>\<open>opsAdapter\<close> of \<open>spcontainer.go\<close>: the calls of a mount point on the setup operations.\<close>

fun opsAdapter :: "ops_call \<Rightarrow> Ops \<Rightarrow> Ops" where
  "opsAdapter (CTmpfs target sz perm) = Ops_Tmpfs (Some target) sz perm"
| "opsAdapter (CReadonly target perm) = Ops_Readonly (Some target) perm"
| "opsAdapter (CBind source target flags) = Ops_Bind (Some source) (Some target) flags"
| "opsAdapter (COverlay target state work layers) = Ops_Overlay (Some target) (Some state) (Some work) (map Some layers)"
| "opsAdapter (COverlayReadonly target layers) = Ops_OverlayReadonly (Some target) (map Some layers)"
| "opsAdapter (CLink target linkName dereference) = Ops_Link (Some target) linkName dereference"
| "opsAdapter (CRoot host flags) = Ops_Root (Some host) flags"
| "opsAdapter (CEtc host pre) = Ops_Etc (Some host) pre"

definition apply_fs :: "FilesystemConfig \<Rightarrow> outcomeStateParams \<Rightarrow> (out_error, outcomeStateParams) go" where
  "apply_fs c st = on_ops (fold opsAdapter (fs_Apply (z_AutoEtcPrefix st) c)) st"

subsection \<open>spcontainer.go: spParamsOp\<close>

definition PrivateTmp :: string where "PrivateTmp = ''/.hakurei''"

definition seccomp_presets :: "Flags \<Rightarrow> nat" where
  "seccomp_presets flags =
     (if flags AND FSeccompCompat = 0 then PresetExt else 0)
     OR (if flags AND FDevel = 0 then PresetDenyDevel else 0)
     OR (if flags AND FUserns = 0 then PresetDenyNS else 0)
     OR (if flags AND FTty = 0 then PresetDenyTTY else 0)"

text \<open>The fields set from the configuration, and the early mount points.\<close>

definition config_params :: "outcomeStateParams \<Rightarrow> shimParams \<Rightarrow> absolute \<Rightarrow> Params" where
  "config_params st shim p =
     (let c = z_container st;
          params = (z_params st)\<lparr>
            pa_Hostname := c_Hostname c, pa_RetainSession := z_flag st FTty, pa_HostNet := z_flag st FHostNet,
            pa_HostAbstract := z_flag st FHostAbstract, pa_Path := Some p,
            pa_Args := (if c_Args c = [] then [pathname p] else c_Args c),
            pa_ForwardCancel := 0 < sh_WaitDelay shim,
            pa_SeccompFlags := pa_SeccompFlags (z_params st) OR (if z_flag st FMultiarch then AllowMultiarch else 0),
            pa_SeccompPresets := pa_SeccompPresets (z_params st) OR seccomp_presets (c_Flags c),
            pa_Ops := Some []\<rparr> in
      if z_flag st FMapRealUID then params\<lparr>pa_Uid := s_Mapuid (z_state st), pa_Gid := s_Mapgid (z_state st)\<rparr> else params)"

definition early_mounts :: "bool \<Rightarrow> Ops \<Rightarrow> Ops" where
  "early_mounts device ops =
     (let ops = Ops_Tmpfs (Some (Absolute PrivateTmp)) 4096 493 (Ops_Proc (Some (unsafeAbs fhs_Proc)) ops);
          ops = (if \<not> device then Ops_DevWritable (Some (unsafeAbs fhs_Dev)) True ops
                 else Ops_Bind (Some (unsafeAbs fhs_Dev)) (Some (unsafeAbs fhs_Dev)) (BindWritable OR BindDevice) ops) in
      Ops_Tmpfs (Some (unsafeAbs fhs_DevShm)) 0 1023 ops)"

definition params_toContainer :: "string \<Rightarrow> bool \<Rightarrow> outcomeStateParams \<Rightarrow> (out_error, outcomeStateParams) go" where
  "params_toContainer term termSet st =
     (let st = (if termSet then setenv ''TERM'' term st else st); c = z_container st in
      case c_Path c of
        None \<Rightarrow> Fail (newWithMessage ''invalid program path'')
      | Some p \<Rightarrow>
          bind_go (deref (s_Shim (z_state st))) (\<lambda>shim.
          (let (rootfs, filesystem, _) = resolveRoot c;
               st = st\<lparr>z_params := config_params st shim p, z_AutoEtcPrefix := lo_id (z_local st), z_filesystem := filesystem\<rparr> in
           bind_go (case rootfs of None \<Rightarrow> Ret st | Some r \<Rightarrow> apply_fs r st) (\<lambda>st.
             on_ops (early_mounts (z_flag st FDevice)) st))))"

subsection \<open>spcgroup.go\<close>

definition cgroup_toContainer :: "string \<Rightarrow> outcomeStateParams \<Rightarrow> (out_error, outcomeStateParams) go" where
  "cgroup_toContainer p st =
     (if p = [] then Fail (newWithMessage ''invalid cgroup state'')
      else
        case NewAbs p of
          Ret a \<Rightarrow> Ret (st\<lparr>z_params := (z_params st)\<lparr>pa_CgroupPath := Some a\<rparr>\<rparr>)
        | _ \<Rightarrow> Fail (stepError ''parse cgroup path'' (OtherCfg p)))"

subsection \<open>spruntime.go, sptmpdir.go\<close>

definition session_type :: "nat \<Rightarrow> string option" where
  "session_type n =
     map_of [(sessionTypeUnspec, ''unspecified''), (sessionTypeTTY, ''tty''), (sessionTypeX11, ''x11''),
       (sessionTypeWayland, ''wayland'')] n"

definition runtime_toContainer :: "nat \<Rightarrow> outcomeStateParams \<Rightarrow> (out_error, outcomeStateParams) go" where
  "runtime_toContainer sessionType st =
     bind_go (append_path (unsafeAbs fhs_RunUser) [lo_mapuid (z_local st)]) (\<lambda>runtimeDir.
       let st = st\<lparr>z_runtimeDir := Some runtimeDir\<rparr>;
           st = setenv ''XDG_SESSION_CLASS'' ''user'' (setenv ''XDG_RUNTIME_DIR'' (pathname runtimeDir) st);
           st = (case session_type sessionType of None \<Rightarrow> st | Some t \<Rightarrow> setenv ''XDG_SESSION_TYPE'' t st) in
       bind_go (on_ops (Ops_Tmpfs (Some (unsafeAbs fhs_RunUser)) 4096 493) st) (\<lambda>st.
         if z_flag st FShareRuntime then
           bind_go (commonPaths ''runtime'' (z_local st)) (\<lambda>(_, inst).
             on_ops (Ops_Bind (Some inst) (Some runtimeDir) BindWritable) st)
         else on_ops (Ops_Mkdir (Some runtimeDir) 448) st))"

definition tmpdir_toContainer :: "outcomeStateParams \<Rightarrow> (out_error, outcomeStateParams) go" where
  "tmpdir_toContainer st =
     (if z_flag st FShareTmpdir then
        bind_go (commonPaths ''tmpdir'' (z_local st)) (\<lambda>(_, inst).
          on_ops (Ops_Bind (Some inst) (Some (unsafeAbs fhs_Tmp)) BindWritable) st)
      else on_ops (Ops_Tmpfs (Some (unsafeAbs fhs_Tmp)) 0 1023) st)"

subsection \<open>spaccount.go\<close>

definition account_username :: "ContainerConfig \<Rightarrow> string" where
  "account_username c = (if c_Username c = [] then ''chronos'' else c_Username c)"

definition passwd_file :: "string \<Rightarrow> string \<Rightarrow> string \<Rightarrow> string \<Rightarrow> string \<Rightarrow> string" where
  "passwd_file username mapuid mapgid home shell =
     username @ '':x:'' @ mapuid @ '':'' @ mapgid @ '':Hakurei:'' @ home @ '':'' @ shell @ [CHR 0x0A]"

definition group_file :: "string \<Rightarrow> string" where
  "group_file mapgid = ''hakurei:x:'' @ mapgid @ '':'' @ [CHR 0x0A]"

definition account_toContainer :: "outcomeStateParams \<Rightarrow> (out_error, outcomeStateParams) go" where
  "account_toContainer st =
     (let c = z_container st; l = z_local st in
      bind_go (deref (c_Home c)) (\<lambda>home. bind_go (deref (c_Shell c)) (\<lambda>shell.
      let st = st\<lparr>z_params := (z_params st)\<lparr>pa_Dir := Some home\<rparr>\<rparr>;
          st = setenv ''SHELL'' (pathname shell) (setenv ''USER'' (account_username c) (setenv ''HOME'' (pathname home) st)) in
      bind_go (append_path (unsafeAbs fhs_Etc) [''passwd'']) (\<lambda>passwd.
      bind_go (append_path (unsafeAbs fhs_Etc) [''group'']) (\<lambda>group.
        on_ops (\<lambda>ops.
          Ops_Place (Some group) (group_file (lo_mapgid l))
            (Ops_Place (Some passwd)
              (passwd_file (account_username c) (lo_mapuid l) (lo_mapgid l) (pathname home) (pathname shell)) ops)) st)))))"

subsection \<open>spwayland.go, spx11.go, sppulse.go, spdbus.go\<close>

definition wayland_toContainer :: "absolute option \<Rightarrow> outcomeStateParams \<Rightarrow> (out_error, outcomeStateParams) go" where
  "wayland_toContainer socketPath st =
     bind_go (deref (z_runtimeDir st)) (\<lambda>runtimeDir.
     bind_go (append_path runtimeDir [wayland_FallbackName]) (\<lambda>innerPath.
     let st = setenv wayland_Display wayland_FallbackName st in
     case socketPath of
       None \<Rightarrow>
         bind_go (instancePath (z_local st)) (\<lambda>inst. bind_go (append_path inst [''wayland'']) (\<lambda>src.
           on_ops (Ops_Bind (Some src) (Some innerPath) 0) st))
     | Some a \<Rightarrow> on_ops (Ops_Bind (Some a) (Some innerPath) 0) st))"

definition x11_toContainer :: "string \<Rightarrow> outcomeStateParams \<Rightarrow> (out_error, outcomeStateParams) go" where
  "x11_toContainer display st =
     on_ops (Ops_Bind (Some absX11SocketDir) (Some absX11SocketDir) 0) (setenv ''DISPLAY'' display st)"

definition pulse_toContainer :: "(string \<times> int) option \<Rightarrow> outcomeStateParams \<Rightarrow> (out_error, outcomeStateParams) go" where
  "pulse_toContainer cookie st =
     bind_go (deref (z_runtimeDir st)) (\<lambda>runtimeDir.
     bind_go (append_path runtimeDir [''pulse'', ''native'']) (\<lambda>inner.
     bind_go (runtimePath (z_local st)) (\<lambda>rt. bind_go (append_path rt [''pulse'']) (\<lambda>src.
     bind_go (on_ops (Ops_Bind (Some src) (Some inner) 0) st) (\<lambda>st.
       let st = setenv ''PULSE_SERVER'' (''unix:'' @ pathname inner) st in
       case cookie of
         None \<Rightarrow> Ret st
       | Some (buf, sz) \<Rightarrow>
           bind_go (append_path (Absolute PrivateTmp) [''/pulse-cookie'']) (\<lambda>dst.
             if sz < 0 \<or> int pulseCookieSizeMax < sz then Fail (newWithMessage ''unexpected PulseAudio cookie size'')
             else on_ops (Ops_Place (Some dst) (take (nat sz) buf)) (setenv ''PULSE_COOKIE'' (pathname dst) st)))))))"

definition dbus_toContainer :: "bool \<Rightarrow> outcomeStateParams \<Rightarrow> (out_error, outcomeStateParams) go" where
  "dbus_toContainer proxySystem st =
     bind_go (deref (z_runtimeDir st)) (\<lambda>runtimeDir.
     bind_go (append_path runtimeDir [''bus'']) (\<lambda>sessionInner.
     bind_go (instancePath (z_local st)) (\<lambda>inst. bind_go (append_path inst [''bus'']) (\<lambda>src.
     bind_go (on_ops (Ops_Bind (Some src) (Some sessionInner) 0)
         (setenv ''DBUS_SESSION_BUS_ADDRESS'' (''unix:path='' @ pathname sessionInner) st)) (\<lambda>st.
       if \<not> proxySystem then Ret st
       else
         bind_go (append_path (unsafeAbs fhs_Var) [''run/dbus/system_bus_socket'']) (\<lambda>systemInner.
         bind_go (append_path inst [''system_bus_socket'']) (\<lambda>src.
           on_ops (Ops_Bind (Some src) (Some systemInner) 0)
             (setenv ''DBUS_SYSTEM_BUS_ADDRESS'' (''unix:path='' @ pathname systemInner) st))))))))"

subsection \<open>spcontainer.go: spFilesystemOp\<close>

fun apply_filesystem :: "nat \<Rightarrow> FilesystemConfig option list \<Rightarrow> outcomeStateParams \<Rightarrow> (out_error, outcomeStateParams) go" where
  "apply_filesystem i [] st = Ret st"
| "apply_filesystem i (c # cs) st =
     (if \<not> FilesystemConfigJSON_Valid c then Fail (newWithMessage (''invalid filesystem at index '' @ Itoa (int i)))
      else bind_go (apply_fs (the c) st) (apply_filesystem (Suc i) cs))"

definition env_strings :: "(string \<times> string) list \<Rightarrow> string list" where
  "env_strings env = sort (map (\<lambda>(key, value). key @ ''='' @ value) env)"

definition filesystem_toContainer :: "absolute list \<Rightarrow> outcomeStateParams \<Rightarrow> (out_error, outcomeStateParams) go" where
  "filesystem_toContainer hide st =
     bind_go (apply_filesystem 0 (z_filesystem st) st) (\<lambda>st.
     bind_go (on_ops (\<lambda>ops.
         Ops_Remount (Some (unsafeAbs fhs_Root)) MS_RDONLY
           ((if \<not> z_flag st FDevice then Ops_Remount (Some (unsafeAbs fhs_Dev)) MS_RDONLY else id)
           (fold (\<lambda>a. Ops_Tmpfs (Some a) 8192 493) hide ops))) st) (\<lambda>st.
       Ret (st\<lparr>z_params := (z_params st)\<lparr>pa_Env := env_strings (z_env st)\<rparr>\<rparr>)))"

subsection \<open>All operations\<close>

fun toContainer :: "outcomeOp \<Rightarrow> outcomeStateParams \<Rightarrow> (out_error, outcomeStateParams) go" where
  "toContainer (SpParams term termSet) = params_toContainer term termSet"
| "toContainer (SpCgroup p) = cgroup_toContainer p"
| "toContainer (SpRuntime n) = runtime_toContainer n"
| "toContainer SpTmpdir = tmpdir_toContainer"
| "toContainer SpAccount = account_toContainer"
| "toContainer (SpWayland a) = wayland_toContainer a"
| "toContainer (SpX11 d) = x11_toContainer d"
| "toContainer (SpPulse c) = pulse_toContainer c"
| "toContainer (SpDBus b) = dbus_toContainer b"
| "toContainer (SpFilesystem hide) = filesystem_toContainer hide"

fun toContainer_ops :: "outcomeOp list \<Rightarrow> outcomeStateParams \<Rightarrow> (out_error, outcomeStateParams) go" where
  "toContainer_ops [] st = Ret st"
| "toContainer_ops (op # ops) st = bind_go (toContainer op st) (toContainer_ops ops)"

end
