(* ===== verification/Out_Process.thy ===== *)
theory Out_Process
  imports Sys_Commit Cont_Reap
begin

text \<open>
  The process states of \<open>internal/outcome/process.go\<close>: \<open>main\<close> starts the shim, commits the system
  operations under the lock of the store, serves the shim, waits for it, reverts and exits. A state of
  the loop is a handler on the variables of \<open>main\<close>; the calls it makes to the store, the system
  operations and the shim are fields of the record \<open>prock\<close>, functions on a state \<open>'w\<close> of the world, with
  \<open>None\<close> for no error. The calls made are kept with whether they succeeded. \<open>start\<close> and \<open>serveShim\<close> of
  the same file are here as well.
\<close>

subsection \<open>Variables and calls\<close>

datatype process_state =
  processStart | processCommit | processServe | processLifecycle | processCleanup | processFinal

datatype pcall =
    PHandle | PStart | PLock | PUnlock | PSave | PIdentifier | PCommit | PServe | PWait
  | PDestroy | PEntries "(string + Enablement) list option" | PRevert Enablement | PCancel | PClosePipe | PExit int

text \<open>The end of the wait: the status of the shim if it has one, or the timeout.\<close>

datatype wait_result = Waited "u32 option" | TimeoutElapsed

record 'w prock =
  q_Handle :: "'w \<Rightarrow> string option \<times> 'w"
  q_start :: "'w \<Rightarrow> string option \<times> 'w"
  q_Lock :: "'w \<Rightarrow> string option \<times> 'w"
  q_unlock :: "'w \<Rightarrow> 'w"
  q_Save :: "'w \<Rightarrow> string option \<times> 'w"
  q_hasIdentifier :: bool
  q_identifier :: "'w \<Rightarrow> string option \<times> 'w"
  q_Commit :: "'w \<Rightarrow> string option \<times> 'w"
  q_encode :: "'w \<Rightarrow> string option \<times> 'w"
  q_wait :: "'w \<Rightarrow> wait_result \<times> 'w"
  q_Destroy :: "'w \<Rightarrow> string option \<times> 'w"
  q_Entries :: "'w \<Rightarrow> (string + (string + Enablement) list) \<times> 'w"
  q_Revert :: "Enablement \<Rightarrow> 'w \<Rightarrow> string list \<times> 'w"
  q_cancel :: "'w \<Rightarrow> 'w"
  q_closePipe :: "'w \<Rightarrow> 'w"

record 'w proc =
  p_state :: process_state
  p_isBeforeRevert :: bool
  p_entryHandle :: bool
  p_shimPipe :: bool
  p_exitCode :: int
  p_w :: 'w
  p_log :: "(pcall \<times> bool) list"

definition noted :: "pcall \<Rightarrow> bool \<Rightarrow> 'w proc \<Rightarrow> 'w \<Rightarrow> 'w proc" where
  "noted c ok p w = p\<lparr>p_w := w, p_log := p_log p @ [(c, ok)]\<rparr>"

text \<open>A call with an optional error, and one without.\<close>

definition try_call :: "pcall \<Rightarrow> ('w \<Rightarrow> string option \<times> 'w) \<Rightarrow> 'w proc \<Rightarrow> bool \<times> 'w proc" where
  "try_call c f p = (case f (p_w p) of (err, w) \<Rightarrow> (err = None, noted c (err = None) p w))"

definition do_call :: "pcall \<Rightarrow> ('w \<Rightarrow> 'w) \<Rightarrow> 'w proc \<Rightarrow> 'w proc" where
  "do_call c f p = noted c True p (f (p_w p))"

subsection \<open>The handlers\<close>

definition perror :: "'w prock \<Rightarrow> 'w proc \<Rightarrow> 'w proc" where
  "perror q p =
     (let p = do_call PCancel (q_cancel q) p;
          p = (if p_shimPipe p then (do_call PClosePipe (q_closePipe q) p)\<lparr>p_shimPipe := False\<rparr> else p)
      in if p_exitCode p = 0 then p\<lparr>p_exitCode := 1\<rparr> else p)"

definition perrorFatal :: "'w prock \<Rightarrow> process_state \<Rightarrow> 'w proc \<Rightarrow> 'w proc" where
  "perrorFatal q newState p = (perror q p)\<lparr>p_state := newState\<rparr>"

definition at_Start :: "'w prock \<Rightarrow> 'w proc \<Rightarrow> 'w proc" where
  "at_Start q p =
     (case try_call PHandle (q_Handle q) p of
        (False, p) \<Rightarrow> perrorFatal q processFinal p
      | (True, p) \<Rightarrow>
          (case try_call PStart (q_start q) p of
             (False, p) \<Rightarrow> perrorFatal q processFinal p
           | (True, p) \<Rightarrow> p\<lparr>p_shimPipe := True, p_state := processCommit\<rparr>))"

text \<open>\<open>Save\<close> gives a handle whether it fails or not.\<close>

definition commit_identifier :: "'w prock \<Rightarrow> 'w proc \<Rightarrow> bool \<times> 'w proc" where
  "commit_identifier q p = (if q_hasIdentifier q then try_call PIdentifier (q_identifier q) p else (True, p))"

definition at_Commit :: "'w prock \<Rightarrow> 'w proc \<Rightarrow> 'w proc" where
  "at_Commit q p =
     (if p_isBeforeRevert p then perrorFatal q processLifecycle p
      else
        case try_call PLock (q_Lock q) p of
          (False, p) \<Rightarrow> perrorFatal q processLifecycle p
        | (True, p) \<Rightarrow>
            (case try_call PSave (q_Save q) p of
               (False, p) \<Rightarrow> perrorFatal q processLifecycle (do_call PUnlock (q_unlock q) (p\<lparr>p_entryHandle := True\<rparr>))
             | (True, p) \<Rightarrow>
                 (case commit_identifier q (p\<lparr>p_entryHandle := True\<rparr>) of
                    (False, p) \<Rightarrow> perrorFatal q processLifecycle (do_call PUnlock (q_unlock q) p)
                  | (True, p) \<Rightarrow>
                      (case try_call PCommit (q_Commit q) p of
                         (ok, p) \<Rightarrow>
                           (let p = do_call PUnlock (q_unlock q) p in
                            if \<not> ok then perrorFatal q processLifecycle p
                            else p\<lparr>p_isBeforeRevert := True, p_state := processServe\<rparr>)))))"

definition serveShim :: "'w prock \<Rightarrow> 'w proc \<Rightarrow> bool \<times> 'w proc" where
  "serveShim q p =
     (if \<not> p_shimPipe p then (False, p)
      else
        case try_call PServe (q_encode q) p of
          (False, p) \<Rightarrow> (False, p)
        | (True, p) \<Rightarrow> (True, do_call PClosePipe (q_closePipe q) p))"

definition at_Serve :: "'w prock \<Rightarrow> 'w proc \<Rightarrow> 'w proc" where
  "at_Serve q p =
     (case serveShim q (p\<lparr>p_state := processLifecycle\<rparr>) of
        (False, p) \<Rightarrow> perror q p
      | (True, p) \<Rightarrow> p\<lparr>p_shimPipe := False\<rparr>)"

text \<open>The goroutine that waits for the shim cancels the context once it is done.\<close>

definition at_Lifecycle :: "'w prock \<Rightarrow> 'w proc \<Rightarrow> 'w proc" where
  "at_Lifecycle q p =
     (let p = p\<lparr>p_state := processCleanup\<rparr> in
      case q_wait q (p_w p) of
        (Waited ws, w) \<Rightarrow>
          (let p = do_call PCancel (q_cancel q) (noted PWait True p w) in
           case ws of
             Some wstatus \<Rightarrow> if ws_ExitStatus wstatus \<noteq> 0 then p\<lparr>p_exitCode := ws_ExitStatus wstatus\<rparr> else p
           | None \<Rightarrow> p)
      | (TimeoutElapsed, w) \<Rightarrow> noted PWait False p w)"

text \<open>The enablements of the instances left, and how many could be read.\<close>

fun cleanup_entries :: "'w prock \<Rightarrow> (string + Enablement) list \<Rightarrow> Enablement \<Rightarrow> nat \<Rightarrow> 'w proc \<Rightarrow> Enablement \<times> nat \<times> 'w proc" where
  "cleanup_entries q [] rt n p = (rt, n, p)"
| "cleanup_entries q (Inl err # es) rt n p = cleanup_entries q es rt n (perror q p)"
| "cleanup_entries q (Inr et # es) rt n p = cleanup_entries q es (rt OR et) (Suc n) p"

definition all_enablements :: Enablement where "all_enablements = EWayland OR EX11 OR EDBus OR EPulse"

definition revert_scope :: "Enablement \<Rightarrow> nat \<Rightarrow> Enablement" where
  "revert_scope rt n = (if n = 0 then Process OR User else Process) OR (rt XOR all_enablements)"

definition cleanup_revert :: "'w prock \<Rightarrow> 'w proc \<Rightarrow> 'w proc" where
  "cleanup_revert q p =
     (let (ec, p) =
        (case q_Entries q (p_w p) of
           (Inl err, w) \<Rightarrow> (Process, perror q (noted (PEntries None) False p w))
         | (Inr es, w) \<Rightarrow>
             (case cleanup_entries q es 0 0 (noted (PEntries (Some es)) True p w) of (rt, n, p) \<Rightarrow> (revert_scope rt n, p)));
          (failures, w) = q_Revert q ec (p_w p);
          p = noted (PRevert ec) (failures = []) p w
      in (fold (\<lambda>_. perror q) failures p)\<lparr>p_isBeforeRevert := False\<rparr>)"

definition cleanup_destroy :: "'w prock \<Rightarrow> 'w proc \<Rightarrow> 'w proc" where
  "cleanup_destroy q p =
     (if p_entryHandle p then (case try_call PDestroy (q_Destroy q) p of (ok, p) \<Rightarrow> if ok then p else perror q p) else p)"

definition at_Cleanup :: "'w prock \<Rightarrow> 'w proc \<Rightarrow> 'w proc" where
  "at_Cleanup q p =
     (let p = p\<lparr>p_state := processFinal\<rparr>;
          (locked, p) = try_call PLock (q_Lock q) p;
          p = (if locked then p else perror q p);
          p = cleanup_destroy q p;
          p = (if p_isBeforeRevert p then cleanup_revert q p else p)
      in if locked then do_call PUnlock (q_unlock q) p else p)"

text \<open>One iteration of the loop; the final state leaves the process.\<close>

definition main_step :: "'w prock \<Rightarrow> 'w proc \<Rightarrow> 'w proc" where
  "main_step q p =
     (case p_state p of
        processStart \<Rightarrow> at_Start q p
      | processCommit \<Rightarrow> at_Commit q p
      | processServe \<Rightarrow> at_Serve q p
      | processLifecycle \<Rightarrow> at_Lifecycle q p
      | processCleanup \<Rightarrow> at_Cleanup q p
      | processFinal \<Rightarrow> p)"

fun rank :: "process_state \<Rightarrow> nat" where
  "rank processStart = 5" | "rank processCommit = 4" | "rank processServe = 3"
| "rank processLifecycle = 2" | "rank processCleanup = 1" | "rank processFinal = 0"

text \<open>What the helpers leave as it is.\<close>

lemma perror_simps [simp]:
  "p_state (perror q p) = p_state p" "p_isBeforeRevert (perror q p) = p_isBeforeRevert p"
  "p_entryHandle (perror q p) = p_entryHandle p" "p_exitCode (perror q p) \<noteq> 0"
  by (simp_all add: perror_def do_call_def noted_def Let_def)

lemma noted_simps [simp]:
  "p_state (noted c ok p w) = p_state p" "p_isBeforeRevert (noted c ok p w) = p_isBeforeRevert p"
  "p_entryHandle (noted c ok p w) = p_entryHandle p" "p_exitCode (noted c ok p w) = p_exitCode p"
  "p_shimPipe (noted c ok p w) = p_shimPipe p" "p_log (noted c ok p w) = p_log p @ [(c, ok)]"
  by (simp_all add: noted_def)

lemma try_call_cases:
  obtains w where "try_call c f p = (True, noted c True p w)" | w where "try_call c f p = (False, noted c False p w)"
  by (cases "f (p_w p)"; cases "fst (f (p_w p))") (auto simp: try_call_def)

lemma cleanup_entries_state:
  "cleanup_entries q es rt n p = (rt', n', p') \<Longrightarrow> p_state p' = p_state p"
  by (induction q es rt n p rule: cleanup_entries.induct) auto

lemma fold_perror_state [simp]: "p_state (fold (\<lambda>_. perror q) failures p) = p_state p"
  by (induction failures arbitrary: p) auto

lemma cleanup_revert_state: "p_state (cleanup_revert q p) = p_state p"
  by (auto simp: cleanup_revert_def Let_def dest: cleanup_entries_state split: prod.splits sum.splits)

lemma snd_try_call [simp]:
  "p_state (snd (try_call c f p)) = p_state p" "p_isBeforeRevert (snd (try_call c f p)) = p_isBeforeRevert p"
  "p_entryHandle (snd (try_call c f p)) = p_entryHandle p"
  by (simp_all add: try_call_def case_prod_unfold)

lemma do_call_simps [simp]:
  "p_state (do_call c f p) = p_state p" "p_isBeforeRevert (do_call c f p) = p_isBeforeRevert p"
  "p_entryHandle (do_call c f p) = p_entryHandle p" "p_exitCode (do_call c f p) = p_exitCode p"
  "p_log (do_call c f p) = p_log p @ [(c, True)]"
  by (simp_all add: do_call_def)

lemma at_Start_state: "p_state (at_Start q p) = processFinal \<or> p_state (at_Start q p) = processCommit"
  by (simp add: at_Start_def perrorFatal_def case_prod_unfold split: bool.split)

lemma at_Commit_state: "p_state (at_Commit q p) = processLifecycle \<or> p_state (at_Commit q p) = processServe"
  by (simp add: at_Commit_def perrorFatal_def case_prod_unfold Let_def split: bool.split)

lemma at_Serve_state: "p_state (at_Serve q p) = processLifecycle"
  by (simp add: at_Serve_def serveShim_def case_prod_unfold split: bool.split)

lemma at_Lifecycle_state: "p_state (at_Lifecycle q p) = processCleanup"
  by (simp add: at_Lifecycle_def case_prod_unfold Let_def split: wait_result.split option.split)

lemma cleanup_destroy_simps [simp]:
  "p_state (cleanup_destroy q p) = p_state p" "p_isBeforeRevert (cleanup_destroy q p) = p_isBeforeRevert p"
  by (simp_all add: cleanup_destroy_def case_prod_unfold)

lemma at_Cleanup_state: "p_state (at_Cleanup q p) = processFinal"
  by (simp add: at_Cleanup_def case_prod_unfold Let_def cleanup_revert_state)

lemma main_step_rank: "p_state p \<noteq> processFinal \<Longrightarrow> rank (p_state (main_step q p)) < rank (p_state p)"
  using at_Start_state [of q p] at_Commit_state [of q p]
  by (cases "p_state p") (auto simp: main_step_def at_Serve_state at_Lifecycle_state at_Cleanup_state)

function main_loop :: "'w prock \<Rightarrow> 'w proc \<Rightarrow> 'w proc" where
  "main_loop q p =
     (if p_state p = processFinal then noted (PExit (p_exitCode p)) True p (p_w p) else main_loop q (main_step q p))"
  by pat_completeness auto
termination by (relation "measure (\<lambda>(q, p). rank (p_state p))") (auto simp: main_step_rank)

declare main_loop.simps [simp del]

definition main_start :: "'w \<Rightarrow> 'w proc" where
  "main_start w = \<lparr>p_state = processStart, p_isBeforeRevert = False, p_entryHandle = False, p_shimPipe = False,
     p_exitCode = 0, p_w = w, p_log = []\<rparr>"

definition process_main :: "'w prock \<Rightarrow> 'w \<Rightarrow> 'w proc" where
  "process_main q w = main_loop q (main_start w)"

subsection \<open>The protocol\<close>

text \<open>The specification of the order of calls: an automaton over the calls and whether they succeeded. It
  takes the system operations to be committed under the lock after the instance was registered, the
  shim to be served only once they are, every started shim to be waited for before anything is undone,
  what was committed to be reverted once, under the lock unless something failed, and the lock to be
  released before the process exits, with a nonzero code if a call failed.\<close>

record lifecycle =
  l_shim :: bool
  l_locked :: bool
  l_saved :: bool
  l_committed :: bool
  l_served :: bool
  l_waited :: bool
  l_destroyed :: bool
  l_entries :: "(string + Enablement) list option"
  l_reverted :: bool
  l_failed :: bool
  l_exited :: bool

text \<open>The operations to revert: those of the process, those of every enablement no instance left has, and
  those of the user if there is none left, of the instances whose header could be read.\<close>

definition readable :: "(string + Enablement) list \<Rightarrow> Enablement list" where
  "readable es = concat (map (case_sum (\<lambda>_. []) (\<lambda>et. [et])) es)"

fun admissible_scope :: "(string + Enablement) list option \<Rightarrow> Enablement \<Rightarrow> bool" where
  "admissible_scope None ec = (ec = Process)"
| "admissible_scope (Some es) ec =
     (bit ec 5 \<and> (bit ec 4 \<longleftrightarrow> readable es = [] \<or> (\<exists>et\<in>set (readable es). bit et 4)) \<and>
      list_all (\<lambda>i. bit ec i \<longleftrightarrow> (\<forall>et\<in>set (readable es). \<not> bit et i)) [0, 1, 2, 3])"

fun admits :: "lifecycle \<Rightarrow> pcall \<Rightarrow> bool" where
  "admits l PHandle = (\<not> l_shim l)"
| "admits l PStart = (\<not> l_shim l)"
| "admits l PLock = (l_shim l \<and> \<not> l_locked l)"
| "admits l PUnlock = l_locked l"
| "admits l PSave = (l_locked l \<and> \<not> l_saved l \<and> \<not> l_waited l)"
| "admits l PIdentifier = (l_locked l \<and> l_saved l \<and> \<not> l_committed l \<and> \<not> l_waited l)"
| "admits l PCommit = (l_locked l \<and> l_saved l \<and> \<not> l_committed l \<and> \<not> l_waited l)"
| "admits l PServe = (l_committed l \<and> \<not> l_locked l \<and> \<not> l_served l \<and> \<not> l_waited l)"
| "admits l PWait = (l_shim l \<and> \<not> l_locked l \<and> \<not> l_waited l)"
| "admits l PDestroy = (l_waited l \<and> (l_locked l \<or> l_failed l) \<and> l_saved l \<and> \<not> l_destroyed l)"
| "admits l (PEntries es) = (l_waited l \<and> (l_locked l \<or> l_failed l) \<and> l_committed l \<and> \<not> l_reverted l)"
| "admits l (PRevert ec) = (admissible_scope (l_entries l) ec \<and> l_waited l \<and> (l_locked l \<or> l_failed l) \<and> l_committed l \<and> \<not> l_reverted l)"
| "admits l PCancel = True"
| "admits l PClosePipe = True"
| "admits l (PExit code) = (\<not> l_locked l \<and> (l_shim l \<longrightarrow> l_waited l) \<and> (l_saved l \<longrightarrow> l_destroyed l) \<and>
     (l_committed l \<longrightarrow> l_reverted l) \<and> (l_failed l \<longrightarrow> code \<noteq> 0))"

fun effect :: "pcall \<times> bool \<Rightarrow> lifecycle \<Rightarrow> lifecycle" where
  "effect (PStart, ok) l = l\<lparr>l_shim := ok, l_failed := l_failed l \<or> \<not> ok\<rparr>"
| "effect (PLock, ok) l = l\<lparr>l_locked := ok, l_failed := l_failed l \<or> \<not> ok\<rparr>"
| "effect (PUnlock, ok) l = l\<lparr>l_locked := False\<rparr>"
| "effect (PSave, ok) l = l\<lparr>l_saved := True, l_failed := l_failed l \<or> \<not> ok\<rparr>"
| "effect (PCommit, ok) l = l\<lparr>l_committed := ok, l_failed := l_failed l \<or> \<not> ok\<rparr>"
| "effect (PServe, ok) l = l\<lparr>l_served := True, l_failed := l_failed l \<or> \<not> ok\<rparr>"
| "effect (PWait, ok) l = l\<lparr>l_waited := True\<rparr>"
| "effect (PDestroy, ok) l = l\<lparr>l_destroyed := True, l_failed := l_failed l \<or> \<not> ok\<rparr>"
| "effect (PEntries es, ok) l = l\<lparr>l_entries := es, l_failed := l_failed l \<or> \<not> ok\<rparr>"
| "effect (PRevert ec, ok) l = l\<lparr>l_reverted := True, l_failed := l_failed l \<or> \<not> ok\<rparr>"
| "effect (PExit code, ok) l = l\<lparr>l_exited := True\<rparr>"
| "effect (_, ok) l = l\<lparr>l_failed := l_failed l \<or> \<not> ok\<rparr>"

definition protocol_step :: "lifecycle option \<Rightarrow> pcall \<times> bool \<Rightarrow> lifecycle option" where
  "protocol_step l x = Option.bind l (\<lambda>l. if \<not> l_exited l \<and> admits l (fst x) then Some (effect x l) else None)"

definition lifecycle0 :: lifecycle where
  "lifecycle0 = \<lparr>l_shim = False, l_locked = False, l_saved = False, l_committed = False, l_served = False,
     l_waited = False, l_destroyed = False,
     l_entries = None, l_reverted = False, l_failed = False, l_exited = False\<rparr>"

definition protocol :: "(pcall \<times> bool) list \<Rightarrow> lifecycle option" where
  "protocol log = foldl protocol_step (Some lifecycle0) log"

lemma protocol_snoc: "protocol (log @ [x]) = protocol_step (protocol log) x"
  by (simp add: protocol_def)

text \<open>The state of the automaton after the calls made so far, through the helpers.\<close>

definition spec :: "'w proc \<Rightarrow> lifecycle option" where
  "spec p = protocol (p_log p)"

definition live :: "lifecycle option \<Rightarrow> lifecycle option" where
  "live l = Option.bind l (\<lambda>l. if l_exited l then None else Some l)"

lemma live_simps [simp]: "live (live x) = live x" "live (Some l) = (if l_exited l then None else Some l)" "live None = None"
  by (auto simp: live_def split: Option.bind_splits)

lemma protocol_step_simps [simp]:
  "protocol_step (Some l) c = (if \<not> l_exited l \<and> admits l (fst c) then Some (effect c l) else None)"
  "protocol_step x (PCancel, True) = live x" "protocol_step x (PClosePipe, True) = live x"
  by (cases x; simp add: protocol_step_def live_def)+

lemma spec_update [simp]:
  "spec (p\<lparr>p_state := s\<rparr>) = spec p" "spec (p\<lparr>p_isBeforeRevert := b\<rparr>) = spec p" "spec (p\<lparr>p_entryHandle := b\<rparr>) = spec p"
  "spec (p\<lparr>p_shimPipe := b\<rparr>) = spec p" "spec (p\<lparr>p_exitCode := n\<rparr>) = spec p"
  by (simp_all add: spec_def)

lemma spec_calls [simp]:
  "spec (noted c ok p w) = protocol_step (spec p) (c, ok)"
  "spec (do_call c f p) = protocol_step (spec p) (c, True)"
  "spec (perror q p) = live (spec p)"
  by (simp_all add: spec_def protocol_snoc perror_def do_call_def noted_def Let_def append_assoc [symmetric]
      del: append_assoc)

definition idle :: "lifecycle \<Rightarrow> 'w proc \<Rightarrow> bool" where
  "idle l p \<longleftrightarrow> l_shim l \<and> \<not> l_locked l \<and> \<not> l_destroyed l \<and> \<not> l_reverted l \<and> \<not> l_exited l \<and>
     l_committed l = p_isBeforeRevert p \<and> l_saved l = p_entryHandle p \<and> (l_failed l \<longrightarrow> p_exitCode p \<noteq> 0)"

text \<open>The simulation: what each state of the loop knows of the automaton.\<close>

definition sim :: "lifecycle \<Rightarrow> 'w proc \<Rightarrow> bool" where
  "sim l p \<longleftrightarrow>
     (case p_state p of
        processStart \<Rightarrow> l = lifecycle0 \<and> \<not> p_isBeforeRevert p \<and> \<not> p_entryHandle p
      | processCommit \<Rightarrow> l = lifecycle0\<lparr>l_shim := True\<rparr> \<and> \<not> p_isBeforeRevert p \<and> \<not> p_entryHandle p
      | processServe \<Rightarrow> idle l p \<and> l_committed l \<and> \<not> l_served l \<and> \<not> l_waited l
      | processLifecycle \<Rightarrow> idle l p \<and> \<not> l_waited l
      | processCleanup \<Rightarrow> idle l p \<and> l_waited l
      | processFinal \<Rightarrow> \<not> l_exited l \<and> admits l (PExit (p_exitCode p)))"

lemmas handler_simps = sim_def idle_def lifecycle0_def try_call_def perrorFatal_def case_prod_unfold Let_def

lemma sim_Start:
  assumes "spec p = Some l" "sim l p" "p_state p = processStart"
  shows "\<exists>l'. spec (at_Start q p) = Some l' \<and> sim l' (at_Start q p)"
  using assms by (simp add: at_Start_def handler_simps split: bool.split)

lemma sim_Commit:
  assumes "spec p = Some l" "sim l p" "p_state p = processCommit"
  shows "\<exists>l'. spec (at_Commit q p) = Some l' \<and> sim l' (at_Commit q p)"
  using assms by (simp add: at_Commit_def commit_identifier_def handler_simps split: bool.split)

lemma sim_Serve:
  assumes "spec p = Some l" "sim l p" "p_state p = processServe"
  shows "\<exists>l'. spec (at_Serve q p) = Some l' \<and> sim l' (at_Serve q p)"
  using assms by (simp add: at_Serve_def serveShim_def handler_simps split: bool.split) auto

lemma sim_Lifecycle:
  assumes "spec p = Some l" "sim l p" "p_state p = processLifecycle"
  shows "\<exists>l'. spec (at_Lifecycle q p) = Some l' \<and> sim l' (at_Lifecycle q p)"
  using assms by (simp add: at_Lifecycle_def handler_simps split: wait_result.split option.split)

lemma cleanup_entries_keeps:
  "cleanup_entries q es rt n p = (rt', n', p') \<Longrightarrow> spec p = Some l \<Longrightarrow> \<not> l_exited l \<Longrightarrow>
   spec p' = Some l \<and> p_isBeforeRevert p' = p_isBeforeRevert p \<and> p_entryHandle p' = p_entryHandle p \<and>
   (p_exitCode p \<noteq> 0 \<longrightarrow> p_exitCode p' \<noteq> 0)"
  by (induction q es rt n p rule: cleanup_entries.induct) auto

lemma fold_perror_keeps:
  "spec p = Some l \<Longrightarrow> \<not> l_exited l \<Longrightarrow>
   spec (fold (\<lambda>_. perror q) failures p) = Some l \<and>
   (p_exitCode p \<noteq> 0 \<or> failures \<noteq> [] \<longrightarrow> p_exitCode (fold (\<lambda>_. perror q) failures p) \<noteq> 0)"
  by (induction failures arbitrary: p) auto

text \<open>The scope the handler computes is the one the specification admits.\<close>

lemma cleanup_entries_result:
  "cleanup_entries q es rt n p = (rt', n', p') \<Longrightarrow> rt' = foldl (OR) rt (readable es) \<and> n' = n + length (readable es)"
  by (induction q es rt n p rule: cleanup_entries.induct) (auto simp: readable_def)

lemma bit_foldl_or: "bit (foldl (OR) rt ets) i \<longleftrightarrow> bit rt i \<or> (\<exists>et\<in>set ets. bit (et :: Enablement) i)"
  by (induction ets arbitrary: rt) (auto simp: bit_or_iff)

lemma revert_scope_admissible:
  assumes "cleanup_entries q es 0 0 p = (rt, n, p')"
  shows "admissible_scope (Some es) (revert_scope rt n)"
proof -
  have rt: "bit rt i \<longleftrightarrow> (\<exists>et\<in>set (readable es). bit et i)" and n: "n = 0 \<longleftrightarrow> readable es = []" for i
    using cleanup_entries_result [OF assms] by (auto simp: bit_foldl_or)
  have base: "(if n = 0 then Process OR User else Process) = (if n = 0 then 48 else 32)"
    and all: "all_enablements = 15"
    by (simp_all add: Process_def User_def EM_def all_enablements_def EWayland_def EX11_def EDBus_def EPulse_def
        push_bit_eq_mult)
  have b48: "bit (if n = 0 then 48 else 32 :: Enablement) i \<longleftrightarrow> (i = 5 \<or> n = 0 \<and> i = 4)" and b15: "bit (15 :: Enablement) i \<longleftrightarrow> i < 4"
    if "i \<in> {0, 1, 2, 3, 4, 5}" for i
    using that by (auto simp: bit_numeral_rec)
  have sc: "bit (revert_scope rt n) i \<longleftrightarrow> (i = 5 \<or> n = 0 \<and> i = 4) \<or> (bit rt i \<noteq> (i < 4))" if "i \<in> {0, 1, 2, 3, 4, 5}" for i
    unfolding revert_scope_def base all bit_or_iff bit_xor_iff b48 [OF that] b15 [OF that] by (rule refl)
  show ?thesis
    using sc [of 0] sc [of 1] sc [of 2] sc [of 3] sc [of 4] sc [of 5] by (simp add: n rt)
qed

text \<open>The first half of \<open>cleanup_revert\<close>: the criteria, with the entries they were computed from.\<close>

lemma cleanup_criteria:
  assumes l: "spec p = Some l" "\<not> l_exited l" "l_waited l" "l_locked l \<or> l_failed l" "l_committed l" "\<not> l_reverted l"
    and failed: "l_failed l \<longrightarrow> p_exitCode p \<noteq> 0"
  obtains ec p1 es fd where
    "cleanup_revert q p =
       (case q_Revert q ec (p_w p1) of
          (failures, w) \<Rightarrow> (fold (\<lambda>_. perror q) failures (noted (PRevert ec) (failures = []) p1 w))\<lparr>p_isBeforeRevert := False\<rparr>)"
    "spec p1 = Some (l\<lparr>l_entries := es, l_failed := fd\<rparr>)" "admissible_scope es ec"
    "fd \<longrightarrow> p_exitCode p1 \<noteq> 0" "l_failed l \<longrightarrow> fd"
proof (cases "q_Entries q (p_w p)")
  case (Pair r w)
  show thesis
  proof (cases r)
    case (Inl err)
    show thesis
    proof (rule that [of Process "perror q (noted (PEntries None) False p w)" True None])
      show "cleanup_revert q p =
        (case q_Revert q Process (p_w (perror q (noted (PEntries None) False p w))) of
          (failures, wa) \<Rightarrow> (fold (\<lambda>_. perror q) failures
             (noted (PRevert Process) (failures = []) (perror q (noted (PEntries None) False p w)) wa))\<lparr>p_isBeforeRevert := False\<rparr>)"
        using Pair Inl by (simp add: cleanup_revert_def)
    qed (use l in auto)
  next
    case (Inr es)
    obtain rt n p1 where ce: "cleanup_entries q es 0 0 (noted (PEntries (Some es)) True p w) = (rt, n, p1)"
      by (metis prod_cases3)
    have sp: "spec (noted (PEntries (Some es)) True p w) = Some (l\<lparr>l_entries := Some es, l_failed := l_failed l\<rparr>)"
      using l by simp
    show thesis
    proof (rule that [of "revert_scope rt n" p1 "l_failed l" "Some es"])
      show "cleanup_revert q p =
        (case q_Revert q (revert_scope rt n) (p_w p1) of
          (failures, w) \<Rightarrow> (fold (\<lambda>_. perror q) failures
             (noted (PRevert (revert_scope rt n)) (failures = []) p1 w))\<lparr>p_isBeforeRevert := False\<rparr>)"
        using Pair Inr ce by (simp add: cleanup_revert_def)
    qed (use cleanup_entries_keeps [OF ce sp] revert_scope_admissible [OF ce] l failed in auto)
  qed
qed

lemma cleanup_revert_spec:
  assumes l: "spec p = Some l" "\<not> l_exited l" "l_waited l" "l_locked l \<or> l_failed l" "l_committed l" "\<not> l_reverted l"
    and failed: "l_failed l \<longrightarrow> p_exitCode p \<noteq> 0"
  shows "\<exists>es fd. spec (cleanup_revert q p) = Some (l\<lparr>l_entries := es, l_reverted := True, l_failed := fd\<rparr>) \<and>
    (fd \<longrightarrow> p_exitCode (cleanup_revert q p) \<noteq> 0)"
proof -
  obtain ec p1 es fd where c: "cleanup_revert q p =
       (case q_Revert q ec (p_w p1) of
          (failures, w) \<Rightarrow> (fold (\<lambda>_. perror q) failures (noted (PRevert ec) (failures = []) p1 w))\<lparr>p_isBeforeRevert := False\<rparr>)"
    and fd: "spec p1 = Some (l\<lparr>l_entries := es, l_failed := fd\<rparr>)" "admissible_scope es ec"
      "fd \<longrightarrow> p_exitCode p1 \<noteq> 0" "l_failed l \<longrightarrow> fd"
    by (rule cleanup_criteria [OF assms, where q = q])
  obtain failures w where rv: "q_Revert q ec (p_w p1) = (failures, w)" by fastforce
  have "spec (noted (PRevert ec) (failures = []) p1 w) =
      Some (l\<lparr>l_entries := es, l_reverted := True, l_failed := fd \<or> failures \<noteq> []\<rparr>)"
    using l fd by auto
  from fold_perror_keeps [OF this, of q failures] l fd c rv show ?thesis
    by (intro exI [of _ es] exI [of _ "fd \<or> failures \<noteq> []"]) auto
qed

lemma cleanup_destroy_spec:
  assumes "spec p = Some l" "\<not> l_exited l" "l_waited l" "l_locked l \<or> l_failed l" "l_saved l = p_entryHandle p" "\<not> l_destroyed l"
    "l_failed l \<longrightarrow> p_exitCode p \<noteq> 0"
  shows "\<exists>d fd. spec (cleanup_destroy q p) = Some (l\<lparr>l_destroyed := d, l_failed := fd\<rparr>) \<and>
    (l_saved l \<longrightarrow> d) \<and> (fd \<longrightarrow> p_exitCode (cleanup_destroy q p) \<noteq> 0) \<and> (l_failed l \<longrightarrow> fd)"
proof (cases "p_entryHandle p")
  case True
  show ?thesis
  proof (rule try_call_cases [of PDestroy "q_Destroy q" p])
    fix w assume "try_call PDestroy (q_Destroy q) p = (True, noted PDestroy True p w)"
    with True assms(1-7) show ?thesis
      by (intro exI [of _ True] exI [of _ "l_failed l"]) (auto simp: cleanup_destroy_def)
  next
    fix w assume "try_call PDestroy (q_Destroy q) p = (False, noted PDestroy False p w)"
    with True assms(1-7) show ?thesis by (intro exI [of _ True]) (auto simp: cleanup_destroy_def)
  qed
next
  case False
  with assms(1-7) show ?thesis by (intro exI [of _ False] exI [of _ "l_failed l"]) (auto simp: cleanup_destroy_def)
qed

lemma sim_Cleanup:
  assumes "spec p = Some l" "sim l p" "p_state p = processCleanup"
  shows "\<exists>l'. spec (at_Cleanup q p) = Some l' \<and> sim l' (at_Cleanup q p)"
proof -
  have l: "idle l p" "l_waited l" using assms by (simp_all add: sim_def)
  define locked where "locked = fst (try_call PLock (q_Lock q) (p\<lparr>p_state := processFinal\<rparr>))"
  define p1 where "p1 = (let p' = snd (try_call PLock (q_Lock q) (p\<lparr>p_state := processFinal\<rparr>)) in if locked then p' else perror q p')"
  define p2 where "p2 = cleanup_destroy q p1"
  define p3 where "p3 = (if p_isBeforeRevert p2 then cleanup_revert q p2 else p2)"
  have c: "at_Cleanup q p = (if locked then do_call PUnlock (q_unlock q) p3 else p3)"
    by (simp add: at_Cleanup_def case_prod_unfold Let_def p3_def p2_def p1_def locked_def)
  have kept: "p_isBeforeRevert p1 = p_isBeforeRevert p" "p_entryHandle p1 = p_entryHandle p" "p_isBeforeRevert p2 = p_isBeforeRevert p"
    by (simp_all add: p1_def p2_def Let_def case_prod_unfold)
  have p1: "spec p1 = Some (l\<lparr>l_locked := locked, l_failed := l_failed l \<or> \<not> locked\<rparr>)"
      "l_failed l \<or> \<not> locked \<longrightarrow> p_exitCode p1 \<noteq> 0"
    using assms(1) l by (auto simp: p1_def locked_def try_call_def idle_def Let_def case_prod_unfold)
  obtain d fd where p2: "spec p2 = Some (l\<lparr>l_locked := locked, l_destroyed := d, l_failed := fd\<rparr>)"
      "l_saved l \<longrightarrow> d" "fd \<longrightarrow> p_exitCode p2 \<noteq> 0" "\<not> locked \<longrightarrow> fd"
    using cleanup_destroy_spec [OF p1(1), of q] p1(2) l kept unfolding p2_def idle_def by auto
  have "\<exists>es r fd. spec p3 = Some (l\<lparr>l_locked := locked, l_destroyed := d, l_entries := es, l_reverted := r, l_failed := fd\<rparr>) \<and>
      (l_committed l \<longrightarrow> r) \<and> (fd \<longrightarrow> p_exitCode p3 \<noteq> 0)"
  proof (cases "p_isBeforeRevert p")
    case True
    then obtain es fd' where "spec p3 = Some (l\<lparr>l_locked := locked, l_destroyed := d, l_failed := fd, l_entries := es,
        l_reverted := True, l_failed := fd'\<rparr>)" "fd' \<longrightarrow> p_exitCode p3 \<noteq> 0"
      using cleanup_revert_spec [OF p2(1), of q] p2 l kept by (auto simp: p3_def idle_def)
    moreover have "l\<lparr>l_locked := locked, l_destroyed := d, l_failed := fd, l_entries := es, l_reverted := True, l_failed := fd'\<rparr> =
        l\<lparr>l_locked := locked, l_destroyed := d, l_entries := es, l_reverted := True, l_failed := fd'\<rparr>" by simp
    ultimately show ?thesis by metis
  next
    case False
    with p2 l kept have "spec p3 = Some (l\<lparr>l_locked := locked, l_destroyed := d, l_entries := l_entries l, l_reverted := l_reverted l, l_failed := fd\<rparr>)"
      "\<not> l_committed l" "fd \<longrightarrow> p_exitCode p3 \<noteq> 0" by (simp_all add: p3_def idle_def)
    then show ?thesis by metis
  qed
  then obtain es r fd' where p3: "spec p3 = Some (l\<lparr>l_locked := locked, l_destroyed := d, l_entries := es, l_reverted := r, l_failed := fd'\<rparr>)"
      "l_committed l \<longrightarrow> r" "fd' \<longrightarrow> p_exitCode p3 \<noteq> 0" by blast
  show ?thesis
  proof (cases locked)
    case True
    with p3 p2(2) l at_Cleanup_state [of q p] show ?thesis unfolding c by (simp add: sim_def idle_def)
  next
    case False
    with p3 p2(2) l at_Cleanup_state [of q p] show ?thesis unfolding c by (simp add: sim_def idle_def)
  qed
qed

lemma sim_main_step:
  assumes "spec p = Some l" "sim l p" "p_state p \<noteq> processFinal"
  shows "\<exists>l'. spec (main_step q p) = Some l' \<and> sim l' (main_step q p)"
  using assms by (cases "p_state p") (simp_all add: main_step_def sim_Start sim_Commit sim_Serve sim_Lifecycle sim_Cleanup)

lemma sim_main_loop:
  "spec p = Some l \<Longrightarrow> sim l p \<Longrightarrow> \<exists>l'. spec (main_loop q p) = Some l' \<and> l_exited l'"
proof (induction q p arbitrary: l rule: main_loop.induct)
  case (1 q p)
  show ?case
  proof (cases "p_state p = processFinal")
    case True
    with 1(2,3) show ?thesis by (simp add: main_loop.simps [of q p] sim_def)
  next
    case False
    obtain l' where "spec (main_step q p) = Some l'" "sim l' (main_step q p)"
      using sim_main_step [OF 1(2,3) False] by blast
    from 1(1) [OF False this] False show ?thesis by (simp add: main_loop.simps [of q p])
  qed
qed

text \<open>C3: Whatever its calls return, \<open>main\<close> ends, and the calls it makes are a complete run of the protocol:
  the system operations are committed with the lock held and the instance registered, the shim is
  served only after that and with the lock released, a started shim is waited for before the entry
  is destroyed and the operations are reverted, both happen exactly once if they are due, the
  criteria of the revert leave out every enablement of an instance left and the operations of the
  user unless no instance was read, the lock is released in the end, and the exit code is nonzero
  if a call failed.\<close>

theorem main_protocol:
  "\<exists>l. protocol (p_log (process_main q w)) = Some l \<and> l_exited l"
proof -
  have "spec (main_start w) = Some lifecycle0" "sim lifecycle0 (main_start w)"
    by (simp_all add: spec_def main_start_def protocol_def sim_def)
  from sim_main_loop [OF this] show ?thesis by (simp add: process_main_def spec_def)
qed

end
