(* ===== verification/Out_Shim.thy ===== *)
theory Out_Shim
  imports Out_Container Out_Process Hsu
begin

text \<open>
  Both ends of the shim: \<open>start\<close> of \<open>internal/outcome/process.go\<close>, which runs \<open>hsu\<close> with the descriptor of
  the setup pipe and the identity in its environment, and \<open>internal/outcome/shim.go\<close>, which \<open>hsu\<close> executes
  as the target user: it receives the state, lowers it to the parameters of a container, starts the
  container and waits for it. The calls of the shim are kept in order; their results are fields of the
  record \<open>shimk\<close>. The text of a fatal message is its fixed part.
\<close>

subsection \<open>process.go: start\<close>

definition shimEnv :: string where "shimEnv = ''HAKUREI_SHIM''"

record shim_cmd =
  cmd_Path :: string
  cmd_Dir :: string
  cmd_Env :: "string list"

definition start_env :: "int \<Rightarrow> string \<Rightarrow> string list \<Rightarrow> string list" where
  "start_env fd identity supp =
     [shimEnv @ ''='' @ Itoa fd, ''HAKUREI_IDENTITY='' @ identity]
     @ (if 0 < length supp then [''HAKUREI_GROUPS='' @ Join supp '' ''] else [])"

definition process_start ::
  "('w \<Rightarrow> (string + int) \<times> 'w) \<Rightarrow> (shim_cmd \<Rightarrow> 'w \<Rightarrow> string option \<times> 'w) \<Rightarrow> string \<Rightarrow> outcome_t \<Rightarrow> 'w \<Rightarrow>
   out_error option \<times> 'w" where
  "process_start setup_pipe cmd_Start hsuPath k w =
     (case setup_pipe w of
        (Inl m, w) \<Rightarrow> (Some (stepError ''create shim setup pipe'' (OtherCfg m)), w)
      | (Inr fd, w) \<Rightarrow>
          (case cmd_Start \<lparr>cmd_Path = hsuPath, cmd_Dir = fhs_Root,
                 cmd_Env = start_env fd (lo_identity (the (s_local (oc_state k)))) (oc_supp k)\<rparr> w of
             (Some m, w) \<Rightarrow> (Some (stepError ''start setuid wrapper'' (OtherCfg m)), w)
           | (None, w) \<Rightarrow> (None, w)))"

subsection \<open>shim.go\<close>

definition ExitFailure :: int where "ExitFailure = 1"
definition ExitCancel :: int where "ExitCancel = 2"
definition ExitOrphan :: int where "ExitOrphan = 3"
definition ExitRequest :: int where "ExitRequest = 254"

datatype signal_err = PipeErr string | SigactionErr string | SignalErr string

datatype receive_result = ReceiveEOF | ReceiveEBADF | ReceiveEnv | ReceiveErr string | Received outcomeState

datatype container_end = ContainerOK | ContainerExit int | ContainerCanceled | ContainerErr string

record shimk =
  j_setDumpable :: "string option"
  j_getppid :: int
  j_setupContSignal :: "signal_err option"
  j_receive :: receive_result
  j_prctl :: "string option"
  j_containerStart :: "Params \<Rightarrow> int \<Rightarrow> string option"
  j_containerServe :: "string option"
  j_seccompLoad :: "NativeRule list \<Rightarrow> nat \<Rightarrow> string option"
  j_containerWait :: container_end

datatype shim_call =
    SetDumpable | SetupContSignal int | ReceiveState | SetPdeathsig | ServeSignals | CloseSetup
  | ContainerStart Params int | ContainerServe | SeccompFilter "NativeRule list" nat | ContainerWait

datatype shim_end = ShimFatal string | ShimExit int | ShimPanic string | ShimReturn

text \<open>A call that may end the process, and what follows it.\<close>

definition shim_do :: "shim_call \<Rightarrow> 'e option \<Rightarrow> ('e \<Rightarrow> shim_end) \<Rightarrow> shim_call list \<times> shim_end \<Rightarrow> shim_call list \<times> shim_end" where
  "shim_do c err h rest = (case err of Some e \<Rightarrow> ([c], h e) | None \<Rightarrow> (c # fst rest, snd rest))"

definition signal_fatal :: "signal_err \<Rightarrow> shim_end" where
  "signal_fatal err =
     ShimFatal (case err of PipeErr m \<Rightarrow> m | SigactionErr _ \<Rightarrow> ''cannot install SIGCONT handler''
                | SignalErr _ \<Rightarrow> ''cannot set up exit request'')"

definition receive_end :: "receive_result \<Rightarrow> shim_end" where
  "receive_end r =
     (case r of
        ReceiveEOF \<Rightarrow> ShimExit ExitRequest
      | ReceiveEBADF \<Rightarrow> ShimFatal ''invalid config descriptor''
      | ReceiveEnv \<Rightarrow> ShimFatal (shimEnv @ '' not set'')
      | _ \<Rightarrow> ShimFatal ''cannot receive shim setup params'')"

definition shim_wait :: "container_end \<Rightarrow> shim_end" where
  "shim_wait r =
     (case r of
        ContainerOK \<Rightarrow> ShimReturn
      | ContainerExit code \<Rightarrow> ShimExit code
      | ContainerCanceled \<Rightarrow> ShimExit ExitCancel
      | ContainerErr _ \<Rightarrow> ShimExit 127)"

text \<open>From the start of the container on.\<close>

definition shim_container :: "(string \<Rightarrow> int) \<Rightarrow> shimk \<Rightarrow> Params \<Rightarrow> int \<Rightarrow> shim_call list \<times> shim_end" where
  "shim_container snr j params waitDelay =
     shim_do (ContainerStart params waitDelay) (j_containerStart j params waitDelay) (\<lambda>_. ShimExit ExitFailure)
     (shim_do ContainerServe (j_containerServe j) (\<lambda>_. ShimFatal ''cannot configure container'')
     (let rules = Preset snr PresetStrict AllowMultiarch in
      shim_do (SeccompFilter rules AllowMultiarch) (j_seccompLoad j rules AllowMultiarch)
        (\<lambda>_. ShimFatal ''cannot load syscall filter'')
      ([ContainerWait], shim_wait (j_containerWait j))))"

text \<open>What is made of a received state before any of it is used.\<close>

definition shim_lower :: "outcomeState \<Rightarrow> int \<Rightarrow> (shim_end, outcomeState \<times> outcomeStateParams) go" where
  "shim_lower s ppid =
     (case s_Shim s of
        None \<Rightarrow> Fail (ShimPanic ''invalid memory address or nil pointer dereference'')
      | Some shim \<Rightarrow>
          (case populateLocal False s of
             Panic m \<Rightarrow> Fail (ShimPanic m)
           | Fail _ \<Rightarrow> Fail (ShimFatal ''cannot populate local state'')
           | Ret s \<Rightarrow>
               if sh_PrivPID shim \<noteq> ppid then Fail (ShimFatal ''unexpectedly reparented'')
               else Ret (s, newParams s)))"

definition shimEntrypoint :: "(string \<Rightarrow> int) \<Rightarrow> shimk \<Rightarrow> shim_call list \<times> shim_end" where
  "shimEntrypoint snr j =
     shim_do SetDumpable (j_setDumpable j) (\<lambda>_. ShimFatal ''cannot set SUID_DUMP_DISABLE'')
     (shim_do (SetupContSignal (j_getppid j)) (j_setupContSignal j) signal_fatal
     (case j_receive j of
        Received s \<Rightarrow>
          shim_do ReceiveState None (\<lambda>_ :: unit. ShimReturn)
            (case shim_lower s (j_getppid j) of
               Fail e \<Rightarrow> ([], e)
             | Panic m \<Rightarrow> ([], ShimPanic m)
             | Ret (s, st) \<Rightarrow>
                 shim_do SetPdeathsig (j_prctl j) (\<lambda>_. ShimFatal ''cannot set parent-death signal'')
                 (case toContainer_ops (case sh_Ops (the (s_Shim s)) of None \<Rightarrow> [] | Some ops \<Rightarrow> ops) st of
                    Panic m \<Rightarrow> ([], ShimPanic m)
                  | Fail _ \<Rightarrow> ([], ShimFatal ''cannot create container state'')
                  | Ret st \<Rightarrow>
                      if pa_Ops (z_params st) = None then ([], ShimFatal ''invalid container state'')
                      else
                        (let r = shim_container snr j (z_params st) (sh_WaitDelay (the (s_Shim s))) in
                         (ServeSignals # CloseSetup # fst r, snd r))))
      | r \<Rightarrow> ([ReceiveState], receive_end r)))"

text \<open>The goroutine behind \<open>ServeSignals\<close>: a message of the signal handler, with whether the container can be
  cancelled by now.\<close>

definition shimMsgExitRequested :: u8 where "shimMsgExitRequested = 0"
definition shimMsgOrphaned :: u8 where "shimMsgOrphaned = 1"
definition shimMsgInvalid :: u8 where "shimMsgInvalid = 2"
definition shimMsgBadPID :: u8 where "shimMsgBadPID = 3"

datatype signal_action = CancelContainer | SignalEnd shim_end | SignalIgnored

definition signal_step :: "bool \<Rightarrow> bool \<Rightarrow> u8 \<Rightarrow> signal_action" where
  "signal_step forwardCancel cancelable b =
     (if b = shimMsgExitRequested then
        (if forwardCancel \<and> cancelable then CancelContainer else SignalEnd (ShimExit ExitRequest))
      else if b = shimMsgOrphaned then SignalEnd (ShimExit ExitOrphan)
      else if b = shimMsgInvalid \<or> b = shimMsgBadPID then SignalIgnored
      else SignalEnd (ShimFatal ''got invalid message from signal handler''))"

text \<open>The messages in order, each with whether the container was cancelable when it was read; the read that fails
  ends the process. The result is the number of cancellations and the end.\<close>

fun signal_loop :: "bool \<Rightarrow> (u8 \<times> bool) list \<Rightarrow> nat \<times> shim_end" where
  "signal_loop forwardCancel [] = (0, ShimFatal ''cannot read from signal pipe'')"
| "signal_loop forwardCancel ((b, cancelable) # ms) =
     (case signal_step forwardCancel cancelable b of
        SignalEnd e \<Rightarrow> (0, e)
      | SignalIgnored \<Rightarrow> signal_loop forwardCancel ms
      | CancelContainer \<Rightarrow> (let (n, e) = signal_loop forwardCancel ms in (Suc n, e)))"

end
