(* ===== verification/Out_Scope.thy ===== *)
theory Out_Scope
  imports Out_System
begin

text \<open>
  What the operations registered for a configuration touch: which scope each belongs to, and that the
  operations of the process stay in the two directories named after the instance, which are made once and
  before anything in them.
\<close>

subsection \<open>The specification\<close>

definition entry_names :: "string list" where
  "entry_names = [''wayland'', ''bus'', ''system_bus_socket'', ''pulse'']"

definition entry_of :: "string list \<Rightarrow> string \<Rightarrow> bool" where
  "entry_of dirs p \<longleftrightarrow> (\<exists>d\<in>set dirs. \<exists>w\<in>set entry_names. p = path_Join [d, w])"

text \<open>\<open>dirs\<close> are the directories of the process, \<open>made\<close> those registered so far.\<close>

fun scoped_op :: "Enablement \<Rightarrow> string list \<Rightarrow> string list \<Rightarrow> op \<Rightarrow> bool" where
  "scoped_op et dirs made (op.Mkdir m) \<longleftrightarrow>
     (if mk_ephemeral m then mk_et m = Process \<and> mk_path m \<in> set dirs \<and> mk_path m \<notin> set made else mk_et m = User)"
| "scoped_op et dirs made (Hardlink l) \<longleftrightarrow> et AND EPulse \<noteq> 0 \<and> hl_et l = Process \<and> entry_of made (hl_dst l)"
| "scoped_op et dirs made (AclUpdate a) \<longleftrightarrow>
     acl_et a = User \<or> acl_et a \<in> {EWayland, EX11} \<and> et AND acl_et a \<noteq> 0 \<or>
     acl_et a = Process \<and> (acl_path a \<in> set made \<or> entry_of made (acl_path a))"
| "scoped_op et dirs made (Xhost _) \<longleftrightarrow> et AND EX11 \<noteq> 0"
| "scoped_op et dirs made (Wayland w) \<longleftrightarrow> et AND EWayland \<noteq> 0 \<and> entry_of made (wl_dst w)"
| "scoped_op et dirs made (Cgroup _) \<longleftrightarrow> True"
| "scoped_op et dirs made (DbusProxy d) \<longleftrightarrow>
     et AND EDBus \<noteq> 0 \<and> entry_of made (snd (Session (db_final d))) \<and> entry_of made (snd (System (db_final d)))"

fun makes :: "op \<Rightarrow> string list" where
  "makes (op.Mkdir m) = (if mk_ephemeral m then [mk_path m] else [])"
| "makes _ = []"

fun scoped :: "Enablement \<Rightarrow> string list \<Rightarrow> string list \<Rightarrow> op list \<Rightarrow> bool" where
  "scoped et dirs made [] = True"
| "scoped et dirs made (x # xs) = (scoped_op et dirs made x \<and> scoped et dirs (made @ makes x) xs)"

lemma scoped_snoc [simp]:
  "scoped et dirs made (xs @ [x]) \<longleftrightarrow> scoped et dirs made xs \<and> scoped_op et dirs (made @ concat (map makes xs)) x"
  by (induction xs arbitrary: made) auto

subsection \<open>The invariant of lowering\<close>

definition made :: "outcomeStateSys \<Rightarrow> string list" where
  "made st = concat (map makes (I_ops (y_sys st)))"

text \<open>The directories of the process are two, and distinct.\<close>

definition two_dirs :: "outcomeLocal \<Rightarrow> string \<Rightarrow> string \<Rightarrow> bool" where
  "two_dirs l inst rt \<longleftrightarrow>
     instancePath l = (Ret (Absolute inst) :: (out_error, absolute) go) \<and>
     runtimePath l = (Ret (Absolute rt) :: (out_error, absolute) go) \<and>
     IsAbs inst \<and> IsAbs rt \<and> inst \<noteq> rt"

definition registered :: "string \<Rightarrow> string \<Rightarrow> outcomeStateSys \<Rightarrow> bool" where
  "registered inst rt st \<longleftrightarrow>
     scoped (y_et st) [inst, rt] [] (I_ops (y_sys st)) \<and> two_dirs (y_local st) inst rt \<and>
     y_sharePath st \<in> {None, Some (Absolute inst)} \<and> (y_sharePath st = None \<longleftrightarrow> inst \<notin> set (made st)) \<and>
     y_runtimeSharePath st \<in> {None, Some (Absolute rt)} \<and> (y_runtimeSharePath st = None \<longleftrightarrow> rt \<notin> set (made st))"

text \<open>A step of lowering: it keeps the invariant and changes nothing but the operations and the directories.\<close>

definition lowers :: "outcomeStateSys \<Rightarrow> outcomeStateSys \<Rightarrow> bool" where
  "lowers st st' \<longleftrightarrow>
     y_state st' = y_state st \<and> y_et st' = y_et st \<and> I_uid (y_sys st') = I_uid (y_sys st) \<and> set (made st) \<subseteq> set (made st') \<and>
     (\<forall>inst rt. registered inst rt st \<longrightarrow> registered inst rt st')"

lemma lowers_refl [simp, intro]: "lowers st st"
  by (simp add: lowers_def)

lemma lowers_trans [trans]: "lowers a b \<Longrightarrow> lowers b c \<Longrightarrow> lowers a c"
  by (auto simp: lowers_def)

lemma made_simps [simp]:
  "made (st\<lparr>y_sys := I_append (y_sys st) x\<rparr>) = made st @ makes x"
  "made (st\<lparr>y_sharePath := a, y_sys := I_append (y_sys st) x\<rparr>) = made st @ makes x"
  "made (st\<lparr>y_runtimeSharePath := a, y_sys := I_append (y_sys st) x\<rparr>) = made st @ makes x"
  "made (st\<lparr>y_useRuntimeDir := b\<rparr>) = made st" "made (st\<lparr>y_sharePath := a\<rparr>) = made st"
  "made (st\<lparr>y_runtimeSharePath := a\<rparr>) = made st" "made (st\<lparr>y_sessionBus := bus\<rparr>) = made st"
  by (simp_all add: made_def I_append_def)

lemma I_append_simps [simp]: "I_ops (I_append sys x) = I_ops sys @ [x]" "I_uid (I_append sys x) = I_uid sys"
  by (simp_all add: I_append_def)

text \<open>An operation appended to the list.\<close>

lemma lowers_append:
  assumes "makes x = []" "\<And>inst rt. registered inst rt st \<Longrightarrow> scoped_op (y_et st) [inst, rt] (made st) x"
  shows "lowers st (st\<lparr>y_sys := I_append (y_sys st) x\<rparr>)"
  using assms unfolding lowers_def by (auto simp: registered_def made_def [symmetric])

lemma abs_String_Ret: "abs_String a = Ret s \<longleftrightarrow> pathname a \<noteq> [] \<and> s = pathname a"
  by (auto simp: abs_String_def)

lemma lift_abs_Ret: "lift_abs r = Ret x \<longleftrightarrow> r = Ret x"
  by (auto simp: lift_abs_def split: go.splits abs_error.splits)

lemma on_sys_Ret: "on_sys f st = Ret st' \<longleftrightarrow> (\<exists>sys. f (y_sys st) = Ret sys \<and> st' = st\<lparr>y_sys := sys\<rparr>)"
  by (auto simp: on_sys_def lift_abs_Ret)

lemmas builder_defs = Ensure_def Ephemeral_def UpdatePermType_def UpdatePerm_def LinkFileType_def Link_def abs_String_Ret

lemma lowers_Ensure: "on_sys (\<lambda>sys. Ensure sys a perm) st = Ret st' \<Longrightarrow> lowers st st'"
  by (auto simp: on_sys_Ret builder_defs intro!: lowers_append)

lemma lowers_perm:
  assumes "on_sys (\<lambda>sys. UpdatePermType sys t a perms) st = Ret st'"
    and "t = User \<or> t \<in> {EWayland, EX11} \<and> y_et st AND t \<noteq> 0 \<or>
      t = Process \<and> (pathname a \<in> set (made st) \<or> entry_of (made st) (pathname a))"
  shows "lowers st st'"
proof -
  obtain s where st': "st' = st\<lparr>y_sys := I_append (y_sys st) (AclUpdate \<lparr>acl_et = t, acl_path = s, acl_perms = perms\<rparr>)\<rparr>"
      "s = pathname a"
    using assms(1) by (auto simp: on_sys_Ret builder_defs)
  show ?thesis unfolding st' using assms(2) by (intro lowers_append) (simp_all del: insert_iff)
qed

lemma lowers_ensure_perm: "ensure_perm a perm perms st = Ret st' \<Longrightarrow> lowers st st'"
  unfolding ensure_perm_def by (auto dest!: lowers_Ensure intro: lowers_trans lowers_perm)

lemma lowers_runtime_flag: "lowers st (st\<lparr>y_useRuntimeDir := b\<rparr>)"
  unfolding lowers_def by (auto simp: registered_def)

lemma lowers_bus: "lowers st (st\<lparr>y_sessionBus := b\<rparr>)"
  unfolding lowers_def by (auto simp: registered_def)

lemma lowers_ensureRuntimeDir: "ensureRuntimeDir st = Ret st' \<Longrightarrow> lowers st st'"
  by (auto simp: ensureRuntimeDir_def split: if_splits
      dest!: lowers_ensure_perm intro: lowers_trans lowers_runtime_flag [of st True])

lemma append_path_Ret: "append_path a es = Ret b \<longleftrightarrow> pathname a \<noteq> [] \<and> b = Absolute (path_Join (pathname a # es))"
  by (auto simp: append_path_def lift_abs_Ret abs_Append_def abs_String_Ret unsafeAbs_def)

lemma entry_ofI: "d \<in> set dirs \<Longrightarrow> w \<in> set entry_names \<Longrightarrow> entry_of dirs (path_Join [d, w])"
  by (auto simp: entry_of_def)

lemma entry_names [simp]:
  "''wayland'' \<in> set entry_names" "''bus'' \<in> set entry_names" "''system_bus_socket'' \<in> set entry_names"
  "''pulse'' \<in> set entry_names"
  by (simp_all add: entry_names_def)

text \<open>Asking for a directory of the process: afterwards it is made.\<close>

lemma two_dirs_distinct: "two_dirs l inst rt \<Longrightarrow> inst \<noteq> rt"
  by (simp add: two_dirs_def)

lemma registered_make:
  assumes "registered inst rt st"
  shows "y_sharePath st = None \<Longrightarrow>
      registered inst rt (st\<lparr>y_sharePath := Some (Absolute inst),
        y_sys := I_append (y_sys st) (op.Mkdir \<lparr>mk_et = Process, mk_path = inst, mk_perm = perm, mk_ephemeral = True\<rparr>)\<rparr>)"
    and "y_runtimeSharePath st = None \<Longrightarrow>
      registered inst rt (st\<lparr>y_runtimeSharePath := Some (Absolute rt),
        y_sys := I_append (y_sys st) (op.Mkdir \<lparr>mk_et = Process, mk_path = rt, mk_perm = perm, mk_ephemeral = True\<rparr>)\<rparr>)"
  using assms two_dirs_distinct [of "y_local st" inst rt] unfolding registered_def
  by (auto simp: made_def [symmetric])

lemma lowers_instance:
  assumes "sys_instance st = Ret (a, st')"
  shows "lowers st st' \<and> (\<forall>inst rt. registered inst rt st \<longrightarrow> a = Absolute inst \<and> inst \<in> set (made st'))"
proof (cases "y_sharePath st")
  case (Some b)
  with assms have "a = b" "st' = st" by (simp_all add: sys_instance_def)
  with Some show ?thesis by (auto simp: registered_def)
next
  case None
  let ?mk = "op.Mkdir \<lparr>mk_et = Process, mk_path = pathname a, mk_perm = 457, mk_ephemeral = True\<rparr>"
  from None assms have a: "instancePath (y_local st) = (Ret a :: (out_error, absolute) go)"
      and st': "st' = st\<lparr>y_sharePath := Some a, y_sys := I_append (y_sys st) ?mk\<rparr>"
    by (auto simp: sys_instance_def on_sys_Ret builder_defs)
  have m: "made st' = made st @ [pathname a]" unfolding st' by simp
  have "registered inst rt st' \<and> a = Absolute inst" if "registered inst rt st" for inst rt
  proof -
    from that a have "a = Absolute inst" by (simp add: registered_def two_dirs_def)
    with registered_make(1) [OF that None] show ?thesis by (simp add: st')
  qed
  moreover have "y_state st' = y_state st" "y_et st' = y_et st" "I_uid (y_sys st') = I_uid (y_sys st)" by (simp_all add: st')
  ultimately show ?thesis using m unfolding lowers_def by auto
qed

lemma lowers_runtime:
  assumes "sys_runtime st = Ret (a, st')"
  shows "lowers st st' \<and> (\<forall>inst rt. registered inst rt st \<longrightarrow> a = Absolute rt \<and> rt \<in> set (made st'))"
proof (cases "y_runtimeSharePath st")
  case (Some b)
  with assms have "a = b" "st' = st" by (simp_all add: sys_runtime_def)
  with Some show ?thesis by (auto simp: registered_def)
next
  case None
  let ?mk = "op.Mkdir \<lparr>mk_et = Process, mk_path = pathname a, mk_perm = 448, mk_ephemeral = True\<rparr>"
  from None assms obtain st1 st2 where st1: "ensureRuntimeDir st = Ret st1"
      and a: "runtimePath (y_local st1) = (Ret a :: (out_error, absolute) go)"
      and up: "on_sys (\<lambda>sys. UpdatePerm sys a [Execute]) st2 = Ret st'"
      and eph: "on_sys (\<lambda>sys. Ephemeral sys Process a 448) (st1\<lparr>y_runtimeSharePath := Some a\<rparr>) = Ret st2"
    by (auto simp: sys_runtime_def)
  have st2: "st2 = st1\<lparr>y_runtimeSharePath := Some a, y_sys := I_append (y_sys st1) ?mk\<rparr>"
    using eph by (auto simp: on_sys_Ret builder_defs)
  have m: "made st2 = made st1 @ [pathname a]" unfolding st2 by simp
  have l1: "lowers st st1" by (rule lowers_ensureRuntimeDir [OF st1])
  have none: "y_runtimeSharePath st1 = None"
    using st1 None by (auto simp: ensureRuntimeDir_def ensure_perm_def on_sys_Ret split: if_splits)
  have r: "registered inst rt st2 \<and> a = Absolute rt" if "registered inst rt st1" for inst rt
  proof -
    from that a have "a = Absolute rt" by (simp add: registered_def two_dirs_def)
    with registered_make(2) [OF that none] show ?thesis by (simp add: st2)
  qed
  moreover have "y_state st2 = y_state st1" "y_et st2 = y_et st1" "I_uid (y_sys st2) = I_uid (y_sys st1)"
    by (simp_all add: st2)
  ultimately have l2: "lowers st1 st2" using m unfolding lowers_def by auto
  have l3: "lowers st2 st'"
    using up unfolding UpdatePerm_def by (rule lowers_perm) (simp add: m)
  have "set (made st2) \<subseteq> set (made st')" using l3 by (simp add: lowers_def)
  then have "rt \<in> set (made st')" if "a = Absolute rt" for rt using that m by auto
  moreover have "registered inst rt st1" if "registered inst rt st" for inst rt
    using l1 that by (simp add: lowers_def)
  ultimately show ?thesis using r lowers_trans [OF l1 lowers_trans [OF l2 l3]] by blast
qed

subsection \<open>Each operation lowers\<close>

lemma lowers_params: "params_toSystem k st = Ret (x, st') \<Longrightarrow> lowers st st'"
  by (auto simp: params_toSystem_def Let_def intro: lowers_Ensure)

lemma lowers_cgroup: "cgroup_toSystem st = Ret (x, st') \<Longrightarrow> lowers st st'"
  by (auto simp: cgroup_toSystem_def on_sys_Ret I_Cgroup_def split: option.splits intro!: lowers_append)

lemma lowers_shared_dirs: "shared_dirs name perm st = Ret st' \<Longrightarrow> lowers st st'"
  by (auto simp: shared_dirs_def dest!: lowers_ensure_perm intro: lowers_trans)

lemma lowers_runtime_op: "runtime_toSystem st = Ret (x, st') \<Longrightarrow> lowers st st'"
  by (auto simp: runtime_toSystem_def split: if_splits intro: lowers_shared_dirs)

lemma lowers_tmpdir: "tmpdir_toSystem st = Ret (x, st') \<Longrightarrow> lowers st st'"
  by (auto simp: tmpdir_toSystem_def split: if_splits intro: lowers_shared_dirs)

lemma lowers_account: "account_toSystem k st = Ret (x, st') \<Longrightarrow> lowers st st'"
  by (auto simp: account_toSystem_def split: option.splits if_splits)

lemma lowers_flatten: "flattenExtraPerms ps st = Ret st' \<Longrightarrow> lowers st st'"
proof (induction ps arbitrary: st)
  case (Cons p ps)
  then obtain st1 where st1: "flatten_perm p st = Ret st1" "flattenExtraPerms ps st1 = Ret st'" by auto
  have "lowers st st1"
    using st1(1) by (auto simp: flatten_perm_def Let_def split: option.splits if_splits
        dest!: lowers_Ensure intro: lowers_trans lowers_perm)
  with Cons.IH [OF st1(2)] show ?case by (rule lowers_trans [rotated])
qed simp

lemma lowers_filesystem: "filesystem_toSystem k st = Ret (x, st') \<Longrightarrow> lowers st st'"
  by (auto simp: filesystem_toSystem_def intro: lowers_flatten)

text \<open>Uses of a directory of the process after asking for it.\<close>

lemma scoped_append_plain:
  "list_all (\<lambda>x. makes x = []) ys \<Longrightarrow>
   scoped et dirs ds (xs @ ys) \<longleftrightarrow> scoped et dirs ds xs \<and> list_all (scoped_op et dirs (ds @ concat (map makes xs))) ys"
proof (induction xs arbitrary: ds)
  case Nil
  then show ?case by (induction ys) auto
qed auto

lemma lowers_ops:
  assumes l: "lowers st st1" and plain: "list_all (\<lambda>x. makes x = []) xs"
    and "\<And>i r. registered i r st \<Longrightarrow> list_all (scoped_op (y_et st) [i, r] (made st1)) xs"
    and st': "st' = st1\<lparr>y_sys := (y_sys st1)\<lparr>I_ops := I_ops (y_sys st1) @ xs\<rparr>\<rparr>"
  shows "lowers st st'"
proof -
  have "concat (map makes xs) = []" using plain by (simp add: list_all_iff)
  then have m: "made st' = made st1" by (simp add: st' made_def)
  have "y_et st1 = y_et st" using l by (simp add: lowers_def)
  with assms m show ?thesis
    unfolding lowers_def by (auto simp: registered_def scoped_append_plain made_def [symmetric])
qed

lemma entry_of_mono: "entry_of ds p \<Longrightarrow> set ds \<subseteq> set ds' \<Longrightarrow> entry_of ds' p"
  by (auto simp: entry_of_def)

lemma lowers_et: "lowers st st' \<Longrightarrow> y_et st' = y_et st"
  by (simp add: lowers_def)

lemma lowers_wayland:
  assumes "wayland_toSystem k st = Ret (x, st')"
  shows "lowers st st'"
proof -
  from assms have et: "y_et st AND EWayland \<noteq> 0" by (auto simp: wayland_toSystem_def split: if_splits)
  show ?thesis
  proof (cases "y_directWayland st")
    case True
    with assms et obtain st1 a where st1: "ensureRuntimeDir st = Ret st1"
        "on_sys (\<lambda>sys. UpdatePermType sys EWayland a [Read, Write, Execute]) st1 = Ret st'"
      by (auto simp: wayland_toSystem_def)
    have l: "lowers st st1" by (rule lowers_ensureRuntimeDir [OF st1(1)])
    moreover have "lowers st1 st'" using et lowers_et [OF l] by (intro lowers_perm [OF st1(2)]) simp
    ultimately show ?thesis by (rule lowers_trans)
  next
    case False
    with assms et obtain inst st1 dst socket appID where st1: "sys_instance st = Ret (inst, st1)"
        and dst: "append_path inst [''wayland''] = (Ret dst :: (out_error, absolute) go)"
        and st': "st' = st1\<lparr>y_sys := I_Wayland (y_sys st1) dst socket appID (lo_id (y_local st1))\<rparr>"
      by (auto simp: wayland_toSystem_def Let_def)
    show ?thesis
      using lowers_instance [OF st1] et dst
      by (intro lowers_ops [OF _ _ _ st' [unfolded I_Wayland_def I_append_def]])
        (auto simp: append_path_Ret intro!: entry_ofI)
  qed
qed

lemma lowers_x11:
  assumes "x11_toSystem k st = Ret (x, st')"
  shows "lowers st st'"
proof -
  from assms have et: "y_et st AND EX11 \<noteq> 0" by (auto simp: x11_toSystem_def split: if_splits)
  have hosts: "lowers st1 (st1\<lparr>y_sys := ChangeHosts (y_sys st1) name\<rparr>)" if "lowers st st1" for st1 name
    using et lowers_et [OF that] unfolding ChangeHosts_def by (intro lowers_append) simp_all
  have perm: "lowers st st1" if "on_sys (\<lambda>sys. UpdatePermType sys EX11 a perms) st = Ret st1" for a perms st1
    using et by (intro lowers_perm [OF that]) simp
  from assms et obtain d socket d' st1 where g: "x11_grant k d socket st = Ret (d', st1)"
      and st': "st' = st1\<lparr>y_sys := ChangeHosts (y_sys st1) (''#'' @ Itoa (lo_uid (y_local st1)))\<rparr>"
    by (auto simp: x11_toSystem_def split: option.splits)
  have l: "lowers st st1"
    using g by (auto simp: x11_grant_def split: option.splits sum.splits fs_err.splits intro: perm)
  show ?thesis unfolding st' using l hosts [OF l] by (rule lowers_trans)
qed

lemma lowers_pulse:
  assumes "pulse_toSystem k st = Ret (x, st')"
  shows "lowers st st'"
proof -
  from assms have et: "y_et st AND EPulse \<noteq> 0" by (auto simp: pulse_toSystem_def split: if_splits)
  from assms et obtain rt st1 dst src where st1: "sys_runtime st = Ret (rt, st1)"
      and dst: "append_path rt [''pulse''] = (Ret dst :: (out_error, absolute) go)"
      and link: "on_sys (\<lambda>sys. Link sys src dst) st1 = Ret st'"
    by (auto simp: pulse_toSystem_def split: option.splits)
  then have st': "st' = st1\<lparr>y_sys := I_append (y_sys st1) (Hardlink \<lparr>hl_et = Process, hl_dst = pathname dst, hl_src = pathname src\<rparr>)\<rparr>"
    by (auto simp: on_sys_Ret builder_defs)
  show ?thesis
    using lowers_runtime [OF st1] et dst
    by (intro lowers_ops [OF _ _ _ st' [unfolded I_append_def]]) (auto simp: append_path_Ret intro!: entry_ofI)
qed

lemma ProxyDBus_Ret:
  assumes "ProxyDBus v sys session system sb yb = Ret sys'"
  obtains final out where "sys' = I_append sys (DbusProxy \<lparr>db_proxy = None, db_final = final, db_out = out, db_system = (system \<noteq> None)\<rparr>)"
    "Session final = sb" "System final = yb"
proof -
  from assms obtain final where f: "Finalise sb yb session system = Ret final"
      "sys' = I_append sys (DbusProxy \<lparr>db_proxy = None, db_final = final, db_out = lpw_new ''(dbus) '', db_system = (system \<noteq> None)\<rparr>)"
    by (auto simp: ProxyDBus_def split: if_splits go.splits)
  from f(1) have "Session final = sb" "System final = yb"
    by (auto simp: Finalise_def split: if_splits option.splits)
  with f(2) show thesis by (rule that)
qed

lemma lowers_dbus:
  assumes "dbus_toSystem k st = Ret (x, st')"
  shows "lowers st st'"
proof -
  from assms have et: "y_et st AND EDBus \<noteq> 0" by (auto simp: dbus_toSystem_def split: if_splits)
  define st0 where "st0 = (if y_sessionBus st = None then st\<lparr>y_sessionBus := Some (NewConfig (y_appId st) True True)\<rparr> else st)"
  have l0: "lowers st st0" by (simp add: st0_def lowers_bus)
  from assms et obtain inst st1 ses inst' st2 syp sys st3 where st1: "sys_instance st0 = Ret (inst, st1)"
      and ses: "append_path inst [''bus''] = (Ret ses :: (out_error, absolute) go)"
      and st2: "sys_instance st1 = Ret (inst', st2)"
      and syp: "append_path inst' [''system_bus_socket''] = (Ret syp :: (out_error, absolute) go)"
      and px: "lift_bus (ProxyDBus (ok_errv k) (y_sys st2) (y_sessionBus st2) (y_systemBus st2)
          (fst (ok_dbusAddress k), pathname ses) (snd (ok_dbusAddress k), pathname syp)) = Ret sys"
      and st3: "on_sys (\<lambda>sys. UpdatePerm sys ses [Read, Write]) (st2\<lparr>y_sys := sys\<rparr>) = Ret st3"
      and st': "st3 = st' \<or> on_sys (\<lambda>sys. UpdatePerm sys syp [Read, Write]) st3 = Ret st'"
    unfolding dbus_toSystem_def st0_def [symmetric] Let_def by (auto split: if_splits)
  note i1 = lowers_instance [OF st1] and i2 = lowers_instance [OF st2]
  have l1: "lowers st0 st1" and l2: "lowers st0 st2" using i1 i2 lowers_trans by blast+
  have entries: "entry_of (made st2) (pathname ses) \<and> entry_of (made st2) (pathname syp)" if "registered i r st0" for i r
  proof -
    from that l1 have "registered i r st1" by (simp add: lowers_def)
    with that i1 i2 have "inst = Absolute i" "inst' = Absolute i" "i \<in> set (made st2)" by blast+
    with ses syp show ?thesis by (auto simp: append_path_Ret intro!: entry_ofI)
  qed
  from px obtain final out where sys: "sys = I_append (y_sys st2) (DbusProxy \<lparr>db_proxy = None, db_final = final, db_out = out, db_system = (y_systemBus st2 \<noteq> None)\<rparr>)"
      "Session final = (fst (ok_dbusAddress k), pathname ses)" "System final = (snd (ok_dbusAddress k), pathname syp)"
    by (auto simp: lift_bus_def split: go.splits elim: ProxyDBus_Ret)
  let ?acl = "\<lambda>p. AclUpdate \<lparr>acl_et = Process, acl_path = p, acl_perms = [Read, Write]\<rparr>"
  let ?px = "DbusProxy \<lparr>db_proxy = None, db_final = final, db_out = out, db_system = (y_systemBus st2 \<noteq> None)\<rparr>"
  obtain xs where xs: "xs \<in> {[?px, ?acl (pathname ses)], [?px, ?acl (pathname ses), ?acl (pathname syp)]}"
      "st' = st2\<lparr>y_sys := (y_sys st2)\<lparr>I_ops := I_ops (y_sys st2) @ xs\<rparr>\<rparr>"
    using st3 st' sys(1) by (auto simp: on_sys_Ret builder_defs I_append_def)
  have "lowers st0 st'"
    using l2 xs(1) entries et lowers_et [OF l0] sys(2,3)
    by (intro lowers_ops [OF _ _ _ xs(2)]) auto
  with l0 show ?thesis by (rule lowers_trans)
qed

subsection \<open>The whole of finalise\<close>

lemma lowers_loop:
  assumes "\<And>op st x st'. op \<in> set ops \<Longrightarrow> op st = Ret (x, st') \<Longrightarrow> lowers st st'"
    and "toSystem_loop ops acc st = Ret (acc', st')"
  shows "lowers st st'"
  using assms
proof (induction ops arbitrary: acc st)
  case (Cons op ops)
  have tail: "lowers st st'" if "p \<in> set ops" "p st = Ret (x, st')" for p st x st'
    using Cons.prems(1) [of p st x st'] that by simp
  show ?case
  proof (cases "op st")
    case (Ret r)
    then obtain x st1 where st1: "op st = Ret (x, st1)" by (cases r) auto
    with Cons.prems(2) have "toSystem_loop ops (acc @ [x]) st1 = Ret (acc', st')" by simp
    from Cons.IH [OF tail this] have "lowers st1 st'" .
    with Cons.prems(1) [of op st x st1] st1 show ?thesis by (auto intro: lowers_trans)
  next
    case (Fail e)
    with Cons.prems(2) have "toSystem_loop ops acc st = Ret (acc', st')" by (cases e) auto
    from Cons.IH [OF tail this] show ?thesis .
  qed (use Cons.prems(2) in simp)
qed simp

lemmas lowers_each = lowers_params lowers_cgroup lowers_runtime_op lowers_tmpdir lowers_account
  lowers_wayland lowers_x11 lowers_pulse lowers_dbus lowers_filesystem

lemma lowers_outcome_ops: "op \<in> set (outcome_ops k) \<Longrightarrow> op st = Ret (x, st') \<Longrightarrow> lowers st st'"
  unfolding outcome_ops_def by (auto intro: lowers_each)

text \<open>A name appended to a rooted pathname is its last component, after the cleaned others.\<close>

lemma comps_path_Join:
  assumes "IsAbs p" "list_all plain (comps w)"
  shows "comps (path_Join [p, w]) = clean_list True (comps p) @ comps w"
proof -
  have "list_all plain (clean_list True (comps p))"
    by (rule clean_list_plain) (use comps_no_slash in blast)
  moreover have "clean_list True (comps p @ comps w) = clean_list True (comps p) @ comps w"
    using fold_clean_push_id [OF assms(2)] by (simp add: clean_list_def)
  ultimately show ?thesis using assms by (simp add: path_Join_abs comps_render)
qed

lemma comps_ID: "list_all plain (comps (ID_String a))"
proof (cases "a = []")
  case False
  from plain_ID [OF this] show ?thesis by (simp add: comps_plain)
qed (simp add: ID_String_def)

lemma Paths_Copy_dirs:
  assumes "Paths_Copy (Some e) userid = (Ret sc :: (out_error, hst_Paths) go)"
    and "\<And>a. e_TempDir e = Some a \<Longrightarrow> wf_abs a" "\<And>a. e_RuntimePath e = Some a \<Longrightarrow> wf_abs a"
  shows "wf_abs (h_SharePath sc) \<and> wf_abs (h_RunDirPath sc) \<and>
    (\<exists>cs. comps (pathname (h_SharePath sc)) = cs @ [''hakurei.'' @ Itoa userid]) \<and>
    (\<exists>cs. comps (pathname (h_RunDirPath sc)) = cs @ [''hakurei''])"
proof -
  obtain t where t: "e_TempDir e = Some t" "wf_abs t"
    using assms(1,2) by (auto simp: Paths_Copy_def split: option.splits)
  let ?share = "Absolute (path_Join [pathname t, ''hakurei.'' @ Itoa userid])"
  have join: "IsAbs (path_Join (pathname a # es))" if "wf_abs a" for a es
    using that unfolding wf_abs_def by (rule IsAbs_path_Join)
  have share: "append_path t [''hakurei.'' @ Itoa userid] = Ret ?share" "wf_abs ?share"
    using t(2) join by (simp_all add: lift_abs_Append wf_abs_def del: IsAbs_iff)
  obtain r where r: "wf_abs r" "h_SharePath sc = ?share" "h_RunDirPath sc = Absolute (path_Join [pathname r, ''hakurei''])"
  proof (cases "e_RuntimePath e")
    case None
    let ?r = "Absolute (path_Join [pathname ?share, ''compat''])"
    have "wf_abs ?r" using join [OF share(2)] by (simp add: wf_abs_def del: IsAbs_iff)
    with None assms(1) t share that [of ?r] show thesis by (auto simp: Paths_Copy_def lift_abs_Append)
  next
    case (Some a)
    with assms(3) have "wf_abs a" by simp
    with Some assms(1) t share that [of a] show thesis by (auto simp: Paths_Copy_def lift_abs_Append)
  qed
  have pl: "plain (''hakurei.'' @ Itoa userid)" "plain ''hakurei''"
    using format_nat_digits [of slash] by (auto simp: plain_def slash_def Itoa_def)
  have "list_all plain (comps (''hakurei.'' @ Itoa userid))" "list_all plain (comps ''hakurei'')"
    by (simp_all only: comps_plain [OF pl(1)] comps_plain [OF pl(2)]) (use pl in simp_all)
  from comps_path_Join [OF t(2) [unfolded wf_abs_def] this(1)] comps_path_Join [OF r(1) [unfolded wf_abs_def] this(2)]
  show ?thesis
    using share(2) join [OF r(1)] unfolding r comps_plain [OF pl(1)] comps_plain [OF pl(2)]
    by (auto simp: wf_abs_def simp del: IsAbs_iff)
qed

lemma populateLocal_dirs:
  assumes "populateLocal False s = Ret s'" "s_Paths s = Some e"
    and "\<And>a. e_TempDir e = Some a \<Longrightarrow> wf_abs a" "\<And>a. e_RuntimePath e = Some a \<Longrightarrow> wf_abs a"
  shows "\<exists>inst rt. two_dirs (the (s_local s')) inst rt"
proof -
  from assms(1,2) obtain sc where sc: "Paths_Copy (Some e) (s_UserID s) = (Ret sc :: (out_error, hst_Paths) go)"
      and l: "lo_sc (the (s_local s')) = sc" "lo_id (the (s_local s')) = ID_String (the (s_ID s))"
    by (auto simp: populateLocal_def split: if_splits)
  from Paths_Copy_dirs [OF sc assms(3,4)] obtain cs ds where wf: "wf_abs (h_SharePath sc)" "wf_abs (h_RunDirPath sc)"
      and share: "comps (pathname (h_SharePath sc)) = cs @ [''hakurei.'' @ Itoa (s_UserID s)]"
      and run: "comps (pathname (h_RunDirPath sc)) = ds @ [''hakurei'']" by blast
  let ?i = "path_Join [pathname (h_SharePath sc), ID_String (the (s_ID s))]"
  let ?r = "path_Join [pathname (h_RunDirPath sc), ID_String (the (s_ID s))]"
  have plain: "\<forall>cs w. plain w \<longrightarrow> (\<exists>xs. clean_list True (cs @ [w]) = xs @ [w])"
    by (auto simp: clean_list_def plain_def)
  have pl: "plain (''hakurei.'' @ Itoa (s_UserID s))" "plain ''hakurei''"
    using format_nat_digits [of slash] by (auto simp: plain_def slash_def Itoa_def)
  have "comps ?i \<noteq> comps ?r"
    unfolding comps_path_Join [OF wf(1) [unfolded wf_abs_def] comps_ID] comps_path_Join [OF wf(2) [unfolded wf_abs_def] comps_ID]
      share run using plain [rule_format, OF pl(1), of cs] plain [rule_format, OF pl(2), of ds] by auto
  then have "?i \<noteq> ?r" by auto
  moreover have "IsAbs ?i" "IsAbs ?r" using wf unfolding wf_abs_def by (simp_all only: IsAbs_path_Join)
  ultimately show ?thesis
    using wf l by (intro exI [of _ ?i] exI [of _ ?r])
      (auto simp: two_dirs_def instancePath_def runtimePath_def lift_abs_Append simp del: IsAbs_iff)
qed

text \<open>C12: the operations registered for a configuration belong to the scope they may be reverted in: those of
  the user make directories and access entries that stay, those of a display only exist if it is
  enabled, and those of the process are confined to two distinct directories named after the instance,
  each made exactly once, as a directory that is removed again, and before any entry in it is made; the
  target user of the operations is the one of the identity.\<close>

theorem finalise_scoped:
  assumes "finalise k False False (Some ident) (Some config) = Ret oc"
  shows "\<exists>inst rt. two_dirs (the (s_local (oc_state oc))) inst rt \<and>
    scoped (Enablements_Unwrap (cfg_Enablements config)) [inst, rt] [] (I_ops (oc_sys oc)) \<and>
    I_uid (oc_sys oc) = ToUser_int (s_UserID (oc_state oc)) (cfg_Identity config)"
proof -
  from assms obtain s s' sys st where s: "newOutcomeState k (Some ident) config None = Ret s"
      and s': "populateLocal False s = Ret s'"
      and sys: "New False (lo_uid (the (s_local s'))) = (Ret sys :: (out_error, I) go)"
      and st: "toSystem k (newSys config sys s') = Ret st" and oc: "oc_sys oc = y_sys st" "oc_state oc = y_state st"
    by (auto simp: finalise_def)
  let ?st0 = "newSys config sys s'"
  from s obtain e where e: "s_Paths s = Some e" "s_Identity s = cfg_Identity config"
      "\<And>a. e_TempDir e = Some a \<Longrightarrow> wf_abs a" "\<And>a. e_RuntimePath e = Some a \<Longrightarrow> wf_abs a"
    by (auto simp: newOutcomeState_def CopyPathsFunc_def NewAbs_def unsafeAbs_def wf_abs_def Let_def
        simp del: IsAbs_iff split: go.splits if_splits)
  from populateLocal_dirs [OF s' e(1,3,4)] obtain inst rt where dirs: "two_dirs (the (s_local s')) inst rt" by blast
  have uid: "I_uid sys = ToUser_int (s_UserID s') (cfg_Identity config)" "I_ops sys = []"
    using sys s' e(2) by (auto simp: New_def populateLocal_def split: if_splits)
  from st obtain sh ops st1 where sh: "s_Shim s' = Some sh" and loop: "toSystem_loop (outcome_ops k) [] ?st0 = Ret (ops, st1)"
      and st1: "st = st1\<lparr>y_state := (y_state st1)\<lparr>s_Shim := Some (sh\<lparr>sh_Ops := Some ops\<rparr>)\<rparr>\<rparr>"
    by (auto simp: toSystem_def newSys_def split: option.splits if_splits)
  have "lowers ?st0 st1" by (rule lowers_loop [OF lowers_outcome_ops loop])
  moreover have "registered inst rt ?st0"
    using dirs uid by (simp add: registered_def newSys_def made_def)
  ultimately have "registered inst rt st1" "I_uid (y_sys st1) = I_uid sys" "y_state st1 = s'"
      "y_et st1 = Enablements_Unwrap (cfg_Enablements config)"
    by (auto simp: lowers_def newSys_def)
  then show ?thesis
    using uid(1) by (intro exI [of _ inst] exI [of _ rt]) (auto simp: registered_def oc st1)
qed

text \<open>An example: a configuration with a display, on a system where every file is missing.\<close>

definition outk0 :: outk where
  "outk0 =
     \<lparr>ok_lookupEnv = (\<lambda>_. None), ok_getpid = 7, ok_getuid = 1000, ok_getgid = 100, ok_overflowUid = 65534,
      ok_overflowGid = 65534, ok_tempdir = ''/tmp'', ok_stat = (\<lambda>_. Inl FsNotExist), ok_open = (\<lambda>_. Some FsNotExist),
      ok_read = (\<lambda>_. ([], None)), ok_close = (\<lambda>_. None), ok_readdir = (\<lambda>_. Inr []),
      ok_evalSymlinks = (\<lambda>p. Inl FsNotExist), ok_lookupGroupId = (\<lambda>_. Inl UnknownGroup), ok_cmdOutput = CmdOutput ''0'',
      ok_hsuPath = ''/bin/hsu'', ok_dbusAddress = ([], []), ok_loginNameMax = 256, ok_verbose = False,
      ok_quote = (\<lambda>s. s), ok_modeString = (\<lambda>_. []),
      ok_errv = \<lparr>e_Error = (\<lambda>_. []), e_isPath = (\<lambda>_. False), e_Message = (\<lambda>_. None)\<rparr>\<rparr>"

definition container1 :: ContainerConfig where
  "container1 =
     \<lparr>c_Hostname = ''h'', c_WaitDelay = 0, c_Env = [(''A'', ''b'')],
      c_Filesystem = [Some (FS_Bind \<lparr>bind_Target = None, bind_Source = Some (Absolute ''/usr''), bind_Write = False,
        bind_Device = False, bind_Ensure = False, bind_Optional = False, bind_Special = False\<rparr>)],
      c_Username = ''u'', c_Shell = Some (Absolute ''/bin/sh''), c_Home = Some (Absolute ''/home''),
      c_Path = Some (Absolute ''/bin/sh''), c_Args = [], c_Flags = 0, c_Cgroup = None\<rparr>"

definition config1 :: Config where
  "config1 =
     \<lparr>cfg_ID = [], cfg_Enablements = Some EWayland, cfg_SessionBus = None, cfg_SystemBus = None, cfg_DirectWayland = False,
      cfg_ExtraPerms = [], cfg_Identity = 9, cfg_Groups = [], cfg_Container = Some container1\<rparr>"

lemma config1_valid: "Config_Validate quote (Some config1) = Ret ()"
proof -
  have "CheckInterfaces None segment = None" for segment by (simp add: CheckInterfaces_None Interfaces_def)
  then show ?thesis
    by (simp add: Config_Validate_def validate_nonnil_def config1_def container1_def validate_bus_def
        validateCgroup_def lift_app_def bad_env_key_def identity_ends)
qed

definition state1 :: outcomeState where
  "state1 =
     \<lparr>s_Shim = Some \<lparr>sh_PrivPID = 7, sh_WaitDelay = WaitDelayDefault, sh_Verbose = False, sh_Ops = None\<rparr>,
      s_ID = Some ''x'', s_Identity = 9, s_UserID = 0, s_Container = Some container1, s_Mapuid = 65534, s_Mapgid = 65534,
      s_Paths = Some \<lparr>e_TempDir = Some (Absolute ''/tmp''), e_RuntimePath = None\<rparr>, s_local = None\<rparr>"

definition local1 :: outcomeLocal where
  "local1 =
     \<lparr>lo_id = ''78'', lo_identity = ''9'', lo_uid = 10009, lo_mapuid = ''65534'', lo_mapgid = ''65534'',
      lo_sc = \<lparr>h_TempDir = Absolute ''/tmp'', h_SharePath = Absolute ''/tmp/hakurei.0'',
        h_RuntimePath = Absolute ''/tmp/hakurei.0/compat'', h_RunDirPath = Absolute ''/tmp/hakurei.0/compat/hakurei''\<rparr>\<rparr>"

lemma newOutcomeState1: "newOutcomeState outk0 (Some ''x'') config1 None = Ret state1"
  by (simp add: newOutcomeState_def MustID_def Hsu_ID_def outk0_def config1_def container1_def state1_def Atoi_def
      ParseUint_def digit_val_def CopyPathsFunc_def NewAbs_def unsafeAbs_def slash_def bounded_delay_def Let_def)

lemmas path_eval = lift_abs_Append wf_abs_def path_Join_def Clean_def comps_def clean_list_def render_path_def slash_def

lemma texts1: "Itoa 9 = ''9''" "Itoa 0 = ''0''" "Itoa 65534 = ''65534''" "ID_String ''x'' = ''78''"
  by (simp_all add: Itoa_def format_nat.simps digit_char_def ID_String_def char_of_def bit_0)

lemma populateLocal1: "populateLocal False state1 = Ret (state1\<lparr>s_local := Some local1\<rparr>)"
  by (simp add: populateLocal_def state_valid_def shim_valid_def state1_def local1_def Paths_Copy_def path_eval
      texts1 ToUser_int_def)

lemma Parse_fallback:
  "Parse FallbackSystemBusAddress = Ret [\<lparr>Method = ''unix'', Values = [(''path'', ''/var/run/dbus/system_bus_socket'')]\<rparr>]"
proof -
  have "unescapeValue ''/var/run/dbus/system_bus_socket'' = Ret ''/var/run/dbus/system_bus_socket''"
    by (simp add: unescapeValue_def optional_byte_def eval_nat_numeral)
  then show ?thesis
    by (simp add: Parse_def FallbackSystemBusAddress_def TrimSuffix_def HasSuffix_def parse_entry_def parse_pair_def)
qed

lemma hide1: "hide_paths outk0 (lo_sc local1) container1 = Ret []"
proof -
  have dir: "path_Dir ''/var/run/dbus/system_bus_socket'' = ''/var/run/dbus''" by code_simp
  have "hide_candidates outk0 (lo_sc local1) =
      Ret [''/tmp/hakurei.0/compat'', ''/tmp/hakurei.0'', ''/var/run/nscd'', ''/var/run/dbus'']"
    by (simp add: hide_candidates_def outk0_def Parse_fallback socket_dirs_def out_evalSymlinks_def local1_def varRunNscd_def
        fhs_Var_def slash_def dir)
  moreover have "hide_sources outk0 container1 = Ret [Absolute ''/usr'']"
    by (simp add: hide_sources_def resolveRoot_def container1_def FilesystemConfigJSON_Valid_def bind_Valid_def bind_Path_def
        bind_Host_def fhs_Root_def)
  moreover have "DeepContainsH ''/usr'' p = Ret False"
    if "p \<in> {''/tmp/hakurei.0/compat'', ''/tmp/hakurei.0'', ''/var/run/nscd'', ''/var/run/dbus''}" for p
    using that by (auto simp: DeepContainsH_def filepath_Rel_def path_eval HasPrefix_def)
  ultimately show ?thesis
    by (simp add: hide_paths_def out_evalSymlinks_def outk0_def)
qed

lemmas lower_eval = params_toSystem_def cgroup_toSystem_def runtime_toSystem_def tmpdir_toSystem_def account_toSystem_def
  wayland_toSystem_def x11_toSystem_def pulse_toSystem_def dbus_toSystem_def filesystem_toSystem_def
  wayland_socket_def sys_instance_def instancePath_def on_sys_def builder_defs(1-6) lift_abs_def abs_String_def

lemma container1_sel:
  "c_Cgroup container1 = None" "c_Flags container1 = 0" "c_Home container1 \<noteq> None" "c_Shell container1 \<noteq> None"
  "c_Username container1 = ''u''"
  by (simp_all add: container1_def)

lemma local1_sel:
  "h_SharePath (lo_sc local1) = Absolute ''/tmp/hakurei.0''" "h_RuntimePath (lo_sc local1) = Absolute ''/tmp/hakurei.0/compat''"
  "lo_id local1 = ''78''"
  by (simp_all add: local1_def)

lemma finalise1: "\<exists>oc. finalise outk0 False False (Some ''x'') (Some config1) = Ret oc"
proof -
  let ?st = "newSys config1 \<lparr>I_uid = 10009, I_ops = [], I_committed = False, I_reverted = False\<rparr> (state1\<lparr>s_local := Some local1\<rparr>)"
  have k: "ok_lookupEnv outk0 v = None" "IsValidUsername (ok_loginNameMax outk0) ''u''" for v
    by (simp_all add: outk0_def IsValidUsername_def nameRegex_MatchString_def name_head_def char_in_def)
  have et: "EWayland AND EX11 = 0" "EWayland AND EPulse = 0" "EWayland AND EDBus = 0" "EWayland AND EWayland \<noteq> 0"
    by (simp_all add: EWayland_def EX11_def EPulse_def EDBus_def)
  have inst: "path_Join [''/tmp/hakurei.0'', ''78''] = ''/tmp/hakurei.0/78''" by (simp add: path_eval)
  have "\<exists>st. toSystem outk0 ?st = Ret st"
    by (simp add: toSystem_def newSys_def outcome_ops_def lower_eval hide1 k et state1_def config1_def container1_sel
        local1_sel append_path_def abs_Append_def Enablements_Unwrap_def Let_def unsafeAbs_def inst)
  moreover have "lo_uid local1 = 10009" "cfg_Groups config1 = []" by (simp_all add: local1_def config1_def)
  ultimately show ?thesis
    by (auto simp: finalise_def lift_validate_def config1_valid newOutcomeState1 populateLocal1 New_def)
qed

theorem finalise_scoped_witness:
  "\<exists>oc inst rt. finalise outk0 False False (Some ''x'') (Some config1) = Ret oc \<and>
     two_dirs (the (s_local (oc_state oc))) inst rt \<and> scoped EWayland [inst, rt] [] (I_ops (oc_sys oc))"
proof -
  obtain oc where oc: "finalise outk0 False False (Some ''x'') (Some config1) = Ret oc" using finalise1 by blast
  from finalise_scoped [OF oc] oc show ?thesis by (auto simp: config1_def Enablements_Unwrap_def)
qed

end
