(* ===== verification/Out_Hide.thy ===== *)
theory Out_Hide
  imports Out_Scope
begin

text \<open>
  Path hiding of \<open>spFilesystemOp\<close> in \<open>internal/outcome/spcontainer.go\<close>: the pathnames it covers are exactly
  the candidates some mount point of the configuration would make available, other than a first mount point on
  the root directory. Which host pathnames those are is stated over the fields of the configuration.
\<close>

subsection \<open>Containment\<close>

definition covers :: "string \<Rightarrow> string \<Rightarrow> bool" where
  "covers p h \<longleftrightarrow> prefix (comps (Clean p)) (comps (Clean h))"

lemma strip_common_prefix: "prefix bs ts \<Longrightarrow> strip_common bs ts = ([], drop (length bs) ts)"
  by (induction bs ts rule: strip_common.induct) auto

lemma strip_common_not_prefix: "\<not> prefix bs ts \<Longrightarrow> fst (strip_common bs ts) \<noteq> []"
  by (induction bs ts rule: strip_common.induct) auto

lemma plain_comps_Clean: "IsAbs p \<Longrightarrow> list_all plain (comps (Clean p))"
  using clean_abs_Clean [of p] by (auto simp: clean_abs_def comps_render simp del: IsAbs_iff)

lemma Join_plain_not_upper:
  assumes "list_all plain ws"
  shows "Join ws [slash] \<noteq> ''..'' \<and> \<not> HasPrefix (Join ws [slash]) ''../''"
proof -
  have c: "comps (Join ws [slash]) = ws"
    using assms comps_render [OF assms] by (simp add: render_path_def)
  have "comps ''..'' = [''..'']" by (simp add: comps_def slash_def)
  moreover have "comps (''../'' @ r) = ''..'' # comps r" for r
    using comps_append_slash [of "''..''" r] by (simp add: comps_def slash_def)
  moreover have "''..'' \<notin> set ws" using assms by (auto simp: list_all_iff plain_def)
  ultimately show ?thesis
    using c by (auto simp: HasPrefix_iff elim!: prefixE) (metis append_Cons append_Nil list.set_intros(1))
qed

lemma DeepContainsH_abs:
  assumes "IsAbs p" "IsAbs h"
  shows "DeepContainsH p h = Ret (covers p h)"
proof (cases "Clean h = Clean p")
  case True
  then show ?thesis by (simp add: DeepContainsH_def filepath_Rel_def covers_def HasPrefix_def)
next
  case False
  have abs: "IsAbs (Clean p) = IsAbs (Clean h)" using assms by (simp del: IsAbs_iff)
  show ?thesis
  proof (cases "covers p h")
    case True
    let ?rest = "drop (length (comps (Clean p))) (comps (Clean h))"
    have "list_all plain ?rest"
      using plain_comps_Clean [OF assms(2)] by (auto simp: list_all_iff dest: in_set_dropD)
    from Join_plain_not_upper [OF this] True False abs show ?thesis
      by (simp add: DeepContainsH_def filepath_Rel_def covers_def strip_common_prefix del: IsAbs_iff)
  next
    case no: False
    obtain bs ts where st: "strip_common (comps (Clean p)) (comps (Clean h)) = (bs, ts)" by fastforce
    with no obtain b bs' where bs: "bs = b # bs'"
      using strip_common_not_prefix [of "comps (Clean p)" "comps (Clean h)"] by (cases bs) (auto simp: covers_def)
    have "Join (''..'' # ws) [slash] = ''..'' \<or> HasPrefix (Join (''..'' # ws) [slash]) ''../''" for ws
      by (cases ws) (auto simp: HasPrefix_def slash_def)
    from this [of "replicate (length bs') ''..'' @ ts"] st bs no False abs show ?thesis
      by (simp add: DeepContainsH_def filepath_Rel_def del: IsAbs_iff)
  qed
qed

subsection \<open>The loops\<close>

lemma hide_match_spec:
  assumes "IsAbs p" "list_all (\<lambda>(h, _). IsAbs h) hs"
  shows "hide_match p hs = Ret (map (\<lambda>(h, m). (h, m \<or> covers p h)) hs)"
  using assms(2) by (induction hs) (auto simp: DeepContainsH_abs [OF assms(1)] simp del: IsAbs_iff)

lemma hide_loop_spec:
  assumes "list_all IsAbs ps" "list_all (\<lambda>(h, _). IsAbs h) hs"
  shows "hide_loop ps hs = Ret (map (\<lambda>(h, m). (h, m \<or> (\<exists>p\<in>set ps. covers p h))) hs)"
  using assms
proof (induction ps arbitrary: hs)
  case Nil
  show ?case by (simp add: case_prod_unfold)
next
  case (Cons p ps)
  have "list_all (\<lambda>(h, _). IsAbs h) (map (\<lambda>(h, m). (h, m \<or> covers p h)) hs)"
    using Cons.prems(2) by (auto simp: list_all_iff simp del: IsAbs_iff)
  from Cons.IH [OF _ this] Cons.prems show ?case
    by (simp add: hide_match_spec case_prod_unfold comp_def disj_assoc del: IsAbs_iff)
qed

text \<open>What a pathname is resolved to: itself if it does not exist.\<close>

definition resolved :: "outk \<Rightarrow> string \<Rightarrow> string" where
  "resolved k v = (case ok_evalSymlinks k v of Inr p \<Rightarrow> p | Inl _ \<Rightarrow> v)"

lemma out_evalSymlinks_Ret: "out_evalSymlinks k step v = Ret p \<Longrightarrow> p = resolved k v"
  by (auto simp: out_evalSymlinks_def resolved_def split: sum.splits fs_err.splits)

lemma mapM_go_resolved:
  "mapM_go (\<lambda>a. out_evalSymlinks k step (f a)) xs = Ret ys \<Longrightarrow> ys = map (\<lambda>a. resolved k (f a)) xs"
  by (induction xs arbitrary: ys) (auto dest: out_evalSymlinks_Ret)

definition bus_entries :: "outk \<Rightarrow> (BadAddressError, AddrEntry list) go" where
  "bus_entries k = Parse (case ok_lookupEnv k SystemBusAddress of None \<Rightarrow> FallbackSystemBusAddress | Some a \<Rightarrow> a)"

definition candidates :: "outk \<Rightarrow> hst_Paths \<Rightarrow> AddrEntry list \<Rightarrow> string list" where
  "candidates k sc entries =
     map (resolved k)
       ([pathname (h_RuntimePath sc), pathname (h_SharePath sc), ''/var/run/nscd''] @
        [path_Dir v. e \<leftarrow> entries, Method e = ''unix'', (key, v) \<leftarrow> Values e, key = ''path'' \<and> IsAbs v])"

lemma socket_dirs_comprehension:
  "socket_dirs entries = [path_Dir v. e \<leftarrow> entries, Method e = ''unix'', (key, v) \<leftarrow> Values e, key = ''path'' \<and> IsAbs v]"
proof -
  have "map (\<lambda>kv. path_Dir (snd kv)) (filter (\<lambda>kv. fst kv = ''path'' \<and> IsAbs (snd kv)) vs) =
      [path_Dir v. (key, v) \<leftarrow> vs, key = ''path'' \<and> IsAbs v]" for vs
    by (induction vs) (auto simp del: IsAbs_iff)
  then show ?thesis unfolding socket_dirs_def by (intro arg_cong [of _ _ concat] map_cong) (auto simp del: IsAbs_iff)
qed

lemma candidates_socket_dirs:
  "candidates k sc entries =
     map (resolved k) ([pathname (h_RuntimePath sc), pathname (h_SharePath sc), varRunNscd] @ socket_dirs entries)"
  unfolding candidates_def socket_dirs_comprehension by (simp add: varRunNscd_def fhs_Var_def)

lemma hide_candidates_Ret:
  "hide_candidates k sc = Ret hs \<Longrightarrow> \<exists>entries. bus_entries k = Ret entries \<and> hs = candidates k sc entries"
  by (auto simp: hide_candidates_def bus_entries_def candidates_socket_dirs Let_def split: go.splits
      dest: mapM_go_resolved [where f = "\<lambda>v. v"] out_evalSymlinks_Ret)

lemma hide_abs_Ret: "hide_abs k h = Ret a \<Longrightarrow> a = Absolute h"
  by (auto simp: hide_abs_def NewAbs_def unsafeAbs_def split: go.splits if_splits)

lemma mapM_hide_abs: "mapM_go (\<lambda>h. hide_abs k (f h)) xs = Ret hs \<Longrightarrow> hs = map (\<lambda>h. Absolute (f h)) xs"
  by (induction xs arbitrary: hs) (auto dest: hide_abs_Ret)

subsection \<open>The host pathnames of the mount points\<close>

text \<open>What a mount point takes from the host and where it goes, from its fields.\<close>

fun mount_sources :: "FilesystemConfig \<Rightarrow> absolute set" where
  "mount_sources (FS_Bind b) = set_option (bind_Source b)"
| "mount_sources (FS_Ephemeral _) = {}"
| "mount_sources (FS_Overlay x) = {a. Some a \<in> set (ov_Lower x)} \<union>
     {a. ov_Upper x \<noteq> None \<and> ov_Work x \<noteq> None \<and> (ov_Upper x = Some a \<or> ov_Work x = Some a)}"
| "mount_sources (FS_Link _) = {}"

fun mount_target :: "FilesystemConfig \<Rightarrow> absolute option" where
  "mount_target (FS_Bind b) = (if bind_Target b = None then bind_Source b else bind_Target b)"
| "mount_target (FS_Ephemeral e) = eph_Target e"
| "mount_target (FS_Overlay x) = ov_Target x"
| "mount_target (FS_Link l) = lnk_Target l"

definition on_root :: "FilesystemConfig \<Rightarrow> bool" where
  "on_root f \<longleftrightarrow> (\<exists>a. mount_target f = Some a \<and> pathname a = ''/'')"

text \<open>The host pathnames that count: those of every mount point except the first one if that is on the root directory,
  and, if that is a special bind, of each entry of its directory it binds.\<close>

definition exposed :: "outk \<Rightarrow> FilesystemConfig option list \<Rightarrow> absolute set" where
  "exposed k cs =
     {a. \<exists>i f. i < length cs \<and> cs ! i = Some f \<and> \<not> (i = 0 \<and> on_root f) \<and> a \<in> mount_sources f} \<union>
     {a. \<exists>b dir names name. cs \<noteq> [] \<and> cs ! 0 = Some (FS_Bind b) \<and> on_root (FS_Bind b) \<and> bind_Special b \<and>
        bind_Source b = Some dir \<and> ok_readdir k (pathname dir) = Inr names \<and> name \<in> set names \<and>
        name \<notin> {''proc'', ''dev'', ''tmp'', ''mnt'', ''etc'', []} \<and> a = Absolute (path_Join [pathname dir, name])}"

lemma fs_Host_sources: "FilesystemConfigJSON_Valid (Some f) \<Longrightarrow> set (fs_Host f) = mount_sources f"
proof (cases f)
  case (FS_Overlay x)
  assume "FilesystemConfigJSON_Valid (Some f)"
  with FS_Overlay have v: "ov_Valid x" by (simp add: FilesystemConfigJSON_Valid_def)
  then have "None \<notin> set (ov_Lower x)" by (auto simp: ov_Valid_def split: if_splits)
  then have "Some (the y) = y" if "y \<in> set (ov_Lower x)" for y using that by (cases y) auto
  then have "the ` set (ov_Lower x) = {a. Some a \<in> set (ov_Lower x)}"
    by (intro set_eqI iffI) (auto intro: image_eqI [of _ the "Some _"])
  with v FS_Overlay show ?thesis by (auto simp: ov_Host_def)
qed (auto simp: FilesystemConfigJSON_Valid_def bind_Valid_def bind_Host_def eph_Host_def lnk_Host_def split: if_splits)

lemma fs_Path_root: "FilesystemConfigJSON_Valid (Some f) \<Longrightarrow> map_option pathname (fs_Path f) = Some fhs_Root \<longleftrightarrow> on_root f"
  by (cases f) (auto simp: FilesystemConfigJSON_Valid_def on_root_def fhs_Root_def bind_Path_def eph_Path_def lnk_Path_def ov_Path_def
      split: option.splits)

lemma check_filesystem_all: "check_filesystem i cs = Ret u \<Longrightarrow> list_all FilesystemConfigJSON_Valid cs"
  by (induction i cs rule: check_filesystem.induct) (auto split: if_splits)

lemma hosts_nth:
  assumes "list_all FilesystemConfigJSON_Valid cs"
  shows "(\<Union>f\<in>set cs. set (fs_Host (the f))) = {a. \<exists>i f. i < length cs \<and> cs ! i = Some f \<and> a \<in> mount_sources f}"
proof -
  have "\<exists>g. f = Some g \<and> set (fs_Host g) = mount_sources g" if "f \<in> set cs" for f
  proof -
    from that assms have v: "FilesystemConfigJSON_Valid f" by (simp add: list_all_iff)
    then obtain g where "f = Some g" by (cases f) (simp_all add: FilesystemConfigJSON_Valid_def)
    with v fs_Host_sources [of g] show ?thesis by simp
  qed
  then have "(\<Union>f\<in>set cs. set (fs_Host (the f))) = {a. \<exists>f. Some f \<in> set cs \<and> a \<in> mount_sources f}" by fastforce
  then show ?thesis by (auto simp: in_set_conv_nth)
qed

lemma mapM_append_path:
  "wf_abs dir \<Longrightarrow> mapM_go (\<lambda>name. append_path dir [name]) names =
     (Ret (map (\<lambda>name. Absolute (path_Join [pathname dir, name])) names) :: (out_error, absolute list) go)"
  by (induction names) (simp_all add: append_path_def lift_abs_def abs_Append_wf)

lemma hide_sources_parts:
  assumes "hide_sources k c = Ret srcs" "resolveRoot c = (rootfs, cs, autoroot)"
  shows "list_all FilesystemConfigJSON_Valid cs \<and>
    (\<exists>auto_sources. set srcs = (\<Union>f\<in>set cs. set (fs_Host (the f))) \<union> set auto_sources \<and>
       (case autoroot of None \<Rightarrow> auto_sources = []
        | Some b \<Rightarrow> \<exists>names. ok_readdir k (pathname (the (bind_Source b))) = Inr names \<and>
            mapM_go (\<lambda>name. append_path (the (bind_Source b)) [name]) (filter IsAutoRootBindable names) =
              (Ret auto_sources :: (out_error, absolute list) go)))"
  using assms by (auto simp: hide_sources_def dest: check_filesystem_all split: option.splits sum.splits)

abbreviation wf_sources :: "FilesystemConfig option list \<Rightarrow> bool" where
  "wf_sources cs \<equiv> \<forall>f. Some f \<in> set cs \<longrightarrow> (\<forall>a\<in>mount_sources f. wf_abs a)"

text \<open>The collection of the sources agrees with it.\<close>

lemma exposed_Cons_root:
  assumes "on_root g" "list_all FilesystemConfigJSON_Valid fs"
  shows "exposed k (Some g # fs) = (\<Union>f\<in>set fs. set (fs_Host (the f))) \<union>
    {a. \<exists>b dir names name. g = FS_Bind b \<and> bind_Special b \<and>
        bind_Source b = Some dir \<and> ok_readdir k (pathname dir) = Inr names \<and> name \<in> set names \<and>
        name \<notin> {''proc'', ''dev'', ''tmp'', ''mnt'', ''etc'', []} \<and> a = Absolute (path_Join [pathname dir, name])}"
proof -
  have "(\<exists>i f. i < length (Some g # fs) \<and> (Some g # fs) ! i = Some f \<and> \<not> (i = 0 \<and> on_root f) \<and> a \<in> mount_sources f) \<longleftrightarrow>
      (\<exists>i f. i < length fs \<and> fs ! i = Some f \<and> a \<in> mount_sources f)" for a
    using assms(1) by (auto simp: gr0_conv_Suc nth_Cons split: nat.splits)
  then show ?thesis using assms unfolding exposed_def hosts_nth [OF assms(2)] by auto
qed

lemma exposed_Cons:
  assumes "\<not> on_root g" "list_all FilesystemConfigJSON_Valid (Some g # fs)"
  shows "exposed k (Some g # fs) = (\<Union>f\<in>set (Some g # fs). set (fs_Host (the f)))"
proof -
  have "(\<exists>i f. i < length (Some g # fs) \<and> (Some g # fs) ! i = Some f \<and> \<not> (i = 0 \<and> on_root f) \<and> a \<in> mount_sources f) \<longleftrightarrow>
      (\<exists>i f. i < length (Some g # fs) \<and> (Some g # fs) ! i = Some f \<and> a \<in> mount_sources f)" for a
    using assms(1) by (metis nth_Cons_0 option.inject)
  then show ?thesis using assms(1) unfolding exposed_def hosts_nth [OF assms(2)] by auto
qed

lemma hide_sources_exposed:
  assumes "hide_sources k c = Ret srcs" "wf_sources (c_Filesystem c)"
  shows "set srcs = exposed k (c_Filesystem c)"
proof (cases "c_Filesystem c")
  case Nil
  with assms(1) show ?thesis by (simp add: hide_sources_def resolveRoot_def exposed_def)
next
  case (Cons f fs)
  show ?thesis
  proof (cases "FilesystemConfigJSON_Valid f \<and> map_option pathname (fs_Path (the f)) = Some fhs_Root")
    case False
    then have "resolveRoot c = (None, f # fs, None)" unfolding resolveRoot_def Cons by simp
    from hide_sources_parts [OF assms(1) this] have v: "list_all FilesystemConfigJSON_Valid (f # fs)"
        and s: "set srcs = (\<Union>f\<in>set (f # fs). set (fs_Host (the f)))" by auto
    from v obtain g where g: "f = Some g" by (cases f) (auto simp: FilesystemConfigJSON_Valid_def)
    with False v have "\<not> on_root g" using fs_Path_root [of g] by auto
    from exposed_Cons [OF this v [unfolded g]] show ?thesis unfolding s Cons g by simp
  next
    case True
    then obtain g where g: "f = Some g" by (cases f) (auto simp: FilesystemConfigJSON_Valid_def)
    with True have root: "on_root g" using fs_Path_root [of g] by auto
    define autoroot where "autoroot = (case g of FS_Bind b \<Rightarrow> if IsAutoRoot b then Some b else None | _ \<Rightarrow> None)"
    have "resolveRoot c = (f, fs, autoroot)" using True unfolding resolveRoot_def Cons autoroot_def g by simp
    from hide_sources_parts [OF assms(1) this] obtain auto_sources where v: "list_all FilesystemConfigJSON_Valid fs"
        and s: "set srcs = (\<Union>f\<in>set fs. set (fs_Host (the f))) \<union> set auto_sources"
        and au: "case autoroot of None \<Rightarrow> auto_sources = []
          | Some b \<Rightarrow> \<exists>names. ok_readdir k (pathname (the (bind_Source b))) = Inr names \<and>
              mapM_go (\<lambda>name. append_path (the (bind_Source b)) [name]) (filter IsAutoRootBindable names) =
                (Ret auto_sources :: (out_error, absolute list) go)" by blast
    have "set auto_sources = {a. \<exists>b dir names name. g = FS_Bind b \<and> bind_Special b \<and>
        bind_Source b = Some dir \<and> ok_readdir k (pathname dir) = Inr names \<and> name \<in> set names \<and>
        name \<notin> {''proc'', ''dev'', ''tmp'', ''mnt'', ''etc'', []} \<and> a = Absolute (path_Join [pathname dir, name])}"
    proof (cases "\<exists>b. g = FS_Bind b \<and> bind_Special b")
      case False
      then have "autoroot = None" by (auto simp: autoroot_def IsAutoRoot_def split: FilesystemConfig.splits)
      with au False show ?thesis by auto
    next
      case special: True
      then obtain b where b: "g = FS_Bind b" "bind_Special b" by blast
      then have valid: "bind_Valid b" using True g by (simp add: FilesystemConfigJSON_Valid_def)
      then obtain dir where dir: "bind_Source b = Some dir" by (cases "bind_Source b") (auto simp: bind_Valid_def)
      have "bind_Target b \<noteq> None" using valid b(2) by (auto simp: bind_Valid_def split: if_splits option.splits)
      then have "IsAutoRoot b" using valid b root by (auto simp: IsAutoRoot_def on_root_def fhs_Root_def)
      moreover have "wf_abs dir" using assms(2) Cons g b dir by auto
      ultimately obtain names where "ok_readdir k (pathname dir) = Inr names"
          "auto_sources = map (\<lambda>name. Absolute (path_Join [pathname dir, name])) (filter IsAutoRootBindable names)"
        using au b dir by (auto simp: autoroot_def mapM_append_path)
      then show ?thesis using b dir by (auto simp: IsAutoRootBindable_def)
    qed
    then show ?thesis unfolding s Cons g exposed_Cons_root [OF root v] by simp
  qed
qed

lemma exposed_wf:
  assumes "wf_sources cs" "a \<in> exposed k cs"
  shows "wf_abs a"
proof -
  have join: "wf_abs (Absolute (path_Join [pathname dir, name]))" if "wf_abs dir" for dir name
    using that IsAbs_path_Join [of "pathname dir" "[name]"] by (simp add: wf_abs_def del: IsAbs_iff)
  have source: "wf_abs a" if "i < length cs" "cs ! i = Some f" "a \<in> mount_sources f" for i f a
    using assms(1) that nth_mem [of i cs] by metis
  from assms(2) consider i f where "i < length cs" "cs ! i = Some f" "a \<in> mount_sources f"
    | b dir name where "cs \<noteq> []" "cs ! 0 = Some (FS_Bind b)" "bind_Source b = Some dir" "a = Absolute (path_Join [pathname dir, name])"
    unfolding exposed_def by blast
  then show ?thesis
  proof cases
    case 2
    with source [of 0 "FS_Bind b" dir] join show ?thesis by simp
  qed (rule source)
qed


text \<open>An example: a bind of \<open>/var\<close> makes the socket of the system bus and \<open>nscd\<close> available.\<close>

definition container2 :: ContainerConfig where
  "container2 = container1\<lparr>c_Filesystem := [Some (FS_Bind \<lparr>bind_Target = None, bind_Source = Some (Absolute ''/var''),
     bind_Write = False, bind_Device = False, bind_Ensure = False, bind_Optional = False, bind_Special = False\<rparr>)]\<rparr>"

lemma hide2:
  "hide_sources outk0 container2 = Ret [Absolute ''/var'']"
  "hide_candidates outk0 (lo_sc local1) = Ret (candidates outk0 (lo_sc local1)
     [\<lparr>Method = ''unix'', Values = [(''path'', ''/var/run/dbus/system_bus_socket'')]\<rparr>])"
  "candidates outk0 (lo_sc local1) [\<lparr>Method = ''unix'', Values = [(''path'', ''/var/run/dbus/system_bus_socket'')]\<rparr>] =
     [''/tmp/hakurei.0/compat'', ''/tmp/hakurei.0'', ''/var/run/nscd'', ''/var/run/dbus'']"
proof -
  have dir: "path_Dir ''/var/run/dbus/system_bus_socket'' = ''/var/run/dbus''" by code_simp
  show c: "candidates outk0 (lo_sc local1) [\<lparr>Method = ''unix'', Values = [(''path'', ''/var/run/dbus/system_bus_socket'')]\<rparr>] =
     [''/tmp/hakurei.0/compat'', ''/tmp/hakurei.0'', ''/var/run/nscd'', ''/var/run/dbus'']"
    by (simp add: candidates_socket_dirs resolved_def outk0_def socket_dirs_def local1_def varRunNscd_def fhs_Var_def slash_def dir)
  show "hide_candidates outk0 (lo_sc local1) = Ret (candidates outk0 (lo_sc local1)
     [\<lparr>Method = ''unix'', Values = [(''path'', ''/var/run/dbus/system_bus_socket'')]\<rparr>])"
    unfolding c by (simp add: hide_candidates_def outk0_def Parse_fallback socket_dirs_def out_evalSymlinks_def local1_def
        varRunNscd_def fhs_Var_def slash_def dir)
  show "hide_sources outk0 container2 = Ret [Absolute ''/var'']"
    by (simp add: hide_sources_def resolveRoot_def container2_def FilesystemConfigJSON_Valid_def bind_Valid_def bind_Path_def
        bind_Host_def fhs_Root_def)
qed


end
