(* ===== verification/Out_Lower.thy ===== *)
theory Out_Lower
  imports Out_Shim Out_Hide
begin

text \<open>
  What the shim makes of the operations it receives: the setup operations it hands to the container are all
  valid and confined, end with the remount of the root, and the filter is the one the flags of the
  configuration ask for. The lemmas follow \<open>toContainer\<close> of each operation; the last section joins both
  sides, from the configuration given to \<open>finalise\<close> to the calls of init.
\<close>

subsection \<open>Setup operations of mount points\<close>

text \<open>Nothing checks that the target of a mount point has no \<open>..\<close>, and confinement depends on it. The lemmas are
  for both cases: \<open>nd\<close> says that no such pathname is among those that are lowered.\<close>

definition valid_op :: "bool \<Rightarrow> Op option \<Rightarrow> bool" where
  "valid_op nd x \<longleftrightarrow> (\<exists>y. x = Some y \<and> Op_Valid y \<and> (nd \<longrightarrow> Op_fresh y))"

abbreviation valid_ops :: "bool \<Rightarrow> Ops \<Rightarrow> bool" where
  "valid_ops nd ops \<equiv> list_all (valid_op nd) ops"

lemma valid_ops_fresh: "valid_ops True ops \<Longrightarrow> ops_fresh ops"
  by (auto simp: ops_fresh_def list_all_iff valid_op_def)

lemma valid_ops_Valid: "valid_ops nd ops \<Longrightarrow> list_all (\<lambda>x. \<exists>y. x = Some y \<and> Op_Valid y) ops"
  by (auto simp: list_all_iff valid_op_def)

text \<open>A joined pathname is clean.\<close>

lemma dotfree_Join:
  assumes "IsAbs p"
  shows "dotfree (path_Join (p # es))"
proof -
  have "list_all plain (clean_list True (comps p @ concat (map comps es)))" (is "list_all plain ?ws")
    by (rule clean_list_plain) (use comps_no_slash in fastforce)
  then have "''..'' \<notin> set ?ws" by (metis list_all_iff plain_def)
  moreover have "comps (path_Join (p # es)) = ?ws"
    unfolding path_Join_abs [OF assms] by (rule comps_render) fact
  ultimately show ?thesis by (simp add: dotfree_def)
qed

lemma dotfree_append: "append_path a es = Ret b \<Longrightarrow> IsAbs (pathname a) \<Longrightarrow> dotfree (pathname b) \<and> IsAbs (pathname b)"
  by (simp add: append_path_Ret IsAbs_path_Join dotfree_Join del: IsAbs_iff)

lemma fhs_dotfree [simp]:
  "dotfree fhs_DevShm" "dotfree fhs_Dev" "dotfree fhs_Proc" "dotfree fhs_RunUser" "dotfree fhs_Tmp" "dotfree fhs_Root"
  "dotfree fhs_Etc" "dotfree PrivateTmp"
  by (simp_all add: dotfree_def fhs_DevShm_def fhs_Dev_def fhs_Proc_def fhs_RunUser_def fhs_Run_def fhs_Tmp_def fhs_Root_def
      fhs_Etc_def PrivateTmp_def comps_def slash_def)

lemma fhs_abs: "IsAbs fhs_RunUser" "IsAbs fhs_Etc" "IsAbs fhs_Var" "IsAbs fhs_Tmp" "IsAbs PrivateTmp"
  by (simp_all add: fhs_RunUser_def fhs_Run_def fhs_Etc_def fhs_Var_def fhs_Tmp_def PrivateTmp_def slash_def)

lemma tmpfs_flags:
  "(MS_NOSUID OR MS_NODEV) AND MS_REMOUNT = 0" "(MS_NOSUID OR MS_NODEV) AND MS_BIND = 0"
  "(MS_RDONLY OR MS_NOSUID OR MS_NODEV) AND MS_REMOUNT = 0" "(MS_RDONLY OR MS_NOSUID OR MS_NODEV) AND MS_BIND = 0"
  by (simp_all add: ms_defs)

lemma no_ensure:
  fixes fl :: nat
  assumes "fl AND BindEnsure = 0 \<or> fl AND BindOptional = 0"
  shows "fl AND (BindOptional OR BindEnsure) \<noteq> (BindOptional OR BindEnsure)"
proof
  assume *: "fl AND (BindOptional OR BindEnsure) = (BindOptional OR BindEnsure)"
  have "fl AND x = x" if "(BindOptional OR BindEnsure) AND x = x" for x :: nat
  proof -
    have "fl AND x = (fl AND (BindOptional OR BindEnsure)) AND x" by (simp only: and.assoc that)
    then show ?thesis by (simp only: * that)
  qed
  from this [of BindEnsure] this [of BindOptional] have "fl AND BindEnsure = BindEnsure" "fl AND BindOptional = BindOptional"
    by (simp_all add: BindOptional_def BindEnsure_def)
  with assms show False by (simp add: BindOptional_def BindEnsure_def)
qed

text \<open>The methods of \<open>Ops\<close>.\<close>

lemma valid_builders [intro]:
  "(nd \<Longrightarrow> dotfree (pathname t)) \<Longrightarrow> valid_ops nd ops \<Longrightarrow> valid_ops nd (Ops_Tmpfs (Some t) sz perm ops)"
  "(nd \<Longrightarrow> dotfree (pathname t)) \<Longrightarrow> valid_ops nd ops \<Longrightarrow> valid_ops nd (Ops_Readonly (Some t) perm ops)"
  "(nd \<Longrightarrow> dotfree (pathname t)) \<Longrightarrow> valid_ops nd ops \<Longrightarrow> fl AND (BindOptional OR BindEnsure) \<noteq> (BindOptional OR BindEnsure) \<Longrightarrow>
     valid_ops nd (Ops_Bind (Some s) (Some t) fl ops)"
  "(nd \<Longrightarrow> dotfree (pathname t)) \<Longrightarrow> valid_ops nd ops \<Longrightarrow> None \<notin> set ls \<Longrightarrow> valid_ops nd (Ops_Overlay (Some t) (Some u) (Some w) ls ops)"
  "(nd \<Longrightarrow> dotfree (pathname t)) \<Longrightarrow> valid_ops nd ops \<Longrightarrow> None \<notin> set ls \<Longrightarrow> valid_ops nd (Ops_OverlayReadonly (Some t) ls ops)"
  "(nd \<Longrightarrow> dotfree (pathname t)) \<Longrightarrow> valid_ops nd ops \<Longrightarrow> l \<noteq> [] \<Longrightarrow> valid_ops nd (Ops_Link (Some t) l dereference ops)"
  "valid_ops nd ops \<Longrightarrow> valid_ops nd (Ops_Root (Some s) fl ops)"
  "valid_ops nd ops \<Longrightarrow> valid_ops nd (Ops_Etc (Some s) pre ops)"
  "(nd \<Longrightarrow> dotfree (pathname t)) \<Longrightarrow> valid_ops nd ops \<Longrightarrow> valid_ops nd (Ops_Mkdir (Some t) perm ops)"
  "(nd \<Longrightarrow> dotfree (pathname t)) \<Longrightarrow> valid_ops nd ops \<Longrightarrow> valid_ops nd (Ops_Place (Some t) data ops)"
  "(nd \<Longrightarrow> dotfree (pathname t)) \<Longrightarrow> valid_ops nd ops \<Longrightarrow> valid_ops nd (Ops_Proc (Some t) ops)"
  "(nd \<Longrightarrow> dotfree (pathname t)) \<Longrightarrow> valid_ops nd ops \<Longrightarrow> valid_ops nd (Ops_DevWritable (Some t) mqueue ops)"
  "(nd \<Longrightarrow> dotfree (pathname t)) \<Longrightarrow> valid_ops nd ops \<Longrightarrow> valid_ops nd (Ops_Remount (Some t) flags ops)"
  by (simp_all add: valid_op_def Ops_Tmpfs_def Ops_Readonly_def Ops_Bind_def Ops_Overlay_def Ops_OverlayReadonly_def
      Ops_Link_def Ops_Root_def Ops_Etc_def Ops_Mkdir_def Ops_Place_def Ops_Proc_def Ops_DevWritable_def Ops_Remount_def
      tmpfsop_Valid_def bindop_Valid_def overlayop_Valid_def symlinkop_Valid_def autorootop_Valid_def mkdirop_Valid_def
      tmpfileop_Valid_def procop_Valid_def devop_Valid_def remountop_Valid_def tmpfs_flags etc_hostPath_def unsafeAbs_def dotfree_Join [OF fhs_abs(2)]
      SourceTmpfsEphemeral_def SourceTmpfsReadonly_def BindOptional_def BindEnsure_def image_iff)

lemma bind_flags_sane [simp]: "bind_Valid b \<Longrightarrow> bind_flags b AND (BindOptional OR BindEnsure) \<noteq> (BindOptional OR BindEnsure)"
  by (rule no_ensure) (auto simp: bind_Valid_def bind_flags_def BindOptional_def BindEnsure_def BindWritable_def BindDevice_def split: if_splits)

lemma valid_apply:
  assumes "fs_Valid c" "nd \<Longrightarrow> opt_dotfree (fs_Path c)" "valid_ops nd ops"
  shows "valid_ops nd (fold opsAdapter (fs_Apply pre c) ops)"
proof (cases c)
  case (FS_Bind b)
  then show ?thesis
    using assms by (cases "bind_Source b")
      (auto simp: bind_Apply_def bind_Path_def bind_Valid_def Let_def intro!: valid_builders bind_flags_sane split: if_splits option.splits)
next
  case (FS_Ephemeral e)
  then show ?thesis using assms by (auto simp: eph_Apply_def eph_Path_def eph_Valid_def Let_def intro!: valid_builders)
next
  case (FS_Overlay x)
  then show ?thesis using assms by (auto simp: ov_Apply_def ov_Path_def ov_Valid_def intro!: valid_builders split: if_splits)
next
  case (FS_Link l)
  then show ?thesis using assms by (auto simp: lnk_Apply_def lnk_Path_def lnk_Valid_def intro!: valid_builders split: if_splits)
qed


subsection \<open>The invariant of the container half\<close>

text \<open>The fields that follow from the flags of the configuration alone.\<close>

definition from_flags :: "outcomeState \<Rightarrow> Params \<Rightarrow> bool" where
  "from_flags s p \<longleftrightarrow>
     (let c = the (s_Container s); flag = (\<lambda>f. c_Flags c AND f \<noteq> 0) in
      \<not> pa_Privileged p \<and> \<not> pa_SeccompDisable p \<and> pa_SeccompRules p = [] \<and>
      pa_SeccompPresets p = seccomp_presets (c_Flags c) \<and>
      pa_SeccompFlags p = (if flag FMultiarch then AllowMultiarch else 0) \<and>
      pa_HostNet p = flag FHostNet \<and> pa_HostAbstract p = flag FHostAbstract \<and> pa_RetainSession p = flag FTty \<and>
      c_Path c \<noteq> None \<and> pa_Path p = c_Path c)"

abbreviation fs_clean :: "bool \<Rightarrow> FilesystemConfig option \<Rightarrow> bool" where
  "fs_clean nd c \<equiv> (case c of None \<Rightarrow> True | Some x \<Rightarrow> nd \<longrightarrow> opt_dotfree (fs_Path x))"

definition lowering :: "bool \<Rightarrow> outcomeState \<Rightarrow> outcomeStateParams \<Rightarrow> bool" where
  "lowering nd s st \<longleftrightarrow>
     z_state st = s \<and> from_flags s (z_params st) \<and> list_all (fs_clean nd) (z_filesystem st) \<and>
     (\<exists>ops. pa_Ops (z_params st) = Some ops \<and> valid_ops nd ops) \<and>
     (\<forall>a. z_runtimeDir st = Some a \<longrightarrow> IsAbs (pathname a))"

lemma lowering_setenv [simp]: "lowering nd s (setenv key value st) = lowering nd s st"
  by (simp add: lowering_def setenv_def)

lemma setenv_simps [simp]:
  "z_state (setenv key value st) = z_state st" "z_params (setenv key value st) = z_params st"
  "z_runtimeDir (setenv key value st) = z_runtimeDir st" "z_filesystem (setenv key value st) = z_filesystem st"
  by (simp_all add: setenv_def)

lemma lowering_runtimeDir [simp]: "IsAbs (pathname a) \<Longrightarrow> lowering nd s st \<Longrightarrow> lowering nd s (st\<lparr>z_runtimeDir := Some a\<rparr>)"
  by (simp add: lowering_def)

lemma lowering_params [simp]:
  "lowering nd s (st\<lparr>z_params := (z_params st)\<lparr>pa_CgroupPath := a\<rparr>\<rparr>) = lowering nd s st"
  "lowering nd s (st\<lparr>z_params := (z_params st)\<lparr>pa_Dir := a\<rparr>\<rparr>) = lowering nd s st"
  "lowering nd s (st\<lparr>z_params := (z_params st)\<lparr>pa_Env := e\<rparr>\<rparr>) = lowering nd s st"
  by (simp_all add: lowering_def from_flags_def Let_def)

lemma deref_Ret [simp]: "deref x = Ret y \<longleftrightarrow> x = Some y"
  by (cases x) (auto simp: nil_deref_def)

lemma lowering_on_ops:
  assumes "on_ops f st = Ret st'" "lowering nd s st" "\<And>ops. valid_ops nd ops \<Longrightarrow> valid_ops nd (f ops)"
  shows "lowering nd s st'"
  using assms by (auto simp: on_ops_def lowering_def from_flags_def Let_def)

lemma on_ops_keeps: "on_ops f st = Ret st' \<Longrightarrow> z_state st' = z_state st \<and> z_runtimeDir st' = z_runtimeDir st \<and> z_filesystem st' = z_filesystem st"
  by (auto simp: on_ops_def)

lemma runtimeDir_abs: "lowering nd s st \<Longrightarrow> z_runtimeDir st = Some a \<Longrightarrow> IsAbs (pathname a)"
  by (simp add: lowering_def)

text \<open>A bind on a pathname below the runtime directory of the container.\<close>

lemma zero_flags: "(0 :: nat) AND (BindOptional OR BindEnsure) \<noteq> (BindOptional OR BindEnsure)"
  "BindWritable AND (BindOptional OR BindEnsure) \<noteq> (BindOptional OR BindEnsure)"
  "(BindWritable OR BindDevice) AND (BindOptional OR BindEnsure) \<noteq> (BindOptional OR BindEnsure)"
  by (simp_all add: BindOptional_def BindEnsure_def BindWritable_def BindDevice_def)

lemma lowering_bind:
  assumes "append_path a es = (Ret t :: (out_error, absolute) go)" "IsAbs (pathname a)" "lowering nd s st"
    and "on_ops (Ops_Bind (Some src) (Some t) 0) st = Ret st'"
  shows "lowering nd s st'"
  using dotfree_append [OF assms(1,2)] zero_flags(1) by (intro lowering_on_ops [OF assms(4,3)]) blast

subsection \<open>Each operation\<close>

lemma lowering_cgroup: "cgroup_toContainer p st = Ret st' \<Longrightarrow> lowering nd s st \<Longrightarrow> lowering nd s st'"
  by (auto simp: cgroup_toContainer_def split: if_splits go.splits)

lemma lowering_tmpdir:
  assumes "tmpdir_toContainer st = Ret st'" "lowering nd s st"
  shows "lowering nd s st'"
  using assms zero_flags(2)
  by (auto simp: tmpdir_toContainer_def unsafeAbs_def split: if_splits elim!: lowering_on_ops intro!: valid_builders)

lemma lowering_x11:
  assumes "x11_toContainer d st = Ret st'" "lowering nd s st"
  shows "lowering nd s st'"
  using assms zero_flags(1) dotfree_Join [OF fhs_abs(4)]
  by (auto simp: x11_toContainer_def absX11SocketDir_def unsafeAbs_def elim!: lowering_on_ops intro!: valid_builders)

lemma append_fhs:
  "append_path (unsafeAbs fhs_Etc) es = (Ret a :: (out_error, absolute) go) \<Longrightarrow> dotfree (pathname a) \<and> IsAbs (pathname a)"
  "append_path (unsafeAbs fhs_Var) es = (Ret a :: (out_error, absolute) go) \<Longrightarrow> dotfree (pathname a) \<and> IsAbs (pathname a)"
  "append_path (unsafeAbs fhs_RunUser) es = (Ret a :: (out_error, absolute) go) \<Longrightarrow> dotfree (pathname a) \<and> IsAbs (pathname a)"
  "append_path (Absolute PrivateTmp) es = (Ret a :: (out_error, absolute) go) \<Longrightarrow> dotfree (pathname a) \<and> IsAbs (pathname a)"
  unfolding unsafeAbs_def by (erule dotfree_append, simp only: absolute.sel fhs_abs)+

lemma pathname_unsafeAbs [simp]: "pathname (unsafeAbs p) = p"
  by (simp add: unsafeAbs_def)

lemma append_runtimeDir:
  "lowering nd s st \<Longrightarrow> z_runtimeDir st = Some a \<Longrightarrow> append_path a es = (Ret b :: (out_error, absolute) go) \<Longrightarrow> dotfree (pathname b)"
  using dotfree_append runtimeDir_abs by blast

lemma lowering_account:
  assumes "account_toContainer st = Ret st'" "lowering nd s st"
  shows "lowering nd s st'"
  using assms by (auto simp: account_toContainer_def Let_def elim!: lowering_on_ops intro!: valid_builders dest: append_fhs)

lemma lowering_session [simp]:
  "lowering nd s (case session_type n of None \<Rightarrow> st | Some t \<Rightarrow> setenv key t st) = lowering nd s st"
  by (simp split: option.split)

lemma lowering_runtime:
  assumes "runtime_toContainer n st = Ret st'" "lowering nd s st"
  shows "lowering nd s st'"
  using assms zero_flags(2)
  by (auto simp: runtime_toContainer_def Let_def simp del: IsAbs_iff split: if_splits
      elim!: lowering_on_ops intro!: valid_builders lowering_runtimeDir dest!: append_fhs)

lemma lowering_wayland:
  assumes "wayland_toContainer a st = Ret st'" "lowering nd s st"
  shows "lowering nd s st'"
  using assms zero_flags(1)
  by (auto simp: wayland_toContainer_def Let_def split: option.splits elim!: lowering_on_ops intro!: valid_builders
      dest: append_runtimeDir)

lemma lowering_pulse:
  assumes "pulse_toContainer cookie st = Ret st'" "lowering nd s st"
  shows "lowering nd s st'"
  using assms zero_flags(1)
  by (auto simp: pulse_toContainer_def Let_def split: option.splits if_splits prod.splits elim!: lowering_on_ops
      intro!: valid_builders dest: append_runtimeDir dest!: append_fhs) (erule (1) append_runtimeDir [OF assms(2)])

lemma lowering_dbus:
  assumes "dbus_toContainer b st = Ret st'" "lowering nd s st"
  shows "lowering nd s st'"
  using assms zero_flags(1)
  by (auto simp: dbus_toContainer_def Let_def split: if_splits elim!: lowering_on_ops intro!: valid_builders
      dest: append_runtimeDir append_fhs)


lemma lowering_apply_fs:
  assumes "apply_fs c st = Ret st'" "lowering nd s st" "fs_Valid c" "nd \<Longrightarrow> opt_dotfree (fs_Path c)"
  shows "lowering nd s st' \<and> z_filesystem st' = z_filesystem st"
  using assms on_ops_keeps [OF assms(1) [unfolded apply_fs_def]] unfolding apply_fs_def
  by (auto elim!: lowering_on_ops intro!: valid_apply)

lemma lowering_apply_filesystem:
  assumes "apply_filesystem i cs st = Ret st'" "lowering nd s st" "list_all (fs_clean nd) cs"
  shows "lowering nd s st'"
  using assms
proof (induction i cs st arbitrary: st' rule: apply_filesystem.induct)
  case (2 i c cs st)
  from 2(2) obtain x st1 where x: "c = Some x" "fs_Valid x" "apply_fs x st = Ret st1" "apply_filesystem (Suc i) cs st1 = Ret st'"
    by (auto simp: FilesystemConfigJSON_Valid_def split: if_splits option.splits)
  with 2(4) have "opt_dotfree (fs_Path x)" if nd using that by simp
  from lowering_apply_fs [OF x(3) 2(3) x(2) this] have l: "lowering nd s st1" by blast
  have "FilesystemConfigJSON_Valid c" using x by (simp add: FilesystemConfigJSON_Valid_def)
  from 2(1) [OF _ _ x(4) l] x this 2(4) show ?case by simp
qed simp

lemma valid_hide:
  "(nd \<Longrightarrow> list_all (\<lambda>a. dotfree (pathname a)) hide) \<Longrightarrow> valid_ops nd ops \<Longrightarrow> valid_ops nd (fold (\<lambda>a. Ops_Tmpfs (Some a) 8192 493) hide ops)"
  by (induction hide arbitrary: ops) (auto intro!: valid_builders)

text \<open>The last operation leaves the root directory read-only.\<close>

definition sealed :: "outcomeStateParams \<Rightarrow> bool" where
  "sealed st \<longleftrightarrow>
     (\<exists>ops. pa_Ops (z_params st) = Some (ops @ [Some (OpRemount \<lparr>r_Target = Some (unsafeAbs fhs_Root), r_Flags = MS_RDONLY\<rparr>)])) \<and>
     pa_Env (z_params st) = env_strings (z_env st)"

lemma lowering_filesystem:
  assumes "filesystem_toContainer hide st = Ret st'" "lowering nd s st" "nd \<Longrightarrow> list_all (\<lambda>a. dotfree (pathname a)) hide"
  shows "lowering nd s st' \<and> sealed st'"
proof -
  from assms(1) obtain st1 st2 where st1: "apply_filesystem 0 (z_filesystem st) st = Ret st1"
      and st2: "on_ops (\<lambda>ops.
         Ops_Remount (Some (unsafeAbs fhs_Root)) MS_RDONLY
           ((if \<not> z_flag st1 FDevice then Ops_Remount (Some (unsafeAbs fhs_Dev)) MS_RDONLY else id)
           (fold (\<lambda>a. Ops_Tmpfs (Some a) 8192 493) hide ops))) st1 = Ret st2"
      and st': "st' = st2\<lparr>z_params := (z_params st2)\<lparr>pa_Env := env_strings (z_env st2)\<rparr>\<rparr>"
    by (auto simp: filesystem_toContainer_def)
  have "lowering nd s st1" using lowering_apply_filesystem [OF st1 assms(2)] assms(2) by (simp add: lowering_def)
  then have "lowering nd s st2"
    by (rule lowering_on_ops [OF st2]) (auto intro!: valid_builders valid_hide [OF assms(3)])
  moreover have "sealed st'" using st2 unfolding st' by (auto simp: on_ops_def sealed_def Ops_Remount_def)
  ultimately show ?thesis by (simp add: st')
qed


lemma resolveRoot_clean:
  assumes "resolveRoot c = (rootfs, cs, autoroot)" "list_all (fs_clean nd) (c_Filesystem c)"
  shows "list_all (fs_clean nd) cs \<and> (\<forall>r. rootfs = Some r \<longrightarrow> fs_Valid r \<and> (nd \<longrightarrow> opt_dotfree (fs_Path r)))"
proof (cases "c_Filesystem c")
  case (Cons f cs')
  have "list_all (fs_clean nd) (f # cs')" using assms(2) Cons by simp
  then show ?thesis
    using assms(1) unfolding resolveRoot_def Cons list.case
    by (cases f; cases rootfs) (auto simp: FilesystemConfigJSON_Valid_def split: if_splits)
qed (use assms in \<open>simp add: resolveRoot_def\<close>)

lemma valid_early_mounts: "valid_ops nd ops \<Longrightarrow> valid_ops nd (early_mounts device ops)"
  unfolding early_mounts_def Let_def using zero_flags(3) by (auto intro!: valid_builders)

lemma from_config_params:
  "z_params st = Params_zero \<Longrightarrow> z_state st = s \<Longrightarrow> c_Path (the (s_Container s)) = Some p \<Longrightarrow> from_flags s (config_params st shim p)"
  by (simp add: from_flags_def config_params_def Params_zero_def Let_def)

lemma config_params_Ops: "pa_Ops (config_params st shim p) = Some []"
  by (simp add: config_params_def Let_def)

lemma lowering_params_op:
  assumes "params_toContainer term termSet (newParams s) = Ret st'"
    and clean: "list_all (fs_clean nd) (c_Filesystem (the (s_Container s)))"
  shows "lowering nd s st'"
proof -
  define st where "st = (if termSet then setenv ''TERM'' term (newParams s) else newParams s)"
  obtain rootfs cs autoroot where root: "resolveRoot (the (s_Container s)) = (rootfs, cs, autoroot)"
    by (cases "resolveRoot (the (s_Container s))")
  note clean = resolveRoot_clean [OF root clean]
  have st: "z_params st = Params_zero" "z_state st = s" "z_runtimeDir st = None" by (simp_all add: st_def newParams_def)
  define fill where "fill shim p = st\<lparr>z_params := config_params st shim p, z_AutoEtcPrefix := lo_id (z_local st), z_filesystem := cs\<rparr>" for shim p
  obtain shim p st2 where p: "c_Path (the (s_Container s)) = Some p"
      "(case rootfs of None \<Rightarrow> Ret (fill shim p) | Some r \<Rightarrow> apply_fs r (fill shim p)) = Ret st2"
      and st': "on_ops (early_mounts (z_flag st2 FDevice)) st2 = Ret st'"
    using assms(1) root st(2) unfolding params_toContainer_def st_def [symmetric] fill_def
    by (cases "c_Path (the (s_Container s))") (auto simp: Let_def)
  have "lowering nd s (fill shim p)"
    using clean from_config_params [OF st(1,2) p(1)] st by (simp add: lowering_def fill_def config_params_Ops)
  then have "lowering nd s st2"
    using p(2) clean lowering_apply_fs [of _ "fill shim p" st2 nd s] by (auto split: option.splits)
  then show ?thesis by (rule lowering_on_ops [OF st']) (rule valid_early_mounts)
qed


subsection \<open>All operations\<close>

text \<open>The operations a configuration is lowered to: the parameters first, the mount points last, and the runtime
  directory before everything that is put in it.\<close>

fun cgroup_op :: "outcomeOp \<Rightarrow> bool" where
  "cgroup_op (SpCgroup p) = IsAbs p"
| "cgroup_op _ = False"

fun display_op :: "outcomeOp \<Rightarrow> bool" where
  "display_op (SpWayland _) = True"
| "display_op (SpX11 _) = True"
| "display_op (SpPulse cookie) = (case cookie of None \<Rightarrow> True | Some (_, n) \<Rightarrow> 0 \<le> n \<and> n \<le> int pulseCookieSizeMax)"
| "display_op (SpDBus _) = True"
| "display_op _ = False"

definition op_shape :: "outcomeOp list \<Rightarrow> absolute list \<Rightarrow> bool" where
  "op_shape ops hide \<longleftrightarrow>
     (\<exists>tm tset cg n ds. ops = [SpParams tm tset] @ cg @ [SpRuntime n, SpTmpdir, SpAccount] @ ds @ [SpFilesystem hide] \<and>
        list_all cgroup_op cg \<and> list_all display_op ds)"

fun middle_op :: "outcomeOp \<Rightarrow> bool" where
  "middle_op (SpParams _ _) = False"
| "middle_op (SpFilesystem _) = False"
| "middle_op _ = True"

lemma middle_of: "cgroup_op x \<or> display_op x \<Longrightarrow> middle_op x"
  by (cases x) auto

lemma lowering_middle:
  assumes "toContainer x st = Ret st'" "middle_op x" "lowering nd s st"
  shows "lowering nd s st'"
  using assms
  by (cases x) (auto intro: lowering_cgroup lowering_runtime lowering_tmpdir lowering_account lowering_wayland lowering_x11
      lowering_pulse lowering_dbus)

lemma toContainer_ops_append:
  "toContainer_ops (xs @ ys) st = bind_go (toContainer_ops xs st) (toContainer_ops ys)"
proof (induction xs arbitrary: st)
  case (Cons x xs)
  then show ?case by (cases "toContainer x st") simp_all
qed simp

lemma lowering_middles:
  "toContainer_ops xs st = Ret st' \<Longrightarrow> list_all middle_op xs \<Longrightarrow> lowering nd s st \<Longrightarrow> lowering nd s st'"
  by (induction xs arbitrary: st) (auto intro: lowering_middle)

lemma lowering_all:
  assumes "toContainer_ops ops (newParams s) = Ret st'" "op_shape ops hide" "nd \<Longrightarrow> list_all (\<lambda>a. dotfree (pathname a)) hide"
    and "list_all (fs_clean nd) (c_Filesystem (the (s_Container s)))"
  shows "lowering nd s st' \<and> sealed st'"
proof -
  obtain tm tset cg n ds where o: "ops = [SpParams tm tset] @ cg @ [SpRuntime n, SpTmpdir, SpAccount] @ ds @ [SpFilesystem hide]"
      and each: "list_all cgroup_op cg" "list_all display_op ds"
    using assms(2) unfolding op_shape_def by blast
  have ops: "ops = [SpParams tm tset] @ (cg @ [SpRuntime n, SpTmpdir, SpAccount] @ ds) @ [SpFilesystem hide]" using o by simp
  have mid: "list_all middle_op (cg @ [SpRuntime n, SpTmpdir, SpAccount] @ ds)"
    using each by (auto simp: list_all_iff intro: middle_of)
  from assms(1) obtain st1 st2 where st: "params_toContainer tm tset (newParams s) = Ret st1"
      "toContainer_ops (cg @ [SpRuntime n, SpTmpdir, SpAccount] @ ds) st1 = Ret st2" "filesystem_toContainer hide st2 = Ret st'"
    unfolding ops toContainer_ops_append [of "[SpParams tm tset]"] toContainer_ops_append [of _ "[SpFilesystem hide]"] by auto
  have "lowering nd s st1" by (rule lowering_params_op [OF st(1) assms(4)])
  then have "lowering nd s st2" by (rule lowering_middles [OF st(2) mid])
  then show ?thesis by (rule lowering_filesystem [OF st(3) _ assms(3)])
qed

subsection \<open>What finalise transmits\<close>

lemma toSystem_loop_ops:
  assumes "toSystem_loop fs acc st = Ret (ops, st')"
  shows "\<exists>new. ops = acc @ new \<and> list_all (\<lambda>x. \<exists>f\<in>set fs. \<exists>a b. f a = Ret (x, b)) new"
  using assms
proof (induction fs arbitrary: acc st)
  case (Cons f fs)
  show ?case
  proof (cases "f st")
    case (Ret r)
    obtain x st1 where r: "r = (x, st1)" by (cases r)
    with Cons.prems Ret have "toSystem_loop fs (acc @ [x]) st1 = Ret (ops, st')" by simp
    from Cons.IH [OF this] Ret r show ?thesis by (auto simp: list_all_iff, blast)
  next
    case (Fail e)
    with Cons.prems have "toSystem_loop fs acc st = Ret (ops, st')" by (cases e) auto
    from Cons.IH [OF this] show ?thesis by (auto simp: list_all_iff)
  qed (use Cons.prems in auto)
qed simp

lemma toSystem_loop_append:
  "toSystem_loop (fs @ gs) acc st = bind_go (toSystem_loop fs acc st) (\<lambda>(ops, st). toSystem_loop gs ops st)"
proof (induction fs arbitrary: acc st)
  case (Cons f fs)
  show ?case
  proof (cases "f st")
    case (Fail e)
    with Cons show ?thesis by (cases e) simp_all
  qed (use Cons in \<open>auto split: prod.split\<close>)
qed simp

lemma step_errors [simp]: "newWithMessage m \<noteq> NotEnabled" "stepError m e \<noteq> NotEnabled" "newWithMessageError m e \<noteq> NotEnabled"
  by (simp_all add: newWithMessage_def stepError_def newWithMessageError_def)

text \<open>The operation for the mount points is always enabled.\<close>

lemma mapM_enabled: "(\<And>x. f x \<noteq> Fail NotEnabled) \<Longrightarrow> mapM_go f xs \<noteq> Fail NotEnabled"
  by (induction xs) (auto simp: bind_go_Fail_iff)

lemma lift_abs_enabled: "lift_abs r \<noteq> Fail e" "append_path a es \<noteq> Fail e" "on_sys f st \<noteq> Fail e"
  by (auto simp: lift_abs_def append_path_def on_sys_def bind_go_Fail_iff split: go.splits abs_error.splits)

lemma hide_match_enabled: "hide_match p hs \<noteq> Fail NotEnabled"
  by (induction p hs rule: hide_match.induct) (auto simp: bind_go_Fail_iff split: if_splits go.splits)

lemma hide_loop_enabled: "hide_loop ps hs \<noteq> Fail NotEnabled"
  by (induction ps hs rule: hide_loop.induct) (auto simp: bind_go_Fail_iff hide_match_enabled)

lemma check_enabled: "check_filesystem i cs \<noteq> Fail NotEnabled"
  by (induction i cs rule: check_filesystem.induct) auto

lemma hide_sources_enabled: "hide_sources k c \<noteq> Fail NotEnabled"
  by (auto simp: hide_sources_def bind_go_Fail_iff check_enabled lift_abs_enabled mapM_enabled split: prod.splits option.splits sum.splits)

lemma out_evalSymlinks_enabled: "out_evalSymlinks k step v \<noteq> Fail NotEnabled"
  by (auto simp: out_evalSymlinks_def split: sum.splits fs_err.splits)

lemma hide_candidates_enabled: "hide_candidates k sc \<noteq> Fail NotEnabled"
  unfolding hide_candidates_def Let_def
  by (cases "Parse (case ok_lookupEnv k SystemBusAddress of None \<Rightarrow> FallbackSystemBusAddress | Some a \<Rightarrow> a)")
    (simp_all add: mapM_enabled [OF out_evalSymlinks_enabled] del: mapM_go.simps)

lemma hide_abs_enabled: "hide_abs k h \<noteq> Fail NotEnabled"
  by (auto simp: hide_abs_def split: go.splits)

lemma hide_paths_enabled: "hide_paths k sc c \<noteq> Fail NotEnabled"
  by (auto simp: hide_paths_def bind_go_Fail_iff hide_candidates_enabled hide_sources_enabled hide_loop_enabled
      mapM_enabled [OF out_evalSymlinks_enabled] mapM_enabled [OF hide_abs_enabled])

lemma flatten_enabled: "flattenExtraPerms ps st \<noteq> Fail e"
  by (induction ps arbitrary: st) (auto simp: bind_go_Fail_iff flatten_perm_def lift_abs_enabled Let_def split: option.splits if_splits)

lemma filesystem_enabled: "filesystem_toSystem k st \<noteq> Fail NotEnabled"
  by (simp add: filesystem_toSystem_def bind_go_Fail_iff hide_paths_enabled flatten_enabled)

lemma display_results:
  "wayland_toSystem k a = Ret (x, b) \<Longrightarrow> display_op x" "x11_toSystem k a = Ret (x, b) \<Longrightarrow> display_op x"
  "dbus_toSystem k a = Ret (x, b) \<Longrightarrow> display_op x"
  by (auto simp: wayland_toSystem_def x11_toSystem_def dbus_toSystem_def Let_def split: if_splits option.splits prod.splits)

lemma loadFile_size: "loadFile k d p buf = Ret (bytes, n) \<Longrightarrow> 0 \<le> n \<and> n \<le> int (length buf)"
  by (auto simp: loadFile_def Let_def split: if_splits sum.splits option.splits prod.splits)

lemma pulse_result: "pulse_toSystem k a = Ret (x, b) \<Longrightarrow> display_op x"
  by (auto simp: pulse_toSystem_def split: if_splits option.splits prod.splits dest!: loadFile_size)

lemma shared_dirs_enabled: "shared_dirs name perm st \<noteq> Fail e"
  by (auto simp: shared_dirs_def commonPaths_def ensure_perm_def bind_go_Fail_iff lift_abs_enabled)

lemma fixed_results:
  "runtime_toSystem a \<noteq> Fail e" "runtime_toSystem a = Ret (x, b) \<Longrightarrow> \<exists>n. x = SpRuntime n"
  "tmpdir_toSystem a \<noteq> Fail e" "tmpdir_toSystem a = Ret (x, b) \<Longrightarrow> x = SpTmpdir"
  "account_toSystem k a \<noteq> Fail NotEnabled" "account_toSystem k a = Ret (x, b) \<Longrightarrow> x = SpAccount"
  by (auto simp: runtime_toSystem_def tmpdir_toSystem_def account_toSystem_def bind_go_Fail_iff shared_dirs_enabled
      split: if_splits option.splits)

lemma lift_cfg_Ret [simp]: "lift_cfg r = Ret x \<longleftrightarrow> r = Ret x"
  by (cases r) (auto simp: lift_cfg_def)

lemma abs_append_abs: "abs_append a es = Ret b \<Longrightarrow> IsAbs (pathname a) \<Longrightarrow> IsAbs (pathname b)"
  by (auto simp: abs_append_def abs_Append_def abs_String_def unsafeAbs_def IsAbs_path_Join simp del: IsAbs_iff
      split: go.splits abs_error.splits if_splits)

lemma InstancePath_abs:
  assumes "InstancePath c identity ident = Ret a"
  shows "IsAbs (pathname a)"
proof -
  from assms obtain c' i slice root where p: "slicePath c' = Ret slice" "abs_append slice [''hakurei-'' @ identity] = Ret root"
      "abs_append root [ID_String i] = Ret a"
    by (auto simp: InstancePath_def instanceRoot_def split: option.splits)
  have "IsAbs (pathname slice)"
    using p(1) by (auto simp: slicePath_def NewAbs_def unsafeAbs_def Let_def simp del: IsAbs_iff split: go.splits if_splits)
  then show ?thesis using p(2,3) abs_append_abs by blast
qed

lemma cgroup_result: "cgroup_toSystem a = Ret (x, b) \<Longrightarrow> cgroup_op x"
  by (auto simp: cgroup_toSystem_def simp del: IsAbs_iff split: option.splits dest: InstancePath_abs)

text \<open>An operation that is always enabled, one after the other.\<close>

lemma toSystem_loop_always:
  assumes "toSystem_loop (f # fs) acc st = Ret (ops, st')" "f st \<noteq> Fail NotEnabled"
  shows "\<exists>x st1. f st = Ret (x, st1) \<and> toSystem_loop fs (acc @ [x]) st1 = Ret (ops, st')"
  using assms by (auto split: go.splits out_error.splits)

lemma fixed_loop:
  assumes "toSystem_loop [runtime_toSystem, tmpdir_toSystem, account_toSystem k] acc st = Ret (ops, st')"
  shows "\<exists>n. ops = acc @ [SpRuntime n, SpTmpdir, SpAccount]"
proof -
  from toSystem_loop_always [OF assms fixed_results(1)] obtain x st1 where 1: "runtime_toSystem st = Ret (x, st1)"
      "toSystem_loop [tmpdir_toSystem, account_toSystem k] (acc @ [x]) st1 = Ret (ops, st')" by blast
  from toSystem_loop_always [OF 1(2) fixed_results(3)] obtain y st2 where 2: "tmpdir_toSystem st1 = Ret (y, st2)"
      "toSystem_loop [account_toSystem k] ((acc @ [x]) @ [y]) st2 = Ret (ops, st')" by blast
  from toSystem_loop_always [OF 2(2) fixed_results(5)] obtain z where 3: "account_toSystem k st2 = Ret (z, st')"
      "ops = acc @ [x, y, z]" by auto
  from fixed_results(2) [OF 1(1)] fixed_results(4) [OF 2(1)] fixed_results(6) [OF 3(1)] 3(2) show ?thesis by auto
qed

lemma toSystem_loop_shape:
  assumes "toSystem_loop (outcome_ops k) [] st = Ret (ops, st')"
  shows "\<exists>hide. op_shape ops hide \<and> hide_paths k (y_sc st) (y_container st) = Ret hide"
proof -
  let ?ds = "[wayland_toSystem k, x11_toSystem k, pulse_toSystem k, dbus_toSystem k]"
  have o: "outcome_ops k = ([params_toSystem k] @ [cgroup_toSystem] @ [runtime_toSystem, tmpdir_toSystem, account_toSystem k] @ ?ds) @
      [filesystem_toSystem k]" by (simp add: outcome_ops_def)
  obtain ops4 st4 where loop4: "toSystem_loop ([params_toSystem k] @ [cgroup_toSystem] @
        [runtime_toSystem, tmpdir_toSystem, account_toSystem k] @ ?ds) [] st = Ret (ops4, st4)"
      and loop5: "toSystem_loop [filesystem_toSystem k] ops4 st4 = Ret (ops, st')"
    using assms unfolding o toSystem_loop_append [of _ "[filesystem_toSystem k]"] by (auto simp del: toSystem_loop.simps)
  from loop4 obtain ops1 st1 ops2 st2 ops3 st3 where loops: "toSystem_loop [params_toSystem k] [] st = Ret (ops1, st1)"
      "toSystem_loop [cgroup_toSystem] ops1 st1 = Ret (ops2, st2)"
      "toSystem_loop [runtime_toSystem, tmpdir_toSystem, account_toSystem k] ops2 st2 = Ret (ops3, st3)"
      "toSystem_loop ?ds ops3 st3 = Ret (ops4, st4)"
    unfolding toSystem_loop_append by (auto simp del: toSystem_loop.simps)
  have "lowers st st4" using loop4 by (rule lowers_loop [rotated]) (auto simp: o intro: lowers_outcome_ops [of _ k])
  then have y: "y_state st4 = y_state st" by (simp add: lowers_def)
  have "params_toSystem k st \<noteq> Fail NotEnabled"
    by (simp add: params_toSystem_def Let_def bind_go_Fail_iff lift_abs_enabled)
  from toSystem_loop_always [OF loops(1) this] obtain tm tset where 1: "ops1 = [SpParams tm tset]"
    by (auto simp: params_toSystem_def Let_def)
  from toSystem_loop_ops [OF loops(2)] obtain cg where 2: "ops2 = ops1 @ cg" "list_all cgroup_op cg"
    by (auto simp: list_all_iff dest: cgroup_result)
  obtain n where 3: "ops3 = ops2 @ [SpRuntime n, SpTmpdir, SpAccount]"
    using fixed_loop [OF loops(3)] by blast
  from toSystem_loop_ops [OF loops(4)] obtain ds where 4: "ops4 = ops3 @ ds" "list_all display_op ds"
    by (fastforce simp: list_all_iff dest: display_results pulse_result)
  from toSystem_loop_always [OF loop5 filesystem_enabled] obtain hide where "ops = ops4 @ [SpFilesystem hide]"
      "hide_paths k (y_sc st4) (y_container st4) = Ret hide"
    by (auto simp: filesystem_toSystem_def)
  then show ?thesis using y unfolding 1 2(1) 3 4(1) op_shape_def
    by (intro exI [of _ hide] conjI exI [of _ tm] exI [of _ tset] exI [of _ cg] exI [of _ n] exI [of _ ds] 2(2) 4(2)) simp_all
qed


text \<open>What the shim decodes: the unexported fields are not transmitted, and \<open>populateLocal\<close> restores them.\<close>

definition transmitted :: "outcomeState \<Rightarrow> outcomeState" where
  "transmitted s = s\<lparr>s_local := None\<rparr>"

lemma populateLocal_Ret:
  "populateLocal nils s = Ret s' \<Longrightarrow> s_local s = None \<and> \<not> nils \<and> state_valid s \<and> (\<exists>l. s' = s\<lparr>s_local := Some l\<rparr>)"
  by (auto simp: populateLocal_def split: if_splits)

lemma populateLocal_again:
  assumes "populateLocal False s = Ret (s\<lparr>s_local := Some l\<rparr>)" "s_local s = None"
    and "s_Shim s = Some sh" "sh_PrivPID sh' = sh_PrivPID sh"
  shows "populateLocal False (transmitted (s\<lparr>s_local := Some l, s_Shim := Some sh'\<rparr>)) = Ret (s\<lparr>s_local := Some l, s_Shim := Some sh'\<rparr>)"
  using assms by (cases s) (auto simp: populateLocal_def transmitted_def state_valid_def shim_valid_def split: if_splits)

lemma newOutcomeState_fields:
  assumes "newOutcomeState k ident config hsu = Ret s"
  shows "\<exists>c sh. cfg_Container config = Some c \<and> s_Container s = Some c \<and> s_Shim s = Some sh \<and> s_local s = None \<and>
    sh_PrivPID sh = ok_getpid k \<and> sh_WaitDelay sh = bounded_delay (c_WaitDelay c) \<and> sh_Ops sh = None"
  using assms by (auto simp: newOutcomeState_def Let_def)

lemma toSystem_transmits:
  assumes "toSystem k (newSys config sys s) = Ret st" "s_Shim s = Some sh"
  shows "\<exists>ops hide. y_state st = s\<lparr>s_Shim := Some (sh\<lparr>sh_Ops := Some ops\<rparr>)\<rparr> \<and> op_shape ops hide \<and>
    hide_paths k (lo_sc (the (s_local s))) (the (s_Container s)) = Ret hide"
proof -
  have s: "y_state (newSys config sys s) = s" by (simp add: newSys_def)
  obtain ops st1 where loop: "toSystem_loop (outcome_ops k) [] (newSys config sys s) = Ret (ops, st1)"
      and st: "st = st1\<lparr>y_state := (y_state st1)\<lparr>s_Shim := Some (sh\<lparr>sh_Ops := Some ops\<rparr>)\<rparr>\<rparr>"
    using assms(1) unfolding toSystem_def s assms(2) option.case
    by (cases "toSystem_loop (outcome_ops k) [] (newSys config sys s)") (auto split: if_splits)
  have "lowers (newSys config sys s) st1" by (rule lowers_loop [OF lowers_outcome_ops loop])
  then have "y_state st1 = s" using s by (simp add: lowers_def)
  with toSystem_loop_shape [OF loop] st s show ?thesis by auto
qed

text \<open>Checked pathnames of the environment.\<close>

definition paths_from :: "outk \<Rightarrow> env_Paths option \<Rightarrow> bool" where
  "paths_from k p \<longleftrightarrow>
     (\<exists>e t. p = Some e \<and> e_TempDir e = Some t \<and> wf_abs t \<and>
        (\<forall>a. e_RuntimePath e = Some a \<longrightarrow> wf_abs a \<and> ok_lookupEnv k ''XDG_RUNTIME_DIR'' = Some (pathname a)))"

lemma newOutcomeState_paths:
  assumes "newOutcomeState k ident config hsu = Ret s"
  shows "paths_from k (s_Paths s)"
proof -
  have "\<not> IsAbs []" by simp
  with assms show ?thesis
    by (auto simp: newOutcomeState_def CopyPathsFunc_def NewAbs_def unsafeAbs_def wf_abs_def paths_from_def Let_def
      simp del: IsAbs_iff split: go.splits if_splits option.splits)
qed

text \<open>What is sent to the shim, seen from the configuration.\<close>

definition sent :: "outk \<Rightarrow> ContainerConfig \<Rightarrow> outcomeState \<Rightarrow> outcomeOp list \<Rightarrow> absolute list \<Rightarrow> bool" where
  "sent k c s ops hide \<longleftrightarrow>
     (\<exists>sh. s_Shim s = Some sh \<and> sh_Ops sh = Some ops \<and> sh_PrivPID sh = ok_getpid k \<and> sh_WaitDelay sh = bounded_delay (c_WaitDelay c)) \<and>
     s_Container s = Some c \<and> op_shape ops hide \<and> hide_paths k (lo_sc (the (s_local s))) c = Ret hide \<and>
     populateLocal False (transmitted s) = Ret s \<and> paths_from k (s_Paths s)"

lemma finalise_sends:
  assumes "finalise k nils before ident config = Ret oc"
  shows "\<exists>c ops hide. cfg_Container (the config) = Some c \<and> sent k c (oc_state oc) ops hide"
proof -
  from assms obtain s s' sys st where s: "newOutcomeState k ident (the config) None = Ret s"
      and s': "populateLocal False s = Ret s'" and st: "toSystem k (newSys (the config) sys s') = Ret st"
      and oc: "oc_state oc = y_state st"
    by (auto simp: finalise_def split: if_splits)
  from newOutcomeState_fields [OF s] obtain c sh where c: "cfg_Container (the config) = Some c" "s_Container s = Some c"
      "s_Shim s = Some sh" "s_local s = None" "sh_WaitDelay sh = bounded_delay (c_WaitDelay c)" "sh_PrivPID sh = ok_getpid k"
    by blast
  from populateLocal_Ret [OF s'] obtain l where l: "s' = s\<lparr>s_local := Some l\<rparr>" by blast
  have "s_Shim s' = Some sh" using c l by simp
  from toSystem_transmits [OF st this] obtain ops hide where y: "y_state st = s'\<lparr>s_Shim := Some (sh\<lparr>sh_Ops := Some ops\<rparr>)\<rparr>"
      and ops: "op_shape ops hide" "hide_paths k (lo_sc (the (s_local s'))) (the (s_Container s')) = Ret hide"
    by blast
  have "populateLocal False (transmitted (oc_state oc)) = Ret (oc_state oc)"
    unfolding oc y l by (rule populateLocal_again [OF s' [unfolded l] c(4,3)]) simp
  then have "sent k c (oc_state oc) ops hide" using ops c(2,5,6) newOutcomeState_paths [OF s] unfolding sent_def oc y l by simp
  then show ?thesis using c(1) by blast
qed


subsection \<open>Hidden pathnames\<close>

lemma dotfree_Clean: "IsAbs p \<Longrightarrow> dotfree (Clean p)"
  using dotfree_Join [of p "[]"] by (auto simp: path_Join_abs Clean_rooted)

lemma path_dir_abs:
  assumes "IsAbs p"
  shows "IsAbs (path_dir_part p)"
proof -
  obtain q where p: "p = slash # q" using assms by auto
  have "\<exists>r. dropWhile (\<lambda>c. c \<noteq> slash) (rev q @ [slash]) = r @ [slash]" by (simp add: dropWhile_append)
  then obtain r where "dropWhile (\<lambda>c. c \<noteq> slash) (rev q @ [slash]) = r @ [slash]" ..
  then show ?thesis by (simp add: path_dir_part_def p)
qed

lemma hide_match_fst: "hide_match p hs = Ret hs' \<Longrightarrow> map fst hs' = map fst hs"
  by (induction p hs arbitrary: hs' rule: hide_match.induct) (auto split: if_splits go.splits)

lemma hide_loop_fst: "hide_loop ps hs = Ret hs' \<Longrightarrow> map fst hs' = map fst hs"
  by (induction ps hs rule: hide_loop.induct) (auto dest: hide_match_fst)

lemma hide_dotfree:
  assumes "hide_paths k sc c = Ret hide" and links: "\<forall>v p. ok_evalSymlinks k v = Inr p \<longrightarrow> dotfree p"
    and "dotfree (pathname (h_RuntimePath sc))" "dotfree (pathname (h_SharePath sc))"
  shows "list_all (\<lambda>a. dotfree (pathname a)) hide"
proof -
  from assms(1) obtain cs ev ms where cs: "hide_candidates k sc = Ret cs"
      and ms: "hide_loop ev (map (\<lambda>h. (h, False)) cs) = Ret ms" and hide: "mapM_go (\<lambda>h. hide_abs k (fst h)) (filter snd ms) = Ret hide"
    by (auto simp: hide_paths_def)
  have res: "dotfree (resolved k v)" if "dotfree v" for v
    using that links by (auto simp: resolved_def split: sum.splits)
  have "dotfree varRunNscd" by (simp add: dotfree_def varRunNscd_def fhs_Var_def comps_def slash_def)
  moreover have "dotfree d" if "d \<in> set (socket_dirs entries)" for d entries
    using that by (auto simp: socket_dirs_def path_Dir_def simp del: IsAbs_iff intro!: dotfree_Clean path_dir_abs split: if_splits)
  ultimately have "list_all dotfree cs"
    using hide_candidates_Ret [OF cs] assms(3,4) res by (auto simp: candidates_socket_dirs list_all_iff)
  moreover have "map fst ms = cs" using hide_loop_fst [OF ms] by (simp add: comp_def)
  ultimately have "\<forall>m\<in>set ms. dotfree (fst m)" unfolding list_all_iff by (metis image_eqI list.set_map)
  then show ?thesis using mapM_hide_abs [OF hide] by (fastforce simp: list_all_iff)
qed

lemma Paths_Copy_dotfree:
  assumes "Paths_Copy (Some e) userid = (Ret sc :: (out_error, hst_Paths) go)" "e_TempDir e = Some t" "wf_abs t"
    and "\<And>a. e_RuntimePath e = Some a \<Longrightarrow> dotfree (pathname a)"
  shows "dotfree (pathname (h_RuntimePath sc)) \<and> dotfree (pathname (h_SharePath sc))"
proof -
  obtain share where share: "append_path t [''hakurei.'' @ Itoa userid] = (Ret share :: (out_error, absolute) go)"
      "h_SharePath sc = share" using assms(1,2) by (auto simp: Paths_Copy_def)
  note d = dotfree_append [OF share(1) assms(3) [unfolded wf_abs_def]]
  have "dotfree (pathname (h_RuntimePath sc))"
  proof (cases "e_RuntimePath e")
    case None
    then have "append_path share [''compat''] = (Ret (h_RuntimePath sc) :: (out_error, absolute) go)"
      using assms(1,2) share(1) by (auto simp: Paths_Copy_def)
    then show ?thesis using dotfree_append d by blast
  next
    case (Some a)
    then show ?thesis using assms by (auto simp: Paths_Copy_def)
  qed
  then show ?thesis using d share by blast
qed

lemma sent_dotfree:
  assumes "sent k c s ops hide" "\<forall>v p. ok_evalSymlinks k v = Inr p \<longrightarrow> dotfree p"
    and "\<forall>v. ok_lookupEnv k ''XDG_RUNTIME_DIR'' = Some v \<longrightarrow> dotfree v"
  shows "list_all (\<lambda>a. dotfree (pathname a)) hide"
proof -
  let ?sc = "lo_sc (the (s_local s))"
  from assms(1) obtain e t where e: "s_Paths s = Some e" "e_TempDir e = Some t" "wf_abs t"
      "\<And>a. e_RuntimePath e = Some a \<Longrightarrow> ok_lookupEnv k ''XDG_RUNTIME_DIR'' = Some (pathname a)"
    by (auto simp: sent_def paths_from_def)
  from assms(1) have "populateLocal False (transmitted s) = Ret s" by (simp add: sent_def)
  then have "Paths_Copy (s_Paths s) (s_UserID s) = (Ret ?sc :: (out_error, hst_Paths) go)"
    by (cases s) (auto simp: populateLocal_def transmitted_def split: if_splits)
  from Paths_Copy_dotfree [OF this [unfolded e(1)] e(2,3)] e(4) assms(3)
  show ?thesis using hide_dotfree [OF _ assms(2)] assms(1) by (auto simp: sent_def)
qed

end
