(* ===== verification/Out_Run.thy ===== *)
theory Out_Run
  imports Out_Lower
begin

text \<open>
  Both sides of an outcome together: on the state \<open>finalise\<close> has made, the shim always gets to start the
  container unless a call fails, and the container it starts is confined as the configuration asks for.
\<close>

subsection \<open>Lowering does not fail\<close>

text \<open>What \<open>toContainer\<close> relies on: pathnames that are not the zero value, and the checks of the other side.\<close>

definition local_ok :: "outcomeState \<Rightarrow> bool" where
  "local_ok s \<longleftrightarrow>
     s_Shim s \<noteq> None \<and> IsAbs (pathname (h_SharePath (lo_sc (the (s_local s))))) \<and>
     IsAbs (pathname (h_RunDirPath (lo_sc (the (s_local s))))) \<and>
     (let c = the (s_Container s) in c_Path c \<noteq> None \<and> c_Home c \<noteq> None \<and> c_Shell c \<noteq> None \<and>
        list_all FilesystemConfigJSON_Valid (fst (snd (resolveRoot c))))"

definition can_lower :: "outcomeState \<Rightarrow> outcomeStateParams \<Rightarrow> bool" where
  "can_lower s st \<longleftrightarrow>
     z_state st = s \<and> pa_Ops (z_params st) \<noteq> None \<and> list_all FilesystemConfigJSON_Valid (z_filesystem st)"

definition has_runtime :: "outcomeStateParams \<Rightarrow> bool" where
  "has_runtime st \<longleftrightarrow> (\<exists>a. z_runtimeDir st = Some a \<and> IsAbs (pathname a))"


text \<open>Each operation gets on, and leaves a state the next one gets on from.\<close>

definition gets_on :: "outcomeState \<Rightarrow> bool \<Rightarrow> (out_error, outcomeStateParams) go \<Rightarrow> bool" where
  "gets_on s rt r \<longleftrightarrow> (\<exists>st'. r = Ret st' \<and> can_lower s st' \<and> (rt \<longrightarrow> has_runtime st'))"

lemma append_ok:
  assumes "IsAbs (pathname a)"
  shows "append_path a es = Ret (Absolute (path_Join (pathname a # es)))" "IsAbs (path_Join (pathname a # es))"
proof -
  show "append_path a es = Ret (Absolute (path_Join (pathname a # es)))"
    using assms by (auto simp: append_path_Ret)
  show "IsAbs (path_Join (pathname a # es))" by (rule IsAbs_path_Join [OF assms])
qed

lemma on_ops_ok:
  assumes "can_lower s st"
  shows "\<exists>st'. on_ops f st = Ret st' \<and> can_lower s st' \<and> has_runtime st' = has_runtime st"
  using assms by (auto simp: on_ops_def can_lower_def has_runtime_def)

lemma setenv_ok [simp]:
  "can_lower s (setenv key value st) = can_lower s st" "has_runtime (setenv key value st) = has_runtime st"
  by (simp_all add: can_lower_def has_runtime_def)

lemma gets_on_ops: "can_lower s st \<Longrightarrow> rt \<longrightarrow> has_runtime st \<Longrightarrow> gets_on s rt (on_ops f st)"
  using on_ops_ok [of s st f] by (auto simp: gets_on_def)

lemma gets_on_Ret: "can_lower s st \<Longrightarrow> rt \<longrightarrow> has_runtime st \<Longrightarrow> gets_on s rt (Ret st)"
  by (auto simp: gets_on_def)

lemma gets_on_bind:
  assumes "gets_on s rt r" "\<And>st'. can_lower s st' \<Longrightarrow> rt \<longrightarrow> has_runtime st' \<Longrightarrow> gets_on s rt' (g st')"
  shows "gets_on s rt' (bind_go r g)"
  using assms unfolding gets_on_def by fastforce

lemmas gets_on_intros = gets_on_Ret gets_on_ops gets_on_bind

lemma common_ok:
  "local_ok s \<Longrightarrow> \<exists>a b. commonPaths name (the (s_local s)) = (Ret (a, b) :: (out_error, absolute \<times> absolute) go)"
  by (auto simp: commonPaths_def local_ok_def append_ok simp del: IsAbs_iff)

lemma can_lower_simps [simp]:
  "can_lower s (st\<lparr>z_runtimeDir := a\<rparr>) = can_lower s st"
  "can_lower s (st\<lparr>z_params := (z_params st)\<lparr>pa_CgroupPath := p\<rparr>\<rparr>) = can_lower s st"
  "can_lower s (st\<lparr>z_params := (z_params st)\<lparr>pa_Dir := p\<rparr>\<rparr>) = can_lower s st"
  "can_lower s (st\<lparr>z_params := (z_params st)\<lparr>pa_Env := e\<rparr>\<rparr>) = can_lower s st"
  "has_runtime (st\<lparr>z_params := ps\<rparr>) = has_runtime st"
  "has_runtime (st\<lparr>z_runtimeDir := Some b\<rparr>) = IsAbs (pathname b)"
  by (simp_all add: can_lower_def has_runtime_def del: IsAbs_iff)

lemma cgroup_gets_on: "cgroup_op (SpCgroup p) \<Longrightarrow> can_lower s st \<Longrightarrow> gets_on s False (cgroup_toContainer p st)"
  by (auto simp: cgroup_toContainer_def NewAbs_def intro!: gets_on_intros)

lemma runtime_gets_on:
  assumes "local_ok s" "can_lower s st"
  shows "gets_on s True (runtime_toContainer n st)"
proof -
  have z: "z_state st = s" using assms(2) by (simp add: can_lower_def)
  obtain a b where ab: "commonPaths ''runtime'' (the (s_local s)) = (Ret (a, b) :: (out_error, absolute \<times> absolute) go)"
    using common_ok [OF assms(1)] by blast
  have rt: "IsAbs (pathname (unsafeAbs fhs_RunUser))" using fhs_abs(1) by simp
  show ?thesis
    unfolding runtime_toContainer_def append_ok(1) [OF rt] bind_go.simps Let_def
    using assms(2) append_ok(2) [OF rt] ab
    by (auto intro!: gets_on_intros split: option.split simp: can_lower_def simp del: IsAbs_iff)
qed

lemma tmpdir_gets_on: "local_ok s \<Longrightarrow> can_lower s st \<Longrightarrow> has_runtime st \<Longrightarrow> gets_on s True (tmpdir_toContainer st)"
  using common_ok [of s "''tmpdir''"] by (auto simp: tmpdir_toContainer_def can_lower_def intro!: gets_on_ops)

lemma account_gets_on:
  assumes "local_ok s" "can_lower s st" "has_runtime st"
  shows "gets_on s True (account_toContainer st)"
proof -
  have etc: "IsAbs (pathname (unsafeAbs fhs_Etc))" using fhs_abs(2) by simp
  from assms show ?thesis
    by (auto simp: account_toContainer_def append_ok(1) [OF etc] Let_def local_ok_def can_lower_def intro!: gets_on_ops)
qed


lemma instance_ok:
  assumes "local_ok s"
  shows "\<exists>a. instancePath (the (s_local s)) = (Ret a :: (out_error, absolute) go) \<and> IsAbs (pathname a)"
    "\<exists>a. runtimePath (the (s_local s)) = (Ret a :: (out_error, absolute) go) \<and> IsAbs (pathname a)"
  using assms by (auto simp: instancePath_def runtimePath_def local_ok_def append_ok simp del: IsAbs_iff)

lemma display_gets_on:
  assumes "local_ok s" "can_lower s st" "has_runtime st" "display_op x"
  shows "gets_on s True (toContainer x st)"
proof -
  have z: "z_state st = s" using assms(2) by (simp add: can_lower_def)
  obtain rt where rt: "z_runtimeDir st = Some rt" "IsAbs (pathname rt)" using assms(3) by (auto simp: has_runtime_def)
  obtain i where i: "instancePath (the (s_local s)) = (Ret i :: (out_error, absolute) go)" "IsAbs (pathname i)"
    using instance_ok(1) [OF assms(1)] by blast
  obtain r where r: "runtimePath (the (s_local s)) = (Ret r :: (out_error, absolute) go)" "IsAbs (pathname r)"
    using instance_ok(2) [OF assms(1)] by blast
  have pt: "IsAbs (pathname (Absolute PrivateTmp))" "IsAbs (pathname (unsafeAbs fhs_Var))" using fhs_abs(3,5) by simp_all
  note ap = append_ok(1) [OF rt(2)] append_ok(1) [OF i(2)] append_ok(1) [OF r(2)] append_ok(1) [OF pt(1)] append_ok(1) [OF pt(2)]
  show ?thesis
  proof (cases x)
    case (SpWayland a)
    then show ?thesis
      using assms(2,3) by (auto simp: wayland_toContainer_def rt(1) z i(1) ap Let_def split: option.split intro!: gets_on_ops)
  next
    case (SpX11 d)
    then show ?thesis using assms(2,3) by (auto simp: x11_toContainer_def intro!: gets_on_ops)
  next
    case (SpPulse cookie)
    then show ?thesis
      using assms(2,3,4) by (auto simp: pulse_toContainer_def rt(1) z r(1) ap Let_def split: option.splits intro!: gets_on_intros)
  next
    case (SpDBus b)
    then show ?thesis
      using assms(2,3) by (auto simp: dbus_toContainer_def rt(1) z i(1) ap Let_def intro!: gets_on_intros)
  qed (use assms(4) in simp_all)
qed

lemma displays_get_on:
  assumes "local_ok s" "can_lower s st" "has_runtime st" "list_all display_op xs"
  shows "gets_on s True (toContainer_ops xs st)"
  using assms
proof (induction xs arbitrary: st)
  case (Cons x xs)
  have "gets_on s True (toContainer x st)" using Cons.prems by (intro display_gets_on) simp_all
  then show ?case using Cons.IH Cons.prems by (auto intro!: gets_on_bind)
qed (auto intro!: gets_on_Ret)

lemma apply_filesystem_gets_on:
  assumes "list_all FilesystemConfigJSON_Valid cs" "can_lower s st"
  shows "gets_on s False (apply_filesystem i cs st)"
  using assms
proof (induction cs arbitrary: i st)
  case (Cons c cs)
  have "gets_on s False (apply_fs (the c) st)" using Cons.prems by (auto simp: apply_fs_def intro!: gets_on_ops)
  then show ?case using Cons by (auto intro!: gets_on_bind)
qed (auto intro!: gets_on_Ret)

lemma filesystem_gets_on:
  assumes "can_lower s st"
  shows "gets_on s False (filesystem_toContainer hide st)"
proof -
  have "gets_on s False (apply_filesystem 0 (z_filesystem st) st)"
    using assms by (intro apply_filesystem_gets_on) (simp_all add: can_lower_def)
  then show ?thesis unfolding filesystem_toContainer_def by (auto intro!: gets_on_intros)
qed

lemma params_gets_on:
  assumes "local_ok s"
  shows "gets_on s False (params_toContainer tm tset (newParams s))"
proof -
  define st where "st = (if tset then setenv ''TERM'' tm (newParams s) else newParams s)"
  have z: "z_state st = s" by (simp add: st_def newParams_def)
  obtain p shim where p: "c_Path (the (s_Container s)) = Some p" "s_Shim s = Some shim"
    using assms by (auto simp: local_ok_def Let_def)
  obtain rootfs cs autoroot where root: "resolveRoot (the (s_Container s)) = (rootfs, cs, autoroot)"
    by (cases "resolveRoot (the (s_Container s))")
  let ?st = "st\<lparr>z_params := config_params st shim p, z_AutoEtcPrefix := lo_id (the (s_local s)), z_filesystem := cs\<rparr>"
  have "can_lower s ?st"
    using assms root by (simp add: can_lower_def z config_params_Ops local_ok_def Let_def)
  then have "gets_on s False (case rootfs of None \<Rightarrow> Ret ?st | Some r \<Rightarrow> apply_fs r ?st)"
    by (auto simp: apply_fs_def intro!: gets_on_intros split: option.split)
  then show ?thesis
    unfolding params_toContainer_def st_def [symmetric] by (auto simp: z p root Let_def intro!: gets_on_bind [where rt = False] gets_on_ops)
qed

lemma all_get_on:
  assumes "local_ok s" "op_shape ops hide"
  shows "gets_on s False (toContainer_ops ops (newParams s))"
proof -
  obtain tm tset cg n ds where ops: "ops = [SpParams tm tset] @ cg @ [SpRuntime n, SpTmpdir, SpAccount] @ ds @ [SpFilesystem hide]"
      and each: "list_all cgroup_op cg" "list_all display_op ds"
    using assms(2) unfolding op_shape_def by blast
  have cg: "gets_on s False (toContainer_ops cg st)" if "can_lower s st" for st
    using each(1) that
  proof (induction cg arbitrary: st)
    case (Cons x xs)
    then obtain p where "x = SpCgroup p" "cgroup_op (SpCgroup p)" by (cases x) auto
    with Cons show ?case by (auto intro!: gets_on_bind [OF cgroup_gets_on])
  qed (auto intro!: gets_on_Ret)
  have fixed: "gets_on s True (toContainer_ops [SpRuntime n, SpTmpdir, SpAccount] st)" if "can_lower s st" for st
    using assms(1) that by (auto intro!: gets_on_bind [OF runtime_gets_on] gets_on_bind [OF tmpdir_gets_on]
        gets_on_bind [OF account_gets_on] gets_on_Ret)
  have last: "gets_on s False (toContainer_ops [SpFilesystem hide] st)" if "can_lower s st" for st
    using that by (auto intro!: gets_on_bind [OF filesystem_gets_on] gets_on_Ret)
  have first: "gets_on s False (toContainer_ops [SpParams tm tset] (newParams s))"
    using assms(1) by (auto intro!: gets_on_bind [OF params_gets_on] gets_on_Ret)
  show ?thesis
    unfolding ops toContainer_ops_append
    using assms(1) each(2)
    by (intro gets_on_bind [OF first] gets_on_bind [OF cg] gets_on_bind [OF fixed] gets_on_bind [OF displays_get_on] last) auto
qed


subsection \<open>The state of finalise\<close>

lemma Config_Validate_container:
  "Config_Validate quote (Some config) = Ret () \<Longrightarrow> cfg_Container config = Some c \<Longrightarrow> c_Home c \<noteq> None \<and> c_Shell c \<noteq> None \<and> c_Path c \<noteq> None"
  by (auto simp: Config_Validate_def validate_nonnil_Ret split: if_splits)

lemma check_filesystem_Ret: "check_filesystem i cs = Ret () \<Longrightarrow> list_all FilesystemConfigJSON_Valid cs"
  by (induction i cs rule: check_filesystem.induct) (auto split: if_splits)

lemma hide_paths_checked: "hide_paths k sc c = Ret hide \<Longrightarrow> list_all FilesystemConfigJSON_Valid (fst (snd (resolveRoot c)))"
  by (cases "resolveRoot c") (auto simp: hide_paths_def hide_sources_def dest: check_filesystem_Ret)

lemma sent_local:
  assumes "sent k c s ops hide"
  shows "IsAbs (pathname (h_SharePath (lo_sc (the (s_local s))))) \<and> IsAbs (pathname (h_RunDirPath (lo_sc (the (s_local s)))))"
proof -
  from assms obtain e t where e: "s_Paths s = Some e" "e_TempDir e = Some t" "wf_abs t" "\<And>a. e_RuntimePath e = Some a \<Longrightarrow> wf_abs a"
    by (auto simp: sent_def paths_from_def)
  from assms have "populateLocal False (transmitted s) = Ret s" by (simp add: sent_def)
  then have "Paths_Copy (s_Paths s) (s_UserID s) = (Ret (lo_sc (the (s_local s))) :: (out_error, hst_Paths) go)"
    by (cases s) (auto simp: populateLocal_def transmitted_def split: if_splits)
  from Paths_Copy_dirs [OF this [unfolded e(1)]] e show ?thesis by (auto simp: wf_abs_def simp del: IsAbs_iff)
qed

lemma finalise_local_ok:
  assumes "finalise k False False (Some ident) (Some config) = Ret oc" "cfg_Container config = Some c" "sent k c (oc_state oc) ops hide"
  shows "local_ok (oc_state oc)"
proof -
  from assms(1) have "Config_Validate (ok_quote k) (Some config) = Ret ()"
    by (auto simp: finalise_def lift_validate_def split: go.splits)
  from Config_Validate_container [OF this assms(2)] sent_local [OF assms(3)] hide_paths_checked assms(3) show ?thesis
    by (auto simp: local_ok_def sent_def Let_def simp del: IsAbs_iff)
qed

subsection \<open>The shim\<close>

text \<open>The calls of the shim, from the first to the last.\<close>

definition shim_calls :: "(string \<Rightarrow> int) \<Rightarrow> int \<Rightarrow> Params \<Rightarrow> int \<Rightarrow> shim_call list" where
  "shim_calls snr ppid params delay =
     [SetDumpable, SetupContSignal ppid, ReceiveState, SetPdeathsig, ServeSignals, CloseSetup, ContainerStart params delay,
      ContainerServe, SeccompFilter (Preset snr PresetStrict AllowMultiarch) AllowMultiarch, ContainerWait]"

lemma shim_started:
  assumes "ContainerStart params delay \<in> set (fst (shimEntrypoint snr j))"
  shows "\<exists>s s' sh st. j_receive j = Received s \<and> s_Shim s = Some sh \<and> sh_PrivPID sh = j_getppid j \<and> populateLocal False s = Ret s' \<and>
    toContainer_ops (case sh_Ops (the (s_Shim s')) of None \<Rightarrow> [] | Some ops \<Rightarrow> ops) (newParams s') = Ret st \<and> params = z_params st \<and>
    delay = sh_WaitDelay (the (s_Shim s'))"
proof -
  obtain s where s: "j_receive j = Received s"
    using assms by (cases "j_receive j") (auto simp: shimEntrypoint_def shim_do_def split: option.splits)
  obtain s' st0 where low: "shim_lower s (j_getppid j) = Ret (s', st0)"
    using assms by (cases "shim_lower s (j_getppid j)") (auto simp: shimEntrypoint_def shim_do_def s split: option.splits)
  from low have l: "\<exists>sh. s_Shim s = Some sh \<and> sh_PrivPID sh = j_getppid j" "populateLocal False s = Ret s'" "st0 = newParams s'"
    by (auto simp: shim_lower_def split: option.splits go.splits if_splits)
  let ?ops = "case sh_Ops (the (s_Shim s')) of None \<Rightarrow> [] | Some ops \<Rightarrow> ops"
  obtain st where st: "toContainer_ops ?ops st0 = Ret st"
    using assms by (cases "toContainer_ops ?ops st0") (auto simp: shimEntrypoint_def shim_do_def s low split: option.splits)
  have "params = z_params st \<and> delay = sh_WaitDelay (the (s_Shim s'))"
    using assms
    by (auto simp: shimEntrypoint_def shim_do_def s low st shim_container_def Let_def split: option.splits if_splits)
  with s l st show ?thesis by blast
qed


text \<open>No call of the shim fails.\<close>

definition calls_succeed :: "shimk \<Rightarrow> bool" where
  "calls_succeed j \<longleftrightarrow>
     j_setDumpable j = None \<and> j_setupContSignal j = None \<and> j_prctl j = None \<and> (\<forall>p d. j_containerStart j p d = None) \<and>
     j_containerServe j = None \<and> (\<forall>r f. j_seccompLoad j r f = None)"

lemma shim_goes_on:
  assumes "sent k c s ops hide" "local_ok s" "j_receive j = Received (transmitted s)" "calls_succeed j" "ok_getpid k = j_getppid j"
  shows "\<exists>params. shimEntrypoint snr j =
    (shim_calls snr (j_getppid j) params (bounded_delay (c_WaitDelay c)), shim_wait (j_containerWait j))"
proof -
  from assms(1) obtain sh where sh: "s_Shim s = Some sh" "sh_Ops sh = Some ops" "sh_PrivPID sh = ok_getpid k"
      "sh_WaitDelay sh = bounded_delay (c_WaitDelay c)" and pop: "populateLocal False (transmitted s) = Ret s"
      and shape: "op_shape ops hide" by (auto simp: sent_def)
  from all_get_on [OF assms(2) shape] obtain st where st: "toContainer_ops ops (newParams s) = Ret st" "pa_Ops (z_params st) \<noteq> None"
    by (auto simp: gets_on_def can_lower_def)
  have "s_Shim (transmitted s) = Some sh" using sh(1) by (simp add: transmitted_def)
  then have "shim_lower (transmitted s) (j_getppid j) = Ret (s, newParams s)"
    using sh(3) assms(5) pop by (simp add: shim_lower_def)
  then show ?thesis
    using assms(3,4) sh st
    by (intro exI [of _ "z_params st"])
      (simp add: shimEntrypoint_def shim_do_def shim_container_def shim_calls_def calls_succeed_def Let_def)
qed

lemma bounded_delay_range: "0 \<le> bounded_delay d \<and> bounded_delay d \<le> WaitDelayMax"
  by (simp add: bounded_delay_def WaitDelayMax_def WaitDelayDefault_def)

text \<open>No pathname that becomes the target of a setup operation has \<open>..\<close> in it: not the target of a mount point, not
  a resolved pathname, not the runtime directory of the environment. Nothing in the code checks this.\<close>

definition no_dotdot :: "outk \<Rightarrow> ContainerConfig \<Rightarrow> bool" where
  "no_dotdot k c \<longleftrightarrow> list_all (fs_clean True) (c_Filesystem c) \<and> (\<forall>v p. ok_evalSymlinks k v = Inr p \<longrightarrow> dotfree p) \<and>
     (\<forall>v. ok_lookupEnv k ''XDG_RUNTIME_DIR'' = Some v \<longrightarrow> dotfree v)"

text \<open>The calls init makes with the operations of a lowered state.\<close>

definition confined_init :: "(string \<Rightarrow> int) \<Rightarrow> Ops \<Rightarrow> bool" where
  "confined_init snr ops \<longleftrightarrow> (\<forall>n K fu iparams res tr. answers (init_rely n) K \<and> pa_Ops iparams = Some ops \<and>
     run K (initEntrypoint fu snr iparams) [] = (res, tr) \<longrightarrow> phases (init_phases snr iparams ops (word_of_int n)) tr)"

lemma init_lowered: "valid_ops True ops \<Longrightarrow> confined_init snr ops"
  unfolding confined_init_def using init_phased valid_ops_fresh by (fastforce simp: phased_def simp del: phases.simps)


text \<open>C11: on the state \<open>finalise\<close> has made, nothing but a failing call keeps the shim from starting the
  container: the received state is complete, every operation is lowered without an error, and the shim
  makes all its calls in order, turns core dumps off first, installs the filter of its own before it
  waits, and ends as the container did.\<close>

theorem finalise_shim_starts:
  assumes "finalise k False False (Some ident) (Some config) = Ret oc"
    and "j_receive j = Received (transmitted (oc_state oc))" "calls_succeed j" "ok_getpid k = j_getppid j"
  shows "\<exists>params. shimEntrypoint snr j =
    (shim_calls snr (j_getppid j) params (bounded_delay (c_WaitDelay (the (cfg_Container config)))), shim_wait (j_containerWait j))"
proof -
  from finalise_sends [OF assms(1)] obtain c ops hide where c: "cfg_Container config = Some c" "sent k c (oc_state oc) ops hide" by auto
  from shim_goes_on [OF c(2) finalise_local_ok [OF assms(1) c] assms(2-4)] c(1) show ?thesis by simp
qed

text \<open>An example: the configuration of the earlier examples, received by the child of the process.\<close>

definition shimk1 :: "outcomeState \<Rightarrow> shimk" where
  "shimk1 s =
     \<lparr>j_setDumpable = None, j_getppid = 7, j_setupContSignal = None, j_receive = Received (transmitted s), j_prctl = None,
      j_containerStart = (\<lambda>_ _. None), j_containerServe = None, j_seccompLoad = (\<lambda>_ _. None), j_containerWait = ContainerExit 3\<rparr>"

theorem finalise_shim_starts_witness:
  "\<exists>oc params. finalise outk0 False False (Some ''x'') (Some config1) = Ret oc \<and>
     shimEntrypoint snr_index (shimk1 (oc_state oc)) = (shim_calls snr_index 7 params WaitDelayDefault, ShimExit 3)"
proof -
  obtain oc where oc: "finalise outk0 False False (Some ''x'') (Some config1) = Ret oc" using finalise1 by blast
  have "\<exists>params. shimEntrypoint snr_index (shimk1 (oc_state oc)) = (shim_calls snr_index (j_getppid (shimk1 (oc_state oc))) params
      (bounded_delay (c_WaitDelay (the (cfg_Container config1)))), shim_wait (j_containerWait (shimk1 (oc_state oc))))"
    by (rule finalise_shim_starts [OF oc]) (simp_all add: shimk1_def calls_succeed_def outk0_def)
  then show ?thesis using oc by (auto simp: shimk1_def config1_def container1_def bounded_delay_def shim_wait_def)
qed


end
