(* ===== verification/Handoff.thy ===== *)
theory Handoff
  imports Hsu Out_Run
begin

text \<open>
  The handover between hakurei and its setuid helper: what the privileged process puts into the
  environment of \<open>hsu\<close> for a finalised configuration is what \<open>hsu\<close> reads, and the user it switches to
  is the one the operations of the configuration were made for.
\<close>

subsection \<open>The environment\<close>

text \<open>\<open>os.LookupEnv\<close> on the environment a process was started with: the first entry of a key counts.\<close>

fun env_lookup :: "string list \<Rightarrow> string \<Rightarrow> string option" where
  "env_lookup [] key = None"
| "env_lookup (kv # env) key =
     (case Cut (CHR ''='') kv of
        None \<Rightarrow> env_lookup env key
      | Some (name, val) \<Rightarrow> if name = key then Some val else env_lookup env key)"

lemma start_env_lookup:
  "env_lookup (start_env fd identity supp) envShim = Some (Itoa fd)"
  "env_lookup (start_env fd identity supp) envIdentity = Some identity"
  "env_lookup (start_env fd identity supp) envGroups = (if supp = [] then None else Some (Join supp '' ''))"
proof -
  have cut: "Cut (CHR ''='') (shimEnv @ ''='' @ x) = Some (shimEnv, x)"
    "Cut (CHR ''='') (''HAKUREI_IDENTITY='' @ x) = Some (''HAKUREI_IDENTITY'', x)"
    "Cut (CHR ''='') (''HAKUREI_GROUPS='' @ x) = Some (''HAKUREI_GROUPS'', x)" for x
    by (simp_all add: shimEnv_def)
  show "env_lookup (start_env fd identity supp) envShim = Some (Itoa fd)"
    "env_lookup (start_env fd identity supp) envIdentity = Some identity"
    "env_lookup (start_env fd identity supp) envGroups = (if supp = [] then None else Some (Join supp '' ''))"
    unfolding start_env_def by (simp_all only: append_Cons append_Nil env_lookup.simps cut option.case prod.case split: if_split)
      (simp_all add: shimEnv_def envShim_def envIdentity_def envGroups_def)
qed

subsection \<open>Reading it\<close>

lemma hsu_calls_LookupEnv [simp]: "hsu_calls (e\<lparr>LookupEnv := l\<rparr>) cs = hsu_calls e cs"
  by (induction cs rule: hsu_calls.induct) (auto split: option.splits prod.splits)

lemma hsu_checks_LookupEnv [simp]: "hsu_checks (e\<lparr>LookupEnv := l\<rparr>) = hsu_checks e"
  by (simp add: hsu_checks_def cong: sum.case_cong if_cong)

lemma mustParseConfig_LookupEnv [simp]: "mustParseConfig (e\<lparr>LookupEnv := l\<rparr>) p = mustParseConfig e p"
  by (simp add: mustParseConfig_def cong: sum.case_cong prod.case_cong option.case_cong if_cong)

lemma hsu_setup_fd_digit:
  assumes "LookupEnv e envShim = Some (Itoa fd)" and "3 \<le> fd" and "fd \<le> 9"
  shows "hsu_setup_fd e userid = Ret (Itoa fd)"
proof -
  have "fd \<in> {3, 4, 5, 6, 7, 8, 9}"
    using assms(2,3) by auto
  then show ?thesis
    using assms(1) by (elim insertE emptyE)
      (simp_all add: hsu_setup_fd_def Itoa_def format_nat.simps digit_char_def)
qed

lemma mustReadIdentity_Itoa:
  assumes "LookupEnv e envIdentity = Some (Itoa i)" and "0 \<le> i" and "i \<le> 9999"
  shows "mustReadIdentity e = Ret (word_of_int i)"
proof -
  obtain n where n: "i = int n" "n \<le> 9999"
    using assms(2,3) by (cases i) auto
  then have u: "unat (word_of_nat n :: u32) = n"
    by (intro unat_of_nat_u32) simp
  have "parseUint32Fast (Itoa i) = Ret (word_of_nat n)"
    using parseUint32Fast_format [of "word_of_nat n"] u n by (simp add: Itoa_def)
  moreover have "\<not> of_nat identityEnd < (word_of_nat n :: u32)" "\<not> (word_of_nat n :: u32) < of_nat identityStart"
    using u n by (simp_all add: word_less_nat_alt hsu_consts)
  ultimately show ?thesis
    using assms(1) n by (simp add: mustReadIdentity_def)
qed

lemma hsu_groups_map:
  assumes "LookupEnv e envGroups = (if gids = [] then None else Some (Join (map Itoa gids) '' ''))"
    and "Getgroups e = Inr current"
    and "\<forall>g \<in> set gids. 0 < g \<and> g < 2 ^ 63 \<and> g \<noteq> uid \<and> g \<noteq> Getgid e \<and> g \<in> set current"
  shows "hsu_groups e uid = Ret (gids @ [uid])"
proof (cases "gids = []")
  case True
  with assms(1) show ?thesis by (simp add: hsu_groups_def)
next
  case False
  have "CHR '' '' \<notin> set (Itoa g)" for g
    using format_nat_digits [of "CHR '' ''"] by (auto simp: Itoa_def)
  then have "Split (CHR '' '') (Join (map Itoa gids) '' '') = map Itoa gids"
    using False by (intro Split_Join) auto
  moreover have "mapM_go (hsu_group e uid current) (map Itoa gids) = Ret gids"
    using assms(3) by (induction gids) (simp_all add: hsu_group_def Atoi_Itoa)
  ultimately show ?thesis
    using assms(1,2) False by (simp add: hsu_groups_def)
qed

text \<open>A run of \<open>hsu\<close> that prints the userid has passed all checks.\<close>

lemma hsu_not_printing:
  "hsu_checks e \<noteq> Fail (PrintUserid u)" "mustParseConfig e p \<noteq> Fail (PrintUserid u)"
  "mustReadIdentity e \<noteq> Fail (PrintUserid u)" "hsu_groups e uid \<noteq> Fail (PrintUserid u)"
  "snd (hsu_calls e cs) \<noteq> PrintUserid u"
proof -
  show "hsu_checks e \<noteq> Fail (PrintUserid u)"
    unfolding hsu_checks_def by (auto split: if_splits sum.splits)
  show "mustParseConfig e p \<noteq> Fail (PrintUserid u)"
    unfolding mustParseConfig_def by (auto split: if_splits sum.splits prod.splits option.splits)
  show "mustReadIdentity e \<noteq> Fail (PrintUserid u)"
    unfolding mustReadIdentity_def by (auto split: if_splits go.splits option.splits)
  have "hsu_group e uid c s \<noteq> Fail (PrintUserid u)" for c s
    unfolding hsu_group_def by (auto split: if_splits go.splits)
  then show "hsu_groups e uid \<noteq> Fail (PrintUserid u)"
    unfolding hsu_groups_def by (auto simp: bind_go_Fail_iff split: option.splits sum.splits dest!: mapM_go_Fail)
  show "snd (hsu_calls e cs) \<noteq> PrintUserid u"
    by (induction cs rule: hsu_calls.induct) (auto split: option.splits prod.splits)
qed

lemma hsu_main_prints:
  assumes "hsu_main e = ([], PrintUserid userid)"
  shows "hsu_checks e = Ret (hakureiPath e) \<and> mustParseConfig e (Getuid e) = Ret userid"
proof -
  from hsu_not_printing(5) have "hsu_calls e cs \<noteq> ([], PrintUserid userid)" for cs
    by (metis snd_conv)
  then obtain p u where "hsu_checks e = Ret p" and config: "mustParseConfig e (Getuid e) = Ret u"
    and "hsu_setup_fd e u = Fail (PrintUserid userid)"
    using assms hsu_not_printing(1-4)
    by (auto simp: hsu_main_def Let_def bind_go_Fail_iff split: go.splits if_splits)
  moreover from this have "u = userid"
    by (auto simp: hsu_setup_fd_def split: option.splits list.splits if_splits)
  ultimately show ?thesis
    using hsu_checks_Ret config by auto
qed

subsection \<open>A finalised configuration\<close>

lemma finalise_identity:
  assumes "finalise k False False (Some ident) (Some config) = Ret oc"
    and "ok_cmdOutput k = CmdOutput (Itoa userid)" and "0 \<le> userid" and "userid < 2 ^ 63"
  shows "0 \<le> cfg_Identity config" and "cfg_Identity config \<le> 9999"
    and "lo_identity (the (s_local (oc_state oc))) = Itoa (cfg_Identity config)"
    and "I_uid (oc_sys oc) = ToUser_int userid (cfg_Identity config)"
proof -
  from assms(1) obtain s s' sys st where valid: "Config_Validate (ok_quote k) (Some config) = Ret ()"
      and s: "newOutcomeState k (Some ident) config None = Ret s" and s': "populateLocal False s = Ret s'"
      and sys: "New False (lo_uid (the (s_local s'))) = (Ret sys :: (out_error, I) go)"
      and st: "toSystem k (newSys config sys s') = Ret st" and oc: "oc_sys oc = y_sys st" "oc_state oc = y_state st"
    by (auto simp: finalise_def lift_validate_def split: go.splits)
  show "0 \<le> cfg_Identity config" "cfg_Identity config \<le> 9999"
    using Config_Validate_identity [OF valid] by auto
  have user: "s_UserID s = userid" "s_Identity s = cfg_Identity config"
    using s assms(2-4) Atoi_Itoa [of userid]
    by (auto simp: newOutcomeState_def MustID_def Hsu_ID_def Let_def split: go.splits if_splits)
  let ?st0 = "newSys config sys s'"
  from st obtain sh ops st1 where loop: "toSystem_loop (outcome_ops k) [] ?st0 = Ret (ops, st1)"
      and st1: "st = st1\<lparr>y_state := (y_state st1)\<lparr>s_Shim := Some (sh\<lparr>sh_Ops := Some ops\<rparr>)\<rparr>\<rparr>"
    by (auto simp: toSystem_def newSys_def split: option.splits if_splits)
  have "lowers ?st0 st1"
    by (rule lowers_loop [OF lowers_outcome_ops loop])
  then have "I_uid (y_sys st1) = I_uid sys" "y_state st1 = s'"
    by (auto simp: lowers_def newSys_def)
  moreover have "lo_identity (the (s_local s')) = Itoa (cfg_Identity config)"
    "lo_uid (the (s_local s')) = ToUser_int userid (cfg_Identity config)"
    using s' user by (auto simp: populateLocal_def split: if_splits)
  moreover have "I_uid sys = lo_uid (the (s_local s'))"
    using sys by (auto simp: New_def split: if_splits)
  ultimately show "lo_identity (the (s_local (oc_state oc))) = Itoa (cfg_Identity config)"
    "I_uid (oc_sys oc) = ToUser_int userid (cfg_Identity config)"
    by (simp_all add: oc st1)
qed

text \<open>C5: The whole way to the target user: when \<open>hsu\<close>, asked without a setup descriptor, reported the
  userid of the user, the configuration was finalised with that answer, and \<open>hsu\<close> is started again by
  the same process with the environment \<open>start\<close> makes of the outcome, then it accepts that
  environment and makes exactly the calls that drop its privileges to the user the operations of the
  configuration were made for, with the supplementary groups that were looked up, and executes the
  shim on the setup descriptor; only the last identity of the last userid is refused.\<close>

theorem hsu_handoff:
  assumes "hsu_main e = ([], PrintUserid userid)"
    and "ok_cmdOutput k = CmdOutput (Itoa (uint userid))"
    and "finalise k False False (Some ident) (Some config) = Ret oc"
    and "3 \<le> fd" and "fd \<le> 9" and "Getgroups e = Inr current" and "oc_supp oc = map Itoa gids"
    and "\<forall>g \<in> set gids. 0 < g \<and> g < 2 ^ 63 \<and> g \<noteq> I_uid (oc_sys oc) \<and> g \<noteq> Getgid e \<and> g \<in> set current"
    and "\<not> (uint userid = 9999 \<and> cfg_Identity config = 9999)"
  shows "hsu_main (e\<lparr>LookupEnv := env_lookup (start_env fd (lo_identity (the (s_local (oc_state oc)))) (oc_supp oc))\<rparr>) =
    hsu_calls e (hsu_drop (I_uid (oc_sys oc)) (gids @ [I_uid (oc_sys oc)]) (hakureiPath e) (Itoa fd))"
proof -
  let ?id = "cfg_Identity config"
  let ?e = "e\<lparr>LookupEnv := env_lookup (start_env fd (lo_identity (the (s_local (oc_state oc)))) (oc_supp oc))\<rparr>"
  have first: "hsu_checks e = Ret (hakureiPath e)" "mustParseConfig e (Getuid e) = Ret userid"
    using hsu_main_prints [OF assms(1)] by auto
  have user: "unat userid \<le> useridEnd"
    using mustParseConfig_Ret [OF first(2)] parseConfig_userid by auto
  have "uint userid < 2 ^ 63"
    using uint_lt2p [of userid] by simp
  note fin = finalise_identity [OF assms(3,2) uint_ge_0 this]
  obtain n where n: "?id = int n" "n \<le> 9999"
    using fin(1,2) by (cases ?id) auto
  then have id: "unat (word_of_int ?id :: u32) = n"
    by (simp add: unat_of_nat_u32)
  then have app: "unat (word_of_int ?id :: u32) \<le> identityEnd"
    using n by (simp add: userid_consts)
  have uid: "uint (toUser userid (word_of_int ?id)) = I_uid (oc_sys oc)"
  proof -
    have "int (unat (toUser userid (word_of_int ?id))) = int (unat userid) * 100000 + 10000 + int n"
      unfolding unat_toUser [OF user app] id by simp
    then show ?thesis
      by (simp only: uint_nat [symmetric] fin(4) ToUser_int_def n(1))
  qed
  have "\<not> (userid = of_nat useridEnd \<and> (word_of_int ?id :: u32) = of_nat identityEnd)"
  proof
    assume "userid = of_nat useridEnd \<and> (word_of_int ?id :: u32) = of_nat identityEnd"
    then have "uint userid = 9999" "unat (word_of_int ?id :: u32) = 9999"
      by (simp_all add: userid_consts)
    with assms(9) id n show False by simp
  qed
  then have range: "\<not> (I_uid (oc_sys oc) < uidStart \<or> uidEnd \<le> I_uid (oc_sys oc))"
    using toUser_last [OF user app] uid by simp
  have "mustReadIdentity ?e = Ret (word_of_int ?id)"
    using fin(1,2) by (intro mustReadIdentity_Itoa) (simp_all add: start_env_lookup fin(3))
  moreover have "hsu_setup_fd ?e userid = Ret (Itoa fd)"
    using assms(4,5) by (intro hsu_setup_fd_digit) (simp_all add: start_env_lookup)
  moreover have "hsu_groups ?e (I_uid (oc_sys oc)) = Ret (gids @ [I_uid (oc_sys oc)])"
    using assms(6-8) by (intro hsu_groups_map [of _ _ current]) (simp_all add: start_env_lookup)
  ultimately show ?thesis
    using range first by (simp add: hsu_main_def Let_def uid)
qed

definition hsu_query :: hsu_env where
  "hsu_query = (hsu_sample [''1000 0''] ''9'')\<lparr>LookupEnv := \<lambda>_. None\<rparr>"

lemma hsu_query_prints: "hsu_main hsu_query = ([], PrintUserid 0)"
proof -
  have "hsu_checks hsu_query = Ret ''/bin/hakurei''"
    by (simp add: hsu_query_def) (simp add: hsu_checks_def hsu_sample_def HasSuffix_def slash_def)
  moreover have "mustParseConfig hsu_query (Getuid hsu_query) = Ret 0"
    by (simp add: hsu_query_def) (simp add: mustParseConfig_def hsu_sample_def parseConfig_def parseConfig_loop.simps(2)
        SplitN_2 parseUint32Fast_def userid_consts)
  moreover have "hsu_setup_fd hsu_query 0 = Fail (PrintUserid 0)"
    by (simp add: hsu_setup_fd_def hsu_query_def)
  ultimately show ?thesis
    by (simp add: hsu_main_def)
qed

theorem hsu_handoff_witness:
  "\<exists>oc. finalise outk0 False False (Some ''x'') (Some config1) = Ret oc \<and>
     hsu_main (hsu_query\<lparr>LookupEnv := env_lookup (start_env 3 (lo_identity (the (s_local (oc_state oc)))) (oc_supp oc))\<rparr>) =
     hsu_calls hsu_query (hsu_drop (I_uid (oc_sys oc)) [I_uid (oc_sys oc)] (hakureiPath hsu_query) (Itoa 3))"
proof -
  obtain oc where oc: "finalise outk0 False False (Some ''x'') (Some config1) = Ret oc"
    using finalise1 by blast
  have supp: "oc_supp oc = map Itoa []"
    using oc by (auto simp: finalise_def config1_def)
  have k: "ok_cmdOutput outk0 = CmdOutput (Itoa (uint (0 :: u32)))"
    by (simp add: outk0_def texts1)
  have "Getgroups hsu_query = Inr [100, 27]" "\<not> (uint (0 :: u32) = 9999 \<and> cfg_Identity config1 = 9999)"
    by (simp_all add: hsu_query_def hsu_sample_def)
  from hsu_handoff [OF hsu_query_prints k oc _ _ this(1) supp _ this(2), of 3] oc show ?thesis
    by auto
qed

end
