(* ===== verification/Ldd.thy ===== *)
theory Ldd
  imports Check_Abs Go_Num
begin

text \<open>
  The package \<open>ldd\<close>: the parser of the output of \<open>ldd(1)\<close> (\<open>Entry.UnmarshalText\<close>, the
  \<open>Decoder\<close> with its treatment of empty lines, \<open>Parse\<close>), the printer \<open>Entry.String\<close> and the
  directories \<open>Path\<close> derives from the entries. Running \<open>ldd\<close> itself is in \<open>exec.go\<close> and not part
  of this theory.
\<close>

subsection \<open>The Go library\<close>

abbreviation (input) newline :: char where "newline \<equiv> CHR 0x0A"
abbreviation (input) sep_space :: char where "sep_space \<equiv> CHR 0x20"
abbreviation (input) tab :: char where "tab \<equiv> CHR 0x09"

text \<open>The encodings of the runes \<open>unicode.IsSpace\<close> accepts, which are what \<open>bytes.TrimSpace\<close>
  removes at both ends.\<close>

definition space_runes :: "string list" where
  "space_runes =
     [[CHR 0x09], [CHR 0x0A], [CHR 0x0B], [CHR 0x0C], [CHR 0x0D], [CHR 0x20],
      [CHR 0xC2, CHR 0x85], [CHR 0xC2, CHR 0xA0], [CHR 0xE1, CHR 0x9A, CHR 0x80]]
     @ map (\<lambda>c. [CHR 0xE2, CHR 0x80, c])
         [CHR 0x80, CHR 0x81, CHR 0x82, CHR 0x83, CHR 0x84, CHR 0x85, CHR 0x86, CHR 0x87,
          CHR 0x88, CHR 0x89, CHR 0x8A, CHR 0xA8, CHR 0xA9, CHR 0xAF]
     @ [[CHR 0xE2, CHR 0x81, CHR 0x9F], [CHR 0xE3, CHR 0x80, CHR 0x80]]"

lemma space_runes_nonempty: "r \<in> set space_runes \<Longrightarrow> r \<noteq> []"
  by (auto simp: space_runes_def)

lemma find_space_rune:
  "find P space_runes = Some r \<Longrightarrow> P r \<and> r \<noteq> []"
  using space_runes_nonempty by (force simp: find_Some_iff in_set_conv_nth)

lemma cut_rune_less: "r \<noteq> [] \<Longrightarrow> length r \<le> length s \<Longrightarrow> length s - length r < length s"
  by (cases r) auto

function trim_left :: "string \<Rightarrow> string" where
  "trim_left s =
     (case find (HasPrefix s) space_runes of
        None \<Rightarrow> s
      | Some r \<Rightarrow> trim_left (drop (length r) s))"
  by pat_completeness auto
termination
  by (relation "measure length") (auto dest!: find_space_rune simp: HasPrefix_def cut_rune_less)

function trim_right :: "string \<Rightarrow> string" where
  "trim_right s =
     (case find (HasSuffix s) space_runes of
        None \<Rightarrow> s
      | Some r \<Rightarrow> trim_right (take (length s - length r) s))"
  by pat_completeness auto
termination
  by (relation "measure length") (auto dest!: find_space_rune simp: HasSuffix_def cut_rune_less)

declare trim_left.simps [simp del] trim_right.simps [simp del]

definition bytes_TrimSpace :: "string \<Rightarrow> string" where
  "bytes_TrimSpace s = trim_right (trim_left s)"

text \<open>A \<open>bufio.Scanner\<close> over lines: the lines not delivered yet, whether the input goes on with a
  line that does not fit its buffer of 65536 bytes, and whether that error has been met.\<close>

record scanner_state =
  sc_tokens :: "string list"
  sc_overlong :: bool
  sc_err :: bool

definition dropCR :: "string \<Rightarrow> string" where
  "dropCR l = (if l \<noteq> [] \<and> last l = CHR 0x0D then butlast l else l)"

definition raw_lines :: "string \<Rightarrow> string list" where
  "raw_lines p = (let ls = Split newline p in if last ls = [] then butlast ls else ls)"

definition MaxScanTokenSize :: nat where "MaxScanTokenSize = 65536"

definition NewScanner :: "string \<Rightarrow> scanner_state" where
  "NewScanner p =
     \<lparr>sc_tokens = map dropCR (takeWhile (\<lambda>l. length l < MaxScanTokenSize) (raw_lines p)),
      sc_overlong = list_ex (\<lambda>l. MaxScanTokenSize \<le> length l) (raw_lines p), sc_err = False\<rparr>"

definition scanner_Scan :: "scanner_state \<Rightarrow> string option \<times> scanner_state" where
  "scanner_Scan s =
     (case sc_tokens s of
        [] \<Rightarrow> (None, s\<lparr>sc_err := sc_overlong s\<rparr>)
      | t # ts \<Rightarrow> (Some t, s\<lparr>sc_tokens := ts\<rparr>))"

subsection \<open>Entries\<close>

datatype ldd_error =
    ErrUnexpectedNewline
  | ErrUnexpectedSeparator
  | ErrBadLocationFormat
  | EntryUnexpectedSegmentsError string
  | LddAbsolute abs_error
  | LddNum num_error
  | ErrTooLong

record entry =
  e_Name :: string
  e_Path :: "absolute option"
  e_Location :: u64

definition new_Entry :: entry where
  "new_Entry = \<lparr>e_Name = [], e_Path = None, e_Location = 0\<rparr>"

definition entrySegmentFullSeparator :: string where "entrySegmentFullSeparator = ''=>''"
definition entrySegmentLocationLengthMin :: nat where "entrySegmentLocationLengthMin = 4"
definition entrySegmentLocationPrefix :: string where "entrySegmentLocationPrefix = ''(0x''"
definition entrySegmentLocationSuffix :: char where "entrySegmentLocationSuffix = CHR '')''"

text \<open>\<open>decodeLocationSegment\<close> stores what \<open>ParseUint\<close> returns, which is 0 along with a syntax
  error and the largest value along with a range error.\<close>

definition decodeLocationSegment :: "string \<Rightarrow> entry \<Rightarrow> ldd_error option \<times> entry" where
  "decodeLocationSegment segment e =
     (if length segment < entrySegmentLocationLengthMin
         \<or> last segment \<noteq> entrySegmentLocationSuffix
         \<or> take (length entrySegmentLocationPrefix) segment \<noteq> entrySegmentLocationPrefix
      then (Some ErrBadLocationFormat, e)
      else case ParseUint (take (length segment - 1 - 3) (drop 3 segment)) 16 of
             Ret n \<Rightarrow> (None, e\<lparr>e_Location := word_of_nat n\<rparr>)
           | Fail ErrSyntax \<Rightarrow> (Some (LddNum ErrSyntax), e\<lparr>e_Location := 0\<rparr>)
           | Fail ErrRange \<Rightarrow> (Some (LddNum ErrRange), e\<lparr>e_Location := - 1\<rparr>)
           | Panic m \<Rightarrow> (None, e))"

definition entry_UnmarshalText :: "string \<Rightarrow> entry \<Rightarrow> ldd_error option \<times> entry" where
  "entry_UnmarshalText data e =
     (case SplitN 5 sep_space data of
        [name, loc] \<Rightarrow> decodeLocationSegment loc (e\<lparr>e_Name := bytes_TrimSpace name\<rparr>)
      | [name, sep, path, loc] \<Rightarrow>
          if sep \<noteq> entrySegmentFullSeparator then (Some ErrUnexpectedSeparator, e)
          else (case NewAbs path of
                  Fail err \<Rightarrow> (Some (LddAbsolute err), e)
                | Panic m \<Rightarrow> (None, e)
                | Ret a \<Rightarrow> decodeLocationSegment loc (e\<lparr>e_Path := Some a, e_Name := bytes_TrimSpace name\<rparr>))
      | _ \<Rightarrow> (Some (EntryUnexpectedSegmentsError data), e))"

definition entry_String :: "entry \<Rightarrow> (abs_error, string) go" where
  "entry_String e =
     bind_go
       (case e_Path e of
          None \<Rightarrow> Ret []
        | Some a \<Rightarrow> bind_go (abs_String a) (\<lambda>p. Ret (entrySegmentFullSeparator @ '' '' @ p @ '' '')))
       (\<lambda>path. Ret ((if e_Name e \<noteq> [] then e_Name e @ '' '' else ''invalid '') @ path
          @ entrySegmentLocationPrefix @ format_nat 16 (unat (e_Location e))
          @ [entrySegmentLocationSuffix]))"

fun path_loop :: "entry list \<Rightarrow> absolute list \<Rightarrow> (abs_error, absolute list) go" where
  "path_loop [] p = Ret p"
| "path_loop (entry # entries) p =
     bind_go (case e_Path entry of
                None \<Rightarrow> Ret p
              | Some a \<Rightarrow> bind_go (abs_Dir a) (\<lambda>d. Ret (p @ [d])))
       (\<lambda>p. bind_go (case NewAbs (e_Name entry) of
                       Ret a \<Rightarrow> bind_go (abs_Dir a) (\<lambda>d. Ret (p @ [d]))
                     | _ \<Rightarrow> Ret p)
         (path_loop entries))"

definition ldd_Path :: "entry list \<Rightarrow> (abs_error, absolute list) go" where
  "ldd_Path entries = bind_go (path_loop entries []) (\<lambda>p. Ret (CompactAbs (SortAbs p)))"

subsection \<open>The decoder\<close>

record ldd_decoder =
  d_s :: "scanner_state option"
  d_notFirst :: bool
  d_depleted :: bool
  d_err :: "ldd_error option"

definition NewDecoder :: "string \<Rightarrow> ldd_decoder" where
  "NewDecoder p = \<lparr>d_s = Some (NewScanner p), d_notFirst = False, d_depleted = False, d_err = None\<rparr>"

definition d_left :: "ldd_decoder \<Rightarrow> nat" where
  "d_left d = (case d_s d of None \<Rightarrow> 0 | Some s \<Rightarrow> length (sc_tokens s))"

function decoder_Scan :: "entry \<Rightarrow> ldd_decoder \<Rightarrow> bool \<times> entry \<times> ldd_decoder" where
  "decoder_Scan v d =
     (case d_s d of
        None \<Rightarrow> (False, v, d)
      | Some s \<Rightarrow>
          if d_err d \<noteq> None \<or> d_depleted d then (False, v, d)
          else case scanner_Scan s of
                 (None, s') \<Rightarrow> (False, v, d\<lparr>d_s := Some s', d_depleted := True\<rparr>)
               | (Some data, s') \<Rightarrow>
                   if data = [] then
                     if d_notFirst d then
                       (case scanner_Scan s' of
                          (Some _, s'') \<Rightarrow> (False, v, d\<lparr>d_s := Some s'', d_err := Some ErrUnexpectedNewline\<rparr>)
                        | (None, s'') \<Rightarrow> (False, v, d\<lparr>d_s := Some s''\<rparr>))
                     else decoder_Scan v (d\<lparr>d_s := Some s', d_notFirst := True\<rparr>)
                   else case entry_UnmarshalText data v of
                          (err, v') \<Rightarrow> (err = None, v', d\<lparr>d_s := Some s', d_notFirst := True, d_err := err\<rparr>))"
  by pat_completeness auto
termination
  by (relation "measure (\<lambda>(v, d). d_left d)")
    (auto simp: d_left_def scanner_Scan_def split: list.splits)

declare decoder_Scan.simps [simp del]

definition decoder_Err :: "ldd_decoder \<Rightarrow> ldd_error option" where
  "decoder_Err d =
     (if d_err d \<noteq> None then d_err d
      else case d_s d of
             None \<Rightarrow> d_err d
           | Some s \<Rightarrow> if sc_err s then Some ErrTooLong else None)"

lemma decoder_Scan_left: "decoder_Scan v d = (True, v', d') \<Longrightarrow> d_left d' < d_left d"
proof (induction v d rule: decoder_Scan.induct)
  case (1 v d)
  show ?case
  proof (cases "d_s d")
    case None
    with "1.prems" show ?thesis by (simp add: decoder_Scan.simps)
  next
    case (Some s)
    show ?thesis
    proof (cases "sc_tokens s")
      case Nil
      with "1.prems" Some show ?thesis
        by (simp add: decoder_Scan.simps scanner_Scan_def split: if_splits)
    next
      case (Cons t ts)
      with "1.prems" "1.IH" [OF Some] Some show ?thesis
        by (subst (asm) decoder_Scan.simps)
          (auto simp: scanner_Scan_def d_left_def intro: less_SucI split: if_splits prod.splits list.splits)
    qed
  qed
qed

function decode_loop :: "ldd_decoder \<Rightarrow> entry list \<Rightarrow> entry list \<times> ldd_decoder" where
  "decode_loop d entries =
     (case decoder_Scan new_Entry d of
        (True, e, d') \<Rightarrow> decode_loop d' (entries @ [e])
      | (False, _, d') \<Rightarrow> (entries, d'))"
  by pat_completeness auto
termination
  by (relation "measure (\<lambda>(d, _). d_left d)") (auto dest: decoder_Scan_left [OF sym])

declare decode_loop.simps [simp del]

definition decoder_Decode :: "ldd_decoder \<Rightarrow> entry list \<times> ldd_error option" where
  "decoder_Decode d = (case decode_loop d [] of (entries, d') \<Rightarrow> (entries, decoder_Err d'))"

definition ldd_Parse :: "string \<Rightarrow> entry list \<times> ldd_error option" where
  "ldd_Parse p = decoder_Decode (NewDecoder p)"

subsection \<open>Printing and parsing an entry\<close>

lemma length_trim_left: "length (trim_left s) \<le> length s"
proof (induction s rule: trim_left.induct)
  case (1 s)
  then show ?case
    by (subst trim_left.simps) (auto split: option.splits)
qed

lemma length_trim_right: "length (trim_right s) \<le> length s"
proof (induction s rule: trim_right.induct)
  case (1 s)
  then show ?case
    by (subst trim_right.simps) (auto split: option.splits)
qed

lemma trim_left_id: "length s \<le> length (trim_left s) \<Longrightarrow> trim_left s = s"
  using length_trim_left find_space_rune
  by (subst trim_left.simps, subst (asm) trim_left.simps)
    (fastforce simp: HasPrefix_def split: option.splits dest!: find_space_rune
      dest: order_trans cut_rune_less)

lemma trim_left_tab: "trim_left (tab # s) = trim_left s"
  by (subst trim_left.simps) (simp add: space_runes_def HasPrefix_def)

lemma TrimSpace_tab:
  assumes "bytes_TrimSpace n = n"
  shows "bytes_TrimSpace (tab # n) = n"
proof -
  have "length n \<le> length (trim_left n)"
    using assms length_trim_right [of "trim_left n"] by (simp add: bytes_TrimSpace_def)
  then show ?thesis
    using assms trim_left_id by (simp add: bytes_TrimSpace_def trim_left_tab)
qed

text \<open>The entries a line can hold: a name that is a single word and, in the long variant, an
  absolute pathname without spaces.\<close>

definition plain_word :: "string \<Rightarrow> bool" where
  "plain_word w \<longleftrightarrow> sep_space \<notin> set w \<and> newline \<notin> set w"

definition plain_entry :: "entry \<Rightarrow> bool" where
  "plain_entry e \<longleftrightarrow> e_Name e \<noteq> [] \<and> plain_word (e_Name e) \<and> bytes_TrimSpace (e_Name e) = e_Name e \<and>
     (case e_Path e of None \<Rightarrow> True | Some a \<Rightarrow> IsAbs (pathname a) \<and> plain_word (pathname a))"

definition loc_segment :: "u64 \<Rightarrow> string" where
  "loc_segment l = entrySegmentLocationPrefix @ format_nat 16 (unat l) @ [entrySegmentLocationSuffix]"

lemma format_hex_plain: "c \<in> set (format_nat 16 n) \<Longrightarrow> c \<noteq> sep_space \<and> c \<noteq> newline"
proof -
  assume "c \<in> set (format_nat 16 n)"
  then obtain d where "d < 16" and "c = digit_char d"
    using set_format_nat [of 16 c n] by auto
  then have "digit_val c = Some d"
    by (simp add: digit_val_digit_char)
  then show ?thesis
    by (auto simp: digit_val_def)
qed

lemma loc_segment_plain: "plain_word (loc_segment l)"
  using format_hex_plain
  by (auto simp: plain_word_def loc_segment_def entrySegmentLocationPrefix_def entrySegmentLocationSuffix_def)

lemma decodeLocationSegment_loc:
  "decodeLocationSegment (loc_segment l) e = (None, e\<lparr>e_Location := l\<rparr>)"
proof -
  have "unat l < 2 ^ 64"
    using unsigned_less [where ?'a = nat, of l] by simp
  moreover have "0 < length (format_nat 16 (unat l))"
    by simp
  ultimately show ?thesis
    by (simp add: decodeLocationSegment_def loc_segment_def entrySegmentLocationPrefix_def
        entrySegmentLocationLengthMin_def entrySegmentLocationSuffix_def ParseUint_format del: length_greater_0_conv)
qed

lemma SplitN_step:
  "c \<notin> set a \<Longrightarrow> SplitN (Suc (Suc n)) c (a @ c # b) = a # SplitN (Suc n) c b"
  by simp

lemma SplitN_last: "c \<notin> set a \<Longrightarrow> SplitN (Suc n) c a = [a]"
  by (cases n) (auto simp: Cut_None_iff [THEN iffD2])

lemma entry_String_plain:
  assumes "plain_entry e"
  shows "entry_String e = Ret (e_Name e @ sep_space #
     (case e_Path e of None \<Rightarrow> [] | Some a \<Rightarrow> ''=>'' @ sep_space # pathname a @ [sep_space])
     @ loc_segment (e_Location e))"
  using assms
  by (auto simp: entry_String_def plain_entry_def loc_segment_def abs_String_def
      entrySegmentFullSeparator_def split: option.splits)

lemma entry_UnmarshalText_plain:
  assumes "plain_entry e" and "ind = [] \<or> ind = [tab]"
  shows "entry_UnmarshalText (ind @ the_ret (entry_String e)) new_Entry = (None, e)"
proof -
  define name where "name = ind @ e_Name e"
  have name: "sep_space \<notin> set name" "bytes_TrimSpace name = e_Name e"
    using assms TrimSpace_tab by (auto simp: name_def plain_entry_def plain_word_def)
  have loc: "sep_space \<notin> set (loc_segment (e_Location e))"
    using loc_segment_plain by (simp add: plain_word_def)
  have five: "5 = Suc (Suc (Suc (Suc (Suc 0))))"
    by simp
  show ?thesis
  proof (cases "e_Path e")
    case None
    have "ind @ the_ret (entry_String e) = name @ sep_space # loc_segment (e_Location e)"
      using None by (simp add: entry_String_plain [OF assms(1)] name_def)
    moreover have "SplitN 5 sep_space (name @ sep_space # loc_segment (e_Location e))
      = [name, loc_segment (e_Location e)]"
      unfolding five SplitN_step [OF name(1)] using loc by (simp add: SplitN_last del: SplitN.simps)
    ultimately show ?thesis
      using None name(2) by (simp add: entry_UnmarshalText_def decodeLocationSegment_loc new_Entry_def)
  next
    case (Some a)
    have a: "IsAbs (pathname a)" "sep_space \<notin> set (pathname a)"
      using assms(1) Some by (auto simp: plain_entry_def plain_word_def simp del: IsAbs_iff)
    have sep: "sep_space \<notin> set ''=>''"
      by simp
    have "ind @ the_ret (entry_String e)
      = name @ sep_space # ''=>'' @ sep_space # pathname a @ sep_space # loc_segment (e_Location e)"
      using Some by (simp add: entry_String_plain [OF assms(1)] name_def)
    moreover have "SplitN 5 sep_space
        (name @ sep_space # ''=>'' @ sep_space # pathname a @ sep_space # loc_segment (e_Location e))
      = [name, ''=>'', pathname a, loc_segment (e_Location e)]"
      unfolding five SplitN_step [OF name(1)] SplitN_step [OF sep] SplitN_step [OF a(2)]
      using loc by (simp add: SplitN_last del: SplitN.simps)
    ultimately show ?thesis
      using Some name(2) a(1)
      by (simp add: entry_UnmarshalText_def decodeLocationSegment_loc new_Entry_def NewAbs_def
          unsafeAbs_def entrySegmentFullSeparator_def del: IsAbs_iff)
  qed
qed

subsection \<open>Decoding printed output\<close>

definition unlines :: "string list \<Rightarrow> string" where
  "unlines ls = concat (map (\<lambda>l. l @ [newline]) ls)"

lemma Split_unlines: "(\<And>l. l \<in> set ls \<Longrightarrow> newline \<notin> set l) \<Longrightarrow> Split newline (unlines ls) = ls @ [[]]"
  by (induction ls) (simp_all add: unlines_def Split_append_sep)

lemma NewScanner_unlines:
  assumes "\<And>l. l \<in> set ls \<Longrightarrow> newline \<notin> set l \<and> length l < MaxScanTokenSize \<and> dropCR l = l"
  shows "NewScanner (unlines ls) = \<lparr>sc_tokens = ls, sc_overlong = False, sc_err = False\<rparr>"
proof -
  have "raw_lines (unlines ls) = ls"
    using assms by (simp add: raw_lines_def Split_unlines)
  moreover have "takeWhile (\<lambda>l. length l < MaxScanTokenSize) ls = ls" "map dropCR ls = ls"
    using assms by (auto intro: map_idI)
  moreover have "\<not> list_ex (\<lambda>l. MaxScanTokenSize \<le> length l) ls"
    using assms by (force simp: list_ex_iff)
  ultimately show ?thesis
    unfolding NewScanner_def by (simp only: simp_thms)
qed

definition entry_line :: "string \<Rightarrow> entry \<Rightarrow> string" where
  "entry_line ind e = ind @ the_ret (entry_String e)"

definition decoding :: "string list \<Rightarrow> bool \<Rightarrow> ldd_decoder" where
  "decoding ts nf = \<lparr>d_s = Some \<lparr>sc_tokens = ts, sc_overlong = False, sc_err = False\<rparr>,
     d_notFirst = nf, d_depleted = False, d_err = None\<rparr>"

lemma entry_line_shape:
  assumes "plain_entry e" and "ind = [] \<or> ind = [tab]"
  shows "entry_line ind e \<noteq> []" and "newline \<notin> set (entry_line ind e)"
    and "dropCR (entry_line ind e) = entry_line ind e"
  using assms loc_segment_plain [of "e_Location e"]
  by (auto simp: entry_line_def entry_String_plain plain_entry_def plain_word_def dropCR_def
      loc_segment_def entrySegmentLocationSuffix_def split: option.splits)

lemma Scan_entry:
  assumes "plain_entry e" and "ind = [] \<or> ind = [tab]"
  shows "decoder_Scan new_Entry (decoding (entry_line ind e # ts) nf) = (True, e, decoding ts True)"
  using entry_line_shape(1) [OF assms] entry_UnmarshalText_plain [OF assms, folded entry_line_def]
  by (subst decoder_Scan.simps) (simp add: decoding_def scanner_Scan_def)

lemma Scan_leading: "decoder_Scan v (decoding ([] # ts) False) = decoder_Scan v (decoding ts True)"
  by (subst decoder_Scan.simps) (simp add: decoding_def scanner_Scan_def)

lemma Scan_end:
  "ts = [] \<or> ts = [[]] \<Longrightarrow>
   \<exists>d. decoder_Scan v (decoding ts nf) = (False, v, d) \<and> decoder_Err d = None"
proof -
  have "\<exists>d. decoder_Scan v (decoding [] nf) = (False, v, d) \<and> decoder_Err d = None" for nf
    by (subst decoder_Scan.simps) (simp add: decoding_def scanner_Scan_def decoder_Err_def)
  moreover have "\<exists>d. decoder_Scan v (decoding [[]] True) = (False, v, d) \<and> decoder_Err d = None"
    by (subst decoder_Scan.simps) (simp add: decoding_def scanner_Scan_def decoder_Err_def)
  ultimately show "ts = [] \<or> ts = [[]] \<Longrightarrow> ?thesis"
    by (cases nf) (auto simp: Scan_leading)
qed

lemma decode_entries:
  assumes "ind = [] \<or> ind = [tab]" and "ts = [] \<or> ts = [[]]"
    and "\<And>e. e \<in> set es \<Longrightarrow> plain_entry e"
  shows "\<exists>d. decode_loop (decoding (map (entry_line ind) es @ ts) nf) acc = (acc @ es, d)
     \<and> decoder_Err d = None"
  using assms(3)
proof (induction es arbitrary: nf acc)
  case Nil
  then show ?case
    using Scan_end [OF assms(2), of new_Entry nf] by (auto simp: decode_loop.simps)
next
  case (Cons e es)
  have "plain_entry e" and es: "\<And>e. e \<in> set es \<Longrightarrow> plain_entry e"
    using Cons.prems by auto
  then show ?case
    using Scan_entry [of e ind, OF _ assms(1)] Cons.IH [OF es, of True "acc @ [e]"]
    by (subst decode_loop.simps) simp
qed

lemma decode_leading:
  "decode_loop (decoding ([] # ts) False) acc = decode_loop (decoding ts True) acc"
  by (subst (1 2) decode_loop.simps) (simp add: Scan_leading)

text \<open>C32: What \<open>Entry.String\<close> prints, \<open>ldd.Parse\<close> reads back: for entries whose name and pathname
  are single words, on lines that fit the buffer of the scanner, the output of \<open>ldd\<close> parses to
  exactly the entries, whether or not its lines are indented by a tab, it starts with an empty line
  (as that of musl) or ends with one (as that of glibc).\<close>

theorem ldd_Parse_String:
  assumes "\<forall>e \<in> set es. plain_entry e \<and> length (entry_line ind e) < MaxScanTokenSize"
    and "ind \<in> {[], [tab]}" and "leading \<in> {[], [[]]}" and "trailing \<in> {[], [[]]}"
  shows "ldd_Parse (unlines (leading @ map (entry_line ind) es @ trailing)) = (es, None)"
proof -
  define ls where "ls = map (entry_line ind) es @ trailing"
  have ls: "newline \<notin> set l \<and> length l < MaxScanTokenSize \<and> dropCR l = l" if l: "l \<in> set (leading @ ls)" for l
  proof (cases "l = []")
    case True
    then show ?thesis by (simp add: dropCR_def MaxScanTokenSize_def)
  next
    case False
    then obtain e where "e \<in> set es" "l = entry_line ind e"
      using l assms(3,4) by (auto simp: ls_def)
    then show ?thesis using assms(1,2) entry_line_shape by auto
  qed
  have "NewDecoder (unlines (leading @ ls)) = decoding (leading @ ls) False"
    using NewScanner_unlines [of "leading @ ls", OF ls] by (simp add: NewDecoder_def decoding_def)
  moreover have "\<exists>d. decode_loop (decoding ls nf) [] = (es, d) \<and> decoder_Err d = None" for nf
    using decode_entries [of ind trailing es nf "[]"] assms by (auto simp: ls_def)
  moreover have "decode_loop (decoding (leading @ ls) False) [] = decode_loop (decoding ls (leading \<noteq> [])) []"
    using assms(3) by (auto simp: decode_leading)
  ultimately show ?thesis
    by (auto simp: ldd_Parse_def decoder_Decode_def ls_def [symmetric] split: prod.split)
      (metis (full_types) prod.inject)+
qed

definition musl_entries :: "entry list" where
  "musl_entries =
     [\<lparr>e_Name = ''/lib/ld.so.1'', e_Path = None, e_Location = 255\<rparr>,
      \<lparr>e_Name = ''libc.so'', e_Path = Some (Absolute ''/lib/ld.so.1''), e_Location = 255\<rparr>]"

definition trim_fixed :: "string \<Rightarrow> bool" where
  "trim_fixed s \<longleftrightarrow> find (HasPrefix s) space_runes = None \<and> find (HasSuffix s) space_runes = None"

lemma trim_fixed_TrimSpace: "trim_fixed s \<Longrightarrow> bytes_TrimSpace s = s"
  by (simp add: trim_fixed_def bytes_TrimSpace_def trim_left.simps trim_right.simps)

lemma musl_entries_plain: "\<forall>e \<in> set musl_entries. plain_entry e \<and> length (entry_line [tab] e) < MaxScanTokenSize"
proof -
  have "trim_fixed ''/lib/ld.so.1''" "trim_fixed ''libc.so''"
    by code_simp+
  then show ?thesis
    by (auto simp: musl_entries_def plain_entry_def plain_word_def trim_fixed_TrimSpace entry_line_def
        entry_String_def abs_String_def MaxScanTokenSize_def format_nat.simps slash_def
        entrySegmentFullSeparator_def entrySegmentLocationPrefix_def)
qed

theorem ldd_Parse_String_witness:
  "ldd_Parse (unlines ([[]] @ map (entry_line [tab]) musl_entries @ [])) = (musl_entries, None)"
  by (rule ldd_Parse_String [OF musl_entries_plain]) simp_all

subsection \<open>The directories of the entries\<close>

definition path_ok :: "entry \<Rightarrow> bool" where
  "path_ok e \<longleftrightarrow> (case e_Path e of None \<Rightarrow> True | Some a \<Rightarrow> IsAbs (pathname a))"

definition entry_dirs :: "entry \<Rightarrow> absolute list" where
  "entry_dirs e =
     (case e_Path e of None \<Rightarrow> [] | Some a \<Rightarrow> [Absolute (path_Dir (pathname a))])
     @ (if IsAbs (e_Name e) then [Absolute (path_Dir (e_Name e))] else [])"

lemma decodeLocationSegment_Path: "decodeLocationSegment s e = (r, e') \<Longrightarrow> e_Path e' = e_Path e"
  by (auto simp: decodeLocationSegment_def split: if_splits go.splits num_error.splits)

lemma entry_UnmarshalText_path_ok:
  "entry_UnmarshalText data e = (r, e') \<Longrightarrow> path_ok e \<Longrightarrow> path_ok e'"
  by (auto simp: entry_UnmarshalText_def path_ok_def NewAbs_def unsafeAbs_def simp del: IsAbs_iff
      split: list.splits if_splits dest!: decodeLocationSegment_Path)

lemma decoder_Scan_path_ok: "decoder_Scan v d = (r, v', d') \<Longrightarrow> path_ok v \<Longrightarrow> path_ok v'"
proof (induction v d rule: decoder_Scan.induct)
  case (1 v d)
  then show ?case
    by (subst (asm) (2) decoder_Scan.simps)
      (auto split: option.splits if_splits prod.splits dest: entry_UnmarshalText_path_ok)
qed

lemma decode_loop_path_ok:
  "decode_loop d acc = (es, d') \<Longrightarrow> list_all path_ok acc \<Longrightarrow> list_all path_ok es"
proof (induction d acc rule: decode_loop.induct)
  case (1 d acc)
  obtain r e d1 where scan: "decoder_Scan new_Entry d = (r, e, d1)"
    by (cases "decoder_Scan new_Entry d") auto
  then have "path_ok e"
    by (rule decoder_Scan_path_ok) (simp add: path_ok_def new_Entry_def)
  with 1 scan show ?case
    by (subst (asm) (2) decode_loop.simps) (cases r; simp)
qed

lemma abs_Dir_IsAbs: "IsAbs (pathname a) \<Longrightarrow> abs_Dir a = Ret (Absolute (path_Dir (pathname a)))"
  by (auto simp: abs_Dir_def abs_String_def unsafeAbs_def)

lemma path_loop_dirs:
  "list_all path_ok es \<Longrightarrow> path_loop es p = Ret (p @ concat (map entry_dirs es))"
  by (induction es arbitrary: p)
    (auto simp: path_ok_def entry_dirs_def NewAbs_def unsafeAbs_def abs_Dir_IsAbs simp del: IsAbs_iff
      split: option.splits)

text \<open>Whatever \<open>ldd\<close> printed, \<open>Path\<close> of the entries parsed from it does not panic and returns,
  each once and in increasing order, exactly the directories of the pathnames the entries were
  matched to and of the names that are absolute pathnames.\<close>

theorem ldd_Path_Parse:
  "\<exists>ds. ldd_Path (fst (ldd_Parse p)) = Ret ds \<and>
     sorted_wrt (\<lambda>a b. pathname a < pathname b) ds \<and>
     set ds = (\<Union>e \<in> set (fst (ldd_Parse p)). set (entry_dirs e))"
proof -
  obtain es d where loop: "decode_loop (NewDecoder p) [] = (es, d)"
    by (cases "decode_loop (NewDecoder p) []")
  then have "list_all path_ok es"
    by (rule decode_loop_path_ok) simp
  then show ?thesis
    using loop by (simp add: ldd_Path_def ldd_Parse_def decoder_Decode_def path_loop_dirs
        CompactAbs_SortAbs)
qed

end
