(* ===== verification/Message.thy ===== *)
theory Message
  imports Go_Num "HOL-Library.Multiset"
begin

text \<open>
  The package \<open>message\<close>: \<open>Suspendable\<close>, the writer that withholds output between \<open>Suspend\<close> and
  \<open>Resume\<close> in a bounded buffer, and \<open>defaultMsg\<close>, which puts it below a logger. The downstream
  \<open>io.Writer\<close> is a parameter under the contract of that interface (\<open>io_writer\<close>), which
  \<open>Suspendable\<close> itself keeps. The operations are modelled as they are called one after the other,
  and, as the sections between their atomic loads and their lock, under any interleaving.
\<close>

subsection \<open>output.go\<close>

datatype 'e susp_error = ENOMEM | ErrShortWrite | Downstream 'e

type_synonym ('e, 'w) writer = "string \<Rightarrow> 'w \<Rightarrow> nat \<times> 'e option \<times> 'w"

definition suspendBufMax :: nat where "suspendBufMax = 2 ^ 24"

record suspendable =
  s_s :: bool
  s_buf :: string
  s_dropped :: u64

definition new_Suspendable :: suspendable where
  "new_Suspendable = \<lparr>s_s = False, s_buf = [], s_dropped = 0\<rparr>"

text \<open>The part of \<open>Write\<close> that holds the lock.\<close>

definition Write_locked :: "string \<Rightarrow> suspendable \<Rightarrow> nat \<times> 'e susp_error option \<times> suspendable" where
  "Write_locked p s =
     (let free = int suspendBufMax - int (length (s_buf s)) in
      if free < int (length p) then
        if free \<le> 0 then (0, Some ENOMEM, s\<lparr>s_dropped := s_dropped s + word_of_nat (length p)\<rparr>)
        else let n = nat free in
             (n, Some ENOMEM, s\<lparr>s_buf := s_buf s @ take n p,
                s_dropped := s_dropped s + word_of_nat (length p - n)\<rparr>)
      else (length p, None, s\<lparr>s_buf := s_buf s @ p\<rparr>))"

definition Write_direct ::
  "('e, 'w) writer \<Rightarrow> string \<Rightarrow> 'w \<Rightarrow> nat \<times> 'e susp_error option \<times> 'w" where
  "Write_direct dw p w = (case dw p w of (n, e, w') \<Rightarrow> (n, map_option Downstream e, w'))"

definition susp_Write :: "('e, 'w) writer \<Rightarrow> ('e susp_error, suspendable \<times> 'w) writer" where
  "susp_Write dw p st =
     (case st of (s, w) \<Rightarrow>
        if \<not> s_s s then (case Write_direct dw p w of (n, e, w') \<Rightarrow> (n, e, s, w'))
        else case Write_locked p s of (n, e, s') \<Rightarrow> (n, e, s', w))"

definition IsSuspended :: "suspendable \<Rightarrow> bool" where
  "IsSuspended s = s_s s"

definition susp_Suspend :: "suspendable \<Rightarrow> bool \<times> suspendable" where
  "susp_Suspend s = (\<not> s_s s, s\<lparr>s_s := True\<rparr>)"

text \<open>\<open>io.Copy\<close> from a \<open>bytes.Buffer\<close> hands over the whole buffer in one write, unless it is empty.\<close>

definition WriteTo ::
  "('e, 'w) writer \<Rightarrow> string \<Rightarrow> 'w \<Rightarrow> (unit, nat \<times> 'e susp_error option \<times> 'w) go" where
  "WriteTo dw b w =
     (if b = [] then Ret (0, None, w)
      else case dw b w of
             (m, e, w') \<Rightarrow>
               if length b < m then Panic ''bytes.Buffer.WriteTo: invalid Write count''
               else if e \<noteq> None then Ret (m, map_option Downstream e, w')
               else if m \<noteq> length b then Ret (m, Some ErrShortWrite, w')
               else Ret (m, None, w'))"

text \<open>The part of \<open>Resume\<close> that holds the lock, after the flag is cleared.\<close>

definition Resume_locked ::
  "('e, 'w) writer \<Rightarrow> suspendable \<Rightarrow> 'w \<Rightarrow> (unit, u64 \<times> nat \<times> 'e susp_error option \<times> suspendable \<times> 'w) go" where
  "Resume_locked dw s w =
     bind_go (WriteTo dw (s_buf s) w)
       (\<lambda>(n, e, w'). Ret (s_dropped s, n, e, s\<lparr>s_dropped := 0, s_buf := []\<rparr>, w'))"

definition susp_Resume ::
  "('e, 'w) writer \<Rightarrow> suspendable \<Rightarrow> 'w
     \<Rightarrow> (unit, bool \<times> u64 \<times> nat \<times> 'e susp_error option \<times> suspendable \<times> 'w) go" where
  "susp_Resume dw s w =
     (if s_s s then bind_go (Resume_locked dw (s\<lparr>s_s := False\<rparr>) w) (\<lambda>r. Ret (True, r))
      else Ret (False, 0, 0, None, s, w))"

subsection \<open>message.go\<close>

text \<open>The logger of a \<open>Msg\<close> is the function from the text of a message to the line it writes; it
  ignores the result of the write.\<close>

record msg =
  m_verbose :: bool
  m_s :: suspendable

definition msg_New :: msg where
  "msg_New = \<lparr>m_verbose = False, m_s = new_Suspendable\<rparr>"

definition msg_IsVerbose :: "msg \<Rightarrow> bool" where
  "msg_IsVerbose m = m_verbose m"

definition msg_SwapVerbose :: "bool \<Rightarrow> msg \<Rightarrow> bool \<times> msg" where
  "msg_SwapVerbose v m = (m_verbose m, m\<lparr>m_verbose := v\<rparr>)"

definition logger_Print ::
  "('e, 'w) writer \<Rightarrow> (string \<Rightarrow> string) \<Rightarrow> string \<Rightarrow> msg \<times> 'w \<Rightarrow> msg \<times> 'w" where
  "logger_Print dw line v mw =
     (case susp_Write dw (line v) (m_s (fst mw), snd mw) of (n, e, s, w) \<Rightarrow> ((fst mw)\<lparr>m_s := s\<rparr>, w))"

definition msg_Verbose ::
  "('e, 'w) writer \<Rightarrow> (string \<Rightarrow> string) \<Rightarrow> string \<Rightarrow> msg \<times> 'w \<Rightarrow> msg \<times> 'w" where
  "msg_Verbose dw line v mw = (if m_verbose (fst mw) then logger_Print dw line v mw else mw)"

definition msg_Suspend :: "msg \<Rightarrow> bool \<times> msg" where
  "msg_Suspend m = (case susp_Suspend (m_s m) of (b, s) \<Rightarrow> (b, m\<lparr>m_s := s\<rparr>))"

definition dropped_text :: "u64 \<Rightarrow> string" where
  "dropped_text d = ''dropped '' @ format_nat 10 (unat d) @ '' bytes while output is suspended''"

definition msg_Resume ::
  "('e, 'w) writer \<Rightarrow> (string \<Rightarrow> string) \<Rightarrow> ('e susp_error \<Rightarrow> string) \<Rightarrow> msg \<times> 'w
     \<Rightarrow> (unit, bool \<times> msg \<times> 'w) go" where
  "msg_Resume dw line errtext mw =
     bind_go (susp_Resume dw (m_s (fst mw)) (snd mw))
       (\<lambda>(resumed, dropped, _, err, s, w).
          let mw = ((fst mw)\<lparr>m_s := s\<rparr>, w);
              mw = (case err of
                      None \<Rightarrow> mw
                    | Some e \<Rightarrow> logger_Print dw line (''cannot dump buffer on resume: '' @ errtext e) mw);
              mw = (if resumed \<and> 0 < dropped then logger_Print dw line (dropped_text dropped) mw else mw)
          in Ret (resumed, mw))"

definition msg_BeforeExit ::
  "('e, 'w) writer \<Rightarrow> (string \<Rightarrow> string) \<Rightarrow> ('e susp_error \<Rightarrow> string) \<Rightarrow> msg \<times> 'w
     \<Rightarrow> (unit, msg \<times> 'w) go" where
  "msg_BeforeExit dw line errtext mw =
     bind_go (msg_Resume dw line errtext mw)
       (\<lambda>(resumed, mw). Ret (if resumed then logger_Print dw line ''beforeExit reached on suspended output'' mw
                              else mw))"

subsection \<open>The contract of a writer\<close>

locale io_writer =
  fixes put :: "('e, 'w) writer"
    and out :: "'w \<Rightarrow> string"
    and inv :: "'w \<Rightarrow> bool"
  assumes count: "inv w \<Longrightarrow> put p w = (n, e, w') \<Longrightarrow> n \<le> length p"
    and short: "inv w \<Longrightarrow> put p w = (n, e, w') \<Longrightarrow> e = None \<Longrightarrow> n = length p"
    and written: "inv w \<Longrightarrow> put p w = (n, e, w') \<Longrightarrow> out w' = out w @ take n p"
    and keeps: "inv w \<Longrightarrow> put p w = (n, e, w') \<Longrightarrow> inv w'"

text \<open>What holds of a suspendable writer between its operations.\<close>

definition susp_inv :: "suspendable \<Rightarrow> bool" where
  "susp_inv s \<longleftrightarrow> length (s_buf s) \<le> suspendBufMax \<and> (\<not> s_s s \<longrightarrow> s_buf s = [])"

lemma Write_locked_spec:
  assumes "Write_locked p s = (n, e, s')" and "length (s_buf s) \<le> suspendBufMax"
  shows "n = min (length p) (suspendBufMax - length (s_buf s))"
    and "e = (if n < length p then Some ENOMEM else None)"
    and "s' = s\<lparr>s_buf := s_buf s @ take n p, s_dropped := s_dropped s + word_of_nat (length p - n)\<rparr>"
  using assms by (auto simp: Write_locked_def Let_def min_def split: if_splits)

context io_writer begin

text \<open>\<open>Suspendable\<close> keeps the contract of the writer it is put on, counting what it withholds as
  written.\<close>

lemma susp_io_writer:
  "io_writer (susp_Write put) (\<lambda>(s, w). out w @ s_buf s) (\<lambda>(s, w). susp_inv s \<and> inv w)"
proof -
  have lock: "n \<le> length p \<and> (e = None \<longrightarrow> n = length p) \<and> s_buf s' = s_buf s @ take n p \<and>
      s_s s' = s_s s \<and> length (s_buf s') \<le> suspendBufMax"
    if "Write_locked p s = (n, e, s')" "length (s_buf s) \<le> suspendBufMax" for p s n s'
      and e :: "'e susp_error option"
    using Write_locked_spec [OF that] that(2) by (auto split: if_splits)
  show ?thesis
    by unfold_locales
      (auto simp: susp_Write_def Write_direct_def susp_inv_def split: if_splits prod.splits
        dest: count short written keeps lock)
qed

lemma WriteTo_spec:
  assumes "inv w"
  obtains m e w' where "WriteTo put b w = Ret (m, e, w')" and "inv w'"
    and "out w' = out w @ take m b" and "e = None \<longrightarrow> m = length b"
proof (cases "b = []")
  case True
  with assms that [of 0 None w] show ?thesis by (simp add: WriteTo_def)
next
  case False
  obtain m e w' where put: "put b w = (m, e, w')"
    by (cases "put b w")
  note contract = count [OF assms put] short [OF assms put] written [OF assms put] keeps [OF assms put]
  show ?thesis
    using False put contract that [of m "map_option Downstream e" w'] by (cases e) (auto simp: WriteTo_def)
qed

lemma Resume_spec:
  assumes "inv w" and "susp_inv s"
  obtains d m e s' w' where "susp_Resume put s w = Ret (s_s s, d, m, e, s', w')"
    and "susp_inv s'" and "inv w'" and "\<not> s_s s'" and "s_buf s' = []"
    and "d = (if s_s s then s_dropped s else 0)"
    and "s_dropped s' = (if s_s s then 0 else s_dropped s)"
    and "out w' = out w @ take m (s_buf s)" and "e = None \<longrightarrow> out w' @ s_buf s' = out w @ s_buf s"
proof (cases "s_s s")
  case True
  obtain m e w' where "WriteTo put (s_buf s) w = Ret (m, e, w')" and "inv w'"
    and "out w' = out w @ take m (s_buf s)" and "e = None \<longrightarrow> m = length (s_buf s)"
    by (rule WriteTo_spec [OF assms(1)])
  with True show ?thesis
    by (intro that) (auto simp: susp_Resume_def Resume_locked_def susp_inv_def)
next
  case False
  with assms show ?thesis
    by (intro that) (auto simp: susp_Resume_def susp_inv_def)
qed

end

subsection \<open>Sequences of operations\<close>

datatype susp_op = OWrite string | OSuspend | OResume

datatype 'e susp_res =
    RWrite nat "'e susp_error option"
  | RSuspend bool
  | RResume bool u64 nat "'e susp_error option"

fun susp_do ::
  "('e, 'w) writer \<Rightarrow> susp_op \<Rightarrow> suspendable \<times> 'w \<Rightarrow> (unit, 'e susp_res \<times> suspendable \<times> 'w) go" where
  "susp_do dw (OWrite p) st = (case susp_Write dw p st of (n, e, st') \<Rightarrow> Ret (RWrite n e, st'))"
| "susp_do dw OSuspend (s, w) = (case susp_Suspend s of (b, s') \<Rightarrow> Ret (RSuspend b, s', w))"
| "susp_do dw OResume (s, w) =
     bind_go (susp_Resume dw s w) (\<lambda>(b, d, n, e, st'). Ret (RResume b d n e, st'))"

fun susp_run ::
  "('e, 'w) writer \<Rightarrow> susp_op list \<Rightarrow> suspendable \<times> 'w
     \<Rightarrow> (unit, 'e susp_res list \<times> suspendable \<times> 'w) go" where
  "susp_run dw [] st = Ret ([], st)"
| "susp_run dw (a # as) st =
     bind_go (susp_do dw a st) (\<lambda>(r, st').
       bind_go (susp_run dw as st') (\<lambda>(rs, st''). Ret (r # rs, st'')))"

text \<open>The bytes a write accepted, the bytes it turned away while suspended, and what \<open>Resume\<close>
  reports of them.\<close>

fun taken :: "susp_op \<Rightarrow> 'e susp_res \<Rightarrow> string" where
  "taken (OWrite p) (RWrite n e) = take n p"
| "taken _ _ = []"

fun turned_away :: "susp_op \<Rightarrow> 'e susp_res \<Rightarrow> u64" where
  "turned_away (OWrite p) (RWrite n (Some ENOMEM)) = word_of_nat (length p - n)"
| "turned_away _ _ = 0"

fun reported :: "'e susp_res \<Rightarrow> u64" where
  "reported (RResume b d n e) = d"
| "reported _ = 0"

fun dump_failed :: "'e susp_res \<Rightarrow> bool" where
  "dump_failed (RResume b d n e) = (e \<noteq> None)"
| "dump_failed _ = False"

context io_writer begin

lemma susp_do_spec:
  assumes "inv w" and "susp_inv s"
  obtains r s' w' where "susp_do put a (s, w) = Ret (r, s', w')" and "susp_inv s'" and "inv w'"
    and "\<not> dump_failed r \<longrightarrow> out w' @ s_buf s' = out w @ s_buf s @ taken a r"
    and "s_dropped s' + reported r = s_dropped s + turned_away a r"
    and "s_s s \<and> a \<noteq> OResume \<longrightarrow> s_s s' \<and> w' = w"
proof (cases a)
  case (OWrite p)
  obtain n e s' w' where do: "susp_Write put p (s, w) = (n, e, s', w')"
    by (cases "susp_Write put p (s, w)")
  show ?thesis
  proof (cases "s_s s")
    case True
    then have lock: "Write_locked p s = (n, e, s')" and w: "w' = w"
      using do by (auto simp: susp_Write_def split: prod.splits)
    have "length (s_buf s) \<le> suspendBufMax"
      using assms(2) by (simp add: susp_inv_def)
    note spec = Write_locked_spec [OF lock this]
    have "susp_inv s'"
      using spec True assms(2) by (auto simp: susp_inv_def)
    with spec True assms w do OWrite show ?thesis
      by (intro that [of "RWrite n e" s' w]) (auto split: if_splits)
  next
    case False
    then obtain d where put: "put p w = (n, d, w')" and s: "s' = s" and e: "e = map_option Downstream d"
      using do by (auto simp: susp_Write_def Write_direct_def split: prod.splits)
    note contract = count [OF assms(1) put] written [OF assms(1) put] keeps [OF assms(1) put]
    have "turned_away (OWrite p) (RWrite n e) = 0"
      using e by (cases d) auto
    with False contract assms s do OWrite show ?thesis
      by (intro that [of "RWrite n e" s' w']) (auto simp: susp_inv_def)
  qed
next
  case OSuspend
  with assms show ?thesis
    by (intro that [of "RSuspend (\<not> s_s s)" "s\<lparr>s_s := True\<rparr>" w]) (auto simp: susp_Suspend_def susp_inv_def)
next
  case OResume
  obtain d m e s' w' where "susp_Resume put s w = Ret (s_s s, d, m, e, s', w')"
    and "susp_inv s'" and "inv w'" and "\<not> s_s s'" and "s_buf s' = []"
    and "d = (if s_s s then s_dropped s else 0)"
    and "s_dropped s' = (if s_s s then 0 else s_dropped s)"
    and "e = None \<longrightarrow> out w' @ s_buf s' = out w @ s_buf s"
    by (rule Resume_spec [OF assms])
  with OResume show ?thesis
    by (intro that [of "RResume (s_s s) d m e" s' w']) auto
qed

lemma susp_run_spec:
  assumes "inv w" and "susp_inv s"
  shows "\<exists>rs s' w'. susp_run put as (s, w) = Ret (rs, s', w') \<and> length rs = length as \<and>
     susp_inv s' \<and> inv w' \<and>
     ((\<forall>r \<in> set rs. \<not> dump_failed r) \<longrightarrow>
        out w' @ s_buf s' = out w @ s_buf s @ concat (map2 taken as rs)) \<and>
     s_dropped s' + sum_list (map reported rs) = s_dropped s + sum_list (map2 turned_away as rs) \<and>
     (s_s s \<and> OResume \<notin> set as \<longrightarrow> w' = w)"
  using assms
proof (induction as arbitrary: s w)
  case Nil
  then show ?case by simp
next
  case (Cons a as)
  obtain r s1 w1 where do: "susp_do put a (s, w) = Ret (r, s1, w1)" and inv: "susp_inv s1" "inv w1"
    and out: "\<not> dump_failed r \<longrightarrow> out w1 @ s_buf s1 = out w @ s_buf s @ taken a r"
    and dropped: "s_dropped s1 + reported r = s_dropped s + turned_away a r"
    and held: "s_s s \<and> a \<noteq> OResume \<longrightarrow> s_s s1 \<and> w1 = w"
    by (rule susp_do_spec [OF Cons.prems])
  obtain rs s2 w2 where run: "susp_run put as (s1, w1) = Ret (rs, s2, w2)" "length rs = length as"
    "susp_inv s2" "inv w2"
    and out': "(\<forall>r \<in> set rs. \<not> dump_failed r) \<longrightarrow>
       out w2 @ s_buf s2 = out w1 @ s_buf s1 @ concat (map2 taken as rs)"
    and dropped': "s_dropped s2 + sum_list (map reported rs) = s_dropped s1 + sum_list (map2 turned_away as rs)"
    and held': "s_s s1 \<and> OResume \<notin> set as \<longrightarrow> w2 = w1"
    using Cons.IH [OF inv(2,1)] by blast
  have "s_dropped s2 + (reported r + sum_list (map reported rs))
    = s_dropped s1 + reported r + sum_list (map2 turned_away as rs)"
    using dropped' by (simp add: algebra_simps)
  also have "\<dots> = s_dropped s + (turned_away a r + sum_list (map2 turned_away as rs))"
    using dropped by (simp add: algebra_simps)
  finally show ?case
    using do run out out' held held' by (intro exI [of _ "r # rs"] exI) (auto simp: append_assoc [symmetric] simp del: append_assoc)
qed

end

text \<open>A device with room for a number of bytes keeps the contract of a writer, so does a
  \<open>Suspendable\<close> on it, and the facts on sequences hold of a \<open>Suspendable\<close> on that again, which is
  what \<open>New\<close> makes of the logger of another \<open>Msg\<close>.\<close>

definition dev_write :: "(unit, nat \<times> string) writer" where
  "dev_write p d =
     (case d of (room, written) \<Rightarrow>
        if length p \<le> room then (length p, None, room - length p, written @ p)
        else (room, Some (), 0, written @ take room p))"

interpretation dev: io_writer dev_write snd "\<lambda>_. True"
  by unfold_locales (auto simp: dev_write_def split: if_splits)

interpretation susp: io_writer "susp_Write dev_write" "\<lambda>(s, w). snd w @ s_buf s" "\<lambda>(s, w). susp_inv s \<and> True"
  by (rule dev.susp_io_writer)

lemma susp_inv_new: "susp_inv new_Suspendable"
  by (simp add: susp_inv_def new_Suspendable_def)



text \<open>Before the process exits nothing is left in the buffer, and a logger that could not keep all
  output says so.\<close>

lemma BeforeExit_flushes:
  assumes "io_writer put out good" and "good w" and "susp_inv (m_s m)"
  shows "\<exists>m' w'. msg_BeforeExit put line errtext (m, w) = Ret (m', w') \<and> \<not> s_s (m_s m') \<and> s_buf (m_s m') = []"
proof -
  obtain d n e s' w' where res: "susp_Resume put (m_s m) w = Ret (s_s (m_s m), d, n, e, s', w')"
    and s': "\<not> s_s s'" "s_buf s' = []"
    by (rule io_writer.Resume_spec [OF assms(1-3)]) blast
  have print: "\<not> s_s (m_s (fst (logger_Print put line v mw))) \<and> s_buf (m_s (fst (logger_Print put line v mw))) = []"
    if "\<not> s_s (m_s (fst mw)) \<and> s_buf (m_s (fst mw)) = []" for v mw
    using that by (auto simp: logger_Print_def susp_Write_def split: prod.splits)
  show ?thesis
    using res s' print
    by (auto simp: msg_BeforeExit_def msg_Resume_def Let_def prod_eq_iff intro!: print split: option.splits)
qed

subsection \<open>Interleavings\<close>

text \<open>\<open>Write\<close> loads the flag before it writes downstream or takes the lock, and \<open>Resume\<close> clears it before
  it takes the lock: between the two, other goroutines run. \<open>c_direct\<close> are the writes that saw the flag
  clear and have not called the downstream yet, \<open>c_writers\<close> those that saw it set and wait for the lock,
  \<open>c_resumers\<close> counts the calls of \<open>Resume\<close> that cleared the flag and wait for the lock. A call of the
  downstream is one step; what is done under the lock touches nothing the others read, and is one step
  with the call of the downstream in it. A step is labelled with the bytes it accepts, the bytes \<open>Resume\<close>
  announces as lost, which are those after the count it returns together with an error and none without
  an error, the number of bytes a write turned away, and the number \<open>Resume\<close> reports as dropped.\<close>

record 'w conc =
  c_s :: suspendable
  c_w :: 'w
  c_direct :: "string list"
  c_writers :: "string list"
  c_resumers :: nat

record clabel =
  l_accepted :: string
  l_lost :: string
  l_away :: u64
  l_reported :: u64

definition silent :: clabel where
  "silent = \<lparr>l_accepted = [], l_lost = [], l_away = 0, l_reported = 0\<rparr>"

inductive cstep :: "('e, 'w) writer \<Rightarrow> 'w conc \<Rightarrow> clabel \<Rightarrow> 'w conc \<Rightarrow> bool" for put where
  load_clear: "\<not> s_s (c_s c) \<Longrightarrow> cstep put c silent (c\<lparr>c_direct := c_direct c @ [p]\<rparr>)"
| direct: "c_direct c = ps @ p # qs \<Longrightarrow> put p (c_w c) = (n, e, w') \<Longrightarrow>
    cstep put c (silent\<lparr>l_accepted := take n p\<rparr>) (c\<lparr>c_w := w', c_direct := ps @ qs\<rparr>)"
| load_set: "s_s (c_s c) \<Longrightarrow> cstep put c silent (c\<lparr>c_writers := c_writers c @ [p]\<rparr>)"
| lock: "c_writers c = ps @ p # qs \<Longrightarrow> (Write_locked p (c_s c) :: _ \<times> 'e susp_error option \<times> _) = (n, e, s') \<Longrightarrow>
    cstep put c (silent\<lparr>l_accepted := take n p, l_away := if e = None then 0 else word_of_nat (length p - n)\<rparr>)
      (c\<lparr>c_s := s', c_writers := ps @ qs\<rparr>)"
| suspend: "cstep put c silent (c\<lparr>c_s := snd (susp_Suspend (c_s c))\<rparr>)"
| cas: "s_s (c_s c) \<Longrightarrow> cstep put c silent (c\<lparr>c_s := (c_s c)\<lparr>s_s := False\<rparr>, c_resumers := Suc (c_resumers c)\<rparr>)"
| dump: "c_resumers c = Suc k \<Longrightarrow> Resume_locked put (c_s c) (c_w c) = Ret (d, n, e, s', w') \<Longrightarrow>
    cstep put c (silent\<lparr>l_lost := if e = None then [] else drop n (s_buf (c_s c)), l_reported := d\<rparr>)
      (c\<lparr>c_s := s', c_w := w', c_resumers := k\<rparr>)"

inductive creach :: "('e, 'w) writer \<Rightarrow> 'w conc \<Rightarrow> clabel list \<Rightarrow> 'w conc \<Rightarrow> bool" for put where
  start: "creach put c [] c"
| step: "creach put c ls c' \<Longrightarrow> cstep put c' l c'' \<Longrightarrow> creach put c (ls @ [l]) c''"

context io_writer begin

lemma cstep_conserves:
  assumes "cstep put c l c'" and "inv (c_w c)" and "length (s_buf (c_s c)) \<le> suspendBufMax"
  shows "inv (c_w c') \<and> length (s_buf (c_s c')) \<le> suspendBufMax \<and>
    mset (out (c_w c')) + mset (s_buf (c_s c')) + mset (l_lost l)
      = mset (out (c_w c)) + mset (s_buf (c_s c)) + mset (l_accepted l) \<and>
    s_dropped (c_s c') + l_reported l = s_dropped (c_s c) + l_away l"
  using assms
proof cases
  case (direct ps p qs n e w')
  then show ?thesis
    using assms(2,3) keeps [OF assms(2) direct(4)] written [OF assms(2) direct(4)] by (simp add: silent_def)
next
  case (lock ps p qs n e s')
  show ?thesis
    using lock assms(2,3) Write_locked_spec [OF lock(4) assms(3)] by (auto simp: silent_def)
next
  case (dump k d n e s' w')
  obtain m e' w1 where w: "WriteTo put (s_buf (c_s c)) (c_w c) = Ret (m, e', w1)" and "inv w1"
    and "out w1 = out (c_w c) @ take m (s_buf (c_s c))" "e' = None \<longrightarrow> m = length (s_buf (c_s c))"
    by (rule WriteTo_spec [OF assms(2)]) blast
  moreover have "mset (take n (s_buf (c_s c))) + mset (drop n (s_buf (c_s c))) = mset (s_buf (c_s c))"
    by (metis append_take_drop_id mset_append)
  ultimately show ?thesis
    using dump by (auto simp: Resume_locked_def silent_def)
qed (use assms in \<open>auto simp: susp_Suspend_def silent_def\<close>)

lemma creach_conserves:
  assumes "creach put c ls c'" and "inv (c_w c)" and "length (s_buf (c_s c)) \<le> suspendBufMax"
  shows "inv (c_w c') \<and> length (s_buf (c_s c')) \<le> suspendBufMax \<and>
    mset (out (c_w c')) + mset (s_buf (c_s c')) + mset (concat (map l_lost ls))
      = mset (out (c_w c)) + mset (s_buf (c_s c)) + mset (concat (map l_accepted ls)) \<and>
    s_dropped (c_s c') + sum_list (map l_reported ls) = s_dropped (c_s c) + sum_list (map l_away ls)"
  using assms
proof (induction rule: creach.induct)
  case (step c ls c' l c'')
  note IH = step.IH [OF step.prems]
  have a: "x2 + (l1 + l2) = x0 + (a1 + a2)" if "x1 + l1 = x0 + a1" "x2 + l2 = x1 + a2"
    for x0 x1 x2 l1 l2 a1 a2 :: "char multiset"
  proof -
    have "x2 + (l1 + l2) = (x2 + l2) + l1" by (simp only: ac_simps)
    also have "\<dots> = (x1 + l1) + a2" by (simp only: that(2)) (simp only: ac_simps)
    also have "\<dots> = x0 + (a1 + a2)" by (simp only: that(1)) (simp only: ac_simps)
    finally show ?thesis .
  qed
  have b: "x2 + (r1 + r2) = x0 + (a1 + a2)" if "x1 + r1 = x0 + a1" "x2 + r2 = x1 + a2"
    for x0 x1 x2 r1 r2 a1 a2 :: u64
  proof -
    have "x2 + (r1 + r2) = (x2 + r2) + r1" by (simp only: ac_simps)
    also have "\<dots> = (x1 + r1) + a2" by (simp only: that(2)) (simp only: ac_simps)
    also have "\<dots> = x0 + (a1 + a2)" by (simp only: that(1)) (simp only: ac_simps)
    finally show ?thesis .
  qed
  have one: "inv (c_w c'') \<and> length (s_buf (c_s c'')) \<le> suspendBufMax \<and>
    mset (out (c_w c'')) + mset (s_buf (c_s c'')) + mset (l_lost l)
      = mset (out (c_w c')) + mset (s_buf (c_s c')) + mset (l_accepted l) \<and>
    s_dropped (c_s c'') + l_reported l = s_dropped (c_s c') + l_away l"
    by (rule cstep_conserves [OF step.hyps(2)]) (use IH in simp_all)
  have "mset (out (c_w c'')) + mset (s_buf (c_s c'')) + (mset (concat (map l_lost ls)) + mset (l_lost l))
      = mset (out (c_w c)) + mset (s_buf (c_s c)) + (mset (concat (map l_accepted ls)) + mset (l_accepted l))"
    using a IH one by blast
  moreover have "s_dropped (c_s c'') + (sum_list (map l_reported ls) + l_reported l)
      = s_dropped (c_s c) + (sum_list (map l_away ls) + l_away l)"
    using b IH one by blast
  ultimately show ?case using one by simp
qed simp

end

definition conc_new :: "'w \<Rightarrow> 'w conc" where
  "conc_new w = \<lparr>c_s = new_Suspendable, c_w = w, c_direct = [], c_writers = [], c_resumers = 0\<rparr>"

text \<open>C31: Whatever the interleaving of concurrent writes, \<open>Suspend\<close> and \<open>Resume\<close>, with the load of the flag, the
  call of the downstream and the sections under the lock as its steps, the buffer stays within its limit
  and no accepted byte is lost silently or written twice: the bytes written downstream, those
  in the buffer and those a \<open>Resume\<close> that returned an error had not written are together the bytes the
  writes accepted; and the bytes turned away are those reported as dropped and those still counted.\<close>

theorem Suspendable_interleaved:
  fixes put :: "('e, 'w) writer"
  assumes "io_writer put out good" and "good w" and "creach put (conc_new w) ls c"
  shows "length (s_buf (c_s c)) \<le> suspendBufMax \<and>
    mset (out (c_w c)) + mset (s_buf (c_s c)) + mset (concat (map l_lost ls)) = mset (out w) + mset (concat (map l_accepted ls)) \<and>
    s_dropped (c_s c) + sum_list (map l_reported ls) = sum_list (map l_away ls)"
  using io_writer.creach_conserves [OF assms(1,3)] assms(2)
  by (simp add: conc_new_def new_Suspendable_def)

text \<open>A write that \<open>Resume\<close> overtakes between loading the flag and taking the lock is put into the
  buffer although output is no longer suspended: with nothing left to run the bytes stay there, and
  a later write reaches the downstream before them.\<close>

definition accepts :: "string \<Rightarrow> clabel" where
  "accepts p = silent\<lparr>l_accepted := p\<rparr>"

abbreviation overtaken_labels :: "clabel list" where
  "overtaken_labels \<equiv> [silent, silent, silent, silent, accepts ''a'', silent, accepts ''b'']"

lemma creach_overtaken:
  "creach dev_write (conc_new (9, [])) overtaken_labels
     \<lparr>c_s = \<lparr>s_s = False, s_buf = ''a'', s_dropped = 0\<rparr>, c_w = (8, ''b''), c_direct = [], c_writers = [], c_resumers = 0\<rparr>"
proof -
  let ?c = "\<lambda>s b w ds ps k. \<lparr>c_s = \<lparr>s_s = s, s_buf = b, s_dropped = 0\<rparr>, c_w = w, c_direct = ds, c_writers = ps, c_resumers = k\<rparr>"
  let ?init = "\<lparr>c_s = \<lparr>s_s = False, s_buf = [], s_dropped = 0\<rparr>, c_w = (9, []), c_direct = [], c_writers = [], c_resumers = 0\<rparr>"
  have "creach dev_write ?init [silent] (?c True [] (9, []) [] [] 0)"
    using creach.step [OF creach.start [of dev_write ?init] cstep.suspend] by (simp add: susp_Suspend_def)
  from creach.step [OF this cstep.load_set [of _ _ "''a''"]]
  have "creach dev_write ?init [silent, silent] (?c True [] (9, []) [] [''a''] 0)" by simp
  from creach.step [OF this cstep.cas]
  have "creach dev_write ?init [silent, silent, silent] (?c False [] (9, []) [] [''a''] 1)" by simp
  from creach.step [OF this cstep.dump [of _ 0 _ 0 0 None "\<lparr>s_s = False, s_buf = [], s_dropped = 0\<rparr>" "(9, [])"]]
  have "creach dev_write ?init [silent, silent, silent, silent] (?c False [] (9, []) [] [''a''] 0)"
    by (simp add: Resume_locked_def WriteTo_def silent_def)
  from creach.step [OF this cstep.lock [of _ "[]" "''a''" "[]" 1 None "\<lparr>s_s = False, s_buf = ''a'', s_dropped = 0\<rparr>"]]
  have "creach dev_write ?init [silent, silent, silent, silent, accepts ''a''] (?c False ''a'' (9, []) [] [] 0)"
    by (simp add: Write_locked_def suspendBufMax_def silent_def accepts_def)
  from creach.step [OF this cstep.load_clear [of _ _ "''b''"]]
  have "creach dev_write ?init [silent, silent, silent, silent, accepts ''a'', silent] (?c False ''a'' (9, []) [''b''] [] 0)"
    by simp
  from creach.step [OF this cstep.direct [of _ "[]" "''b''" "[]" _ 1 None "(8, ''b'')"]]
  show ?thesis
    by (simp add: dev_write_def conc_new_def new_Suspendable_def accepts_def)
qed

theorem Suspendable_interleaved_witness:
  "\<exists>c. creach dev_write (conc_new (9, [])) overtaken_labels c \<and>
     mset (snd (c_w c)) + mset (s_buf (c_s c)) = mset ''ab''"
  using Suspendable_interleaved [OF dev.io_writer_axioms TrueI creach_overtaken] creach_overtaken
  by (force simp: accepts_def silent_def)

theorem Write_overtaken_by_Resume:
  "\<exists>ls c. creach dev_write (conc_new (9, [])) ls c \<and> concat (map l_accepted ls) = ''ab'' \<and> \<not> IsSuspended (c_s c) \<and>
     c_direct c = [] \<and> c_writers c = [] \<and> c_resumers c = 0 \<and> s_buf (c_s c) = ''a'' \<and> snd (c_w c) = ''b''"
  using creach_overtaken by (fastforce simp: IsSuspended_def accepts_def silent_def)

end
