(* ===== verification/Cmd_Flag.thy ===== *)
theory Cmd_Flag
  imports Go_Num "HOL-Library.Char_ord"
begin

text \<open>
  What the package \<open>command\<close> uses of the Go package \<open>flag\<close>: flag sets whose values are variables of
  type string, int, bool and list of strings, their definition with its panics, and the parser of
  arguments (\<open>FlagSet.Parse\<close> with error handling \<open>ContinueOnError\<close>), down to \<open>strconv.ParseInt\<close> in
  base 0 and \<open>strconv.ParseBool\<close>. The definers are those of \<open>command/flag.go\<close>.
\<close>

subsection \<open>Numbers in base 0\<close>

definition lower :: "char \<Rightarrow> char" where
  "lower c = (let n = of_char c :: nat in if 65 \<le> n \<and> n \<le> 90 then char_of (n + 32) else c)"

text \<open>Underscores may only stand between digits, where a base prefix counts as a digit; the last
  argument is whether the byte before was a digit, an underscore or neither.\<close>

datatype under = UDigit | UScore | UOther

fun underscore_loop :: "bool \<Rightarrow> under \<Rightarrow> string \<Rightarrow> bool" where
  "underscore_loop hex i [] \<longleftrightarrow> i \<noteq> UScore"
| "underscore_loop hex i (c # cs) \<longleftrightarrow>
     (if CHR ''0'' \<le> c \<and> c \<le> CHR ''9'' \<or> hex \<and> CHR ''a'' \<le> lower c \<and> lower c \<le> CHR ''f''
      then underscore_loop hex UDigit cs
      else if c = CHR ''_'' then i = UDigit \<and> underscore_loop hex UScore cs
      else i \<noteq> UScore \<and> underscore_loop hex UOther cs)"

definition base_prefix :: "string \<Rightarrow> char option" where
  "base_prefix s =
     (case s of
        c # d # _ \<Rightarrow> if c = CHR ''0'' \<and> lower d \<in> {CHR ''b'', CHR ''o'', CHR ''x''} then Some (lower d) else None
      | _ \<Rightarrow> None)"

definition underscoreOK :: "string \<Rightarrow> bool" where
  "underscoreOK s =
     (let s = (if s \<noteq> [] \<and> (hd s = CHR ''-'' \<or> hd s = CHR ''+'') then tl s else s) in
      case base_prefix s of
        Some b \<Rightarrow> underscore_loop (b = CHR ''x'') UDigit (drop 2 s)
      | None \<Rightarrow> underscore_loop False UOther s)"

definition ParseUint0 :: "string \<Rightarrow> (num_error, nat) go" where
  "ParseUint0 s =
     (if s = [] then Fail ErrSyntax
      else let (b, ds) =
             (if hd s \<noteq> CHR ''0'' then (10, s)
              else case (if 3 \<le> length s then base_prefix s else None) of
                     Some p \<Rightarrow> (if p = CHR ''b'' then 2 else if p = CHR ''o'' then 8 else 16, drop 2 s)
                   | None \<Rightarrow> (8, tl s))
           in bind_go (parse_uint_loop b (2 ^ 64 - 1) 0 (filter (\<lambda>c. c \<noteq> CHR ''_'') ds))
                (\<lambda>n. if CHR ''_'' \<in> set ds \<and> \<not> underscoreOK s then Fail ErrSyntax else Ret n))"

text \<open>\<open>ParseInt s 0 64\<close> gives a value along with its error.\<close>

definition ParseInt0 :: "string \<Rightarrow> num_error option \<times> int" where
  "ParseInt0 s =
     (if s = [] then (Some ErrSyntax, 0)
      else let neg = (hd s = CHR ''-'');
               ds = (if hd s = CHR ''-'' \<or> hd s = CHR ''+'' then tl s else s)
           in case ParseUint0 ds of
                Fail ErrSyntax \<Rightarrow> (Some ErrSyntax, 0)
              | Fail ErrRange \<Rightarrow> (Some ErrRange, if neg then - (2 ^ 63) else 2 ^ 63 - 1)
              | Panic m \<Rightarrow> (None, 0)
              | Ret n \<Rightarrow>
                  if \<not> neg \<and> 2 ^ 63 \<le> n then (Some ErrRange, 2 ^ 63 - 1)
                  else if neg \<and> 2 ^ 63 < n then (Some ErrRange, - (2 ^ 63))
                  else (None, if neg then - int n else int n))"

definition ParseBool :: "string \<Rightarrow> bool option" where
  "ParseBool s =
     (if List.member [''1'', ''t'', ''T'', ''true'', ''TRUE'', ''True''] s then Some True
      else if List.member [''0'', ''f'', ''F'', ''false'', ''FALSE'', ''False''] s then Some False
      else None)"

subsection \<open>Flag values\<close>

text \<open>The variables flags are stored in, by address, and the flags of a set by name.\<close>

datatype fvalue = FString string | FInt int | FBool bool | FList "string list"

type_synonym vars = "nat \<Rightarrow> fvalue"

record flag_def =
  f_name :: string
  f_var :: nat
  f_usage :: string

fun IsBoolFlag :: "fvalue \<Rightarrow> bool" where
  "IsBoolFlag (FBool b) = True"
| "IsBoolFlag _ = False"

text \<open>\<open>Value.Set\<close> stores what the parser returned even where it reports an error.\<close>

fun value_Set :: "string \<Rightarrow> fvalue \<Rightarrow> bool \<times> fvalue" where
  "value_Set s (FString _) = (True, FString s)"
| "value_Set s (FInt _) = (case ParseInt0 s of (e, i) \<Rightarrow> (e = None, FInt i))"
| "value_Set s (FBool _) = (case ParseBool s of Some b \<Rightarrow> (True, FBool b) | None \<Rightarrow> (False, FBool False))"
| "value_Set s (FList r) = (True, FList (r @ [s]))"

definition set_Lookup :: "flag_def list \<Rightarrow> string \<Rightarrow> flag_def option" where
  "set_Lookup formal name = find (\<lambda>f. f_name f = name) formal"

definition set_Var :: "flag_def list \<Rightarrow> nat \<Rightarrow> string \<Rightarrow> string \<Rightarrow> (unit, flag_def list) go" where
  "set_Var formal v name usage =
     (if HasPrefix name ''-'' then Panic ''flag begins with -''
      else if CHR ''='' \<in> set name then Panic ''flag contains =''
      else if set_Lookup formal name \<noteq> None then Panic ''flag redefined''
      else Ret (formal @ [\<lparr>f_name = name, f_var = v, f_usage = usage\<rparr>]))"

subsection \<open>Defining flags (command/flag.go)\<close>

datatype flag_definer = StringFlag string | IntFlag int | BoolFlag bool | RepeatableFlag nat

definition prettyFlag :: "string \<Rightarrow> (unit, string) go" where
  "prettyFlag name =
     (if length name = 0 then Panic ''zero length flag name''
      else if length name = 1 then Ret (''-'' @ name)
      else Ret (''--'' @ name))"

text \<open>\<open>Define\<close> stores the default in the variable \<open>p\<close> points to, which has to be of the type of the
  definer, adds the flag to the set and its syntax to the usage line.\<close>

definition type_assert :: "fvalue \<Rightarrow> fvalue \<Rightarrow> bool" where
  "type_assert v d \<longleftrightarrow>
     (case (v, d) of
        (FString _, FString _) \<Rightarrow> True | (FInt _, FInt _) \<Rightarrow> True | (FBool _, FBool _) \<Rightarrow> True
      | (FList _, FList _) \<Rightarrow> True | _ \<Rightarrow> False)"

definition Define_var ::
  "fvalue \<Rightarrow> string \<Rightarrow> nat \<Rightarrow> string \<Rightarrow> string \<Rightarrow> string \<times> flag_def list \<times> vars
     \<Rightarrow> (unit, string \<times> flag_def list \<times> vars) go" where
  "Define_var dflt arg p name usage bsv =
     (case bsv of (b, formal, vars) \<Rightarrow>
        if \<not> type_assert (vars p) dflt then Panic ''interface conversion''
        else bind_go (set_Var formal p name usage) (\<lambda>formal'.
             bind_go (prettyFlag name) (\<lambda>pf.
               Ret (b @ '' ['' @ pf @ arg @ '']'', formal', vars(p := dflt)))))"

fun Define ::
  "flag_definer \<Rightarrow> nat \<Rightarrow> string \<Rightarrow> string \<Rightarrow> string \<times> flag_def list \<times> vars
     \<Rightarrow> (unit, string \<times> flag_def list \<times> vars) go" where
  "Define (StringFlag v) p name usage bsv = Define_var (FString v) '' <value>'' p name usage bsv"
| "Define (IntFlag v) p name usage bsv = Define_var (FInt v) '' <int>'' p name usage bsv"
| "Define (BoolFlag v) p name usage bsv = Define_var (FBool v) [] p name usage bsv"
| "Define (RepeatableFlag r) p name usage (b, formal, vars) =
     bind_go (set_Var formal r name usage) (\<lambda>formal'.
     bind_go (prettyFlag name) (\<lambda>pf. Ret (b @ '' ['' @ pf @ '' <value>]'', formal', vars)))"

subsection \<open>Parsing arguments\<close>

datatype flag_error =
    FlagHelp
  | BadFlagSyntax string
  | FlagNotDefined string
  | FlagInvalidBool string string
  | FlagNeedsArgument string
  | FlagInvalidValue string string

text \<open>What \<open>parseOne\<close> returns: a flag was seen, the flags are over, or an error; with the arguments
  left and the variables.\<close>

datatype parsed = PSeen "string list" vars | PStop "string list" vars | PErr flag_error "string list" vars

text \<open>The name and the value of an argument \<open>-name=value\<close>; the equals sign cannot come first.\<close>

definition flag_split :: "string \<Rightarrow> string \<times> string option" where
  "flag_split name =
     (case Cut (CHR ''='') (tl name) of
        None \<Rightarrow> (name, None)
      | Some (a, b) \<Rightarrow> (hd name # a, Some b))"

definition set_flag :: "(string \<Rightarrow> flag_error) \<Rightarrow> nat \<Rightarrow> string \<Rightarrow> string list \<Rightarrow> vars \<Rightarrow> parsed" where
  "set_flag err v val args vars =
     (case value_Set val (vars v) of
        (ok, x) \<Rightarrow> if ok then PSeen args (vars(v := x)) else PErr (err val) args (vars(v := x)))"

text \<open>The second half of \<open>parseOne\<close>, for a flag that is defined: its value is the one given with an
  equals sign, \<open>true\<close> for a boolean flag, or the next argument.\<close>

definition parse_value :: "flag_def \<Rightarrow> string option \<Rightarrow> string list \<Rightarrow> vars \<Rightarrow> parsed" where
  "parse_value f value args vars =
     (let name = f_name f; v = f_var f in
      if IsBoolFlag (vars v) then
        set_flag (\<lambda>s. FlagInvalidBool s name) v (case value of Some s \<Rightarrow> s | None \<Rightarrow> ''true'') args vars
      else case value of
             Some s \<Rightarrow> set_flag (\<lambda>s. FlagInvalidValue s name) v s args vars
           | None \<Rightarrow>
               (case args of
                  [] \<Rightarrow> PErr (FlagNeedsArgument name) args vars
                | s # rest \<Rightarrow> set_flag (\<lambda>s. FlagInvalidValue s name) v s rest vars))"

definition parseOne :: "flag_def list \<Rightarrow> string list \<Rightarrow> vars \<Rightarrow> parsed" where
  "parseOne formal args vars =
     (case args of
        [] \<Rightarrow> PStop args vars
      | s # rest \<Rightarrow>
          if length s < 2 \<or> hd s \<noteq> CHR ''-'' then PStop args vars
          else if s = ''--'' then PStop rest vars
          else
            let name0 = drop (if s ! 1 = CHR ''-'' then 2 else 1) s in
            if name0 = [] \<or> hd name0 = CHR ''-'' \<or> hd name0 = CHR ''='' then PErr (BadFlagSyntax s) args vars
            else case flag_split name0 of
              (name, value) \<Rightarrow>
                (case set_Lookup formal name of
                   None \<Rightarrow>
                     if name = ''help'' \<or> name = ''h'' then PErr FlagHelp rest vars
                     else PErr (FlagNotDefined name) rest vars
                 | Some f \<Rightarrow> parse_value f value rest vars))"

lemma set_flag_Seen: "set_flag err v val args vars = PSeen args' vars' \<Longrightarrow> args' = args"
  by (auto simp: set_flag_def split: prod.splits if_splits)

lemma parse_value_Seen: "parse_value f value args vars = PSeen args' vars' \<Longrightarrow> length args' \<le> length args"
  by (auto simp: parse_value_def Let_def split: option.splits if_splits list.splits dest!: set_flag_Seen)

lemma parseOne_Seen_shorter:
  assumes "parseOne formal args vars = PSeen args' vars'"
  shows "length args' < length args"
proof -
  obtain f val rest where "args = hd args # rest" and "parse_value f val rest vars = PSeen args' vars'"
    using assms by (cases args) (auto simp: parseOne_def Let_def split: if_splits option.splits prod.splits)
  then show ?thesis
    by (metis parse_value_Seen le_imp_less_Suc length_Cons)
qed

function flag_Parse ::
  "flag_def list \<Rightarrow> string list \<Rightarrow> vars \<Rightarrow> flag_error option \<times> string list \<times> vars" where
  "flag_Parse formal args vars =
     (case parseOne formal args vars of
        PSeen args' vars' \<Rightarrow> flag_Parse formal args' vars'
      | PStop args' vars' \<Rightarrow> (None, args', vars')
      | PErr e args' vars' \<Rightarrow> (Some e, args', vars'))"
  by pat_completeness auto
termination
  by (relation "measure (\<lambda>(_, args, _). length args)") (auto dest: parseOne_Seen_shorter)

declare flag_Parse.simps [simp del]

end
