(* ===== verification/Command.thy ===== *)
theory Command
  imports Cmd_Flag
begin

text \<open>
  The package \<open>command\<close>: the tree of subcommands with its builder methods, \<open>Parse\<close>, \<open>MustParse\<close> and
  the help text. Nodes live in a heap, as the code links them by the pointers \<open>child\<close> and \<open>next\<close>;
  a pointer is an index into the heap. Handlers and the writer the help goes to are parameters.
\<close>

subsection \<open>Nodes (node.go)\<close>

record 'h cnode =
  n_child :: "nat option"
  n_next :: "nat option"
  n_name :: string
  n_usage :: string
  n_prefix :: "string list"
  n_suffix :: string
  n_f :: "'h option"
  n_parsed :: bool
  n_args :: "string list"
  n_formal :: "flag_def list"

record ('h, 'w) cstate =
  cs_heap :: "'h cnode list"
  cs_vars :: vars
  cs_world :: 'w

abbreviation node :: "('h, 'w) cstate \<Rightarrow> nat \<Rightarrow> 'h cnode" where
  "node st p \<equiv> cs_heap st ! p"

definition upd_node :: "nat \<Rightarrow> ('h cnode \<Rightarrow> 'h cnode) \<Rightarrow> ('h, 'w) cstate \<Rightarrow> ('h, 'w) cstate" where
  "upd_node p g st = st\<lparr>cs_heap := (cs_heap st)[p := g (node st p)]\<rparr>"

text \<open>\<open>append\<close> walks the siblings of a node to the last one. It is a partial function, as it would
  not end on siblings linked in a circle.\<close>

partial_function (option) node_append :: "('h, 'w) cstate \<Rightarrow> nat \<Rightarrow> nat \<Rightarrow> (bool \<times> ('h, 'w) cstate) option" where
  "node_append st n v =
     (if n_name (node st n) = n_name (node st v) then Some (False, st)
      else case n_next (node st n) of
             Some q \<Rightarrow> node_append st q v
           | None \<Rightarrow> Some (True, upd_node n (n_next_update (\<lambda>_. Some v)) st))"

definition node_adopt :: "('h, 'w) cstate \<Rightarrow> nat \<Rightarrow> nat \<Rightarrow> (bool \<times> ('h, 'w) cstate) option" where
  "node_adopt st n v =
     (case n_child (node st n) of
        Some c \<Rightarrow> node_append st c v
      | None \<Rightarrow> Some (True, upd_node n (n_child_update (\<lambda>_. Some v)) st))"

subsection \<open>Building a tree (builder.go, wrap.go)\<close>

definition newNode :: "string \<Rightarrow> string \<Rightarrow> 'h cnode" where
  "newNode name usage =
     \<lparr>n_child = None, n_next = None, n_name = name, n_usage = usage, n_prefix = [], n_suffix = [],
      n_f = None, n_parsed = False, n_args = [], n_formal = []\<rparr>"

definition cmd_New :: "string \<Rightarrow> 'h option \<Rightarrow> vars \<Rightarrow> 'w \<Rightarrow> ('h, 'w) cstate" where
  "cmd_New name early vars w =
     \<lparr>cs_heap = [(newNode name [])\<lparr>n_f := early\<rparr>], cs_vars = vars, cs_world = w\<rparr>"

definition adopt_new ::
  "string \<Rightarrow> 'h cnode \<Rightarrow> ('h, 'w) cstate \<Rightarrow> nat \<Rightarrow> (unit, nat \<times> ('h, 'w) cstate) go option" where
  "adopt_new msg s st n =
     (let v = length (cs_heap st) in
      case node_adopt (st\<lparr>cs_heap := cs_heap st @ [s]\<rparr>) n v of
        None \<Rightarrow> None
      | Some (ok, st') \<Rightarrow> Some (if ok then Ret (v, st') else Panic msg))"

definition node_NewCommand ::
  "('h, 'w) cstate \<Rightarrow> nat \<Rightarrow> string \<Rightarrow> string \<Rightarrow> 'h option \<Rightarrow> (unit, nat \<times> ('h, 'w) cstate) go option" where
  "node_NewCommand st n name usage f =
     (if f = None then Some (Panic ''invalid handler'')
      else if name = [] \<or> usage = [] then Some (Panic ''invalid subcommand'')
      else adopt_new ''attempted to initialise subcommand with non-unique name''
             ((newNode name usage)\<lparr>n_f := f\<rparr>) st n)"

definition node_New ::
  "('h, 'w) cstate \<Rightarrow> nat \<Rightarrow> string \<Rightarrow> string \<Rightarrow> (unit, nat \<times> ('h, 'w) cstate) go option" where
  "node_New st n name usage =
     (if name = [] \<or> usage = [] then Some (Panic ''invalid subcommand tree'')
      else adopt_new ''attempted to initialise subcommand tree with non-unique name'' (newNode name usage) st n)"

definition cmd_Flag ::
  "('h, 'w) cstate \<Rightarrow> nat \<Rightarrow> nat \<Rightarrow> string \<Rightarrow> flag_definer \<Rightarrow> string \<Rightarrow> (unit, ('h, 'w) cstate) go" where
  "cmd_Flag st n p name d usage =
     bind_go (Define d p name usage (n_suffix (node st n), n_formal (node st n), cs_vars st))
       (\<lambda>(b, formal, vars).
          Ret (upd_node n (\<lambda>x. x\<lparr>n_suffix := b, n_formal := formal\<rparr>) (st\<lparr>cs_vars := vars\<rparr>)))"

subsection \<open>Help (help.go)\<close>

text \<open>What the package prints, one value for each print call; the commands of a tree pass through a
  tab writer, which lays them out when it is flushed.\<close>

datatype coutput =
    OUsage string string
  | OCommands
  | OTable "(string \<times> string) list"
  | ONewline
  | OFlags
  | ODefaults "flag_def list"
  | OFlagError flag_error
  | ONotValid string
  | ONoSubcommands string

datatype 'e cmd_error =
    ErrHelp
  | ErrEmptyTree
  | ErrNoMatch
  | FlagError flag_error
  | WriteError string
  | HandlerError 'e

text \<open>The writer and the handlers: a handler gets its arguments, the variables of the flags and the
  world, and returns an error of any kind or none.\<close>

record ('h, 'e, 'w) cenv =
  emit :: "coutput \<Rightarrow> 'w \<Rightarrow> string option \<times> 'w"
  call_handler :: "'h \<Rightarrow> string list \<Rightarrow> vars \<Rightarrow> 'w \<Rightarrow> 'e cmd_error option \<times> vars \<times> 'w"

definition UsageInternal :: string where "UsageInternal = ''internal''"

partial_function (option) writeCommands ::
  "'h cnode list \<Rightarrow> nat option \<Rightarrow> (string \<times> string) list \<Rightarrow> (string \<times> string) list option" where
  "writeCommands h n rows =
     (case n of
        None \<Rightarrow> Some rows
      | Some p \<Rightarrow>
          writeCommands h (n_next (h ! p))
            (if n_usage (h ! p) \<noteq> UsageInternal then rows @ [(n_name (h ! p), n_usage (h ! p))] else rows))"

fun emit_all :: "('h, 'e, 'w) cenv \<Rightarrow> coutput list \<Rightarrow> 'w \<Rightarrow> string option \<times> 'w" where
  "emit_all env [] w = (None, w)"
| "emit_all env (x # xs) w =
     (case emit env x w of (None, w') \<Rightarrow> emit_all env xs w' | (Some e, w') \<Rightarrow> (Some e, w'))"

definition writeHelp ::
  "('h, 'e, 'w) cenv \<Rightarrow> ('h, 'w) cstate \<Rightarrow> nat \<Rightarrow> ('e cmd_error \<times> ('h, 'w) cstate) option" where
  "writeHelp env st p =
     (case writeCommands (cs_heap st) (n_child (node st p)) [] of
        None \<Rightarrow> None
      | Some rows \<Rightarrow>
          (case emit_all env
                  ([OUsage (Join (n_prefix (node st p) @ [n_name (node st p)]) '' '') (n_suffix (node st p))]
                   @ (if n_child (node st p) \<noteq> None then [OCommands] else [])
                   @ [OTable rows, ONewline]) (cs_world st) of
             (e, w) \<Rightarrow> Some (case e of None \<Rightarrow> ErrHelp | Some x \<Rightarrow> WriteError x, st\<lparr>cs_world := w\<rparr>)))"

definition print :: "('h, 'e, 'w) cenv \<Rightarrow> coutput \<Rightarrow> ('h, 'w) cstate \<Rightarrow> ('h, 'w) cstate" where
  "print env x st = st\<lparr>cs_world := snd (emit env x (cs_world st))\<rparr>"

text \<open>The closure \<open>newNode\<close> installs as the usage function of the flag set.\<close>

definition set_Usage ::
  "('h, 'e, 'w) cenv \<Rightarrow> ('h, 'w) cstate \<Rightarrow> nat \<Rightarrow> ('h, 'w) cstate option" where
  "set_Usage env st p =
     (case writeHelp env st p of
        None \<Rightarrow> None
      | Some (_, st') \<Rightarrow>
          Some (if n_suffix (node st p) \<noteq> []
                then print env ONewline (print env (ODefaults (n_formal (node st p))) (print env OFlags st'))
                else st'))"

subsection \<open>Parsing (parse.go)\<close>

text \<open>\<open>FlagSet.Parse\<close> on the set of a node: an error is printed, unless help was requested, and the
  usage function called.\<close>

definition set_Parse ::
  "('h, 'e, 'w) cenv \<Rightarrow> ('h, 'w) cstate \<Rightarrow> nat \<Rightarrow> string list \<Rightarrow> (flag_error option \<times> ('h, 'w) cstate) option" where
  "set_Parse env st p arguments =
     (case flag_Parse (n_formal (node st p)) arguments (cs_vars st) of
        (e, args, vars) \<Rightarrow>
          let st' = (upd_node p (\<lambda>x. x\<lparr>n_parsed := True, n_args := args\<rparr>) st)\<lparr>cs_vars := vars\<rparr> in
          case e of
            None \<Rightarrow> Some (None, st')
          | Some err \<Rightarrow>
              (case set_Usage env (if err = FlagHelp then st' else print env (OFlagError err) st') p of
                 None \<Rightarrow> None
               | Some st'' \<Rightarrow> Some (Some err, st'')))"

text \<open>One call of \<open>Parse\<close>: it ends with a result, or with the call on another node that the code
  returns.\<close>

datatype ('h, 'e, 'w) pstep =
    PReturn "(unit, 'e cmd_error option \<times> ('h, 'w) cstate) go"
  | PCall "('h, 'w) cstate" nat "string list"

definition call_f ::
  "('h, 'e, 'w) cenv \<Rightarrow> ('h, 'w) cstate \<Rightarrow> 'h \<Rightarrow> string list \<Rightarrow> 'e cmd_error option \<times> ('h, 'w) cstate" where
  "call_f env st h args =
     (case call_handler env h args (cs_vars st) (cs_world st) of
        (e, vars, w) \<Rightarrow> (e, st\<lparr>cs_vars := vars, cs_world := w\<rparr>))"

definition parse_children ::
  "('h, 'e, 'w) cenv \<Rightarrow> ('h, 'w) cstate \<Rightarrow> nat \<Rightarrow> nat \<Rightarrow> string list \<Rightarrow> ('h, 'e, 'w) pstep option" where
  "parse_children env st n c args =
     (if args = [] then
        (case writeHelp env st n of
           None \<Rightarrow> None
         | Some (e, st') \<Rightarrow> Some (PReturn (Ret (Some e, st'))))
      else Some (PCall st c args))"

text \<open>The code from the label \<open>match\<close> on.\<close>

definition parse_match ::
  "('h, 'e, 'w) cenv \<Rightarrow> ('h, 'w) cstate \<Rightarrow> nat \<Rightarrow> string list \<Rightarrow> ('h, 'e, 'w) pstep option" where
  "parse_match env st n arguments =
     (let x = node st n;
          st = (case n_child x of
                  Some c \<Rightarrow> upd_node c (n_prefix_update (\<lambda>_. n_prefix x @ [n_name x])) st
                | None \<Rightarrow> st) in
      if n_parsed x then Some (PReturn (Panic ''invalid set state''))
      else case set_Parse env st n arguments of
             None \<Rightarrow> None
           | Some (Some err, st) \<Rightarrow> Some (PReturn (Ret (Some (FlagError err), st)))
           | Some (None, st) \<Rightarrow>
               let args = n_args (node st n) in
               (case n_child x of
                  Some c \<Rightarrow>
                    (case n_f x of
                       Some h \<Rightarrow>
                         if n_usage x \<noteq> [] then Some (PReturn (Panic ''invalid subcommand tree state''))
                         else (case call_f env st h [] of
                                 (Some e, st) \<Rightarrow> Some (PReturn (Ret (Some e, st)))
                               | (None, st) \<Rightarrow> parse_children env st n c args)
                     | None \<Rightarrow> parse_children env st n c args)
                | None \<Rightarrow>
                    (case n_f x of
                       None \<Rightarrow> Some (PReturn (Ret (Some ErrEmptyTree, print env (ONoSubcommands (n_name x)) st)))
                     | Some h \<Rightarrow> Some (PReturn (Ret (call_f env st h args))))))"

definition parse_step ::
  "('h, 'e, 'w) cenv \<Rightarrow> ('h, 'w) cstate \<Rightarrow> nat \<Rightarrow> string list \<Rightarrow> ('h, 'e, 'w) pstep option" where
  "parse_step env st n arguments =
     (let x = node st n in
      if n_usage x = [] then
        if n_next x \<noteq> None then Some (PReturn (Panic ''invalid toplevel state''))
        else parse_match env st n arguments
      else case arguments of
             [] \<Rightarrow> Some (PReturn (Panic ''attempted to parse with zero length args''))
           | a # rest \<Rightarrow>
               if a \<noteq> n_name x then
                 (case n_next x of
                    None \<Rightarrow> Some (PReturn (Ret (Some ErrNoMatch, print env (ONotValid a) st)))
                  | Some q \<Rightarrow> Some (PCall (upd_node q (n_prefix_update (\<lambda>_. n_prefix x)) st) q arguments))
               else parse_match env st n rest)"

partial_function (option) cmd_Parse ::
  "('h, 'e, 'w) cenv \<Rightarrow> ('h, 'w) cstate \<Rightarrow> nat \<Rightarrow> string list
     \<Rightarrow> (unit, 'e cmd_error option \<times> ('h, 'w) cstate) go option" where
  "cmd_Parse env st n arguments =
     (case parse_step env st n arguments of
        None \<Rightarrow> None
      | Some (PReturn r) \<Rightarrow> Some r
      | Some (PCall st' q args) \<Rightarrow> cmd_Parse env st' q args)"

declare node_append.simps [code] writeCommands.simps [code] cmd_Parse.simps [code]

text \<open>\<open>MustParse\<close>: how the process goes on, whether \<open>handleError\<close> was called, and the state.\<close>

datatype 'e must = Returned | Exited nat | HandledExit "'e cmd_error" nat

fun FlagError_Success :: "flag_error \<Rightarrow> bool" where
  "FlagError_Success e \<longleftrightarrow> e = FlagHelp"

fun must_outcome :: "'e cmd_error option \<Rightarrow> 'e must" where
  "must_outcome None = Returned"
| "must_outcome (Some ErrHelp) = Exited 0"
| "must_outcome (Some ErrNoMatch) = Exited 1"
| "must_outcome (Some ErrEmptyTree) = Exited 1"
| "must_outcome (Some (FlagError e)) = (if FlagError_Success e then Exited 0 else Exited 1)"
| "must_outcome (Some err) = HandledExit err 1"

definition MustParse ::
  "('h, 'e, 'w) cenv \<Rightarrow> ('h, 'w) cstate \<Rightarrow> string list \<Rightarrow> (unit, 'e must \<times> ('h, 'w) cstate) go option" where
  "MustParse env st arguments =
     map_option (\<lambda>r. bind_go r (\<lambda>(err, st'). Ret (must_outcome err, st'))) (cmd_Parse env st 0 arguments)"

end
