(* ===== verification/Cmd_Tree.thy ===== *)
theory Cmd_Tree
  imports Command
begin

text \<open>
  Properties of the package \<open>command\<close>: the heap of nodes represents a tree, given by the list of
  children of each node, which the builder methods extend; on every tree they build \<open>Parse\<close> ends
  without a panic, and reaches every command by its names.
\<close>

subsection \<open>The tree a heap represents\<close>

text \<open>\<open>chain h n ps\<close>: following the pointer \<open>next\<close> from \<open>n\<close> gives the nodes \<open>ps\<close> and ends.\<close>

inductive chain :: "'h cnode list \<Rightarrow> nat option \<Rightarrow> nat list \<Rightarrow> bool" for h where
  chain_end: "chain h None []"
| chain_link: "chain h (n_next (h ! p)) ps \<Longrightarrow> chain h (Some p) (p # ps)"

inductive_cases chain_NoneE [elim!]: "chain h None ps"
inductive_cases chain_SomeE [elim!]: "chain h (Some p) ps"

text \<open>The abstract tree gives each node the list of its children; the names of siblings are distinct,
  a child is younger than its parent and has no other parent.\<close>

definition represents :: "'h cnode list \<Rightarrow> (nat \<Rightarrow> nat list) \<Rightarrow> bool" where
  "represents h kids \<longleftrightarrow>
     (\<forall>p < length h. chain h (n_child (h ! p)) (kids p) \<and> (\<forall>q \<in> set (kids p). p < q \<and> q < length h) \<and>
        distinct (map (\<lambda>q. n_name (h ! q)) (kids p))) \<and>
     (\<forall>p < length h. \<forall>p' < length h. p \<noteq> p' \<longrightarrow> set (kids p) \<inter> set (kids p') = {})"

lemma chain_cong:
  "chain h n ps \<Longrightarrow> (\<And>p. p \<in> set ps \<Longrightarrow> n_next (h' ! p) = n_next (h ! p)) \<Longrightarrow> chain h' n ps"
  by (induction rule: chain.induct) (auto intro!: chain.intros)

lemma chain_snoc:
  assumes "chain h n ps" and "ps \<noteq> []" and "distinct ps"
    and "\<And>p. p \<in> set (butlast ps) \<Longrightarrow> n_next (h' ! p) = n_next (h ! p)"
    and "n_next (h' ! last ps) = Some v" and "n_next (h' ! v) = None"
  shows "chain h' n (ps @ [v])"
  using assms
proof (induction rule: chain.induct)
  case (chain_link p ps)
  show ?case
  proof (cases "ps = []")
    case True
    with chain_link show ?thesis by (auto intro!: chain.intros)
  next
    case False
    with chain_link show ?thesis by (auto intro!: chain.intros)
  qed
qed simp

lemma distinct_butlast_last: "distinct xs \<Longrightarrow> xs \<noteq> [] \<Longrightarrow> last xs \<notin> set (butlast xs)"
  by (induction xs rule: rev_induct) auto

lemma node_append_chain:
  assumes "chain (cs_heap st) (Some c) ps"
  shows "node_append st c v =
    (if n_name (node st v) \<in> (\<lambda>q. n_name (node st q)) ` set ps then Some (False, st)
     else Some (True, upd_node (last ps) (n_next_update (\<lambda>_. Some v)) st))"
  using assms
proof (induction "Some c" ps arbitrary: c rule: chain.induct)
  case (chain_link p ps)
  show ?case
  proof (cases "n_next (node st p)")
    case None
    with chain_link show ?thesis by (subst node_append.simps) auto
  next
    case (Some q)
    with chain_link(1) have "ps \<noteq> []" by auto
    with Some chain_link show ?thesis by (subst node_append.simps) auto
  qed
qed

lemma node_adopt_chain:
  assumes "chain (cs_heap st) (n_child (node st n)) ps"
  shows "node_adopt st n v =
    (if n_name (node st v) \<in> (\<lambda>q. n_name (node st q)) ` set ps then Some (False, st)
     else Some (True, if ps = [] then upd_node n (n_child_update (\<lambda>_. Some v)) st
                      else upd_node (last ps) (n_next_update (\<lambda>_. Some v)) st))"
proof (cases "n_child (node st n)")
  case None
  with assms show ?thesis by (auto simp: node_adopt_def)
next
  case (Some c)
  with assms have "ps \<noteq> []" by auto
  with Some assms show ?thesis by (simp add: node_adopt_def node_append_chain)
qed

text \<open>Adopting a new node: the pointer walk implements appending to the list of children, and fails
  exactly if a sibling has the name. \<open>adopted h kids n s h'\<close> says what the walk changes in the heap.\<close>

definition adopted :: "'h cnode list \<Rightarrow> (nat \<Rightarrow> nat list) \<Rightarrow> nat \<Rightarrow> 'h cnode \<Rightarrow> 'h cnode list \<Rightarrow> bool" where
  "adopted h kids n s h' \<longleftrightarrow> length h' = Suc (length h) \<and>
     (\<forall>p \<le> length h. n_name (h' ! p) = (if p = length h then n_name s else n_name (h ! p)) \<and>
        n_child (h' ! p) = (if p = length h then None
          else if p = n \<and> kids n = [] then Some (length h) else n_child (h ! p)) \<and>
        n_next (h' ! p) = (if p = length h then None
          else if kids n \<noteq> [] \<and> p = last (kids n) then Some (length h) else n_next (h ! p)))"

lemma representsD:
  assumes "represents h kids" and "p < length h"
  shows "chain h (n_child (h ! p)) (kids p)" and "distinct (map (\<lambda>q. n_name (h ! q)) (kids p))"
    and "distinct (kids p)" and "q \<in> set (kids p) \<Longrightarrow> p < q \<and> q < length h"
    and "p' < length h \<Longrightarrow> p \<noteq> p' \<Longrightarrow> q \<in> set (kids p) \<Longrightarrow> q \<notin> set (kids p')"
proof -
  show "distinct (map (\<lambda>q. n_name (h ! q)) (kids p))"
    using assms unfolding represents_def by blast
  then show "distinct (kids p)"
    by (simp add: distinct_map)
qed (use assms in \<open>unfold represents_def, blast+\<close>)

lemma chain_adopt:
  assumes rep: "represents h kids" and n: "n < length h" and ad: "adopted h kids n s h'"
    and p: "p \<le> length h"
  shows "chain h' (n_child (h' ! p)) ((kids(length h := [], n := kids n @ [length h])) p)"
proof -
  note ptr = ad [unfolded adopted_def, THEN conjunct2, rule_format]
  consider "p = length h" | "p = n" "kids n = []" | "p = n" "kids n \<noteq> []" | "p < length h" "p \<noteq> n"
    using p by linarith
  then show ?thesis
  proof cases
    case 1
    with n ptr [of p] show ?thesis by (simp add: chain_end)
  next
    case 2
    with n ptr [of n] ptr [of "length h"] show ?thesis
      by (auto intro!: chain.intros)
  next
    case 3
    have "n_next (h' ! q) = n_next (h ! q)" if "q \<in> set (butlast (kids n))" for q
    proof -
      have "q \<noteq> last (kids n)" and "q < length h"
        using that 3 representsD(3,4) [OF rep n] distinct_butlast_last in_set_butlastD by metis+
      with ptr [of q] show ?thesis by simp
    qed
    then have "chain h' (n_child (h ! n)) (kids n @ [length h])"
      using 3 ptr [of "length h"] ptr [of "last (kids n)"] representsD(4) [OF rep n last_in_set [OF 3(2)]]
      by (intro chain_snoc [OF representsD(1) [OF rep n] 3(2) representsD(3) [OF rep n]]) simp_all
    with 3 n ptr [of n] show ?thesis by simp
  next
    case 4
    have "q \<noteq> last (kids n) \<or> kids n = []" if "q \<in> set (kids p)" for q
      using representsD(5) [OF rep 4(1) n 4(2) that] by (metis last_in_set)
    then have "chain h' (n_child (h ! p)) (kids p)"
      using representsD(1) [OF rep 4(1)] representsD(4) [OF rep 4(1)] ptr
      by (elim chain_cong) (metis less_imp_le less_irrefl)
    with 4 ptr [of p] show ?thesis by simp
  qed
qed

lemma represents_adopt:
  assumes rep: "represents h kids" and n: "n < length h" and ad: "adopted h kids n s h'"
    and fresh: "n_name s \<notin> (\<lambda>q. n_name (h ! q)) ` set (kids n)"
  shows "represents h' (kids(length h := [], n := kids n @ [length h]))" (is "represents h' ?k")
proof -
  note ptr = ad [unfolded adopted_def, THEN conjunct2, rule_format]
  have mem: "q \<in> set (?k p) \<longleftrightarrow> p \<noteq> length h \<and> q \<in> set (kids p) \<or> p = n \<and> q = length h" for p q
    using n by auto
  have kids: "\<forall>q \<in> set (?k p). p < q \<and> q < Suc (length h)" if p: "p < Suc (length h)" for p
  proof
    fix q
    assume "q \<in> set (?k p)"
    then consider "p < length h" "q \<in> set (kids p)" | "p = n" "q = length h"
      using p unfolding mem less_Suc_eq by blast
    then show "p < q \<and> q < Suc (length h)"
      using n representsD(4) [OF rep, of p q] by cases auto
  qed
  have same: "n_name (h' ! q) = n_name (h ! q)" if "q \<in> set (kids p)" "p < length h" for p q
    using representsD(4) [OF rep that(2,1)] ptr [of q] by simp
  then have map: "map (\<lambda>q. n_name (h' ! q)) (kids p) = map (\<lambda>q. n_name (h ! q)) (kids p)" if "p < length h" for p
    using that by simp
  have names: "distinct (map (\<lambda>q. n_name (h' ! q)) (?k p))" if "p < Suc (length h)" for p
  proof (cases "p = length h")
    case False
    with that have p: "p < length h" by simp
    have "distinct (map (\<lambda>q. n_name (h' ! q)) (kids p))"
      unfolding map [OF p] by (rule representsD(2) [OF rep p])
    moreover have "n_name (h' ! length h) \<notin> (\<lambda>q. n_name (h' ! q)) ` set (kids n)"
      using fresh ptr [of "length h"] same [OF _ n] by auto
    ultimately show ?thesis using False by (cases "p = n") simp_all
  qed (use n in simp)
  have disjoint: "set (?k p) \<inter> set (?k p') = {}"
    if "p < Suc (length h)" "p' < Suc (length h)" "p \<noteq> p'" for p p'
  proof -
    have "\<not> (q \<in> set (?k p) \<and> q \<in> set (?k p'))" for q
      unfolding mem using that n representsD(4) [OF rep, of p q] representsD(4) [OF rep, of p' q]
        representsD(5) [OF rep, of p p' q] by (auto simp: less_Suc_eq)
    then show ?thesis by blast
  qed
  show ?thesis
    using chain_adopt [OF rep n ad] kids names disjoint ad
    unfolding represents_def adopted_def by (simp add: less_Suc_eq_le)
qed

subsection \<open>Trees the builders make\<close>

text \<open>What holds of a tree before it is parsed: only the root, node 0, has no usage line, no other
  node has both a handler and children, and no flag set has been parsed.\<close>

definition tree_inv :: "('h, 'w) cstate \<Rightarrow> (nat \<Rightarrow> nat list) \<Rightarrow> bool" where
  "tree_inv st kids \<longleftrightarrow> represents (cs_heap st) kids \<and> cs_heap st \<noteq> [] \<and>
     n_usage (node st 0) = [] \<and> n_next (node st 0) = None \<and>
     (\<forall>p < length (cs_heap st). \<not> n_parsed (node st p) \<and>
        (0 < p \<longrightarrow> n_usage (node st p) \<noteq> [] \<and> (n_f (node st p) \<noteq> None \<longrightarrow> n_child (node st p) = None)))"

lemma adopt_new_spec:
  assumes rep: "represents (cs_heap st) kids" and n: "n < length (cs_heap st)"
    and s: "n_child s = None" "n_next s = None"
  defines "m \<equiv> (if kids n = [] then n else last (kids n))"
    and "g \<equiv> (if kids n = [] then n_child_update (\<lambda>_. Some (length (cs_heap st)))
               else n_next_update (\<lambda>_. Some (length (cs_heap st))))"
  shows "adopt_new msg s st n =
      (if n_name s \<in> (\<lambda>q. n_name (node st q)) ` set (kids n) then Some (Panic msg)
       else Some (Ret (length (cs_heap st), st\<lparr>cs_heap := (cs_heap st)[m := g (node st m)] @ [s]\<rparr>)))"
    and "m < length (cs_heap st)"
    and "adopted (cs_heap st) kids n s ((cs_heap st)[m := g (node st m)] @ [s])"
proof -
  let ?h = "cs_heap st"
  have kid: "q < length ?h" if "q \<in> set (kids n)" for q
    using representsD(4) [OF rep n that] by simp
  then show m: "m < length ?h"
    using n by (simp add: m_def)
  have "chain (?h @ [s]) (n_child (?h ! n)) (kids n)"
    using representsD(1) [OF rep n] kid by (elim chain_cong) (simp add: nth_append)
  moreover have "(\<lambda>q. n_name ((?h @ [s]) ! q)) ` set (kids n) = (\<lambda>q. n_name (?h ! q)) ` set (kids n)"
    using kid by (auto simp: nth_append)
  ultimately show "adopt_new msg s st n =
      (if n_name s \<in> (\<lambda>q. n_name (node st q)) ` set (kids n) then Some (Panic msg)
       else Some (Ret (length ?h, st\<lparr>cs_heap := ?h[m := g (node st m)] @ [s]\<rparr>)))"
    using n m by (simp add: adopt_new_def Let_def node_adopt_chain [of _ _ "kids n"] nth_append upd_node_def
        list_update_append m_def g_def split: if_splits)
  show "adopted ?h kids n s (?h[m := g (node st m)] @ [s])"
    using n m s by (auto simp: adopted_def nth_append nth_list_update m_def g_def split: if_splits)
qed

lemma tree_inv_adopt:
  assumes "tree_inv st kids" and "n < length (cs_heap st)" and "adopt_new msg s st n = Some (Ret (v, st'))"
    and "n_child s = None" "n_next s = None" "n_usage s \<noteq> []" "\<not> n_parsed s"
    and "n = 0 \<or> n_f (node st n) = None"
  shows "tree_inv st' (kids(length (cs_heap st) := [], n := kids n @ [length (cs_heap st)]))"
proof -
  have rep: "represents (cs_heap st) kids"
    using assms(1) by (simp add: tree_inv_def)
  note spec = adopt_new_spec [OF rep assms(2,4,5)]
  have "represents (cs_heap st') (kids(length (cs_heap st) := [], n := kids n @ [length (cs_heap st)]))"
    using represents_adopt [OF rep assms(2) spec(3)] assms(3) spec(1) by (auto split: if_splits)
  moreover have "kids n \<noteq> [] \<Longrightarrow> 0 < last (kids n)"
    using representsD(4) [OF rep assms(2) last_in_set] by force
  ultimately show ?thesis
    using assms spec(1,2)
    by (auto simp: tree_inv_def nth_append nth_list_update split: if_splits)
qed

text \<open>The trees a program builds: it may add subcommands to the root and to the trees made by \<open>New\<close>.\<close>

inductive built :: "('h, 'w) cstate \<Rightarrow> bool" where
  built_New: "built (cmd_New name early vars w)"
| built_Command: "built st \<Longrightarrow> n < length (cs_heap st) \<Longrightarrow> n = 0 \<or> n_f (node st n) = None \<Longrightarrow>
    node_NewCommand st n name usage f = Some (Ret (v, st')) \<Longrightarrow> built st'"
| built_Tree: "built st \<Longrightarrow> n < length (cs_heap st) \<Longrightarrow> n = 0 \<or> n_f (node st n) = None \<Longrightarrow>
    node_New st n name usage = Some (Ret (v, st')) \<Longrightarrow> built st'"
| built_Flag: "built st \<Longrightarrow> n < length (cs_heap st) \<Longrightarrow> cmd_Flag st n p name d usage = Ret st' \<Longrightarrow> built st'"

text \<open>Heaps with the same tree, handlers and usage lines.\<close>

definition same_tree :: "'h cnode list \<Rightarrow> 'h cnode list \<Rightarrow> bool" where
  "same_tree h h' \<longleftrightarrow> length h' = length h \<and>
     (\<forall>p < length h. n_child (h' ! p) = n_child (h ! p) \<and> n_next (h' ! p) = n_next (h ! p) \<and>
        n_name (h' ! p) = n_name (h ! p) \<and> n_usage (h' ! p) = n_usage (h ! p) \<and> n_f (h' ! p) = n_f (h ! p))"

lemma same_treeD:
  assumes "same_tree h h'"
  shows "length h' = length h"
    and "p < length h \<Longrightarrow> n_child (h' ! p) = n_child (h ! p)" and "p < length h \<Longrightarrow> n_next (h' ! p) = n_next (h ! p)"
    and "p < length h \<Longrightarrow> n_name (h' ! p) = n_name (h ! p)" and "p < length h \<Longrightarrow> n_usage (h' ! p) = n_usage (h ! p)"
    and "p < length h \<Longrightarrow> n_f (h' ! p) = n_f (h ! p)"
  using assms by (simp_all add: same_tree_def)

lemma same_tree_refl [simp]: "same_tree h h"
  by (simp add: same_tree_def)

lemma same_tree_trans: "same_tree h h' \<Longrightarrow> same_tree h' h'' \<Longrightarrow> same_tree h h''"
  by (simp add: same_tree_def)

lemma represents_same_tree:
  assumes "represents h kids" and "same_tree h h'"
  shows "represents h' kids"
proof -
  have "chain h' (n_child (h' ! p)) (kids p) \<and> distinct (map (\<lambda>q. n_name (h' ! q)) (kids p))" if p: "p < length h" for p
  proof -
    have kid: "q < length h" if "q \<in> set (kids p)" for q
      using representsD(4) [OF assms(1) p that] by simp
    then have "chain h' (n_child (h ! p)) (kids p)"
      using representsD(1) [OF assms(1) p] same_treeD(3) [OF assms(2)] by (elim chain_cong) simp
    moreover have "map (\<lambda>q. n_name (h' ! q)) (kids p) = map (\<lambda>q. n_name (h ! q)) (kids p)"
      using kid same_treeD(4) [OF assms(2)] by simp
    ultimately show ?thesis
      using representsD(2) [OF assms(1) p] same_treeD(2) [OF assms(2) p] by metis
  qed
  then show ?thesis
    using assms(1) unfolding represents_def same_treeD(1) [OF assms(2)] by blast
qed

lemma built_tree_inv: "built st \<Longrightarrow> \<exists>kids. tree_inv st kids"
proof (induction rule: built.induct)
  case (built_New name early vars w)
  show ?case
    by (rule exI [of _ "\<lambda>_. []"])
      (auto simp: tree_inv_def cmd_New_def newNode_def represents_def intro: chain.intros)
next
  case (built_Command st n name usage f v st')
  obtain kids msg where inv: "tree_inv st kids" and usage: "usage \<noteq> []"
    and adopt: "adopt_new msg ((newNode name usage)\<lparr>n_f := f\<rparr>) st n = Some (Ret (v, st'))"
    using built_Command.IH built_Command.hyps(4) unfolding node_NewCommand_def by (auto split: if_splits)
  from tree_inv_adopt [OF inv built_Command.hyps(2) adopt] usage built_Command.hyps(3)
  show ?case by (auto simp: newNode_def)
next
  case (built_Tree st n name usage v st')
  obtain kids msg where inv: "tree_inv st kids" and usage: "usage \<noteq> []"
    and adopt: "adopt_new msg (newNode name usage) st n = Some (Ret (v, st'))"
    using built_Tree.IH built_Tree.hyps(4) unfolding node_New_def by (auto split: if_splits)
  from tree_inv_adopt [OF inv built_Tree.hyps(2) adopt] usage built_Tree.hyps(3)
  show ?case by (auto simp: newNode_def)
next
  case (built_Flag st n p name d usage st')
  then obtain kids where inv: "tree_inv st kids"
    by blast
  obtain b formal vars where st': "cs_heap st' = (cs_heap st)[n := (node st n)\<lparr>n_suffix := b, n_formal := formal\<rparr>]"
    using built_Flag.hyps(3) by (auto simp: cmd_Flag_def upd_node_def)
  then have same: "same_tree (cs_heap st) (cs_heap st')"
    using built_Flag.hyps(2) by (auto simp: same_tree_def nth_list_update)
  have "tree_inv st' kids"
    using inv represents_same_tree [OF _ same] st' built_Flag.hyps(2)
    by (auto simp: tree_inv_def nth_list_update)
  then show ?case by blast
qed

subsection \<open>Parsing ends without a panic\<close>

lemma writeCommands_chain: "chain h n ps \<Longrightarrow> \<exists>rows'. writeCommands h n rows = Some rows'"
proof (induction arbitrary: rows rule: chain.induct)
  case chain_end
  then show ?case by (subst writeCommands.simps) simp
next
  case (chain_link p ps)
  then show ?case by (subst writeCommands.simps) simp
qed

lemma writeHelp_returns:
  assumes "represents (cs_heap st) kids" and "p < length (cs_heap st)"
  shows "\<exists>e w. writeHelp env st p = Some (e, st\<lparr>cs_world := w\<rparr>)"
proof -
  obtain rows where "writeCommands (cs_heap st) (n_child (node st p)) [] = Some rows"
    using writeCommands_chain [OF representsD(1) [OF assms]] by blast
  moreover obtain e w where "emit_all env
     ([OUsage (Join (n_prefix (node st p) @ [n_name (node st p)]) '' '') (n_suffix (node st p))]
      @ (if n_child (node st p) \<noteq> None then [OCommands] else []) @ [OTable rows, ONewline])
     (cs_world st) = (e, w)"
    by (rule prod.exhaust)
  ultimately show ?thesis
    unfolding writeHelp_def by (simp only: option.case prod.case) blast
qed

lemma set_Usage_returns:
  assumes "represents (cs_heap st) kids" and "p < length (cs_heap st)"
  shows "\<exists>w. set_Usage env st p = Some (st\<lparr>cs_world := w\<rparr>)"
  using writeHelp_returns [OF assms, of env] by (auto simp: set_Usage_def print_def)

definition set_parsed :: "nat \<Rightarrow> string list \<Rightarrow> 'h cnode list \<Rightarrow> 'h cnode list" where
  "set_parsed p args h = h[p := (h ! p)\<lparr>n_parsed := True, n_args := args\<rparr>]"

lemma same_tree_set_parsed: "p < length h \<Longrightarrow> same_tree h (set_parsed p args h)"
  by (auto simp: same_tree_def set_parsed_def nth_list_update)

lemma set_Parse_returns:
  assumes "represents (cs_heap st) kids" and "p < length (cs_heap st)"
    and "flag_Parse (n_formal (node st p)) arguments (cs_vars st) = (e, args, vars)"
  shows "\<exists>w. set_Parse env st p arguments =
     Some (e, st\<lparr>cs_heap := set_parsed p args (cs_heap st), cs_vars := vars, cs_world := w\<rparr>) \<and>
     (e = None \<longrightarrow> w = cs_world st)"
proof -
  let ?st = "st\<lparr>cs_heap := set_parsed p args (cs_heap st), cs_vars := vars\<rparr>"
  have rep: "represents (set_parsed p args (cs_heap st)) kids"
    by (rule represents_same_tree [OF assms(1) same_tree_set_parsed [OF assms(2)]])
  have usage: "\<exists>w. set_Usage env (?st\<lparr>cs_world := v\<rparr>) p = Some (?st\<lparr>cs_world := w\<rparr>)" for v
    using set_Usage_returns [of "?st\<lparr>cs_world := v\<rparr>" kids p env] rep assms(2) by (auto simp: set_parsed_def)
  have "print env x ?st = ?st\<lparr>cs_world := snd (emit env x (cs_world st))\<rparr>" for x
    by (simp add: print_def)
  note print = this
  have st: "(upd_node p (\<lambda>x. x\<lparr>n_parsed := True, n_args := args\<rparr>) st)\<lparr>cs_vars := vars\<rparr> = ?st"
    by (simp add: upd_node_def set_parsed_def)
  show ?thesis
  proof (cases e)
    case None
    with assms(3) st show ?thesis by (simp add: set_Parse_def)
  next
    case (Some err)
    obtain w where "set_Usage env (if err = FlagHelp then ?st else print env (OFlagError err) ?st) p
      = Some (?st\<lparr>cs_world := w\<rparr>)"
      using usage [of "cs_world st"] usage [of "snd (emit env (OFlagError err) (cs_world st))"]
      unfolding print by (cases "err = FlagHelp") auto
    with Some assms(3) st show ?thesis by (simp add: set_Parse_def) blast
  qed
qed

text \<open>The prefix handed to the first child before the flags are parsed.\<close>

definition hand_prefix :: "nat \<Rightarrow> 'h cnode list \<Rightarrow> 'h cnode list" where
  "hand_prefix n h =
     (case n_child (h ! n) of
        Some c \<Rightarrow> h[c := (h ! c)\<lparr>n_prefix := n_prefix (h ! n) @ [n_name (h ! n)]\<rparr>]
      | None \<Rightarrow> h)"

lemma nth_update: "p < length h \<Longrightarrow> h[c := x] ! p = (if c = p then x else h ! p)"
  by simp

lemma hand_prefix_nth:
  "p < length h \<Longrightarrow> n_child (hand_prefix n h ! p) = n_child (h ! p) \<and> n_next (hand_prefix n h ! p) = n_next (h ! p)
     \<and> n_name (hand_prefix n h ! p) = n_name (h ! p) \<and> n_usage (hand_prefix n h ! p) = n_usage (h ! p)
     \<and> n_f (hand_prefix n h ! p) = n_f (h ! p) \<and> n_parsed (hand_prefix n h ! p) = n_parsed (h ! p)
     \<and> n_formal (hand_prefix n h ! p) = n_formal (h ! p)"
  by (simp add: hand_prefix_def nth_update split: option.split)

lemma length_hand_prefix [simp]: "length (hand_prefix n h) = length h"
  by (simp add: hand_prefix_def split: option.splits)

lemma length_set_parsed [simp]: "length (set_parsed n args h) = length h"
  by (simp add: set_parsed_def)

lemma same_tree_hand_prefix: "same_tree h (hand_prefix n h)"
  by (simp add: same_tree_def hand_prefix_nth)

text \<open>The state after the flags of a matched node are parsed, and what its match comes to.\<close>

definition matched :: "nat \<Rightarrow> string list \<Rightarrow> vars \<Rightarrow> ('h, 'w) cstate \<Rightarrow> ('h, 'w) cstate" where
  "matched n args vars st = st\<lparr>cs_heap := set_parsed n args (hand_prefix n (cs_heap st)), cs_vars := vars\<rparr>"

lemma parse_match_flags:
  assumes "represents (cs_heap st) kids" and "n < length (cs_heap st)" and "\<not> n_parsed (node st n)"
    and "flag_Parse (n_formal (node st n)) arguments (cs_vars st) = (e, args, vars)"
  shows "parse_match env st n arguments =
    (case e of
       Some err \<Rightarrow>
         map_option (\<lambda>(e, st). PReturn (Ret (Some (FlagError err), st)))
           (set_Parse env (st\<lparr>cs_heap := hand_prefix n (cs_heap st)\<rparr>) n arguments)
     | None \<Rightarrow>
         let st' = matched n args vars st in
         (case n_child (node st n) of
            Some c \<Rightarrow>
              (case n_f (node st n) of
                 Some h \<Rightarrow>
                   if n_usage (node st n) \<noteq> [] then Some (PReturn (Panic ''invalid subcommand tree state''))
                   else (case call_f env st' h [] of
                           (Some e, st) \<Rightarrow> Some (PReturn (Ret (Some e, st)))
                         | (None, st) \<Rightarrow> parse_children env st n c args)
               | None \<Rightarrow> parse_children env st' n c args)
          | None \<Rightarrow>
              (case n_f (node st n) of
                 None \<Rightarrow> Some (PReturn (Ret (Some ErrEmptyTree, print env (ONoSubcommands (n_name (node st n))) st')))
               | Some h \<Rightarrow> Some (PReturn (Ret (call_f env st' h args))))))"
proof -
  let ?st = "st\<lparr>cs_heap := hand_prefix n (cs_heap st)\<rparr>"
  have st: "(case n_child (node st n) of
        Some c \<Rightarrow> upd_node c (n_prefix_update (\<lambda>_. n_prefix (node st n) @ [n_name (node st n)])) st
      | None \<Rightarrow> st) = ?st"
    by (simp add: hand_prefix_def upd_node_def split: option.splits)
  have formal: "n_formal (node ?st n) = n_formal (node st n)"
    using hand_prefix_nth [OF assms(2), of n] by simp
  have "represents (cs_heap ?st) kids"
    using represents_same_tree [OF assms(1) same_tree_hand_prefix] by simp
  then obtain w where set: "set_Parse env ?st n arguments =
     Some (e, ?st\<lparr>cs_heap := set_parsed n args (cs_heap ?st), cs_vars := vars, cs_world := w\<rparr>)"
     "e = None \<longrightarrow> w = cs_world st"
    using set_Parse_returns [of ?st kids n arguments e args vars env] assms(2,4) formal by auto
  have args: "n_args (set_parsed n args (hand_prefix n (cs_heap st)) ! n) = args"
    using assms(2) by (simp add: set_parsed_def)
  show ?thesis
    unfolding parse_match_def Let_def st using assms(3) set args
    by (cases e; cases "n_child (node st n)"; cases "n_f (node st n)") (simp_all add: matched_def split: option.split prod.split)
qed

text \<open>\<open>ready n st\<close>: the nodes made after \<open>n\<close> have not been parsed and are well formed.\<close>

definition ready :: "nat \<Rightarrow> ('h, 'w) cstate \<Rightarrow> bool" where
  "ready n st \<longleftrightarrow> (\<forall>q. n < q \<and> q < length (cs_heap st) \<longrightarrow>
     \<not> n_parsed (node st q) \<and> n_usage (node st q) \<noteq> [] \<and>
     (n_f (node st q) \<noteq> None \<longrightarrow> n_child (node st q) = None))"

definition later :: "nat \<Rightarrow> ('h, 'w) cstate \<Rightarrow> ('h, 'w) cstate \<Rightarrow> bool" where
  "later n st st' \<longleftrightarrow> same_tree (cs_heap st) (cs_heap st') \<and>
     (\<forall>q < length (cs_heap st). q \<noteq> n \<longrightarrow> n_parsed (node st' q) = n_parsed (node st q))"

lemma ready_later: "ready m st \<Longrightarrow> later n st st' \<Longrightarrow> m \<le> n \<Longrightarrow> ready n st'"
  by (auto simp: ready_def later_def same_tree_def)

lemma later_matched:
  assumes "n < length (cs_heap st)" and "cs_heap st' = cs_heap (matched n args vars st)"
  shows "later n st st'"
proof -
  have "same_tree (cs_heap st) (cs_heap st')"
    unfolding assms(2) matched_def using same_tree_trans [OF same_tree_hand_prefix same_tree_set_parsed] assms(1)
    by simp
  then show ?thesis
    using assms(2) by (simp add: later_def matched_def set_parsed_def nth_update hand_prefix_nth)
qed

lemma call_f_heap: "call_f env st h args = (e, st') \<Longrightarrow> cs_heap st' = cs_heap st"
  by (auto simp: call_f_def split: prod.splits)

lemma parse_children_returns:
  assumes "represents (cs_heap st) kids" and "n < length (cs_heap st)"
  shows "(\<exists>err st'. parse_children env st n c args = Some (PReturn (Ret (err, st')))) \<or>
     (\<exists>a rest. parse_children env st n c args = Some (PCall st c (a # rest)))"
  using writeHelp_returns [OF assms, of env] by (cases args) (auto simp: parse_children_def)

lemma parse_match_returns:
  assumes rep: "represents (cs_heap st) kids" and n: "n < length (cs_heap st)" and "\<not> n_parsed (node st n)"
    and "n_f (node st n) = None \<or> n_child (node st n) = None \<or> n_usage (node st n) = []"
  shows "(\<exists>err st'. parse_match env st n arguments = Some (PReturn (Ret (err, st')))) \<or>
     (\<exists>st' c a rest. parse_match env st n arguments = Some (PCall st' c (a # rest)) \<and>
        n_child (node st n) = Some c \<and> later n st st')"
proof -
  obtain e args vars where flags: "flag_Parse (n_formal (node st n)) arguments (cs_vars st) = (e, args, vars)"
    using prod_cases3 by blast
  note eq = parse_match_flags [OF rep n assms(3) flags, of env]
  show ?thesis
  proof (cases e)
    case (Some err)
    let ?st = "st\<lparr>cs_heap := hand_prefix n (cs_heap st)\<rparr>"
    have "represents (cs_heap ?st) kids" "n < length (cs_heap ?st)"
      "flag_Parse (n_formal (node ?st n)) arguments (cs_vars ?st) = (e, args, vars)"
      using flags n represents_same_tree [OF rep same_tree_hand_prefix] by (simp_all add: hand_prefix_nth)
    from set_Parse_returns [OF this, of env]
    obtain st' where "set_Parse env ?st n arguments = Some (e, st')"
      by blast
    with Some eq show ?thesis by simp
  next
    case None
    have children: ?thesis
      if "parse_match env st n arguments = parse_children env st' n c args"
        "cs_heap st' = cs_heap (matched n args vars st)" "n_child (node st n) = Some c" for st' c
    proof -
      have later: "later n st st'"
        by (rule later_matched [OF n that(2)])
      then have "represents (cs_heap st') kids" "n < length (cs_heap st')"
        using represents_same_tree [OF rep] n by (auto simp: later_def same_tree_def)
      from parse_children_returns [OF this] later that show ?thesis by metis
    qed
    show ?thesis
    proof (cases "n_child (node st n)")
      case None
      with \<open>e = None\<close> eq show ?thesis
        by (cases "n_f (node st n)"; cases "call_f env (matched n args vars st) (the (n_f (node st n))) args")
          (auto simp: Let_def)
    next
      case (Some c)
      show ?thesis
      proof (cases "n_f (node st n)")
        case None
        with Some \<open>e = None\<close> eq show ?thesis by (intro children) (auto simp: Let_def)
      next
        case (Some h)
        obtain r st' where call: "call_f env (matched n args vars st) h [] = (r, st')"
          by fastforce
        with Some \<open>n_child (node st n) = Some c\<close> \<open>e = None\<close> eq assms(4) children [of st' c] call_f_heap [OF call]
        show ?thesis by (cases r) (auto simp: Let_def)
      qed
    qed
  qed
qed

text \<open>Walking the siblings only hands on the prefix: \<open>only_prefix st st'\<close> says that nothing else is
  changed.\<close>

definition only_prefix :: "('h, 'w) cstate \<Rightarrow> ('h, 'w) cstate \<Rightarrow> bool" where
  "only_prefix st st' \<longleftrightarrow> cs_vars st' = cs_vars st \<and> cs_world st' = cs_world st \<and>
     same_tree (cs_heap st) (cs_heap st') \<and>
     (\<forall>q < length (cs_heap st). n_parsed (node st' q) = n_parsed (node st q) \<and> n_formal (node st' q) = n_formal (node st q))"

lemma only_prefix_refl [simp]: "only_prefix st st"
  by (simp add: only_prefix_def)

lemma only_prefix_trans: "only_prefix st st' \<Longrightarrow> only_prefix st' st'' \<Longrightarrow> only_prefix st st''"
  by (simp add: only_prefix_def same_tree_def)

lemma only_prefix_upd: "only_prefix st (upd_node q (n_prefix_update g) st)"
  by (simp add: only_prefix_def upd_node_def same_tree_def nth_update)

definition resume ::
  "('h, 'e, 'w) cenv \<Rightarrow> ('h, 'e, 'w) pstep option \<Rightarrow> (unit, 'e cmd_error option \<times> ('h, 'w) cstate) go option" where
  "resume env r =
     (case r of
        None \<Rightarrow> None
      | Some (PReturn x) \<Rightarrow> Some x
      | Some (PCall st q args) \<Rightarrow> cmd_Parse env st q args)"

lemma cmd_Parse_resume: "cmd_Parse env st n arguments = resume env (parse_step env st n arguments)"
  by (subst cmd_Parse.simps) (simp add: resume_def)

text \<open>Among siblings the node is matched that has the name.\<close>

lemma Parse_walk:
  assumes "chain (cs_heap st) (Some c) ps"
    and "\<And>q. q \<in> set ps \<Longrightarrow> q < length (cs_heap st) \<and> n_usage (node st q) \<noteq> []"
  shows "\<exists>st'. only_prefix st st' \<and> cmd_Parse env st c (a # rest) =
     (case find (\<lambda>q. n_name (node st q) = a) ps of
        None \<Rightarrow> Some (Ret (Some ErrNoMatch, print env (ONotValid a) st'))
      | Some q \<Rightarrow> resume env (parse_match env st' q rest))"
  using assms
proof (induction ps arbitrary: c st rule: list.induct)
  case (Cons p ps)
  then have p: "p = c" "chain (cs_heap st) (n_next (node st c)) ps"
    and c: "c < length (cs_heap st)" "n_usage (node st c) \<noteq> []"
    by auto
  consider "n_name (node st c) = a" | "n_name (node st c) \<noteq> a" "n_next (node st c) = None"
    | q where "n_name (node st c) \<noteq> a" "n_next (node st c) = Some q"
    by (cases "n_next (node st c)") auto
  then show ?case
  proof cases
    case 3
    let ?st = "upd_node q (n_prefix_update (\<lambda>_. n_prefix (node st c))) st"
    have upd: "only_prefix st ?st"
      by (rule only_prefix_upd)
    then have tree: "same_tree (cs_heap st) (cs_heap ?st)"
      by (simp add: only_prefix_def)
    have range: "r < length (cs_heap st)" if "r \<in> set ps" for r
      using Cons.prems(2) that by simp
    have ch: "chain (cs_heap ?st) (Some q) ps"
      using p(2) range same_treeD(3) [OF tree] unfolding 3(2) by (elim chain_cong) simp
    have us: "r < length (cs_heap ?st) \<and> n_usage (node ?st r) \<noteq> []" if "r \<in> set ps" for r
      using Cons.prems(2) that same_treeD(1,5) [OF tree] by simp
    from Cons.IH [OF ch us] obtain st' where st': "only_prefix ?st st'" "cmd_Parse env ?st q (a # rest) =
       (case find (\<lambda>q. n_name (node ?st q) = a) ps of
          None \<Rightarrow> Some (Ret (Some ErrNoMatch, print env (ONotValid a) st'))
        | Some q \<Rightarrow> resume env (parse_match env st' q rest))"
      by meson
    have "find (\<lambda>q. n_name (node ?st q) = a) ps = find (\<lambda>q. n_name (node st q) = a) ps"
      using range same_treeD(4) [OF tree] by (auto intro: find_cong)
    moreover have "cmd_Parse env st c (a # rest) = cmd_Parse env ?st q (a # rest)"
      using 3 c by (subst cmd_Parse.simps) (simp add: parse_step_def Let_def)
    ultimately show ?thesis
      using st' 3 p(1) only_prefix_trans [OF upd] by auto
  qed (use p c in \<open>auto simp: cmd_Parse_resume parse_step_def Let_def resume_def intro!: exI [of _ st]\<close>)
qed auto

lemma only_prefix_later: "only_prefix st st' \<Longrightarrow> ready n st \<Longrightarrow> ready n st'"
  by (auto simp: only_prefix_def ready_def same_tree_def)

lemma Parse_siblings:
  assumes "represents (cs_heap st) kids" and "ready n st" and "chain (cs_heap st) (Some c) (kids n)"
    and "n < length (cs_heap st)"
  shows "\<exists>err st'. cmd_Parse env st c (a # rest) = Some (Ret (err, st'))"
  using assms
proof (induction "length (cs_heap st) - n" arbitrary: n st c a rest rule: less_induct)
  case less
  have kid: "n < q \<and> q < length (cs_heap st)" if "q \<in> set (kids n)" for q
    by (rule representsD(4) [OF less.prems(1,4) that])
  with less.prems(2) have "n_usage (node st q) \<noteq> []" if "q \<in> set (kids n)" for q
    using that by (simp add: ready_def)
  with kid Parse_walk [OF less.prems(3), where env = env and a = a and rest = rest]
  obtain st1 where st1: "only_prefix st st1" and walk: "cmd_Parse env st c (a # rest) =
     (case find (\<lambda>q. n_name (node st q) = a) (kids n) of
        None \<Rightarrow> Some (Ret (Some ErrNoMatch, print env (ONotValid a) st1))
      | Some q \<Rightarrow> resume env (parse_match env st1 q rest))"
    by blast
  show ?case
  proof (cases "find (\<lambda>q. n_name (node st q) = a) (kids n)")
    case None
    with walk show ?thesis by simp
  next
    case (Some q)
    then have q: "n < q" "q < length (cs_heap st1)" "q < length (cs_heap st)"
      using kid st1 by (auto simp: find_Some_iff only_prefix_def same_tree_def)
    have rep: "represents (cs_heap st1) kids"
      using represents_same_tree [OF less.prems(1)] st1 by (simp add: only_prefix_def)
    have ready: "ready n st1"
      by (rule only_prefix_later [OF st1 less.prems(2)])
    then have "\<not> n_parsed (node st1 q)" "n_f (node st1 q) = None \<or> n_child (node st1 q) = None"
      using q by (auto simp: ready_def)
    with parse_match_returns [OF rep q(2)] consider
        err st' where "parse_match env st1 q rest = Some (PReturn (Ret (err, st')))"
      | st' c' a' rest' where "parse_match env st1 q rest = Some (PCall st' c' (a' # rest'))"
          "n_child (node st1 q) = Some c'" "later q st1 st'"
      by metis
    then show ?thesis
    proof cases
      case 1
      with walk Some show ?thesis by (simp add: resume_def)
    next
      case 2
      have rep': "represents (cs_heap st') kids" and len: "length (cs_heap st') = length (cs_heap st)"
        using represents_same_tree [OF rep] 2(3) st1 by (auto simp: later_def only_prefix_def same_tree_def)
      moreover have "chain (cs_heap st') (Some c') (kids q)"
        using representsD(1) [OF rep', of q] 2(2,3) q by (simp add: later_def same_tree_def)
      moreover have "ready q st'"
        using ready_later [OF ready 2(3)] q by simp
      ultimately have "\<exists>err st''. cmd_Parse env st' c' (a' # rest') = Some (Ret (err, st''))"
        using less.hyps [of st' q c'] q by simp
      with walk Some 2(1) show ?thesis by (simp add: resume_def)
    qed
  qed
qed

lemma cmd_Parse_total:
  assumes "built st"
  shows "\<exists>err st'. cmd_Parse env st 0 arguments = Some (Ret (err, st'))"
proof -
  obtain kids where inv: "tree_inv st kids"
    using built_tree_inv [OF assms] by blast
  then have rep: "represents (cs_heap st) kids" and root: "0 < length (cs_heap st)"
    "\<not> n_parsed (node st 0)" "n_usage (node st 0) = []" "n_next (node st 0) = None"
    by (auto simp: tree_inv_def)
  have ready: "ready 0 st"
    using inv by (simp add: tree_inv_def ready_def)
  have step: "cmd_Parse env st 0 arguments = resume env (parse_match env st 0 arguments)"
    using root by (simp add: cmd_Parse_resume parse_step_def Let_def)
  from parse_match_returns [OF rep root(1,2)] root(3) consider
      err st' where "parse_match env st 0 arguments = Some (PReturn (Ret (err, st')))"
    | st' c a rest where "parse_match env st 0 arguments = Some (PCall st' c (a # rest))"
        "n_child (node st 0) = Some c" "later 0 st st'"
    by metis
  then show ?thesis
  proof cases
    case 1
    with step show ?thesis by (simp add: resume_def)
  next
    case 2
    have rep': "represents (cs_heap st') kids" and len: "0 < length (cs_heap st')"
      using represents_same_tree [OF rep] 2(3) root(1) by (auto simp: later_def same_tree_def)
    have "chain (cs_heap st') (Some c) (kids 0)"
      using representsD(1) [OF rep' len] 2(2,3) root(1) by (simp add: later_def same_tree_def)
    then have "\<exists>err st''. cmd_Parse env st' c (a # rest) = Some (Ret (err, st''))"
      using Parse_siblings [OF rep' ready_later [OF ready 2(3)] _ len] by simp
    with step 2(1) show ?thesis by (simp add: resume_def)
  qed
qed

text \<open>C15: On every tree a program builds with \<open>New\<close>, \<open>Command\<close>, \<open>NewCommand\<close> and \<open>Flag\<close>, adding
  subcommands only to the root and to nodes without a handler, \<open>Parse\<close> returns for all arguments,
  whatever the handlers and the writer do: the walk over the nodes ends and none of the panics of the
  parser is reached.\<close>

theorem cmd_Parse_returns:
  assumes "built st"
  shows "\<exists>err st'. cmd_Parse env st 0 arguments = Some (Ret (err, st'))"
  by (rule cmd_Parse_total [OF assms])

subsection \<open>Every command is reached by its names\<close>

text \<open>\<open>leads h n names p\<close>: descending from \<open>n\<close> by the names of subcommands leads to \<open>p\<close>.\<close>

inductive leads :: "'h cnode list \<Rightarrow> nat \<Rightarrow> string list \<Rightarrow> nat \<Rightarrow> bool" for h where
  leads_here: "leads h n [] n"
| leads_down: "chain h (n_child (h ! n)) ps \<Longrightarrow> q \<in> set ps \<Longrightarrow> leads h q names p \<Longrightarrow>
    leads h n (n_name (h ! q) # names) p"

inductive_cases leads_NilE: "leads h n [] p"
inductive_cases leads_ConsE: "leads h n (a # names) p"

lemma chain_unique: "chain h n ps \<Longrightarrow> chain h n qs \<Longrightarrow> ps = qs"
proof (induction arbitrary: qs rule: chain.induct)
  case chain_end
  then show ?case by (cases rule: chain.cases) simp
next
  case (chain_link p ps)
  from chain_link.prems obtain qs' where "qs = p # qs'" and "chain h (n_next (h ! p)) qs'"
    by (cases rule: chain.cases) simp
  with chain_link.IH show ?case by simp
qed

text \<open>An argument at which the parser of flags stops.\<close>

definition not_flag :: "string \<Rightarrow> bool" where
  "not_flag s \<longleftrightarrow> length s < 2 \<or> hd s \<noteq> CHR ''-''"

lemma flag_Parse_stop: "not_flag a \<Longrightarrow> flag_Parse formal (a # rest) vars = (None, a # rest, vars)"
  by (subst flag_Parse.simps) (auto simp: parseOne_def not_flag_def)

definition like :: "'h cnode list \<Rightarrow> ('h, 'w) cstate \<Rightarrow> bool" where
  "like h st \<longleftrightarrow> same_tree h (cs_heap st) \<and> (\<forall>q < length h. n_formal (node st q) = n_formal (h ! q))"

lemma like_only_prefix:
  assumes "like h st" and "only_prefix st st'"
  shows "like h st'"
proof -
  have "same_tree h (cs_heap st')"
    using assms same_tree_trans unfolding like_def only_prefix_def by blast
  moreover have "length (cs_heap st) = length h"
    using assms(1) by (simp add: like_def same_tree_def)
  ultimately show ?thesis
    using assms unfolding like_def only_prefix_def by simp
qed

lemma like_matched:
  assumes "like h st" and "n < length h"
  shows "like h (matched n args vars st)"
proof -
  have n: "n < length (cs_heap st)" and len: "length (cs_heap st) = length h"
    using assms by (simp_all add: like_def same_tree_def)
  have "same_tree (cs_heap st) (cs_heap (matched n args vars st))"
    using later_matched [OF n refl] by (simp add: later_def)
  then have "same_tree h (cs_heap (matched n args vars st))"
    using assms(1) by (auto simp: like_def elim: same_tree_trans)
  moreover have "n_formal (node (matched n args vars st) q) = n_formal (node st q)" if "q < length h" for q
    using that len by (simp add: matched_def set_parsed_def nth_update hand_prefix_nth)
  ultimately show ?thesis
    using assms(1) by (simp add: like_def)
qed

text \<open>The outcome of a command: that of its handler, which gets the arguments left after its flags.\<close>

definition handled ::
  "('h, 'e, 'w) cenv \<Rightarrow> 'h \<Rightarrow> string list \<Rightarrow> vars \<Rightarrow> 'w \<Rightarrow> (unit, 'e cmd_error option \<times> ('h, 'w) cstate) go option \<Rightarrow> bool" where
  "handled env h args vars w r \<longleftrightarrow>
     (\<exists>st'. r = Some (Ret (fst (call_handler env h args vars w), st')) \<and>
        cs_vars st' = fst (snd (call_handler env h args vars w)) \<and>
        cs_world st' = snd (snd (call_handler env h args vars w)))"

lemma find_unique:
  "distinct (map f xs) \<Longrightarrow> x \<in> set xs \<Longrightarrow> find (\<lambda>y. f y = f x) xs = Some x"
  by (induction xs) (auto simp: image_iff)

lemma resume_handled:
  assumes "n_child (node st q) = None" and "n_f (node st q) = Some h" and "\<not> n_parsed (node st q)"
    and "represents (cs_heap st) kids" and "q < length (cs_heap st)"
    and "flag_Parse (n_formal (node st q)) rest (cs_vars st) = (None, args, vars)"
  shows "handled env h args vars (cs_world st) (resume env (parse_match env st q rest))"
  using parse_match_flags [OF assms(4,5,3,6), of env] assms(1,2)
  by (auto simp: resume_def handled_def call_f_def matched_def Let_def split: prod.splits)

lemma Parse_walk_to:
  assumes rep: "represents h kids" and n: "n < length h" and q: "q \<in> set (kids n)"
    and st: "like h st" "ready n st" and chain: "chain (cs_heap st) (Some c) (kids n)"
  shows "\<exists>st1. only_prefix st st1 \<and> cmd_Parse env st c (n_name (h ! q) # rest) = resume env (parse_match env st1 q rest)"
proof -
  have len: "length (cs_heap st) = length h" and name: "r < length h \<Longrightarrow> n_name (node st r) = n_name (h ! r)" for r
    using st(1) by (simp_all add: like_def same_tree_def)
  have kid: "n < r \<and> r < length h" if "r \<in> set (kids n)" for r
    by (rule representsD(4) [OF rep n that])
  then have "r < length (cs_heap st) \<and> n_usage (node st r) \<noteq> []" if "r \<in> set (kids n)" for r
    using that len st(2) by (simp add: ready_def)
  from Parse_walk [OF chain this, of env "n_name (h ! q)" rest]
  obtain st1 where "only_prefix st st1" and walk: "cmd_Parse env st c (n_name (h ! q) # rest) =
     (case find (\<lambda>r. n_name (node st r) = n_name (h ! q)) (kids n) of
        None \<Rightarrow> Some (Ret (Some ErrNoMatch, print env (ONotValid (n_name (h ! q))) st1))
      | Some r \<Rightarrow> resume env (parse_match env st1 r rest))"
    by meson
  moreover have "find (\<lambda>r. n_name (node st r) = n_name (h ! q)) (kids n) = Some q"
    using find_unique [OF representsD(2) [OF rep n] q] kid name by (metis (mono_tags, lifting) find_cong)
  ultimately show ?thesis by auto
qed

lemma Parse_leads:
  assumes "leads h q names p" and "represents h kids" and "n < length h" and "q \<in> set (kids n)"
    and "like h st" and "ready n st" and "chain (cs_heap st) (Some c) (kids n)"
    and "\<forall>a \<in> set names. not_flag a" and "n_child (h ! p) = None" and "n_f (h ! p) = Some hf"
    and "flag_Parse (n_formal (h ! p)) rest (cs_vars st) = (None, args, vars)"
  shows "handled env hf args vars (cs_world st) (cmd_Parse env st c (n_name (h ! q) # names @ rest))"
  using assms
proof (induction names arbitrary: n q st c rule: list.induct)
  case Nil
  note prems = Nil.prems
  obtain st1 where st1: "only_prefix st st1"
    and walk: "cmd_Parse env st c (n_name (h ! q) # rest) = resume env (parse_match env st1 q rest)"
    using Parse_walk_to [OF prems(2-7)] by blast
  have q: "p = q" "n < q" "q < length h"
    using prems(1) representsD(4) [OF prems(2-4)] by (auto elim: leads_NilE)
  have like: "like h st1" and ready: "ready n st1" and same: "cs_vars st1 = cs_vars st" "cs_world st1 = cs_world st"
    using like_only_prefix [OF prems(5) st1] only_prefix_later [OF st1 prems(6)] st1 by (simp_all add: only_prefix_def)
  have "represents (cs_heap st1) kids"
    using represents_same_tree [OF prems(2)] like by (simp add: like_def)
  with resume_handled [of st1 q hf kids rest args vars env] prems(9-11) q like ready same
  show ?case by (simp add: walk like_def same_tree_def ready_def)
next
  case (Cons a names)
  note prems = Cons.prems
  obtain st1 where st1: "only_prefix st st1" and walk: "cmd_Parse env st c (n_name (h ! q) # (a # names) @ rest)
      = resume env (parse_match env st1 q ((a # names) @ rest))"
    using Parse_walk_to [OF prems(2-7)] by blast
  have q: "n < q" "q < length h"
    using representsD(4) [OF prems(2-4)] by auto
  have like: "like h st1" and ready: "ready n st1" and same: "cs_vars st1 = cs_vars st" "cs_world st1 = cs_world st"
    using like_only_prefix [OF prems(5) st1] only_prefix_later [OF st1 prems(6)] st1 by (simp_all add: only_prefix_def)
  have rep1: "represents (cs_heap st1) kids" and q1: "q < length (cs_heap st1)"
    using represents_same_tree [OF prems(2)] like q by (simp_all add: like_def same_tree_def)
  obtain r where r: "a = n_name (h ! r)" "r \<in> set (kids q)" "leads h r names p"
    using prems(1) chain_unique [OF representsD(1) [OF prems(2) q(2)]] by (auto elim!: leads_ConsE)
  then obtain c' where c': "n_child (node st1 q) = Some c'" "n_f (node st1 q) = None" "\<not> n_parsed (node st1 q)"
    using representsD(1) [OF rep1 q1] ready q q1 by (cases "n_child (node st1 q)") (auto simp: ready_def)
  let ?st = "matched q ((a # names) @ rest) (cs_vars st1) st1"
  have flags: "flag_Parse (n_formal (node st1 q)) ((a # names) @ rest) (cs_vars st1) = (None, (a # names) @ rest, cs_vars st1)"
    using prems(8) by (simp add: flag_Parse_stop)
  have "parse_match env st1 q ((a # names) @ rest) = Some (PCall ?st c' ((a # names) @ rest))"
    using parse_match_flags [OF rep1 q1 c'(3) flags, of env] c' by (simp add: Let_def parse_children_def)
  then have walk': "cmd_Parse env st c (n_name (h ! q) # (a # names) @ rest) = cmd_Parse env ?st c' (n_name (h ! r) # names @ rest)"
    using walk r(1) by (simp add: resume_def)
  have later: "later q st1 ?st"
    by (rule later_matched [OF q1 refl])
  have "chain (cs_heap ?st) (n_child (node ?st q)) (kids q)"
    using representsD(1) [OF represents_same_tree [OF rep1], of "cs_heap ?st" q] later q1
    by (simp add: later_def same_tree_def)
  then have "chain (cs_heap ?st) (Some c') (kids q)"
    using later c'(1) q1 by (simp add: later_def same_tree_def)
  from Cons.IH [OF r(3) prems(2) q(2) r(2) like_matched [OF like q(2)] ready_later [OF ready later] this]
  show ?case
    using prems(8-11) q same unfolding walk' by (simp add: matched_def)
qed

text \<open>The handler of the root runs before any subcommand.\<close>

definition early ::
  "('h, 'e, 'w) cenv \<Rightarrow> ('h, 'w) cstate \<Rightarrow> 'e cmd_error option \<times> vars \<times> 'w" where
  "early env st =
     (case n_f (node st 0) of
        None \<Rightarrow> (None, cs_vars st, cs_world st)
      | Some h \<Rightarrow> call_handler env h [] (cs_vars st) (cs_world st))"

lemma Parse_root:
  assumes inv: "tree_inv st kids" and a: "not_flag a" and child: "n_child (node st 0) = Some c"
    and early: "early env st = (None, vars, w)"
  shows "cmd_Parse env st 0 (a # rest) =
    cmd_Parse env ((matched 0 (a # rest) vars st)\<lparr>cs_world := w\<rparr>) c (a # rest)"
proof -
  have rep: "represents (cs_heap st) kids" and root: "0 < length (cs_heap st)" "\<not> n_parsed (node st 0)"
    "n_usage (node st 0) = []" "n_next (node st 0) = None"
    using inv by (auto simp: tree_inv_def)
  have "parse_match env st 0 (a # rest) =
    Some (PCall ((matched 0 (a # rest) vars st)\<lparr>cs_world := w\<rparr>) c (a # rest))"
    using parse_match_flags [OF rep root(1,2) flag_Parse_stop [OF a], of env] child root(3) early
    by (cases "n_f (node st 0)") (auto simp: Let_def parse_children_def early_def call_f_def matched_def)
  then show ?thesis
    using root by (simp add: cmd_Parse_resume [of env st 0] parse_step_def Let_def resume_def)
qed

lemma cmd_Parse_dispatch_aux:
  assumes "built st" and "leads (cs_heap st) 0 (a # names) p" and "\<forall>x \<in> set (a # names). not_flag x"
    and "n_child (node st p) = None" and "n_f (node st p) = Some h"
    and "early env st = (None, vars0, w0)"
    and "flag_Parse (n_formal (node st p)) rest vars0 = (None, args, vars)"
  shows "handled env h args vars w0 (cmd_Parse env st 0 (a # names @ rest))"
proof -
  obtain kids where inv: "tree_inv st kids"
    using built_tree_inv [OF assms(1)] by blast
  then have rep: "represents (cs_heap st) kids" and root: "0 < length (cs_heap st)" and ready: "ready 0 st"
    by (auto simp: tree_inv_def ready_def)
  obtain q where q: "a = n_name (node st q)" "q \<in> set (kids 0)" "leads (cs_heap st) q names p"
    using assms(2) chain_unique [OF representsD(1) [OF rep root]] by (auto elim!: leads_ConsE)
  then obtain c where c: "n_child (node st 0) = Some c"
    using representsD(1) [OF rep root] by (cases "n_child (node st 0)") auto
  let ?st = "(matched 0 (a # names @ rest) vars0 st)\<lparr>cs_world := w0\<rparr>"
  have later: "later 0 st ?st"
    by (rule later_matched [OF root, where args = "a # names @ rest" and vars = vars0]) simp
  have like: "like (cs_heap st) ?st"
    using like_matched [of "cs_heap st" st 0 "a # names @ rest" vars0] root by (simp add: like_def)
  have "chain (cs_heap ?st) (n_child (node ?st 0)) (kids 0)"
    using representsD(1) [OF represents_same_tree [OF rep], of "cs_heap ?st" 0] later root
    by (simp add: later_def same_tree_def)
  then have "chain (cs_heap ?st) (Some c) (kids 0)"
    using later c root by (simp add: later_def same_tree_def)
  from Parse_leads [OF q(3) rep root q(2) like ready_later [OF ready later order_refl] this _ assms(4,5), of rest args vars env]
  show ?thesis
    using assms(3,7) Parse_root [OF inv _ c assms(6), of a "names @ rest"] q(1) by (simp add: matched_def)
qed

text \<open>Every command of a tree a program builds is reached by its names: when the names lead from
  the root to a command with a handler, none of them looks like a flag and the handler of the root
  succeeds, \<open>Parse\<close> of the names followed by the arguments of the command calls exactly its handler,
  with the arguments left after the flags of the command, which are stored in their variables, and
  returns what it returns. In particular no command is shadowed by another.\<close>

theorem cmd_Parse_dispatch:
  assumes "built st" and "leads (cs_heap st) 0 (a # names) p" and "\<forall>x \<in> set (a # names). not_flag x"
    and "n_child (node st p) = None" and "n_f (node st p) = Some h"
    and "early env st = (None, vars0, w0)"
    and "flag_Parse (n_formal (node st p)) rest vars0 = (None, args, vars)"
  shows "handled env h args vars w0 (cmd_Parse env st 0 (a # names @ rest))"
  by (rule cmd_Parse_dispatch_aux [OF assms])

text \<open>A tree with a subcommand \<open>a\<close> that has the command \<open>b\<close>, whose handler returns its arguments.\<close>

definition demo_tree :: "(unit, string list) cstate" where
  "demo_tree =
     (let st0 = cmd_New ''x'' None (\<lambda>_. FBool False) [];
          st1 = snd (the_ret (the (node_New st0 0 ''a'' ''tree'')))
      in snd (the_ret (the (node_NewCommand st1 1 ''b'' ''command'' (Some ())))))"

definition demo_env :: "(unit, unit, string list) cenv" where
  "demo_env = \<lparr>emit = \<lambda>_ w. (None, w), call_handler = \<lambda>_ args vars w. (None, vars, args)\<rparr>"

lemmas demo_defs = cmd_New_def newNode_def node_New_def node_NewCommand_def adopt_new_def node_adopt_def upd_node_def

lemma demo_tree_heap:
  "cs_heap demo_tree =
     [(newNode ''x'' [])\<lparr>n_child := Some 1\<rparr>, (newNode ''a'' ''tree'')\<lparr>n_child := Some 2\<rparr>,
      (newNode ''b'' ''command'')\<lparr>n_f := Some ()\<rparr>]"
  by (simp add: demo_tree_def demo_defs Let_def)

lemma built_demo_tree: "built demo_tree"
proof -
  let ?st0 = "cmd_New ''x'' None (\<lambda>_. FBool False) [] :: (unit, string list) cstate"
  obtain st1 where st1: "node_New ?st0 0 ''a'' ''tree'' = Some (Ret (1, st1))"
    by (simp add: demo_defs)
  have "built st1"
    by (rule built_Tree [OF built_New _ _ st1]) (simp_all add: demo_defs)
  moreover have "node_NewCommand st1 1 ''b'' ''command'' (Some ()) = Some (Ret (2, demo_tree))"
    using st1 by (auto simp: demo_tree_def demo_defs Let_def)
  moreover have "1 < length (cs_heap st1)" "n_f (node st1 1) = None"
    using st1 by (auto simp: demo_defs)
  ultimately show ?thesis
    by (blast intro: built_Command)
qed

theorem cmd_Parse_returns_witness:
  "\<exists>err st'. cmd_Parse demo_env demo_tree 0 [''a'', ''b'', ''--''] = Some (Ret (err, st'))"
  by (rule cmd_Parse_returns [OF built_demo_tree])

theorem cmd_Parse_dispatch_witness:
  "handled demo_env () [''c''] (\<lambda>_. FBool False) [] (cmd_Parse demo_env demo_tree 0 [''a'', ''b'', ''c''])"
proof -
  have "leads (cs_heap demo_tree) 0 [''a'', ''b''] 2"
  proof -
    let ?h = "cs_heap demo_tree"
    have chains: "chain ?h (n_child (?h ! 0)) [1]" "chain ?h (n_child (?h ! 1)) [2]"
      by (auto simp: demo_tree_heap newNode_def intro!: chain.intros)
    have "leads ?h 1 [n_name (?h ! 2)] 2"
      by (rule leads_down [OF chains(2) _ leads_here]) simp
    from leads_down [OF chains(1) _ this] show ?thesis
      by (simp add: demo_tree_heap newNode_def)
  qed
  from cmd_Parse_dispatch [OF built_demo_tree this, of "()" demo_env "\<lambda>_. FBool False" "[]" "[''c'']" "[''c'']" "\<lambda>_. FBool False"]
  show ?thesis
    by (simp add: not_flag_def demo_tree_heap newNode_def early_def flag_Parse_stop demo_tree_def demo_defs Let_def)
qed

text \<open>The state tested as unreachable, a node with both a handler and descendants, can be built: \<open>Flag\<close>
  on the result of \<open>NewCommand\<close> returns a \<open>Node\<close>, to which commands can be added.\<close>

theorem NewCommand_children_panic:
  fixes env :: "(unit, 'e, 'w) cenv"
  shows "\<exists>st1 st2 st3. node_NewCommand (cmd_New ''x'' None (\<lambda>_. FBool False) w) 0 ''a'' ''u'' (Some ()) = Some (Ret (1, st1)) \<and>
     cmd_Flag st1 1 0 ''v'' (BoolFlag False) ''u'' = Ret st2 \<and>
     node_NewCommand st2 1 ''b'' ''u'' (Some ()) = Some (Ret (2, st3)) \<and>
     cmd_Parse env st3 0 [''a''] = Some (Panic ''invalid subcommand tree state'')"
proof -
  have stop: "flag_Parse formal [] vars = (None, [], vars)" for formal vars
    by (subst flag_Parse.simps) (simp add: parseOne_def)
  have flag: "flag_Parse formal [''a''] vars = (None, [''a''], vars)" for formal vars
    by (rule flag_Parse_stop) (simp add: not_flag_def)
  show ?thesis
    by (simp add: demo_defs cmd_Flag_def Define_var_def type_assert_def set_Var_def set_Lookup_def HasPrefix_def
        prettyFlag_def)
      (simp add: cmd_Parse.simps parse_step_def parse_match_def parse_children_def set_Parse_def stop flag
        upd_node_def Let_def)
qed

end
