(* ===== verification/Store.thy ===== *)
theory Store
  imports Hst_Config
begin

text \<open>
  The package \<open>internal/store\<close>: the header of a state entry (\<open>header.go\<close>), the entry itself
  (\<open>data.go\<close>), segments (\<open>segment.go\<close>) and the store (\<open>store.go\<close>). The calls to the operating
  system and to \<open>lockedfile\<close> are the fields of the record \<open>storek\<close>, functions on a state \<open>'w\<close> of the
  host; \<open>encoding/gob\<close> is the pair \<open>gob_enc\<close>, \<open>gob_dec\<close>. An iterator is the list of what a complete
  iteration yields.
\<close>

subsection \<open>header.go\<close>

datatype store_cause =
    OsErr string | ReadEOF | HeaderInvalid string | HeaderRevision string | HeaderInconsistent
  | EntrySizeError string nat | EISDIR | GobErr string | ErrInvalid | ENOTDIR | ERANGE
  | AtoiErr num_error | IdErr id_error | UnexpectedDirectory string

definition entryHeaderMagic :: string where
  "entryHeaderMagic = [CHR 0x00, CHR 0xFF, CHR 0xCA, CHR 0xFE]"

definition entryHeaderRevision :: string where
  "entryHeaderRevision = [CHR 0x00, CHR 0x00]"

definition entryHeaderSize :: nat where
  "entryHeaderSize = length (entryHeaderMagic @ entryHeaderRevision) + 2"

definition byte_char :: "u8 \<Rightarrow> char" where
  "byte_char b = char_of (unat b)"

definition char_u8 :: "char \<Rightarrow> u8" where
  "char_u8 c = word_of_nat (of_char c)"

definition entryHeaderEncode :: "Enablement \<Rightarrow> string" where
  "entryHeaderEncode et = entryHeaderMagic @ entryHeaderRevision @ [byte_char et, byte_char (NOT et)]"

definition entryHeaderDecode :: "string \<Rightarrow> (store_cause, Enablement) go" where
  "entryHeaderDecode data =
     (let magic = take (length entryHeaderMagic) data;
          revision = drop (length entryHeaderMagic) (take (length (entryHeaderMagic @ entryHeaderRevision)) data);
          et = char_u8 (data ! length (entryHeaderMagic @ entryHeaderRevision));
          complement = char_u8 (data ! (length (entryHeaderMagic @ entryHeaderRevision) + 1)) in
      if magic \<noteq> entryHeaderMagic then Fail (HeaderInvalid (hex_encode magic))
      else if revision \<noteq> entryHeaderRevision then Fail (HeaderRevision (hex_encode revision))
      else if et \<noteq> NOT complement then Fail HeaderInconsistent
      else Ret et)"

text \<open>A file as \<open>os.FileInfo\<close> describes it: name, whether it is a directory, size.\<close>

definition entryCheckFile :: "string \<Rightarrow> bool \<Rightarrow> nat \<Rightarrow> store_cause option" where
  "entryCheckFile name isDir sz =
     (if isDir then Some EISDIR
      else if sz \<le> entryHeaderSize then Some (EntrySizeError name sz)
      else None)"

text \<open>Reading the header from a file of the given contents: one call of \<open>Read\<close> returns what is there, up
  to the size of the buffer.\<close>

definition entryReadHeader :: "string \<Rightarrow> (store_cause, Enablement) go" where
  "entryReadHeader contents =
     (let data = take entryHeaderSize contents in
      if data = [] then Fail ReadEOF
      else if length data \<noteq> entryHeaderSize then Fail (EntrySizeError [] (length data))
      else entryHeaderDecode data)"

subsection \<open>data.go\<close>

record State =
  st_ID :: ID
  st_PID :: int
  st_ShimPID :: int
  st_Config :: "Config option"
  st_Time :: int

datatype store_error =
    StoreErr (se_Step: string) (se_Cause: store_cause) (se_Msg: string)
  | StoreValidate validate_error

type_synonym gob_enc = "State \<Rightarrow> string"
type_synonym gob_dec = "string \<Rightarrow> (string, State) go"

text \<open>The promoted field \<open>Enablements\<close> of a state without a configuration is a nil dereference.\<close>

definition state_Enablements :: "State \<Rightarrow> ('e, Enablement) go" where
  "state_Enablements s =
     (case st_Config s of
        None \<Rightarrow> Panic ''nil pointer dereference''
      | Some c \<Rightarrow> Ret (Enablements_Unwrap (cfg_Enablements c)))"

definition entryDecodeHeader :: "string \<Rightarrow> (store_error, Enablement) go" where
  "entryDecodeHeader r =
     (case entryReadHeader r of
        Ret et \<Rightarrow> Ret et
      | Fail err \<Rightarrow> Fail (StoreErr ''decode state header'' err [])
      | Panic m \<Rightarrow> Panic m)"

definition entryDecode :: "gob_dec \<Rightarrow> (string \<Rightarrow> string) \<Rightarrow> string \<Rightarrow> (store_error, Enablement \<times> State) go" where
  "entryDecode gob_dec quote r =
     bind_go (entryDecodeHeader r) (\<lambda>et.
       case gob_dec (drop entryHeaderSize r) of
         Panic m \<Rightarrow> Panic m
       | Fail err \<Rightarrow> Fail (StoreErr ''decode state body'' (GobErr err) [])
       | Ret p \<Rightarrow>
           (case Config_Validate quote (st_Config p) of
              Fail err \<Rightarrow> Fail (StoreValidate err)
            | Panic m \<Rightarrow> Panic m
            | Ret _ \<Rightarrow>
                bind_go (state_Enablements p) (\<lambda>e.
                  if e \<noteq> et then
                    Fail (StoreErr ''validate state enablement'' ErrInvalid
                      (''state entry '' @ ID_String (st_ID p) @ '' has unexpected enablement byte 0x''
                        @ format_nat 16 (unat e) @ '', 0x'' @ format_nat 16 (unat et)))
                  else Ret (et, p))))"

subsection \<open>The operating system\<close>

text \<open>\<open>sk_Create\<close> opens a new file for writing and fails if it exists, \<open>sk_Write\<close> appends to an open
  file, \<open>sk_Read\<close> opens a file and gives its contents, \<open>sk_ReadDir\<close> the sorted names of a
  directory, each with whether it is a directory, \<open>sk_Lock\<close> acquires the lock file.\<close>

record 'w storek =
  sk_Create :: "string \<Rightarrow> 'w \<Rightarrow> string option \<times> 'w"
  sk_Write :: "string \<Rightarrow> string \<Rightarrow> 'w \<Rightarrow> string option \<times> 'w"
  sk_Read :: "string \<Rightarrow> 'w \<Rightarrow> (string + string) \<times> 'w"
  sk_Close :: "string \<Rightarrow> 'w \<Rightarrow> string option \<times> 'w"
  sk_Remove :: "string \<Rightarrow> 'w \<Rightarrow> string option \<times> 'w"
  sk_ReadDir :: "string \<Rightarrow> 'w \<Rightarrow> (string + (string \<times> bool) list) \<times> 'w"
  sk_MkdirAll :: "string \<Rightarrow> 'w \<Rightarrow> string option \<times> 'w"
  sk_Lock :: "string \<Rightarrow> 'w \<Rightarrow> string option \<times> 'w"
  sk_Unlock :: "string \<Rightarrow> 'w \<Rightarrow> 'w"

definition entryEncode :: "'w storek \<Rightarrow> gob_enc \<Rightarrow> string \<Rightarrow> State \<Rightarrow> 'w \<Rightarrow> (unit, store_error option \<times> 'w) go" where
  "entryEncode k gob_enc file s w =
     bind_go (state_Enablements s) (\<lambda>et.
       Ret (case sk_Write k file (entryHeaderEncode et) w of
              (Some err, w1) \<Rightarrow> (Some (StoreErr ''encode state header'' (OsErr err) []), w1)
            | (None, w1) \<Rightarrow>
                (case sk_Write k file (gob_enc s) w1 of
                   (Some err, w2) \<Rightarrow> (Some (StoreErr ''encode state body'' (OsErr err) []), w2)
                 | (None, w2) \<Rightarrow> (None, w2))))"

subsection \<open>segment.go\<close>

record EntryHandle =
  eh_DecodeErr :: "store_error option"
  eh_Pathname :: absolute
  eh_ID :: ID

definition close_state :: "'w storek \<Rightarrow> string \<Rightarrow> store_error option \<Rightarrow> 'w \<Rightarrow> store_error option \<times> 'w" where
  "close_state k file err w =
     (case sk_Close k file w of
        (Some closeErr, w') \<Rightarrow>
          (case err of None \<Rightarrow> Some (StoreErr ''close state file'' (OsErr closeErr) []) | Some e \<Rightarrow> Some e, w')
      | (None, w') \<Rightarrow> (err, w'))"

definition eh_Destroy :: "'w storek \<Rightarrow> EntryHandle \<Rightarrow> 'w \<Rightarrow> store_error option \<times> 'w" where
  "eh_Destroy k eh w =
     (case eh_DecodeErr eh of
        Some e \<Rightarrow> (Some e, w)
      | None \<Rightarrow>
          (case sk_Remove k (pathname (eh_Pathname eh)) w of
             (Some err, w') \<Rightarrow> (Some (StoreErr ''destroy state entry'' (OsErr err) []), w')
           | (None, w') \<Rightarrow> (None, w')))"

definition eh_save :: "'w storek \<Rightarrow> gob_enc \<Rightarrow> EntryHandle \<Rightarrow> State \<Rightarrow> 'w \<Rightarrow> (unit, store_error option \<times> 'w) go" where
  "eh_save k gob_enc eh state w =
     (case eh_DecodeErr eh of
        Some e \<Rightarrow> Ret (Some e, w)
      | None \<Rightarrow>
          (case sk_Create k (pathname (eh_Pathname eh)) w of
             (Some err, w1) \<Rightarrow> Ret (Some (StoreErr ''open state entry'' (OsErr err) []), w1)
           | (None, w1) \<Rightarrow>
               bind_go (entryEncode k gob_enc (pathname (eh_Pathname eh)) state w1) (\<lambda>(err, w2).
                 Ret (close_state k (pathname (eh_Pathname eh)) err w2))))"

text \<open>\<open>Load\<close> for a nil and a non-nil value; the enablement byte and the state are those decoded, when
  there are any.\<close>

definition eh_Load ::
  "'w storek \<Rightarrow> gob_dec \<Rightarrow> (string \<Rightarrow> string) \<Rightarrow> EntryHandle \<Rightarrow> bool \<Rightarrow> 'w
     \<Rightarrow> (unit, (store_error option \<times> (Enablement \<times> State option) option) \<times> 'w) go" where
  "eh_Load k gob_dec quote eh full w =
     (case eh_DecodeErr eh of
        Some e \<Rightarrow> Ret ((Some e, None), w)
      | None \<Rightarrow>
          (case sk_Read k (pathname (eh_Pathname eh)) w of
             (Inl err, w1) \<Rightarrow> Ret ((Some (StoreErr ''open state entry'' (OsErr err) []), None), w1)
           | (Inr r, w1) \<Rightarrow>
               bind_go
                 (if full then
                    (case entryDecode gob_dec quote r of
                       Panic m \<Rightarrow> Panic m
                     | Fail e \<Rightarrow> Ret (Some e, None)
                     | Ret (et, v) \<Rightarrow>
                         Ret (if st_ID v \<noteq> eh_ID eh
                              then Some (StoreErr ''validate state identifier'' ErrInvalid
                                (''state entry '' @ ID_String (eh_ID eh) @ '' has unexpected id '' @ ID_String (st_ID v)))
                              else None, Some (et, Some v)))
                  else
                    (case entryDecodeHeader r of
                       Panic m \<Rightarrow> Panic m
                     | Fail e \<Rightarrow> Ret (Some e, None)
                     | Ret et \<Rightarrow> Ret (None, Some (et, None))))
                 (\<lambda>(err, v).
                    (let (err', w2) = close_state k (pathname (eh_Pathname eh)) err w1 in Ret ((err', v), w2)))))"

record Handle =
  h_Identity :: int
  h_Path :: absolute

definition MutexName :: string where "MutexName = ''lock''"

text \<open>\<open>Append\<close> of a checked pathname, which does not panic.\<close>

definition abs_join :: "absolute \<Rightarrow> string \<Rightarrow> absolute" where
  "abs_join a e = Absolute (path_Join [pathname a, e])"

definition h_mutex :: "Handle \<Rightarrow> string" where
  "h_mutex h = pathname (abs_join (h_Path h) MutexName)"

definition newHandle :: "absolute \<Rightarrow> int \<Rightarrow> Handle" where
  "newHandle base identity = \<lparr>h_Identity = identity, h_Path = abs_join base (Itoa identity)\<rparr>"

definition h_Lock :: "'w storek \<Rightarrow> Handle \<Rightarrow> 'w \<Rightarrow> store_error option \<times> 'w" where
  "h_Lock k h w =
     (case sk_Lock k (h_mutex h) w of
        (Some err, w') \<Rightarrow> (Some (StoreErr (''acquire lock on store segment '' @ Itoa (h_Identity h)) (OsErr err) []), w')
      | (None, w') \<Rightarrow> (None, w'))"

definition h_Save :: "'w storek \<Rightarrow> gob_enc \<Rightarrow> Handle \<Rightarrow> State \<Rightarrow> 'w \<Rightarrow> (unit, (EntryHandle \<times> store_error option) \<times> 'w) go" where
  "h_Save k gob_enc h state w =
     (let eh = \<lparr>eh_DecodeErr = None, eh_Pathname = abs_join (h_Path h) (ID_String (st_ID state)), eh_ID = st_ID state\<rparr> in
      bind_go (eh_save k gob_enc eh state w) (\<lambda>(err, w'). Ret ((eh, err), w')))"

definition zero_ID :: ID where "zero_ID = replicate ID_len CHR 0x00"

definition segment_entry :: "(string \<Rightarrow> string) \<Rightarrow> Handle \<Rightarrow> string \<times> bool \<Rightarrow> EntryHandle list" where
  "segment_entry quote h ent =
     (let (name, isDir) = ent;
          eh = \<lparr>eh_DecodeErr = None, eh_Pathname = abs_join (h_Path h) name, eh_ID = zero_ID\<rparr> in
      if isDir then
        [eh\<lparr>eh_DecodeErr := Some (StoreErr ''read store segment entries''
            (UnexpectedDirectory (''unexpected directory '' @ quote name @ '' in store'')) [])\<rparr>]
      else if name = MutexName then []
      else
        (let (a, err) = ID_UnmarshalText (eh_ID eh) name; eh = eh\<lparr>eh_ID := a\<rparr> in
         [case err of
            None \<Rightarrow> eh
          | Some e \<Rightarrow> eh\<lparr>eh_DecodeErr := Some (StoreErr ''decode store segment entry'' (IdErr e) [])\<rparr>]))"

definition h_Entries ::
  "'w storek \<Rightarrow> (string \<Rightarrow> string) \<Rightarrow> Handle \<Rightarrow> 'w \<Rightarrow> (store_error + EntryHandle list \<times> nat) \<times> 'w" where
  "h_Entries k quote h w =
     (case sk_ReadDir k (pathname (h_Path h)) w of
        (Inl err, w') \<Rightarrow> (Inl (StoreErr ''read store segment entries'' (OsErr err) []), w')
      | (Inr entries, w') \<Rightarrow> (Inr (concat (map (segment_entry quote h) entries), length entries - 1), w'))"

subsection \<open>store.go\<close>

text \<open>\<open>store_mkdirOnce\<close>: \<^term>\<open>None\<close> before the first \<open>bigLock\<close>, afterwards the result of creating the
  base directory. The mutex of a handle serialises goroutines in this process and has no part in
  what is computed.\<close>

record Store =
  store_base :: absolute
  store_handles :: "int \<Rightarrow> Handle option"
  store_mkdirOnce :: "string option option"

definition store_New :: "absolute \<Rightarrow> Store" where
  "store_New base = \<lparr>store_base = base, store_handles = (\<lambda>_. None), store_mkdirOnce = None\<rparr>"

definition store_mutex :: "Store \<Rightarrow> string" where
  "store_mutex s = pathname (abs_join (store_base s) MutexName)"

definition bigLock :: "'w storek \<Rightarrow> Store \<Rightarrow> 'w \<Rightarrow> store_error option \<times> Store \<times> 'w" where
  "bigLock k s w =
     (let (mkdirErr, s, w1) =
        (case store_mkdirOnce s of
           Some r \<Rightarrow> (r, s, w)
         | None \<Rightarrow>
             (let (r, w') = sk_MkdirAll k (pathname (store_base s)) w in (r, s\<lparr>store_mkdirOnce := Some r\<rparr>, w'))) in
      case mkdirErr of
        Some err \<Rightarrow> (Some (StoreErr ''create state store directory'' (OsErr err) []), s, w1)
      | None \<Rightarrow>
          (case sk_Lock k (store_mutex s) w1 of
             (Some err, w2) \<Rightarrow> (Some (StoreErr ''acquire lock on the state store'' (OsErr err) []), s, w2)
           | (None, w2) \<Rightarrow> (None, s, w2)))"

text \<open>\<open>isExist\<close>: whether an error is \<open>fs.ErrExist\<close>.\<close>

definition store_Handle ::
  "'w storek \<Rightarrow> (string \<Rightarrow> bool) \<Rightarrow> Store \<Rightarrow> int \<Rightarrow> 'w \<Rightarrow> (store_error + Handle) \<times> Store \<times> 'w" where
  "store_Handle k isExist s identity w =
     (case store_handles s identity of
        Some h \<Rightarrow> (Inr h, s, w)
      | None \<Rightarrow>
          (let h = newHandle (store_base s) identity;
               s = s\<lparr>store_handles := (store_handles s)(identity \<mapsto> h)\<rparr> in
           case bigLock k s w of
             (Some e, s, w1) \<Rightarrow> (Inl e, s, w1)
           | (None, s, w1) \<Rightarrow>
               (let (err, w2) = sk_MkdirAll k (pathname (h_Path h)) w1; w3 = sk_Unlock k (store_mutex s) w2 in
                case err of
                  Some e \<Rightarrow>
                    if \<not> isExist e
                    then (Inl (StoreErr ''create store segment directory'' (OsErr e) []),
                          s\<lparr>store_handles := (store_handles s)(identity := None)\<rparr>, w3)
                    else (Inr h, s, w3)
                | None \<Rightarrow> (Inr h, s, w3))))"

record SegmentIdentity =
  si_Identity :: int
  si_Err :: "store_error option"

definition segment_identity :: "(string \<Rightarrow> string) \<Rightarrow> string \<times> bool \<Rightarrow> SegmentIdentity list" where
  "segment_identity quote ent =
     (let (name, isDir) = ent; step = ''process store segment'';
          bad = (\<lambda>cause msg. [\<lparr>si_Identity = -1, si_Err = Some (StoreErr step cause msg)\<rparr>]) in
      if \<not> isDir then
        (if name = MutexName then [] else bad ENOTDIR (''skipped non-directory entry '' @ quote name))
      else
        case Atoi name of
          Fail err \<Rightarrow> bad (AtoiErr err) (''skipped non-identity entry '' @ quote name)
        | Panic _ \<Rightarrow> []
        | Ret v \<Rightarrow>
            if v < int (unat IdentityStart) \<or> int (unat IdentityEnd) < v
            then bad ERANGE (''skipped out of bounds entry '' @ Itoa v)
            else [\<lparr>si_Identity = v, si_Err = None\<rparr>])"

text \<open>\<open>isNotExist\<close>: whether an error is \<open>os.ErrNotExist\<close>, on which there are no entries.\<close>

definition store_Segments ::
  "'w storek \<Rightarrow> (string \<Rightarrow> string) \<Rightarrow> (string \<Rightarrow> bool) \<Rightarrow> Store \<Rightarrow> 'w
     \<Rightarrow> (store_error + SegmentIdentity list \<times> nat) \<times> Store \<times> 'w" where
  "store_Segments k quote isNotExist s w =
     (case bigLock k s w of
        (Some e, s, w1) \<Rightarrow> (Inl e, s, w1)
      | (None, s, w1) \<Rightarrow>
          (let (r, w2) = sk_ReadDir k (pathname (store_base s)) w1; w3 = sk_Unlock k (store_mutex s) w2 in
           case r of
             Inl err \<Rightarrow>
               if \<not> isNotExist err then (Inl (StoreErr ''read store segments'' (OsErr err) []), s, w3)
               else (Inr ([], 0), s, w3)
           | Inr entries \<Rightarrow> (Inr (concat (map (segment_identity quote) entries), length entries - 1), s, w3)))"

text \<open>The loop of \<open>All\<close> over the segments: what it yields, and the saved error.\<close>

fun all_segments ::
  "'w storek \<Rightarrow> (string \<Rightarrow> string) \<Rightarrow> (string \<Rightarrow> bool) \<Rightarrow> SegmentIdentity list \<Rightarrow> EntryHandle list \<Rightarrow> Store \<Rightarrow> 'w
     \<Rightarrow> EntryHandle list \<times> store_error option \<times> Store \<times> 'w" where
  "all_segments k quote isExist [] out s w = (out, None, s, w)"
| "all_segments k quote isExist (si # sis) out s w =
     (case si_Err si of
        Some e \<Rightarrow> (out, Some e, s, w)
      | None \<Rightarrow>
          (case store_Handle k isExist s (si_Identity si) w of
             (Inl e, s1, w1) \<Rightarrow> (out, Some e, s1, w1)
           | (Inr h, s1, w1) \<Rightarrow>
               (case h_Lock k h w1 of
                  (Some e, w2) \<Rightarrow> (out, Some e, s1, w2)
                | (None, w2) \<Rightarrow>
                    (case h_Entries k quote h w2 of
                       (Inl e, w3) \<Rightarrow> (out, Some e, s1, sk_Unlock k (h_mutex h) w3)
                     | (Inr (ehs, _), w3) \<Rightarrow>
                         all_segments k quote isExist sis (out @ ehs) s1 (sk_Unlock k (h_mutex h) w3)))))"

definition store_All ::
  "'w storek \<Rightarrow> (string \<Rightarrow> string) \<Rightarrow> (string \<Rightarrow> bool) \<Rightarrow> (string \<Rightarrow> bool) \<Rightarrow> Store \<Rightarrow> 'w
     \<Rightarrow> EntryHandle list \<times> store_error option \<times> Store \<times> 'w" where
  "store_All k quote isExist isNotExist s w =
     (case store_Segments k quote isNotExist s w of
        (Inl e, s1, w1) \<Rightarrow> ([], Some e, s1, w1)
      | (Inr (sis, _), s1, w1) \<Rightarrow> all_segments k quote isExist sis [] s1 w1)"

subsection \<open>The header\<close>

lemma char_u8_byte_char [simp]: "char_u8 (byte_char b) = b"
proof -
  have "unat b < 256" by (rule unat_u8_less)
  then show ?thesis by (simp add: char_u8_def byte_char_def)
qed

lemma byte_char_char_u8 [simp]: "byte_char (char_u8 c) = c"
  using of_char_less_256 [of c] by (simp add: char_u8_def byte_char_def unat_of_nat)

lemma entryHeaderSize_eq: "entryHeaderSize = 8"
  by (simp add: entryHeaderSize_def entryHeaderMagic_def entryHeaderRevision_def)

lemma entryHeaderEncode_eq:
  "entryHeaderEncode et = [CHR 0x00, CHR 0xFF, CHR 0xCA, CHR 0xFE, CHR 0x00, CHR 0x00, byte_char et, byte_char (NOT et)]"
  by (simp add: entryHeaderEncode_def entryHeaderMagic_def entryHeaderRevision_def)

lemma length_8:
  "length s = 8 \<Longrightarrow> \<exists>a b c d e f g h. s = [a, b, c, d, e, f, g, h]"
  by (auto simp: numeral_eq_Suc length_Suc_conv)

lemma entryHeaderDecode_iff:
  assumes "length data = entryHeaderSize"
  shows "entryHeaderDecode data = Ret et \<longleftrightarrow> data = entryHeaderEncode et"
proof -
  obtain a b c d e f g h where data: "data = [a, b, c, d, e, f, g, h]"
    using length_8 [of data] assms by (auto simp: entryHeaderSize_eq)
  have g: "g = byte_char et \<longleftrightarrow> char_u8 g = et" by (metis byte_char_char_u8 char_u8_byte_char)
  have h: "h = byte_char (NOT et) \<longleftrightarrow> NOT (char_u8 h) = et"
    by (metis byte_char_char_u8 char_u8_byte_char bit.double_compl)
  have l: "length entryHeaderMagic = 4" "length (entryHeaderMagic @ entryHeaderRevision) = 6"
    by (simp_all add: entryHeaderMagic_def entryHeaderRevision_def)
  have "entryHeaderDecode data = Ret et \<longleftrightarrow>
      [a, b, c, d] = entryHeaderMagic \<and> [e, f] = entryHeaderRevision \<and> char_u8 g = NOT (char_u8 h) \<and> char_u8 g = et"
    unfolding entryHeaderDecode_def l data by (simp add: Let_def)
  then show ?thesis
    unfolding entryHeaderEncode_eq data list.inject g h
    by (auto simp: entryHeaderMagic_def entryHeaderRevision_def)
qed

text \<open>Reading a header succeeds exactly when the file starts with the encoding of an enablement byte, and
  returns that byte: any other magic, revision or complement is rejected, and a shorter file too.\<close>

theorem entryReadHeader_iff:
  "entryReadHeader contents = Ret et \<longleftrightarrow> (\<exists>body. contents = entryHeaderEncode et @ body)"
proof
  assume *: "entryReadHeader contents = Ret et"
  then have l: "length (take entryHeaderSize contents) = entryHeaderSize"
    and d: "entryHeaderDecode (take entryHeaderSize contents) = Ret et"
    by (auto simp: entryReadHeader_def Let_def split: if_splits)
  with entryHeaderDecode_iff have "take entryHeaderSize contents = entryHeaderEncode et" by blast
  then show "\<exists>body. contents = entryHeaderEncode et @ body" by (metis append_take_drop_id)
next
  assume "\<exists>body. contents = entryHeaderEncode et @ body"
  then obtain body where c: "contents = entryHeaderEncode et @ body" by blast
  have l: "length (entryHeaderEncode et) = entryHeaderSize"
    by (simp add: entryHeaderEncode_eq entryHeaderSize_eq)
  with c have "take entryHeaderSize contents = entryHeaderEncode et" by simp
  moreover have "entryHeaderEncode et \<noteq> []" by (simp add: entryHeaderEncode_eq)
  ultimately show "entryReadHeader contents = Ret et"
    using l entryHeaderDecode_iff [of "entryHeaderEncode et" et] by (simp add: entryReadHeader_def Let_def)
qed

lemma entryReadHeader_encode: "entryReadHeader (entryHeaderEncode et @ body) = Ret et"
proof -
  have "length (entryHeaderEncode et) = entryHeaderSize" "entryHeaderEncode et \<noteq> []"
    by (simp_all add: entryHeaderEncode_eq entryHeaderSize_eq)
  with entryHeaderDecode_iff [of "entryHeaderEncode et" et] show ?thesis
    by (simp add: entryReadHeader_def Let_def)
qed

subsection \<open>Saving and loading an entry\<close>

text \<open>What is relied on of the files of the host, observed through \<open>content\<close>: creating succeeds on a new
  name only and gives an empty file, writing appends, reading gives what is there, and closing
  changes nothing.\<close>

locale entry_host =
  fixes k :: "'w storek" and content :: "'w \<Rightarrow> string \<Rightarrow> string option"
  assumes create_new: "sk_Create k p w = (None, w') \<Longrightarrow> content w p = None \<and> content w' = (content w)(p \<mapsto> [])"
    and create_exists: "content w p \<noteq> None \<Longrightarrow> \<exists>e. sk_Create k p w = (Some e, w)"
    and write_appends: "sk_Write k p b w = (None, w') \<Longrightarrow> content w p = Some c \<Longrightarrow> content w' = (content w)(p \<mapsto> c @ b)"
    and read_content: "sk_Read k p w = (Inr r, w') \<Longrightarrow> content w p = Some r \<and> content w' = content w"
    and close_content: "sk_Close k p w = (e, w') \<Longrightarrow> content w' = content w"
begin

lemma entryEncode_content:
  assumes "entryEncode k gob_enc p st w = Ret (None, w')" "content w p = Some []"
  shows "\<exists>c. st_Config st = Some c \<and>
    content w' = (content w)(p \<mapsto> entryHeaderEncode (Enablements_Unwrap (cfg_Enablements c)) @ gob_enc st)"
proof -
  from assms(1) obtain c w1 where c: "st_Config st = Some c"
    and w1: "sk_Write k p (entryHeaderEncode (Enablements_Unwrap (cfg_Enablements c))) w = (None, w1)"
    and w2: "sk_Write k p (gob_enc st) w1 = (None, w')"
    by (auto simp: entryEncode_def state_Enablements_def split: option.splits prod.splits)
  have "content w1 = (content w)(p \<mapsto> entryHeaderEncode (Enablements_Unwrap (cfg_Enablements c)))"
    using write_appends [OF w1 assms(2)] by simp
  with write_appends [OF w2] c show ?thesis by simp
qed

lemma save_content:
  assumes "h_Save k gob_enc h st w = Ret ((eh, None), w')"
  shows "eh = \<lparr>eh_DecodeErr = None, eh_Pathname = abs_join (h_Path h) (ID_String (st_ID st)), eh_ID = st_ID st\<rparr>"
    and "\<exists>c. st_Config st = Some c \<and> content w (pathname (eh_Pathname eh)) = None \<and>
      content w' = (content w)(pathname (eh_Pathname eh) \<mapsto>
        entryHeaderEncode (Enablements_Unwrap (cfg_Enablements c)) @ gob_enc st)"
proof -
  show eh: "eh = \<lparr>eh_DecodeErr = None, eh_Pathname = abs_join (h_Path h) (ID_String (st_ID st)), eh_ID = st_ID st\<rparr>"
    using assms by (auto simp: h_Save_def Let_def)
  let ?p = "pathname (eh_Pathname eh)"
  have sv: "eh_save k gob_enc eh st w = Ret (None, w')"
    using assms eh by (auto simp: h_Save_def Let_def)
  have dn: "eh_DecodeErr eh = None" using eh by simp
  obtain e0 w1 where c0: "sk_Create k ?p w = (e0, w1)" by (cases "sk_Create k ?p w")
  with sv dn have cr: "sk_Create k ?p w = (None, w1)" by (cases e0) (auto simp: eh_save_def)
  with sv dn obtain err w2 where en: "entryEncode k gob_enc ?p st w1 = Ret (err, w2)"
    and cl: "close_state k ?p err w2 = (None, w')"
    by (auto simp: eh_save_def)
  from cl have "err = None" "content w' = content w2"
    by (auto simp: close_state_def dest: close_content split: prod.splits option.splits)
  moreover have "content w ?p = None" "content w1 = (content w)(?p \<mapsto> [])" using create_new [OF cr] by auto
  ultimately show "\<exists>c. st_Config st = Some c \<and> content w ?p = None \<and>
      content w' = (content w)(?p \<mapsto> entryHeaderEncode (Enablements_Unwrap (cfg_Enablements c)) @ gob_enc st)"
    using entryEncode_content [of gob_enc ?p st w1 w2] en by auto
qed

lemma load_content:
  assumes "eh_DecodeErr eh = None" "eh_ID eh = st_ID st" "st_Config st = Some c"
    and "content w (pathname (eh_Pathname eh)) = Some (entryHeaderEncode (Enablements_Unwrap (cfg_Enablements c)) @ gob_enc st)"
    and "gob_dec (gob_enc st) = Ret st" "Config_Validate quote (Some c) = Ret ()"
    and rd: "sk_Read k (pathname (eh_Pathname eh)) w = (Inr r, w1)"
    and cl: "sk_Close k (pathname (eh_Pathname eh)) w1 = (None, w2)"
  shows "eh_Load k gob_dec quote eh True w = Ret ((None, Some (Enablements_Unwrap (cfg_Enablements c), Some st)), w2)"
proof -
  let ?et = "Enablements_Unwrap (cfg_Enablements c)"
  have r: "r = entryHeaderEncode ?et @ gob_enc st" using read_content [OF rd] assms(4) by simp
  moreover have "drop entryHeaderSize (entryHeaderEncode ?et @ gob_enc st) = gob_enc st"
    by (simp add: entryHeaderEncode_eq entryHeaderSize_eq)
  ultimately have "entryDecode gob_dec quote r = Ret (?et, st)"
    using assms(3,5,6) entryReadHeader_encode [of ?et "gob_enc st"]
    by (simp add: entryDecode_def entryDecodeHeader_def state_Enablements_def)
  with assms rd cl show ?thesis by (simp add: eh_Load_def close_state_def)
qed

lemma save_exists:
  assumes "content w (pathname (abs_join (h_Path h) (ID_String (st_ID st)))) \<noteq> None"
  shows "\<exists>eh e. h_Save k gob_enc h st w = Ret ((eh, Some e), w)"
  using create_exists [OF assms] by (auto simp: h_Save_def eh_save_def Let_def)

end

text \<open>A host whose files are an association list and whose directories and locks never fail.\<close>

definition plain_files :: "(string \<times> string) list storek" where
  "plain_files =
     \<lparr> sk_Create = (\<lambda>p w. if map_of w p \<noteq> None then (Some ''file exists'', w) else (None, (p, []) # w)),
       sk_Write = (\<lambda>p b w. case map_of w p of None \<Rightarrow> (Some ''bad file descriptor'', w) | Some c \<Rightarrow> (None, (p, c @ b) # w)),
       sk_Read = (\<lambda>p w. case map_of w p of None \<Rightarrow> (Inl ''no such file or directory'', w) | Some c \<Rightarrow> (Inr c, w)),
       sk_Close = (\<lambda>p w. (None, w)),
       sk_Remove = (\<lambda>p w. if map_of w p = None then (Some ''no such file or directory'', w)
          else (None, filter (\<lambda>(q, _). q \<noteq> p) w)),
       sk_ReadDir = (\<lambda>p w. (Inr (map (\<lambda>q. (path_Base q, False)) (remdups (filter (\<lambda>q. path_Dir q = p) (map fst w)))), w)),
       sk_MkdirAll = (\<lambda>p w. (None, w)),
       sk_Lock = (\<lambda>p w. (None, w)),
       sk_Unlock = (\<lambda>p w. w) \<rparr>"

interpretation plain: entry_host plain_files map_of
  by unfold_locales (auto simp: plain_files_def split: if_splits option.splits)

text \<open>C23: a state that was saved is loaded back unchanged with its enablement byte, as long as its
  configuration is valid and the file can be read; no other file is touched by the save, and
  saving a second time under the same identifier is refused and changes nothing.\<close>

theorem Save_Load:
  assumes host: "entry_host k content"
    and sv: "h_Save k gob_enc h st w = Ret ((eh, None), w')"
    and gob: "gob_dec (gob_enc st) = Ret st"
    and valid: "Config_Validate quote (st_Config st) = Ret ()"
    and rd: "sk_Read k (pathname (eh_Pathname eh)) w' = (Inr r, w1)"
    and cl: "sk_Close k (pathname (eh_Pathname eh)) w1 = (None, w2)"
  shows "\<exists>c. st_Config st = Some c \<and>
    eh_Load k gob_dec quote eh True w' = Ret ((None, Some (Enablements_Unwrap (cfg_Enablements c), Some st)), w2) \<and>
    (p \<noteq> pathname (eh_Pathname eh) \<longrightarrow> content w' p = content w p) \<and>
    (\<exists>eh' e. h_Save k gob_enc h st w' = Ret ((eh', Some e), w'))"
proof -
  note eh = entry_host.save_content(1) [OF host sv]
  obtain c where c: "st_Config st = Some c"
    and w': "content w' = (content w)(pathname (eh_Pathname eh) \<mapsto>
        entryHeaderEncode (Enablements_Unwrap (cfg_Enablements c)) @ gob_enc st)"
    using entry_host.save_content(2) [OF host sv] by blast
  have "eh_Load k gob_dec quote eh True w' = Ret ((None, Some (Enablements_Unwrap (cfg_Enablements c), Some st)), w2)"
    using valid c gob rd cl
    by (intro entry_host.load_content [where st = st and gob_enc = gob_enc and content = content and r = r, OF host])
      (simp_all add: eh w')
  moreover have "\<exists>eh' e. h_Save k gob_enc h st w' = Ret ((eh', Some e), w')"
    using entry_host.save_exists [OF host] w' eh by simp
  ultimately show ?thesis using c w' by simp
qed

definition state0 :: State where
  "state0 = \<lparr>st_ID = replicate 16 CHR ''a'', st_PID = 1, st_ShimPID = 2, st_Config = Some
     \<lparr>cfg_ID = [], cfg_Enablements = Some EDBus, cfg_SessionBus = None, cfg_SystemBus = None, cfg_DirectWayland = False,
      cfg_ExtraPerms = [], cfg_Identity = 9, cfg_Groups = [], cfg_Container = Some (container0
        \<lparr>c_Home := Some (Absolute ''/''), c_Shell := Some (Absolute ''/''), c_Path := Some (Absolute ''/'')\<rparr>)\<rparr>,
     st_Time = 0\<rparr>"

lemma state0_valid: "Config_Validate quote (st_Config state0) = Ret ()"
  by (simp add: Config_Validate_def state0_def container0_def validate_nonnil_def identity_ends validate_bus_def
      CheckInterfaces_def lift_app_def validateCgroup_def)

theorem Save_Load_witness:
  "\<exists>eh w' w2. h_Save plain_files (\<lambda>_. ''gob'') (newHandle (Absolute ''/s'') 9) state0 [] = Ret ((eh, None), w') \<and>
     eh_Load plain_files (\<lambda>_. Ret state0) (\<lambda>s. s) eh True w' = Ret ((None, Some (EDBus, Some state0)), w2)"
proof -
  let ?h = "newHandle (Absolute ''/s'') 9"
  have "\<exists>eh w'. h_Save plain_files (\<lambda>_. ''gob'') ?h state0 [] = Ret ((eh, None), w')"
    by (simp add: h_Save_def eh_save_def plain_files_def entryEncode_def state_Enablements_def state0_def
        close_state_def Let_def)
  then obtain eh w' where sv: "h_Save plain_files (\<lambda>_. ''gob'') ?h state0 [] = Ret ((eh, None), w')" by blast
  have "map_of w' (pathname (eh_Pathname eh)) \<noteq> None"
    using plain.save_content(2) [OF sv] by auto
  then obtain r where rd: "sk_Read plain_files (pathname (eh_Pathname eh)) w' = (Inr r, w')"
    by (auto simp: plain_files_def)
  have cl: "sk_Close plain_files (pathname (eh_Pathname eh)) w' = (None, w')" by (simp add: plain_files_def)
  from Save_Load [OF plain.entry_host_axioms sv _ state0_valid rd cl, where gob_dec = "\<lambda>_. Ret state0" and quote = "\<lambda>s. s"] sv show ?thesis
    by (auto simp: state0_def Enablements_Unwrap_def)
qed

subsection \<open>Segments\<close>

text \<open>Iterating a segment yields one handle for every name but the lock file; a handle is usable exactly
  when the name is a file named by 32 hexadecimal digits; the name a state is saved under yields
  the handle that saving returned.\<close>

theorem segment_entry_spec:
  assumes "length (st_ID st) = ID_len"
  shows "(segment_entry quote h (name, isDir) = [] \<longleftrightarrow> name = MutexName \<and> \<not> isDir) \<and>
   list_all (\<lambda>eh. eh_Pathname eh = abs_join (h_Path h) name \<and>
     (eh_DecodeErr eh = None \<longleftrightarrow> \<not> isDir \<and> length name = 32 \<and> list_all (\<lambda>c. hex_val c \<noteq> None) name))
     (segment_entry quote h (name, isDir)) \<and>
   (case h_Save k gob_enc h st w of
      Ret ((eh, _), _) \<Rightarrow> segment_entry quote h (ID_String (st_ID st), False) = [eh]
    | _ \<Rightarrow> True)"
proof (intro conjI)
  show "segment_entry quote h (name, isDir) = [] \<longleftrightarrow> name = MutexName \<and> \<not> isDir"
    by (simp add: segment_entry_def Let_def split: prod.splits)
  show "list_all (\<lambda>eh. eh_Pathname eh = abs_join (h_Path h) name \<and>
     (eh_DecodeErr eh = None \<longleftrightarrow> \<not> isDir \<and> length name = 32 \<and> list_all (\<lambda>c. hex_val c \<noteq> None) name))
     (segment_entry quote h (name, isDir))"
    using ID_UnmarshalText_ok [of zero_ID name]
    by (auto simp: segment_entry_def Let_def split: prod.splits option.splits)
  have "length zero_ID = ID_len" by (simp add: zero_ID_def)
  from ID_UnmarshalText_Marshal [OF assms this]
  have "ID_UnmarshalText zero_ID (ID_String (st_ID st)) = (st_ID st, None)"
    by (simp add: ID_String_def ID_MarshalText_def)
  moreover have "ID_String (st_ID st) \<noteq> MutexName"
    using assms by (auto simp: ID_String_def MutexName_def ID_len_def dest!: arg_cong [where f = length])
  ultimately show "case h_Save k gob_enc h st w of
      Ret ((eh, _), _) \<Rightarrow> segment_entry quote h (ID_String (st_ID st), False) = [eh] | _ \<Rightarrow> True"
    by (auto simp: h_Save_def segment_entry_def Let_def split: go.splits)
qed

theorem segment_entry_spec_witness:
  "case h_Save plain_files (\<lambda>_. ''gob'') (newHandle (Absolute ''/s'') 9) state0 [] of
      Ret ((eh, _), _) \<Rightarrow> segment_entry (\<lambda>s. s) (newHandle (Absolute ''/s'') 9) (ID_String (st_ID state0), False) = [eh]
    | _ \<Rightarrow> True"
proof -
  have "length (st_ID state0) = ID_len" by (simp add: state0_def ID_len_def)
  from segment_entry_spec [OF this, of "\<lambda>s. s" "newHandle (Absolute ''/s'') 9" "[]" False plain_files "\<lambda>_. ''gob''" "[]"]
  show ?thesis by blast
qed

text \<open>The identities a listing of the store gives: in range, or an error.\<close>

lemma segment_identity_range:
  "list_all (\<lambda>si. case si_Err si of None \<Rightarrow> 0 \<le> si_Identity si \<and> si_Identity si \<le> 9999 | Some _ \<Rightarrow> si_Identity si = -1)
     (segment_identity quote ent)"
proof -
  have "uint IdentityStart = 0" "uint IdentityEnd = 9999" by (simp_all add: uid_ranges)
  then show ?thesis by (auto simp: segment_identity_def Let_def split: prod.splits go.splits)
qed

text \<open>When the lock of the store cannot be acquired, the handle of a new segment stays registered: the next
  request for it succeeds without having created the directory of the segment.\<close>

theorem Handle_stale_after_failure:
  "\<exists>k e s' w'. store_Handle k isExist (store_New base) identity (w :: (string \<times> string) list) = (Inl e, s', w') \<and>
     store_Handle k2 isExist2 s' identity w2 = (Inr (newHandle base identity), s', w2)"
proof -
  define k where "k = (plain_files\<lparr>sk_Lock := (\<lambda>p w. (Some ''interrupted'', w))\<rparr>)"
  have "store_Handle k isExist (store_New base) identity w =
      (Inl (StoreErr ''acquire lock on the state store'' (OsErr ''interrupted'') []),
       \<lparr>store_base = base, store_handles = [identity \<mapsto> newHandle base identity], store_mkdirOnce = Some None\<rparr>, w)"
    by (simp add: k_def plain_files_def store_Handle_def store_New_def bigLock_def Let_def)
  then show ?thesis
    by (intro exI [of _ k] exI) (auto simp: store_Handle_def)
qed

end
