(* ===== verification/Hak_Inst.thy ===== *)
theory Hak_Inst
  imports Store
begin

text \<open>
  The parts of \<open>cmd/hakurei\<close> that find a configuration: the source it is loaded from (\<open>tryPath\<close>,
  \<open>tryFd\<close>), the search for a running instance by its identifier or a short form of it
  (\<open>tryIdentifier\<close>, \<open>shortIdentifier\<close>) and the list of instances (\<open>printPs\<close>).
\<close>

subsection \<open>Sources of a configuration (parse.go)\<close>

text \<open>The results of \<open>fcntl\<close> with \<open>F_GETFD\<close> and of \<open>IsPollDescriptor\<close> on a descriptor are parameters.
  A source is standard input, a descriptor or a file; \<open>Panic\<close> is a call of \<open>log.Fatal\<close>.\<close>

datatype fd_state = FdOpen | FdBad | FdError string

record fdk =
  fk_getfd :: "int \<Rightarrow> fd_state"
  fk_poll :: "int \<Rightarrow> bool"
  fk_open :: "string \<Rightarrow> string option"

datatype config_source = FromStdin | FromFd int | FromFile string

definition tryFd :: "fdk \<Rightarrow> string \<Rightarrow> (unit, config_source option) go" where
  "tryFd k name =
     (case Atoi name of
        Ret v \<Rightarrow>
          if v < 3 then Ret None
          else (case fk_getfd k v of
                  FdBad \<Rightarrow> Ret None
                | FdError e \<Rightarrow> Panic (''cannot get fd '' @ Itoa v @ '': '' @ e)
                | FdOpen \<Rightarrow>
                    if fk_poll k v then Panic (''invalid config stream '' @ Itoa v)
                    else Ret (Some (FromFd v)))
      | _ \<Rightarrow> Ret None)"

definition tryPath :: "fdk \<Rightarrow> string \<Rightarrow> (unit, config_source) go" where
  "tryPath k name =
     (if name = ''-'' then Ret FromStdin
      else bind_go (tryFd k name) (\<lambda>r.
        case r of
          Some f \<Rightarrow> Ret f
        | None \<Rightarrow> (case fk_open k name of None \<Rightarrow> Ret (FromFile name) | Some e \<Rightarrow> Panic e)))"

subsection \<open>Identifiers (parse.go)\<close>

definition shortLengthMin :: nat where "shortLengthMin = 8"

definition shortIdentifierString :: "string \<Rightarrow> (unit, string) go" where
  "shortIdentifierString s =
     (if length s < ID_len + shortLengthMin then Panic ''slice bounds out of range''
      else Ret (take shortLengthMin (drop ID_len s)))"

definition shortIdentifier :: "ID \<Rightarrow> (unit, string) go" where
  "shortIdentifier a = shortIdentifierString (ID_String a)"

datatype likely = LikeNone | LikeShort | LikeFull

definition short_char :: "char \<Rightarrow> bool" where
  "short_char c \<longleftrightarrow> CHR ''0'' \<le> c \<and> c \<le> CHR ''9'' \<or> CHR ''a'' \<le> c \<and> c \<le> CHR ''f''"

definition likely_identifier :: "string \<Rightarrow> likely" where
  "likely_identifier name =
     (if shortLengthMin \<le> length name \<and> length name \<le> ID_len then
        if list_all short_char name then LikeShort else LikeNone
      else if length name = 2 * ID_len then LikeFull
      else LikeNone)"

text \<open>The loops over the entries of the store: the first entry that can be read, matches and can be
  loaded; \<open>load\<close> is \<open>EntryHandle.Load\<close> with a non-nil argument.\<close>

fun match_entries :: "(EntryHandle \<Rightarrow> State option) \<Rightarrow> (EntryHandle \<Rightarrow> bool) \<Rightarrow> EntryHandle list \<Rightarrow> State option" where
  "match_entries load matches [] = None"
| "match_entries load matches (eh # ehs) =
     (if eh_DecodeErr eh \<noteq> None then match_entries load matches ehs
      else if matches eh then
        (case load eh of None \<Rightarrow> match_entries load matches ehs | Some s \<Rightarrow> Some s)
      else match_entries load matches ehs)"

definition tryIdentifier :: "(EntryHandle \<Rightarrow> State option) \<Rightarrow> EntryHandle list \<Rightarrow> string \<Rightarrow> State option" where
  "tryIdentifier load entries name =
     (case likely_identifier name of
        LikeNone \<Rightarrow> None
      | LikeShort \<Rightarrow> match_entries load (\<lambda>eh. HasPrefix (drop ID_len (ID_String (eh_ID eh))) name) entries
      | LikeFull \<Rightarrow>
          (case ID_UnmarshalText zero_ID name of
             (_, Some e) \<Rightarrow> None
           | (likelyID, None) \<Rightarrow> match_entries load (\<lambda>eh. eh_ID eh = likelyID) entries))"

subsection \<open>The list of instances (print.go)\<close>

text \<open>The identifiers of the short form, for entries whose header can be read; the rows of the long
  form, with the text of the uptime as a parameter.\<close>

definition printPs_short :: "(EntryHandle \<Rightarrow> bool) \<Rightarrow> EntryHandle list \<Rightarrow> (unit, string list) go" where
  "printPs_short valid entries = mapM_go shortIdentifier (sort (map eh_ID (filter valid entries)))"

definition ps_application :: "State \<Rightarrow> string \<Rightarrow> string" where
  "ps_application s short =
     (case st_Config s of
        None \<Rightarrow> ''(No configuration information)''
      | Some c \<Rightarrow> Itoa (cfg_Identity c) @ '' ('' @ (if cfg_ID c = [] then ''app.hakurei.'' @ short else cfg_ID c) @ '')'')"

definition printPs_long ::
  "(EntryHandle \<Rightarrow> State option) \<Rightarrow> (int \<Rightarrow> string) \<Rightarrow> EntryHandle list
     \<Rightarrow> (unit, (string \<times> string \<times> string \<times> string) list) go" where
  "printPs_long load uptime entries =
     mapM_go (\<lambda>s. bind_go (shortIdentifier (st_ID s)) (\<lambda>short.
         Ret (short, Itoa (st_PID s), ps_application s short, uptime (st_Time s))))
       (sort_key st_ID (List.map_filter load entries))"

text \<open>\<open>printShowInstance\<close>: whether the configuration is valid, and the lines it prints; the texts of
  \<open>fmt\<close> for quoted lists and maps, of the uptime, of file modes and of validation errors are parameters.\<close>

record showk =
  pk_quote_list :: "string list \<Rightarrow> string"
  pk_quote_map :: "(string \<times> string) list \<Rightarrow> string"
  pk_uptime :: "int \<Rightarrow> string"
  pk_mode :: "nat \<Rightarrow> string"
  pk_message :: "validate_error \<Rightarrow> string option"
  pk_quote :: "string \<Rightarrow> string"

fun fs_text :: "showk \<Rightarrow> FilesystemConfig \<Rightarrow> string" where
  "fs_text k (FS_Bind b) = bind_String b"
| "fs_text k (FS_Ephemeral e) = eph_String (pk_mode k) e"
| "fs_text k (FS_Overlay x) = ov_String x"
| "fs_text k (FS_Link l) = lnk_String l"

fun filesystem_lines :: "showk \<Rightarrow> FilesystemConfig option list \<Rightarrow> bool \<times> string list" where
  "filesystem_lines k [] = (True, [])"
| "filesystem_lines k (f # fs) =
     (case filesystem_lines k fs of
        (valid, ls) \<Rightarrow>
          if \<not> FilesystemConfigJSON_Valid f then (False, '' <invalid>'' # ls)
          else (valid, ('' '' @ fs_text k (the f)) # ls))"

definition bus_lines :: "showk \<Rightarrow> BusConfig \<Rightarrow> string list" where
  "bus_lines k c =
     ['' Filter:'' @ [CHR 0x09] @ (if Filter c then ''true'' else ''false'')]
     @ (if See c \<noteq> [] then ['' See:'' @ [CHR 0x09] @ pk_quote_list k (See c)] else [])
     @ (if Talk c \<noteq> [] then ['' Talk:'' @ [CHR 0x09] @ pk_quote_list k (Talk c)] else [])
     @ (if Own c \<noteq> [] then ['' Own:'' @ [CHR 0x09] @ pk_quote_list k (Own c)] else [])
     @ (if Call c \<noteq> [] then ['' Call:'' @ [CHR 0x09] @ pk_quote_map k (Call c)] else [])
     @ (if Broadcast c \<noteq> [] then ['' Broadcast:'' @ [CHR 0x09] @ pk_quote_map k (Broadcast c)] else [])"

definition instance_lines :: "showk \<Rightarrow> State \<Rightarrow> string list" where
  "instance_lines k s =
     [''State'',
      '' Instance:'' @ [CHR 0x09] @ ID_String (st_ID s) @ '' ('' @ Itoa (st_PID s) @ '' -> '' @ Itoa (st_ShimPID s) @ '')'',
      '' Uptime:'' @ [CHR 0x09] @ pk_uptime k (st_Time s), []]"

definition container_lines :: "bool \<Rightarrow> ContainerConfig \<Rightarrow> string list" where
  "container_lines directWayland c =
     (let flags = Flags_String (c_Flags c);
          flags = (if directWayland then if flags = ''none'' then ''directwl'' else flags @ '', directwl'' else flags)
      in ['' Flags:'' @ [CHR 0x09] @ flags]
         @ (case c_Home c of None \<Rightarrow> [] | Some a \<Rightarrow> ['' Home:'' @ [CHR 0x09] @ pathname a])
         @ (if c_Hostname c \<noteq> [] then ['' Hostname:'' @ [CHR 0x09] @ c_Hostname c] else [])
         @ (case c_Path c of None \<Rightarrow> [] | Some a \<Rightarrow> ['' Path:'' @ [CHR 0x09] @ pathname a])
         @ (if c_Args c \<noteq> [] then ['' Arguments:'' @ [CHR 0x09] @ Join (c_Args c) '' ''] else []))"

definition app_lines :: "Config \<Rightarrow> string list" where
  "app_lines c =
     [''App'',
      '' Identity:'' @ [CHR 0x09] @ Itoa (cfg_Identity c) @ (if cfg_ID c \<noteq> [] then '' ('' @ cfg_ID c @ '')'' else []),
      '' Enablements:'' @ [CHR 0x09] @ Enablement_String (Enablements_Unwrap (cfg_Enablements c))]
     @ (if cfg_Groups c \<noteq> [] then ['' Groups:'' @ [CHR 0x09] @ Join (cfg_Groups c) '', ''] else [])
     @ (case cfg_Container c of None \<Rightarrow> [] | Some cc \<Rightarrow> container_lines (cfg_DirectWayland c) cc) @ [[]]"

definition details_lines :: "showk \<Rightarrow> Config \<Rightarrow> bool \<times> string list" where
  "details_lines k c =
     (let fs = (case cfg_Container c of None \<Rightarrow> [] | Some cc \<Rightarrow> c_Filesystem cc) in
      case filesystem_lines k fs of
        (valid, ls) \<Rightarrow>
          (valid, (if fs \<noteq> [] then [''Filesystem''] @ ls @ [[]] else [])
             @ (if cfg_ExtraPerms c \<noteq> []
                then [''Extra ACL''] @ map (\<lambda>e. '' '' @ ExtraPermConfig_String (Some e)) (cfg_ExtraPerms c) @ [[]]
                else [])))"

definition printShowInstance ::
  "showk \<Rightarrow> State option \<Rightarrow> Config option \<Rightarrow> bool \<Rightarrow> (unit, bool \<times> string list) go" where
  "printShowInstance k inst config short =
     (case Config_Validate (pk_quote k) config of
        Panic m \<Rightarrow> Panic m
      | r \<Rightarrow>
          let valid = (r = Ret ());
              error = (case r of
                         Fail e \<Rightarrow> (case pk_message k e of Some m \<Rightarrow> [''Error: '' @ m @ ''!'', []] | None \<Rightarrow> [])
                       | _ \<Rightarrow> []) in
          Ret (case config of
                 None \<Rightarrow> (valid, error)
               | Some c \<Rightarrow>
                   (case (if short then (True, []) else details_lines k c) of
                      (fs_valid, details) \<Rightarrow>
                        (valid \<and> fs_valid,
                         error @ (case inst of None \<Rightarrow> [] | Some s \<Rightarrow> instance_lines k s) @ app_lines c @ details
                         @ (case cfg_SessionBus c of None \<Rightarrow> [] | Some b \<Rightarrow> [''Session bus''] @ bus_lines k b @ [[]])
                         @ (case cfg_SystemBus c of None \<Rightarrow> [] | Some b \<Rightarrow> [''System bus''] @ bus_lines k b @ [[]])))))"

subsection \<open>Finding a configuration\<close>

text \<open>Only descriptors that are open, not standard streams and not of the runtime are read from, and
  a name that is not such a descriptor is taken as that of a file.\<close>

lemma tryPath_source:
  "tryPath k name = Ret (FromFd v) \<Longrightarrow> 3 \<le> v \<and> Atoi name = Ret v \<and> fk_getfd k v = FdOpen \<and> \<not> fk_poll k v"
  "tryPath k name = Ret (FromFile p) \<Longrightarrow> p = name \<and> fk_open k name = None"
  "tryPath k name = Ret FromStdin \<longleftrightarrow> name = ''-''"
  by (auto simp: tryPath_def tryFd_def split: if_splits go.splits fd_state.splits option.splits)

lemma match_entries_Some:
  "match_entries load m ehs = Some s \<Longrightarrow> \<exists>e \<in> set ehs. eh_DecodeErr e = None \<and> m e \<and> load e = Some s"
  by (induction ehs) (auto split: if_splits option.splits)

lemma match_entries_None:
  "match_entries load m ehs = None \<Longrightarrow> e \<in> set ehs \<Longrightarrow> eh_DecodeErr e = None \<Longrightarrow> m e \<Longrightarrow> load e = None"
  by (induction ehs) (auto split: if_splits option.splits)

lemma match_entries_finds:
  assumes "e \<in> set ehs" and "eh_DecodeErr e = None" and "m e" and "load e \<noteq> None"
  shows "\<exists>e' \<in> set ehs. m e' \<and> load e' \<noteq> None \<and> match_entries load m ehs = load e'"
  using match_entries_Some [of load m ehs] match_entries_None [of load m ehs e] assms
  by (cases "match_entries load m ehs") force+

lemma short_char_digit: "d < 16 \<Longrightarrow> short_char (digit_char d)"
proof -
  have "\<forall>d \<in> set [0..<16]. short_char (digit_char d)"
    by code_simp
  then show "d < 16 \<Longrightarrow> ?thesis" by simp
qed

lemma hex_encode_short: "list_all short_char (hex_encode s)"
  by (induction s) (auto intro!: short_char_digit simp: less_mult_imp_div_less of_char_less_256)

lemma shortIdentifier_Ret:
  assumes "length a = ID_len"
  shows "shortIdentifier a = Ret (take 8 (drop 16 (hex_encode a)))"
  using assms by (simp add: shortIdentifier_def shortIdentifierString_def ID_String_def ID_len_def shortLengthMin_def)

text \<open>C33: An instance is found under the identifier \<open>ps\<close> prints: for a store whose entries have
  identifiers of 16 bytes, the short form of the identifier of an entry that can be loaded finds an
  entry with that short form, the identifier in full one with that very identifier, and whatever
  name is given, only an entry that was read and loaded is returned, whose identifier is the name or
  has it, in lower case, at the start of its lower half.\<close>

theorem tryIdentifier_finds:
  assumes "\<forall>e \<in> set entries. length (eh_ID e) = ID_len"
    and "eh \<in> set entries" and "eh_DecodeErr eh = None" and "load eh \<noteq> None"
  shows "(\<exists>short. shortIdentifier (eh_ID eh) = Ret short \<and>
      (\<exists>e \<in> set entries. shortIdentifier (eh_ID e) = Ret short \<and> load e \<noteq> None \<and>
         tryIdentifier load entries short = load e)) \<and>
    (\<exists>e \<in> set entries. eh_ID e = eh_ID eh \<and> load e \<noteq> None \<and>
       tryIdentifier load entries (ID_String (eh_ID eh)) = load e) \<and>
    (\<forall>name s. tryIdentifier load entries name = Some s \<longrightarrow>
       (\<exists>e \<in> set entries. eh_DecodeErr e = None \<and> load e = Some s \<and>
          (HasPrefix (drop ID_len (ID_String (eh_ID e))) name \<or> ID_UnmarshalText zero_ID name = (eh_ID e, None))))"
proof (intro conjI allI impI)
  have len: "length (eh_ID e) = 16" if "e \<in> set entries" for e
    using assms(1) that by (simp add: ID_len_def)
  define short where "short = take 8 (drop 16 (hex_encode (eh_ID eh)))"
  have "list_all short_char short"
    using hex_encode_short [of "eh_ID eh"] by (auto simp: short_def list_all_iff dest!: in_set_takeD in_set_dropD)
  moreover have "length short = 8"
    using len [OF assms(2)] by (simp add: short_def)
  ultimately have like: "likely_identifier short = LikeShort"
    by (simp add: likely_identifier_def shortLengthMin_def ID_len_def)
  have "HasPrefix (drop ID_len (ID_String (eh_ID eh))) short"
    using len [OF assms(2)] by (simp add: HasPrefix_def short_def ID_len_def ID_String_def)
  from match_entries_finds [of eh entries "\<lambda>eh. HasPrefix (drop ID_len (ID_String (eh_ID eh))) short" load, OF assms(2,3) this assms(4)]
  obtain e where e: "e \<in> set entries" "HasPrefix (drop ID_len (ID_String (eh_ID e))) short" "load e \<noteq> None"
    "tryIdentifier load entries short = load e"
    by (auto simp: tryIdentifier_def like)
  moreover have "shortIdentifier (eh_ID e) = Ret short"
    using e(2) \<open>length short = 8\<close> assms(1) e(1)
    by (simp add: shortIdentifier_Ret HasPrefix_def ID_len_def ID_String_def)
  moreover have "shortIdentifier (eh_ID eh) = Ret short"
    using assms(1,2) by (simp add: shortIdentifier_Ret short_def)
  ultimately show "\<exists>short. shortIdentifier (eh_ID eh) = Ret short \<and>
      (\<exists>e \<in> set entries. shortIdentifier (eh_ID e) = Ret short \<and> load e \<noteq> None \<and>
         tryIdentifier load entries short = load e)"
    by blast
next
  have len: "length (eh_ID eh) = ID_len"
    using assms(1,2) by simp
  have "ID_UnmarshalText zero_ID (ID_String (eh_ID eh)) = (eh_ID eh, None)"
    using ID_UnmarshalText_Marshal [OF len, of zero_ID] by (simp add: ID_String_def ID_MarshalText_def zero_ID_def)
  moreover have "likely_identifier (ID_String (eh_ID eh)) = LikeFull"
    using len by (simp add: likely_identifier_def ID_String_def ID_len_def)
  ultimately show "\<exists>e \<in> set entries. eh_ID e = eh_ID eh \<and> load e \<noteq> None \<and>
       tryIdentifier load entries (ID_String (eh_ID eh)) = load e"
    using match_entries_finds [of eh entries "\<lambda>e. eh_ID e = eh_ID eh" load, OF assms(2,3) refl assms(4)]
    by (simp add: tryIdentifier_def)
next
  fix name s
  assume "tryIdentifier load entries name = Some s"
  then show "\<exists>e \<in> set entries. eh_DecodeErr e = None \<and> load e = Some s \<and>
      (HasPrefix (drop ID_len (ID_String (eh_ID e))) name \<or> ID_UnmarshalText zero_ID name = (eh_ID e, None))"
    by (auto simp: tryIdentifier_def split: likely.splits prod.splits option.splits dest!: match_entries_Some)
qed

theorem tryIdentifier_finds_witness:
  "let a = replicate 16 CHR ''a'';
       eh = \<lparr>eh_DecodeErr = None, eh_Pathname = Absolute ''/a'', eh_ID = a\<rparr>;
       s = \<lparr>st_ID = a, st_PID = 1, st_ShimPID = 2, st_Config = None, st_Time = 0\<rparr>
   in tryIdentifier (\<lambda>_. Some s) [eh] (ID_String a) = Some s"
  using tryIdentifier_finds [of "[\<lparr>eh_DecodeErr = None, eh_Pathname = Absolute ''/a'', eh_ID = replicate 16 CHR ''a''\<rparr>]"
      "\<lparr>eh_DecodeErr = None, eh_Pathname = Absolute ''/a'', eh_ID = replicate 16 CHR ''a''\<rparr>"
      "\<lambda>_. Some \<lparr>st_ID = replicate 16 CHR ''a'', st_PID = 1, st_ShimPID = 2, st_Config = None, st_Time = 0\<rparr>"]
  by (simp add: ID_len_def)

text \<open>What \<open>ps\<close> prints in short form are the short identifiers of exactly the valid entries.\<close>

lemma printPs_short_set:
  assumes "\<forall>e \<in> set entries. length (eh_ID e) = ID_len"
  shows "\<exists>out. printPs_short valid entries = Ret out \<and>
    set out = {short. \<exists>e \<in> set entries. valid e \<and> shortIdentifier (eh_ID e) = Ret short}"
proof -
  have "mapM_go shortIdentifier xs = Ret (map (\<lambda>a. take 8 (drop 16 (hex_encode a))) xs)"
    if "\<forall>a \<in> set xs. length a = ID_len" for xs
    using that by (induction xs) (simp_all add: shortIdentifier_Ret)
  then show ?thesis
    using assms by (auto simp: printPs_short_def shortIdentifier_Ret)
qed

text \<open>\<open>show\<close> reports a configuration as valid exactly if it validates and, unless the details are
  left out, all its mount points are valid; showing never panics.\<close>

lemma filesystem_lines_valid: "fst (filesystem_lines k fs) \<longleftrightarrow> list_all FilesystemConfigJSON_Valid fs"
  by (induction fs) (auto split: prod.splits)

lemma Config_Validate_no_panic: "no_panic (Config_Validate quote config)"
  unfolding Config_Validate_def by (intro no_panic_bind_go validate_no_panic no_panic_if) simp

lemma printShowInstance_valid:
  "\<exists>valid ls. printShowInstance k inst config short = Ret (valid, ls) \<and>
     (valid \<longleftrightarrow> Config_Validate (pk_quote k) config = Ret () \<and>
        (short \<or> (case config of
            None \<Rightarrow> True
          | Some c \<Rightarrow> (case cfg_Container c of
                None \<Rightarrow> True | Some cc \<Rightarrow> list_all FilesystemConfigJSON_Valid (c_Filesystem cc)))))"
proof -
  have "\<exists>r. Config_Validate (pk_quote k) config = r \<and> no_panic r"
    using Config_Validate_no_panic by blast
  then obtain r where r: "Config_Validate (pk_quote k) config = r" and "no_panic r"
    by blast
  have details: "fst (details_lines k c) \<longleftrightarrow> (case cfg_Container c of
      None \<Rightarrow> True | Some cc \<Rightarrow> list_all FilesystemConfigJSON_Valid (c_Filesystem cc))" for c
    by (cases "cfg_Container c") (simp_all add: details_lines_def Let_def case_prod_beta filesystem_lines_valid)
  have nil: "\<not> (r = Ret () \<and> config = None)"
    using r Config_Validate_Ret [of "pk_quote k" None] by (cases config) auto
  show ?thesis
    using r \<open>no_panic r\<close> nil
    by (cases r; cases config; cases short) (simp_all add: printShowInstance_def Let_def case_prod_beta details, blast+)
qed

end
