(* ===== verification/Hak_Cmd.thy ===== *)
theory Hak_Cmd
  imports Cmd_Tree Out_State Hak_Inst
begin

text \<open>
  The program \<open>cmd/hakurei\<close>: the tree of commands \<open>buildCommand\<close> makes with the package \<open>command\<close>,
  the handlers of \<open>run\<close>, which makes a configuration from its flags, and of \<open>app\<close>, which loads one,
  the sources a configuration is loaded from (\<open>tryPath\<close>, \<open>tryFd\<close>) and the search for a running
  instance by its identifier (\<open>tryIdentifier\<close>, \<open>shortIdentifier\<close>, \<open>printPs\<close>). The environment, the
  user database, the JSON decoder and the descriptors of the process are parameters.
\<close>

subsection \<open>The tree of commands (command.go)\<close>

datatype hak_handler =
  HEarly | HShim | HApp | HRun | HShow | HPs | HVersion | HLicense | HTemplate | HHelp

text \<open>The variables of the flags, by address, with the zero value of their type.\<close>

definition flagVerbose :: nat where "flagVerbose = 0"
definition flagJSON :: nat where "flagJSON = 1"
definition flagIdentifierFile :: nat where "flagIdentifierFile = 2"
definition flagDBusConfigSession :: nat where "flagDBusConfigSession = 3"
definition flagDBusConfigSystem :: nat where "flagDBusConfigSystem = 4"
definition flagDBusMpris :: nat where "flagDBusMpris = 5"
definition flagDBusVerbose :: nat where "flagDBusVerbose = 6"
definition flagID :: nat where "flagID = 7"
definition flagIdentity :: nat where "flagIdentity = 8"
definition flagGroups :: nat where "flagGroups = 9"
definition flagHomeDir :: nat where "flagHomeDir = 10"
definition flagUserName :: nat where "flagUserName = 11"
definition flagPrivateRuntime :: nat where "flagPrivateRuntime = 12"
definition flagPrivateTmpdir :: nat where "flagPrivateTmpdir = 13"
definition flagWayland :: nat where "flagWayland = 14"
definition flagX11 :: nat where "flagX11 = 15"
definition flagDBus :: nat where "flagDBus = 16"
definition flagPulse :: nat where "flagPulse = 17"
definition flagShowShort :: nat where "flagShowShort = 18"
definition flagNoStore :: nat where "flagNoStore = 19"
definition flagPsShort :: nat where "flagPsShort = 20"

lemmas flag_addresses =
  flagVerbose_def flagJSON_def flagIdentifierFile_def flagDBusConfigSession_def flagDBusConfigSystem_def
  flagDBusMpris_def flagDBusVerbose_def flagID_def flagIdentity_def flagGroups_def flagHomeDir_def
  flagUserName_def flagPrivateRuntime_def flagPrivateTmpdir_def flagWayland_def flagX11_def flagDBus_def
  flagPulse_def flagShowShort_def flagNoStore_def flagPsShort_def

definition zero_vars :: vars where
  "zero_vars a =
     (if List.member [flagDBusConfigSession, flagDBusConfigSystem, flagID, flagHomeDir, flagUserName] a then FString []
      else if List.member [flagIdentifierFile, flagIdentity] a then FInt 0
      else if a = flagGroups then FList []
      else FBool False)"

text \<open>A flag is given as the variable, its name, its definer and its description.\<close>

type_synonym flag_spec = "nat \<times> string \<times> flag_definer \<times> string"

fun flags_loop :: "nat \<Rightarrow> flag_spec list \<Rightarrow> ('h, 'w) cstate \<Rightarrow> (unit, ('h, 'w) cstate) go" where
  "flags_loop n [] st = Ret st"
| "flags_loop n ((p, name, d, usage) # fs) st = bind_go (cmd_Flag st n p name d usage) (flags_loop n fs)"

fun commands_loop ::
  "(string \<times> string \<times> 'h \<times> flag_spec list) list \<Rightarrow> ('h, 'w) cstate \<Rightarrow> (unit, ('h, 'w) cstate) go option" where
  "commands_loop [] st = Some (Ret st)"
| "commands_loop ((name, usage, h, fs) # cs) st =
     (case node_NewCommand st 0 name usage (Some h) of
        None \<Rightarrow> None
      | Some r \<Rightarrow>
          (case bind_go r (\<lambda>(v, st). flags_loop v fs st) of
             Ret st' \<Rightarrow> commands_loop cs st'
           | Fail e \<Rightarrow> Some (Fail e)
           | Panic m \<Rightarrow> Some (Panic m)))"

definition root_flags :: "flag_spec list" where
  "root_flags =
     [(flagVerbose, ''v'', BoolFlag False, ''Increase log verbosity''),
      (flagJSON, ''json'', BoolFlag False, ''Serialise output in JSON when applicable'')]"

definition run_flags :: "flag_spec list" where
  "run_flags =
     [(flagDBusConfigSession, ''dbus-config'', StringFlag ''builtin'',
        ''Path to session bus proxy config file, or \"builtin\" for defaults''),
      (flagDBusConfigSystem, ''dbus-system'', StringFlag ''nil'',
        ''Path to system bus proxy config file, or \"nil\" to disable''),
      (flagDBusMpris, ''mpris'', BoolFlag False,
        ''Allow owning MPRIS D-Bus path, has no effect if custom config is available''),
      (flagDBusVerbose, ''dbus-log'', BoolFlag False, ''Force buffered logging in the D-Bus proxy''),
      (flagID, ''id'', StringFlag '''',
        ''Reverse-DNS style Application identifier, leave empty to inherit instance identifier''),
      (flagIdentity, ''a'', IntFlag 0, ''Application identity''),
      (0, ''g'', RepeatableFlag flagGroups, ''Groups inherited by all container processes''),
      (flagHomeDir, ''d'', StringFlag ''os'', ''Container home directory''),
      (flagUserName, ''u'', StringFlag ''chronos'', ''Passwd user name within sandbox''),
      (flagPrivateRuntime, ''private-runtime'', BoolFlag False,
        ''Do not share XDG_RUNTIME_DIR between containers under the same identity''),
      (flagPrivateTmpdir, ''private-tmpdir'', BoolFlag False,
        ''Do not share TMPDIR between containers under the same identity''),
      (flagWayland, ''wayland'', BoolFlag False, ''Enable connection to Wayland via security-context-v1''),
      (flagX11, ''X'', BoolFlag False, ''Enable direct connection to X11''),
      (flagDBus, ''dbus'', BoolFlag False, ''Enable proxied connection to D-Bus''),
      (flagPulse, ''pulse'', BoolFlag False, ''Enable direct connection to PulseAudio'')]"

definition hak_commands :: "(string \<times> string \<times> hak_handler \<times> flag_spec list) list" where
  "hak_commands =
     [(''shim'', UsageInternal, HShim, []),
      (''app'', ''Load and start container from configuration file'', HApp,
        [(flagIdentifierFile, ''identifier-fd'', IntFlag (- 1),
           ''Write identifier of current instance to fd after successful startup'')]),
      (''run'', ''Configure and start a permissive container'', HRun, run_flags),
      (''show'', ''Show live or local app configuration'', HShow,
        [(flagShowShort, ''short'', BoolFlag False, ''Omit filesystem information''),
         (flagNoStore, ''no-store'', BoolFlag False, ''Do not attempt to match from active instances'')]),
      (''ps'', ''List active instances'', HPs,
        [(flagPsShort, ''short'', BoolFlag False, ''Print instance id'')]),
      (''version'', ''Display version information'', HVersion, []),
      (''license'', ''Show full license text'', HLicense, []),
      (''template'', ''Produce a config template'', HTemplate, []),
      (''help'', ''Show this help message'', HHelp, [])]"

definition buildCommand :: "'w \<Rightarrow> (unit, (hak_handler, 'w) cstate) go option" where
  "buildCommand w =
     (case flags_loop 0 root_flags (cmd_New ''hakurei'' (Some HEarly) zero_vars w) of
        Ret st \<Rightarrow> commands_loop hak_commands st
      | Fail e \<Rightarrow> Some (Fail e)
      | Panic m \<Rightarrow> Some (Panic m))"

subsection \<open>The handler of run\<close>

text \<open>What the handler reads of its surroundings: the variable \<open>SHELL\<close>, the quoting of \<open>fmt\<close>, the search for a
  program, the
  answer of \<open>hsu\<close>, the user database (name and home directory of a uid) and bus configurations loaded
  from files, the error being the text the process ends with.\<close>

record runk =
  rk_shell :: string
  rk_quote :: "string \<Rightarrow> string"
  rk_LookPath :: "string \<Rightarrow> string + string"
  rk_MustID :: "(out_error, int) go"
  rk_LookupId :: "string \<Rightarrow> (string \<times> string) option"
  rk_loadBus :: "string \<Rightarrow> string \<Rightarrow> string + BusConfig option"

fun flag_str :: "fvalue \<Rightarrow> string" where "flag_str (FString s) = s" | "flag_str _ = []"
fun flag_int :: "fvalue \<Rightarrow> int" where "flag_int (FInt i) = i" | "flag_int _ = 0"
fun flag_bool :: "fvalue \<Rightarrow> bool" where "flag_bool (FBool b) = b" | "flag_bool _ = False"
fun flag_list :: "fvalue \<Rightarrow> string list" where "flag_list (FList l) = l" | "flag_list _ = []"

definition fatal_abs :: "runk \<Rightarrow> (abs_error, 'a) go \<Rightarrow> (out_error, 'a) go" where
  "fatal_abs k r =
     (case r of
        Ret a \<Rightarrow> Ret a
      | Fail (AbsoluteError p) \<Rightarrow> Fail (OFatal (''path '' @ rk_quote k p @ '' is not absolute''))
      | Panic m \<Rightarrow> Panic m)"

definition bind0 :: FSBind where
  "bind0 = \<lparr>bind_Target = None, bind_Source = None, bind_Write = False, bind_Device = False, bind_Ensure = False,
     bind_Optional = False, bind_Special = False\<rparr>"

definition passwd_of :: "runk \<Rightarrow> int \<Rightarrow> (out_error, string \<times> string) go" where
  "passwd_of k identity =
     bind_go (rk_MustID k) (\<lambda>userid.
       Ret (case rk_LookupId k (Itoa (ToUser_int userid identity)) of
              None \<Rightarrow> (''chronos'', fhs_VarEmpty)
            | Some u \<Rightarrow> u))"

definition run_enablements :: "vars \<Rightarrow> Enablement" where
  "run_enablements vars =
     (if flag_bool (vars flagWayland) then EWayland else 0) OR (if flag_bool (vars flagX11) then EX11 else 0)
     OR (if flag_bool (vars flagDBus) then EDBus else 0) OR (if flag_bool (vars flagPulse) then EPulse else 0)"

definition run_filesystem :: "Enablement \<Rightarrow> FilesystemConfig option list" where
  "run_filesystem et =
     [Some (FS_Bind (bind0\<lparr>bind_Target := Some (Absolute fhs_Root), bind_Source := Some (Absolute fhs_Root),
        bind_Write := True, bind_Special := True\<rparr>))]
     @ (if et AND (EX11 OR EWayland) \<noteq> 0
        then [Some (FS_Bind (bind0\<lparr>bind_Source := Some (abs_join (Absolute fhs_Dev) ''dri''), bind_Device := True,
           bind_Optional := True\<rparr>))]
        else [])
     @ [Some (FS_Bind (bind0\<lparr>bind_Source := Some (abs_join (Absolute fhs_Dev) ''kvm''), bind_Device := True,
           bind_Optional := True\<rparr>)),
        Some (FS_Bind (bind0\<lparr>bind_Target := Some (Absolute fhs_Etc), bind_Source := Some (Absolute fhs_Etc),
           bind_Special := True\<rparr>))]"

definition load_bus :: "runk \<Rightarrow> string \<Rightarrow> string \<Rightarrow> (out_error, BusConfig option) go" where
  "load_bus k op path = (case rk_loadBus k op path of Inl m \<Rightarrow> Fail (OFatal m) | Inr b \<Rightarrow> Ret b)"

definition run_buses :: "runk \<Rightarrow> vars \<Rightarrow> (out_error, BusConfig option \<times> BusConfig option) go" where
  "run_buses k vars =
     (if \<not> flag_bool (vars flagDBus) then Ret (None, None)
      else
        bind_go (if flag_str (vars flagDBusConfigSession) = ''builtin''
                 then Ret (Some (NewConfig (flag_str (vars flagID)) True (flag_bool (vars flagDBusMpris))))
                 else load_bus k ''load session bus proxy config'' (flag_str (vars flagDBusConfigSession))) (\<lambda>session.
        bind_go (if flag_str (vars flagDBusConfigSystem) \<noteq> ''nil''
                 then load_bus k ''load system bus proxy config'' (flag_str (vars flagDBusConfigSystem))
                 else Ret None) (\<lambda>system.
          let verbose = (if flag_bool (vars flagDBusVerbose) then map_option (Log_update (\<lambda>_. True)) else (\<lambda>b. b))
          in Ret (verbose session, verbose system))))"

text \<open>The configuration \<open>run\<close> passes on to \<open>outcome.Main\<close>, or the way the process ends instead.\<close>

definition run_config :: "runk \<Rightarrow> vars \<Rightarrow> string list \<Rightarrow> (out_error, Config) go" where
  "run_config k vars args =
     (let identity = flag_int (vars flagIdentity) in
      if identity < int (unat IdentityStart) \<or> int (unat IdentityEnd) < identity
      then Fail (OFatal (''identity '' @ Itoa identity @ '' out of range''))
      else
        let shell = (case NewAbs (rk_shell k) of
                       Ret a \<Rightarrow> a
                     | _ \<Rightarrow> Absolute (path_Join [fhs_Root, ''bin'', ''sh'']));
            et = run_enablements vars in
        bind_go (case args of
                   [] \<Rightarrow> Ret shell
                 | a # _ \<Rightarrow> (case rk_LookPath k a of Inl m \<Rightarrow> Fail (OFatal m) | Inr p \<Rightarrow> fatal_abs k (NewAbs p))) (\<lambda>progPath.
        bind_go (if flag_str (vars flagUserName) = ''chronos''
                 then bind_go (passwd_of k identity) (\<lambda>u. Ret (fst u))
                 else Ret (flag_str (vars flagUserName))) (\<lambda>username.
        bind_go (if flag_str (vars flagHomeDir) = ''os''
                 then bind_go (passwd_of k identity) (\<lambda>u. Ret (snd u))
                 else Ret (flag_str (vars flagHomeDir))) (\<lambda>homeDir.
        bind_go (fatal_abs k (NewAbs homeDir)) (\<lambda>home.
        bind_go (run_buses k vars) (\<lambda>(session, system).
          Ret \<lparr>cfg_ID = flag_str (vars flagID), cfg_Enablements = Some et, cfg_SessionBus = session,
             cfg_SystemBus = system, cfg_DirectWayland = False, cfg_ExtraPerms = [], cfg_Identity = identity,
             cfg_Groups = flag_list (vars flagGroups),
             cfg_Container = Some
               \<lparr>c_Hostname = [], c_WaitDelay = 0, c_Env = [], c_Filesystem = run_filesystem et,
                c_Username = username, c_Shell = Some shell, c_Home = Some home, c_Path = Some progPath,
                c_Args = args,
                c_Flags = FUserns OR FHostNet OR FHostAbstract OR FTty
                  OR (if flag_bool (vars flagPrivateRuntime) then 0 else FShareRuntime)
                  OR (if flag_bool (vars flagPrivateTmpdir) then 0 else FShareTmpdir),
                c_Cgroup = None\<rparr>\<rparr>))))))"

subsection \<open>The handlers of app and show, and main\<close>

text \<open>\<open>app\<close> loads a configuration, with the decoder of the source as a parameter, and appends the
  remaining arguments to those of the container.\<close>

definition app_config ::
  "fdk \<Rightarrow> (config_source \<Rightarrow> (unit, Config option) go) \<Rightarrow> string list \<Rightarrow> (unit, Config option) go" where
  "app_config k decode args =
     (case args of
        [] \<Rightarrow> Panic ''app requires at least 1 argument''
      | name # rest \<Rightarrow>
          bind_go (tryPath k name) (\<lambda>src.
          bind_go (decode src) (\<lambda>config.
            Ret (map_option (\<lambda>c. c\<lparr>cfg_Container := map_option (\<lambda>cc. cc\<lparr>c_Args := c_Args cc @ rest\<rparr>) (cfg_Container c)\<rparr>)
                   config))))"

text \<open>The instance and the configuration \<open>show\<close> displays for its argument.\<close>

definition show_config ::
  "fdk \<Rightarrow> (config_source \<Rightarrow> (unit, Config option) go) \<Rightarrow> (EntryHandle \<Rightarrow> State option) \<Rightarrow> EntryHandle list
     \<Rightarrow> vars \<Rightarrow> string \<Rightarrow> (unit, State option \<times> Config option) go" where
  "show_config k decode load entries vars name =
     (let entry = (if flag_bool (vars flagNoStore) then None else tryIdentifier load entries name) in
      case entry of
        None \<Rightarrow> bind_go (tryPath k name) (\<lambda>src. bind_go (decode src) (\<lambda>config. Ret (None, config)))
      | Some s \<Rightarrow> Ret (Some s, st_Config s))"

text \<open>The exit status of \<open>main\<close>: handlers report success by the error \<open>errSuccess\<close>, and a command that
  returns without an error is a fatal error.\<close>

datatype hak_error = ErrSuccess | OtherError string

fun main_exit :: "hak_error must \<Rightarrow> nat" where
  "main_exit Returned = 1"
| "main_exit (Exited n) = n"
| "main_exit (HandledExit err n) = (if err = HandlerError ErrSuccess then 0 else n)"

lemma main_exit_success:
  "main_exit (must_outcome err) = 0 \<longleftrightarrow>
     err = Some ErrHelp \<or> err = Some (FlagError FlagHelp) \<or> err = Some (HandlerError ErrSuccess)"
  by (cases err rule: must_outcome.cases) (auto split: if_splits)

subsection \<open>The tree is well formed\<close>

lemma flags_loop_built:
  "built st \<Longrightarrow> n < length (cs_heap st) \<Longrightarrow> flags_loop n fs st = Ret st' \<Longrightarrow> built st'"
proof (induction n fs st rule: flags_loop.induct)
  case (2 n p name d usage fs st)
  then obtain st1 where st1: "cmd_Flag st n p name d usage = Ret st1" and rest: "flags_loop n fs st1 = Ret st'"
    by auto
  moreover have "length (cs_heap st1) = length (cs_heap st)"
    using st1 by (auto simp: cmd_Flag_def upd_node_def)
  ultimately show ?case
    using 2 by (simp add: built_Flag [OF 2(2,3) st1])
qed simp

lemma commands_loop_built: "built st \<Longrightarrow> commands_loop cs st = Some (Ret st') \<Longrightarrow> built st'"
proof (induction cs st rule: commands_loop.induct)
  case (2 name usage h fs cs st)
  obtain v st1 st2 where new: "node_NewCommand st 0 name usage (Some h) = Some (Ret (v, st1))"
    and flags: "flags_loop v fs st1 = Ret st2" and rest: "commands_loop cs st2 = Some (Ret st')"
    using 2(3) by (auto split: option.splits go.splits)
  obtain kids where "tree_inv st kids"
    using built_tree_inv [OF 2(2)] by blast
  then have root: "represents (cs_heap st) kids" "0 < length (cs_heap st)"
    by (auto simp: tree_inv_def)
  have "built st1"
    by (rule built_Command [OF 2(2) root(2) _ new]) simp
  moreover have "v < length (cs_heap st1)"
    using new adopt_new_spec(1) [OF root, of "(newNode name usage)\<lparr>n_f := Some h\<rparr>"]
    by (auto simp: node_NewCommand_def newNode_def split: if_splits)
  ultimately have "built st2"
    using flags flags_loop_built by blast
  with 2(1) [OF new] flags rest show ?case by simp
qed simp

definition node_view ::
  "'h cnode \<Rightarrow> string \<times> 'h option \<times> nat option \<times> nat option \<times> (string \<times> nat) list" where
  "node_view n = (n_name n, n_f n, n_child n, n_next n, map (\<lambda>f. (f_name f, f_var f)) (n_formal n))"

lemma buildCommand_view:
  "(case buildCommand w of
      Some (Ret st) \<Rightarrow> map node_view (cs_heap st) =
        [(''hakurei'', Some HEarly, Some 1, None, [(''v'', flagVerbose), (''json'', flagJSON)]),
         (''shim'', Some HShim, None, Some 2, []),
         (''app'', Some HApp, None, Some 3, [(''identifier-fd'', flagIdentifierFile)]),
         (''run'', Some HRun, None, Some 4,
           [(''dbus-config'', flagDBusConfigSession), (''dbus-system'', flagDBusConfigSystem), (''mpris'', flagDBusMpris),
            (''dbus-log'', flagDBusVerbose), (''id'', flagID), (''a'', flagIdentity), (''g'', flagGroups),
            (''d'', flagHomeDir), (''u'', flagUserName), (''private-runtime'', flagPrivateRuntime),
            (''private-tmpdir'', flagPrivateTmpdir), (''wayland'', flagWayland), (''X'', flagX11), (''dbus'', flagDBus),
            (''pulse'', flagPulse)]),
         (''show'', Some HShow, None, Some 5, [(''short'', flagShowShort), (''no-store'', flagNoStore)]),
         (''ps'', Some HPs, None, Some 6, [(''short'', flagPsShort)]),
         (''version'', Some HVersion, None, Some 7, []),
         (''license'', Some HLicense, None, Some 8, []),
         (''template'', Some HTemplate, None, Some 9, []),
         (''help'', Some HHelp, None, None, [])]
    | _ \<Rightarrow> False)"
  by code_simp

lemma buildCommand_tree:
  obtains st where "buildCommand w = Some (Ret st)" and "built st" and "length (cs_heap st) = 10"
    and "chain (cs_heap st) (n_child (node st 0)) [1, 2, 3, 4, 5, 6, 7, 8, 9]"
    and "\<And>i. i < 9 \<Longrightarrow> n_name (node st (Suc i)) = fst (hak_commands ! i) \<and>
           n_f (node st (Suc i)) = Some (fst (snd (snd (hak_commands ! i)))) \<and> n_child (node st (Suc i)) = None"
proof -
  obtain st where st: "buildCommand w = Some (Ret st)"
    using buildCommand_view [of w] by (auto split: option.splits go.splits)
  define view where "view = map node_view (cs_heap st)"
  note v = buildCommand_view [of w, unfolded st option.case go.case, folded view_def]
  have len: "length (cs_heap st) = 10"
    using arg_cong [OF v, of length] by (simp add: view_def)
  have nth: "node_view (node st p) = view ! p" if "p < 10" for p
    using that len by (simp add: view_def)
  have next_: "n_next (node st p) = fst (snd (snd (snd (view ! p))))"
    and child: "n_child (node st p) = fst (snd (snd (view ! p)))"
    and name: "n_name (node st p) = fst (view ! p)" and f: "n_f (node st p) = fst (snd (view ! p))" if "p < 10" for p
    using nth [OF that] by (auto simp: node_view_def dest: sym)
  have "built st"
  proof -
    let ?st0 = "cmd_New ''hakurei'' (Some HEarly) zero_vars w :: (hak_handler, _) cstate"
    obtain st1 where flags: "flags_loop 0 root_flags ?st0 = Ret st1"
      and cmds: "commands_loop hak_commands st1 = Some (Ret st)"
      using st by (auto simp: buildCommand_def split: go.splits)
    have "built st1"
      by (rule flags_loop_built [OF built_New _ flags]) (simp add: cmd_New_def)
    then show ?thesis
      using cmds by (rule commands_loop_built)
  qed
  moreover have "chain (cs_heap st) (n_child (node st 0)) [1, 2, 3, 4, 5, 6, 7, 8, 9]"
    by (simp add: child v) (intro chain.intros; simp add: next_ v)+
  moreover have "n_name (node st (Suc i)) = fst (hak_commands ! i) \<and>
      n_f (node st (Suc i)) = Some (fst (snd (snd (hak_commands ! i)))) \<and> n_child (node st (Suc i)) = None" if "i < 9" for i
  proof -
    have "i \<in> {0, 1, 2, 3, 4, 5, 6, 7, 8}" using that by auto
    then show ?thesis
      by (elim insertE emptyE) (simp_all add: name f child v hak_commands_def)
  qed
  ultimately show ?thesis
    using that st len by blast
qed

lemma hak_commands_length: "length hak_commands = 9"
  by (simp add: hak_commands_def)

lemma hak_not_flag: "i < 9 \<Longrightarrow> not_flag (fst (hak_commands ! i))"
proof -
  have "\<forall>c \<in> set hak_commands. not_flag (fst c)"
    by (simp add: hak_commands_def not_flag_def)
  then show "i < 9 \<Longrightarrow> ?thesis"
    by (metis (no_types, lifting) hak_commands_length nth_mem)
qed

text \<open>C17: The command line of hakurei: building the tree of commands does not panic, parsing it ends
  without a panic for all arguments, whatever the handlers do, and each command is reached by its
  name, before which the handler of the root runs: its handler is called with the arguments left
  after its flags.\<close>

theorem hakurei_command_line:
  "\<exists>st. buildCommand w = Some (Ret st) \<and>
     (\<forall>env arguments. \<exists>err st'. cmd_Parse env st 0 arguments = Some (Ret (err, st'))) \<and>
     (\<forall>i < length hak_commands. case hak_commands ! i of (name, usage, h, fs) \<Rightarrow>
        \<forall>env vars0 w0 rest args vars.
          early env st = (None, vars0, w0) \<and>
          flag_Parse (n_formal (node st (Suc i))) rest vars0 = (None, args, vars) \<longrightarrow>
          handled env h args vars w0 (cmd_Parse env st 0 (name # rest)))"
proof -
  obtain st where st: "buildCommand w = Some (Ret st)" and built: "built st" and len: "length (cs_heap st) = 10"
    and chain: "chain (cs_heap st) (n_child (node st 0)) [1, 2, 3, 4, 5, 6, 7, 8, 9]"
    and nodes: "\<And>i. i < 9 \<Longrightarrow> n_name (node st (Suc i)) = fst (hak_commands ! i) \<and>
           n_f (node st (Suc i)) = Some (fst (snd (snd (hak_commands ! i)))) \<and> n_child (node st (Suc i)) = None"
    by (rule buildCommand_tree [of w]) blast
  have "handled env (fst (snd (snd (hak_commands ! i)))) args vars w0 (cmd_Parse env st 0 (fst (hak_commands ! i) # rest))"
    if i: "i < 9" and early: "early env st = (None, vars0, w0)"
      and flags: "flag_Parse (n_formal (node st (Suc i))) rest vars0 = (None, args, vars)"
    for i rest args vars vars0 w0 and env :: "(hak_handler, 'e, 'a) cenv"
  proof -
    have "Suc i \<in> set [1, 2, 3, 4, 5, 6, 7, 8, 9]"
      using i by auto
    from leads_down [OF chain this leads_here]
    have "leads (cs_heap st) 0 [fst (hak_commands ! i)] (Suc i)"
      using nodes [OF i] by simp
    from cmd_Parse_dispatch_aux [OF built this _ _ _ early flags] nodes [OF i] hak_not_flag [OF i]
    show ?thesis by simp
  qed
  then have "case hak_commands ! i of (name, usage, h, fs) \<Rightarrow>
        \<forall>env vars0 w0 rest args vars.
          early env st = (None, vars0, w0) \<and>
          flag_Parse (n_formal (node st (Suc i))) rest vars0 = (None, args, vars) \<longrightarrow>
          handled (env :: (hak_handler, 'e, 'a) cenv) h args vars w0 (cmd_Parse env st 0 (name # rest))" if "i < 9" for i
    using that by (cases "hak_commands ! i") fastforce
  with st cmd_Parse_total [OF built] show ?thesis
    unfolding hak_commands_length by blast
qed

definition hak_env :: "(hak_handler, unit, string list) cenv" where
  "hak_env = \<lparr>emit = \<lambda>_ w. (None, w), call_handler = \<lambda>_ args vars w. (None, vars, args)\<rparr>"

theorem hakurei_command_line_witness:
  "\<exists>st. buildCommand [] = Some (Ret st) \<and>
     handled hak_env HRun [] (cs_vars st) [] (cmd_Parse hak_env st 0 [''run''])"
proof -
  obtain st where st: "buildCommand [] = Some (Ret st)"
    and all: "\<forall>i < length hak_commands. case hak_commands ! i of (name, usage, h, fs) \<Rightarrow>
        \<forall>env vars0 w0 rest args vars.
          early env st = (None, vars0, w0) \<and>
          flag_Parse (n_formal (node st (Suc i))) rest vars0 = (None, args, vars) \<longrightarrow>
          handled (env :: (hak_handler, unit, string list) cenv) h args vars w0 (cmd_Parse env st 0 (name # rest))"
    using hakurei_command_line [of "[]"] by blast
  have "hak_commands ! 2 = (''run'', ''Configure and start a permissive container'', HRun, run_flags)"
    by (simp add: hak_commands_def)
  moreover have "early hak_env st = (None, cs_vars st, [])"
    using buildCommand_view [of "[] :: string list"] st
    by (cases "cs_heap st") (auto simp: early_def hak_env_def node_view_def)
  moreover have "flag_Parse formal [] vars = (None, [], vars)" for formal vars
    by (subst flag_Parse.simps) (simp add: parseOne_def)
  ultimately show ?thesis
    using st all [rule_format, of 2] by (auto simp: hak_commands_length)
qed

subsection \<open>The configuration of run\<close>

lemma run_config_Ret:
  assumes "run_config k vars args = Ret c"
  obtains username shell home prog session system where
    "run_buses k vars = Ret (session, system)"
    and "0 \<le> flag_int (vars flagIdentity)" and "flag_int (vars flagIdentity) \<le> 9999"
    and "IsAbs (pathname shell)" and "IsAbs (pathname home)" and "IsAbs (pathname prog)"
    and "c = \<lparr>cfg_ID = flag_str (vars flagID), cfg_Enablements = Some (run_enablements vars), cfg_SessionBus = session,
       cfg_SystemBus = system, cfg_DirectWayland = False, cfg_ExtraPerms = [],
       cfg_Identity = flag_int (vars flagIdentity), cfg_Groups = flag_list (vars flagGroups),
       cfg_Container = Some
         \<lparr>c_Hostname = [], c_WaitDelay = 0, c_Env = [], c_Filesystem = run_filesystem (run_enablements vars),
          c_Username = username, c_Shell = Some shell, c_Home = Some home, c_Path = Some prog, c_Args = args,
          c_Flags = FUserns OR FHostNet OR FHostAbstract OR FTty
            OR (if flag_bool (vars flagPrivateRuntime) then 0 else FShareRuntime)
            OR (if flag_bool (vars flagPrivateTmpdir) then 0 else FShareTmpdir),
          c_Cgroup = None\<rparr>\<rparr>"
proof -
  have abs: "IsAbs (pathname a)" if "fatal_abs k (NewAbs p) = Ret a" for p a
    using that by (auto simp: fatal_abs_def NewAbs_def unsafeAbs_def simp del: IsAbs_iff split: if_splits)
  define shell where "shell = (case NewAbs (rk_shell k) of Ret a \<Rightarrow> a | _ \<Rightarrow> Absolute (path_Join [fhs_Root, ''bin'', ''sh'']))"
  have shell: "IsAbs (pathname shell)"
    using IsAbs_path_Join [of fhs_Root "[''bin'', ''sh'']"]
    by (auto simp: shell_def NewAbs_def unsafeAbs_def fhs_Root_def slash_def simp del: path_Join_abs)
  obtain prog username homeDir home session system where
    "(case args of [] \<Rightarrow> Ret shell
       | a # _ \<Rightarrow> (case rk_LookPath k a of Inl m \<Rightarrow> Fail (OFatal m) | Inr p \<Rightarrow> fatal_abs k (NewAbs p))) = Ret prog"
    and home: "fatal_abs k (NewAbs homeDir) = Ret home"
    and "run_buses k vars = Ret (session, system)" and cfg: "\<not> flag_int (vars flagIdentity) < int (unat IdentityStart)"
      "\<not> int (unat IdentityEnd) < flag_int (vars flagIdentity)"
      "c = \<lparr>cfg_ID = flag_str (vars flagID), cfg_Enablements = Some (run_enablements vars), cfg_SessionBus = session,
       cfg_SystemBus = system, cfg_DirectWayland = False, cfg_ExtraPerms = [],
       cfg_Identity = flag_int (vars flagIdentity), cfg_Groups = flag_list (vars flagGroups),
       cfg_Container = Some
         \<lparr>c_Hostname = [], c_WaitDelay = 0, c_Env = [], c_Filesystem = run_filesystem (run_enablements vars),
          c_Username = username, c_Shell = Some shell, c_Home = Some home, c_Path = Some prog, c_Args = args,
          c_Flags = FUserns OR FHostNet OR FHostAbstract OR FTty
            OR (if flag_bool (vars flagPrivateRuntime) then 0 else FShareRuntime)
            OR (if flag_bool (vars flagPrivateTmpdir) then 0 else FShareTmpdir),
          c_Cgroup = None\<rparr>\<rparr>"
    using assms unfolding run_config_def Let_def shell_def [symmetric] by (auto split: if_splits)
  moreover from this have "IsAbs (pathname prog)"
    using shell abs by (auto split: list.splits sum.splits)
  moreover have "IsAbs (pathname home)"
    by (rule abs [OF home])
  ultimately show ?thesis
    using that shell by (simp add: identity_ends)
qed

lemma run_filesystem_valid: "list_all (\<lambda>c. \<exists>x. c = Some x \<and> fs_Valid x) (run_filesystem et)"
  by (simp add: run_filesystem_def bind_Valid_def bind0_def)

lemma run_enablements_bits:
  "(run_enablements vars AND EWayland \<noteq> 0 \<longleftrightarrow> flag_bool (vars flagWayland)) \<and>
   (run_enablements vars AND EX11 \<noteq> 0 \<longleftrightarrow> flag_bool (vars flagX11)) \<and>
   (run_enablements vars AND EDBus \<noteq> 0 \<longleftrightarrow> flag_bool (vars flagDBus)) \<and>
   (run_enablements vars AND EPulse \<noteq> 0 \<longleftrightarrow> flag_bool (vars flagPulse))"
  by (simp add: run_enablements_def enablement_bits)

lemma Interfaces_log: "Interfaces (map_option (Log_update g) b) = Interfaces b"
  by (cases b) (simp_all add: Interfaces_def)

lemma NewConfig_interfaces:
  "list_all good_interface (Interfaces (Some (NewConfig ident True mpris))) \<longleftrightarrow> ident = [] \<or> CHR ''.'' \<in> set ident"
  using CheckInterfaces_spec [of _ _ ident mpris] by (simp add: CheckInterfaces_None)

text \<open>C16: \<open>hakurei run\<close> asks for exactly what its flags say: the configuration it passes on has the
  enablements of the flags, valid mount points and the identity and program asked for, with an
  identity and pathnames \<open>Validate\<close> accepts; it is rejected only for the names of a bus, and with the
  builtin bus configuration only when D-Bus is enabled and the application identifier has no dot.\<close>

theorem run_config_valid:
  assumes "run_config k vars args = Ret c"
  shows "(Config_Validate quote (Some c) = Ret () \<longleftrightarrow>
      list_all good_interface (Interfaces (cfg_SessionBus c) @ Interfaces (cfg_SystemBus c))) \<and>
    (flag_str (vars flagDBusConfigSession) = ''builtin'' \<and> flag_str (vars flagDBusConfigSystem) = ''nil'' \<longrightarrow>
      (Config_Validate quote (Some c) = Ret () \<longleftrightarrow>
         \<not> flag_bool (vars flagDBus) \<or> flag_str (vars flagID) = [] \<or> CHR ''.'' \<in> set (flag_str (vars flagID)))) \<and>
    (case cfg_Enablements c of
       None \<Rightarrow> False
     | Some et \<Rightarrow> (et AND EWayland \<noteq> 0 \<longleftrightarrow> flag_bool (vars flagWayland)) \<and> (et AND EX11 \<noteq> 0 \<longleftrightarrow> flag_bool (vars flagX11)) \<and>
         (et AND EDBus \<noteq> 0 \<longleftrightarrow> flag_bool (vars flagDBus)) \<and> (et AND EPulse \<noteq> 0 \<longleftrightarrow> flag_bool (vars flagPulse))) \<and>
    (case cfg_Container c of
       None \<Rightarrow> False
     | Some cc \<Rightarrow> c_Args cc = args \<and> list_all (\<lambda>f. \<exists>x. f = Some x \<and> fs_Valid x) (c_Filesystem cc) \<and>
         list_all (\<lambda>p. \<exists>a. p = Some a \<and> IsAbs (pathname a)) [c_Shell cc, c_Home cc, c_Path cc])"
proof -
  from assms obtain username shell home prog session system where buses: "run_buses k vars = Ret (session, system)"
    and ident: "0 \<le> flag_int (vars flagIdentity)" "flag_int (vars flagIdentity) \<le> 9999"
    and paths: "IsAbs (pathname shell)" "IsAbs (pathname home)" "IsAbs (pathname prog)"
    and c: "c = \<lparr>cfg_ID = flag_str (vars flagID), cfg_Enablements = Some (run_enablements vars), cfg_SessionBus = session,
       cfg_SystemBus = system, cfg_DirectWayland = False, cfg_ExtraPerms = [],
       cfg_Identity = flag_int (vars flagIdentity), cfg_Groups = flag_list (vars flagGroups),
       cfg_Container = Some
         \<lparr>c_Hostname = [], c_WaitDelay = 0, c_Env = [], c_Filesystem = run_filesystem (run_enablements vars),
          c_Username = username, c_Shell = Some shell, c_Home = Some home, c_Path = Some prog, c_Args = args,
          c_Flags = FUserns OR FHostNet OR FHostAbstract OR FTty
            OR (if flag_bool (vars flagPrivateRuntime) then 0 else FShareRuntime)
            OR (if flag_bool (vars flagPrivateTmpdir) then 0 else FShareTmpdir),
          c_Cgroup = None\<rparr>\<rparr>"
    by (rule run_config_Ret)
  have valid: "Config_Validate quote (Some c) = Ret () \<longleftrightarrow>
      list_all good_interface (Interfaces session @ Interfaces system)"
    using ident by (simp add: Config_Validate_Ret c container_ok_def)
  moreover have "list_all good_interface (Interfaces session @ Interfaces system) \<longleftrightarrow>
      \<not> flag_bool (vars flagDBus) \<or> flag_str (vars flagID) = [] \<or> CHR ''.'' \<in> set (flag_str (vars flagID))"
    if "flag_str (vars flagDBusConfigSession) = ''builtin'' \<and> flag_str (vars flagDBusConfigSystem) = ''nil''"
  proof (cases "flag_bool (vars flagDBus)")
    case True
    then have "Interfaces session = Interfaces (Some (NewConfig (flag_str (vars flagID)) True (flag_bool (vars flagDBusMpris))))"
      and "Interfaces system = []"
      using that buses by (auto simp: run_buses_def Interfaces_log Interfaces_def Let_def split: if_splits)
    with True show ?thesis by (simp add: NewConfig_interfaces)
  next
    case False
    with buses show ?thesis by (simp add: run_buses_def Interfaces_def)
  qed
  ultimately show ?thesis
    using paths run_filesystem_valid run_enablements_bits [of vars] by (simp add: c del: IsAbs_iff)
qed

definition runk0 :: runk where
  "runk0 = \<lparr>rk_shell = ''/bin/sh'', rk_quote = (\<lambda>s. s), rk_LookPath = Inr, rk_MustID = Ret 0, rk_LookupId = (\<lambda>_. None),
     rk_loadBus = (\<lambda>_ _. Inr None)\<rparr>"

definition run_vars :: vars where
  "run_vars = zero_vars(flagDBusConfigSession := FString ''builtin'', flagDBusConfigSystem := FString ''nil'',
     flagHomeDir := FString ''/home'', flagUserName := FString ''u'', flagDBus := FBool True, flagID := FString ''org.x'')"

theorem run_config_valid_witness:
  "\<exists>c. run_config runk0 run_vars [''/bin/true''] = Ret c \<and> Config_Validate (\<lambda>s. s) (Some c) = Ret ()"
proof -
  have "\<exists>c. run_config runk0 run_vars [''/bin/true''] = Ret c"
    by (simp add: run_config_def runk0_def run_vars_def zero_vars_def flag_addresses NewAbs_def unsafeAbs_def
        fatal_abs_def run_buses_def identity_ends Let_def slash_def)
  then obtain c where "run_config runk0 run_vars [''/bin/true''] = Ret c" ..
  with run_config_valid [OF this, of "\<lambda>s. s"] show ?thesis
    by (simp add: run_vars_def flag_addresses)
qed

end
