(* ===== verification/Spec2Isabelle.thy ===== *)
theory Spec2Isabelle
  imports Vfs Sys_Commit Cont_Overlay Cont_Reap Cont_Start Handoff Ldd Message Hak_Cmd
begin

text \<open>
  \<^bold>\<open>hakurei\<close> runs desktop applications in containers under dedicated users. This development models
  the core of the Go program under \<open>src/\<close> and proves it correct, component by component.

  \<^bold>\<open>The program.\<close> The privileged side (\<open>cmd/hakurei\<close>) reads a configuration (package \<open>hst\<close>), validates
  it, registers reversible operations on the host (\<open>internal/system\<close>), commits them, records the
  instance in a store shared between processes (\<open>internal/store\<close>) and starts a shim as another user
  through the setuid helper \<open>cmd/hsu\<close>; \<open>internal/outcome\<close> drives this. The shim starts the container, whose init builds the mount
  namespace from pathnames checked by \<open>container/check\<close> and remounts hierarchies it reads from
  \<open>mountinfo\<close> (\<open>container/vfs\<close>). Access to the message bus goes through a proxy configured by
  \<open>internal/dbus\<close>.

  \<^bold>\<open>Conventions.\<close> A Go string or byte slice is a \<^typ>\<open>string\<close> with one \<^typ>\<open>char\<close> per byte. A function that
  may return an error or panic has a result of type \<open>go\<close> (\<open>Ret\<close>, \<open>Fail\<close>, \<open>Panic\<close>; theory \<open>Prelude\<close>).
  Nil pointers are \<^term>\<open>None\<close>. Fixed width integers are words. Calls to the kernel and to libraries bound
  by cgo are fields of a record of functions on a state of the host, which the definitions take as an
  argument; what a theorem relies on of them is a locale or a named hypothesis. Go's \<open>int\<close> is \<^typ>\<open>int\<close>,
  with the 64-bit bound written out where a value is parsed. Verbose logging is left out.

  \<^bold>\<open>Theories.\<close>

  \<^item> \<open>Prelude\<close>, \<open>Go_Num\<close>, \<open>Go_Path\<close>: the parts of the Go standard library the source uses (\<open>strings\<close>,
    \<open>strconv\<close>, \<open>encoding/hex\<close>, \<open>encoding/binary\<close>, \<open>path\<close>), with their round trips and the normal form of
    cleaned pathnames.
  \<^item> \<open>Hsu\<close>: all of \<open>cmd/hsu\<close>. \<open>hsu_main\<close> gives the system calls of a run and how it ended, over the
    environment \<open>hsu_env\<close>. Theorems: a privileged call is made only for a user the protected \<open>hsurc\<close>
    authorises, in the order that drops groups before the uid; the exact language of \<open>hsurc\<close>; uids of
    different users and identities never collide.
  \<^item> \<open>Check_Abs\<close>: \<open>container/check\<close>, \<open>container/fhs\<close> and \<open>toSysroot\<close>, \<open>toHost\<close> of \<open>container/path.go\<close>.
    Every operation keeps pathnames absolute, overlay escaping is read back by the overlay parser, and a
    pathname without \<open>..\<close> stays below the new root.
  \<^item> \<open>Vfs\<close>: \<open>container/vfs\<close>. The line parser inverts the kernel's printing; \<open>Unfold\<close> links exactly the
    visible mounts of the subtree. Walking the hierarchy (\<open>n_visit\<close>) takes fuel since the pointers may
    form a cycle; on an acyclic table there is a bound beyond which any fuel gives the same result.
  \<^item> \<open>Dbus\<close>: \<open>internal/dbus\<close> (addresses, arguments, \<open>Finalise\<close>), \<open>hst/dbus.go\<close> and
    \<open>internal/helper/args.go\<close>. The optimised decoder of escaped values agrees with the specification, the
    address parser inverts printing, and the proxy reads back the arguments it was given.
  \<^item> \<open>Lpw\<close>: the line buffer of \<open>internal/system/dbus.go\<close>, shown independent of how writes are split.
  \<^item> \<open>Sys_Ops\<close>, \<open>Sys_Commit\<close>: \<open>internal/system\<close>. \<open>Sys_Ops\<close> has the seven operations with \<open>apply\<close> and
    \<open>revert\<close> over the dispatcher \<open>sysk\<close>; \<open>Sys_Commit\<close> has the list \<open>I\<close>, \<open>Commit\<close> and \<open>Revert\<close>. The locale
    \<open>reversible\<close> is the contract of an operation and carries the rollback proof; \<open>undoable_host\<close> is what the
    host has to fulfil for it (a sublocale), interpreted on the small host \<open>ref_host\<close>. Theorems: a failed
    \<open>Commit\<close> leaves no trace, \<open>Revert\<close> undoes \<open>Commit\<close>, and criteria select exactly the operations of
    their types.
  \<^item> \<open>Hst_Ident\<close>, \<open>Hst_Fs\<close>, \<open>Hst_Config\<close>: package \<open>hst\<close>: flags, user names and identifiers; mount points
    with their validity, calls and JSON form; the configuration with \<open>Validate\<close>, control group pathnames
    and the JSON adapter of the flags.
  \<^item> \<open>Store\<close>: \<open>internal/store\<close>: the header, entries, segments and the store. The locale \<open>entry_host\<close> is what
    is relied on of files, interpreted on \<open>plain_files\<close>; a saved state is loaded back.
  \<^item> \<open>Seccomp\<close>: the rules of \<open>container/seccomp\<close> and how presets combine them.
  \<^item> \<open>Cont_Prog\<close>: the language the container theories are written in: a program is a tree of system calls
    and the continuation for every answer of the kernel, with sequencing, failure and the run over a
    kernel; a program that may loop takes fuel (\<open>fu\<close>, the bound on retries after \<open>EINTR\<close> and on the walk of
    a mount hierarchy) and \<open>Spin\<close> is running out of it.
  \<^item> \<open>Cont_Mount\<close>, \<open>Cont_Ops\<close>: \<open>container/mount.go\<close>, \<open>path.go\<close> and the setup operations \<open>init*.go\<close>,
    \<open>auto*.go\<close> with \<open>Valid\<close>, \<open>early\<close>, \<open>apply\<close> and \<open>Is\<close>, and their builders. \<open>Cont_Setup\<close> has the calculus
    \<open>keeps\<close> (every call of a program satisfies a guarantee as long as the answers satisfy a rely) and
    the locale \<open>setup_op\<close>, the contract of a setup operation, interpreted on the operations as
    \<open>cops\<close>: they create and mount below the new root only and bind from the host root only.
    \<open>Cont_Overlay\<close> reads back the mount data of overlays with a model of the kernel's parser.
  \<^item> \<open>Cont_Init\<close>, \<open>Cont_Reap\<close>: \<open>container/init.go\<close>: everything before the initial program is started, as
    an ordered list of calls that must precede the start, and the loop that reaps processes.
  \<^item> \<open>Cont_Start\<close>: \<open>container/landlock.go\<close>, \<open>params.go\<close> and \<open>container.go\<close>, the parent of init.
  \<^item> \<open>Out_Process\<close>: the process states of \<open>internal/outcome/process.go\<close>, a refinement of the automaton
    \<open>protocol\<close> over the calls they make.
  \<^item> \<open>Out_State\<close>, \<open>Out_System\<close>, \<open>Out_Container\<close>, \<open>Out_Shim\<close>: how \<open>internal/outcome\<close> turns a configuration
    into operations: the state of \<open>outcome.go\<close> with \<open>env\<close>, \<open>validate\<close> and \<open>hsu.go\<close>, the methods \<open>toSystem\<close> and
    \<open>finalise.go\<close> on the privileged side, the methods \<open>toContainer\<close> on the side of the shim, and both ends of
    the setup pipe (\<open>start\<close> of \<open>process.go\<close>, \<open>shim.go\<close>). \<open>Out_Scope\<close> shows what the registered operations
    touch and which scope they belong to, \<open>Out_Hide\<close> which pathnames are hidden, \<open>Out_Lower\<close> that the setup
    operations are valid and confined, and \<open>Out_Run\<close> joins the two sides: on what \<open>finalise\<close> has made the
    shim starts the container unless a call fails, and the container is confined as the configuration says.
  \<^item> \<open>Handoff\<close>: \<open>hsu\<close> reads from its environment what \<open>start\<close> has put there and switches to the user the
    operations were made for.
  \<^item> \<open>Ldd\<close>: the package \<open>ldd\<close> without \<open>exec.go\<close>; the parser of the output of \<open>ldd(1)\<close> inverts its printing.
  \<^item> \<open>Message\<close>: the package \<open>message\<close>. \<open>Suspendable\<close> keeps the contract \<open>io_writer\<close> of the writer it stands
    on (a locale with an interpretation for the device and one for \<open>Suspendable\<close> itself) and loses no
    byte it does not count; the same for any interleaving of its atomic sections (\<open>cstep\<close>).
  \<^item> \<open>Cmd_Flag\<close>, \<open>Command\<close>, \<open>Cmd_Tree\<close>: the package \<open>command\<close> over the parts of Go's \<open>flag\<close> it uses. Nodes
    live in a heap, walks over it are \<open>partial_function\<close>s and \<open>Cmd_Tree\<close> proves that they end on every tree
    the builder methods make.
  \<^item> \<open>Hak_Inst\<close>, \<open>Hak_Cmd\<close>: \<open>cmd/hakurei\<close>: sources of a configuration, the search for a running instance,
    the tree of commands with its handlers, and the configuration \<open>run\<close> makes from its flags.
  \<^item> This theory: properties that span components, from the configuration to the control group, from
    the identity to the user and from the user name to the password file.

  \<^bold>\<open>What the theorems found.\<close> Where the code does not do what it means to, a theorem states what it does:
  a panic of the address parser, the wrap-around of \<open>hsurc\<close> numbers, mounts missed by \<open>Unfold\<close> and its
  divergence on a mount that is its own parent, the prefix checks of control groups and their leak on
  failure, the nil dereference of the JSON adapter, the stale handle of the store, failures of
  \<open>prctl\<close> that are never noticed, instances left out of the criteria of a revert, output that is
  overtaken by the buffer \<open>Resume\<close> writes, the panic of a command that already has children, and user
  names of several lines.

  \<^bold>\<open>Not modelled.\<close> Running \<open>ldd\<close> (\<open>ldd/exec.go\<close>), the proxy and other helper processes is plumbing of
  pipes and goroutines around \<open>os/exec\<close>; only what is passed to them is modelled. Bindings to C
  libraries (ACL, X11, Wayland, seccomp's \<open>Export\<close>) are parameters. The system call tables are generated
  data, \<open>lockedfile\<close> is vendored, \<open>cmd/hpkg\<close> is a sample on top of the program, and build information and
  test instrumentation have no logic of their own. Texts for the terminal made by \<open>encoding/json\<close> and
  \<open>text/tabwriter\<close> are parameters.
\<close>

subsection \<open>From the configuration to the control group\<close>

lemma Itoa_no_slash: "slash \<notin> set (Itoa i)"
  using format_nat_digits [of slash] by (auto simp: Itoa_def slash_def)

text \<open>C34: the control group operation registered for an instance, with the pathnames its configuration gives,
  makes directories strictly below the configured slice only, whatever the host answers; when it
  succeeds the directory of the instance was made by it and just the controller files of that
  directory were written.\<close>

theorem instance_cgroup_confined:
  assumes slice: "SlicePath (Some c) = Ret b" "pathname b \<noteq> ''/''"
    and inst: "InstancePath (Some c) (Itoa identity) (Some a) = Ret t" "a \<noteq> []"
  shows "\<exists>cg bs. I_Cgroup (Some sys) (Some b) (Some t) limits = Ret (I_append sys (Cgroup cg)) \<and>
    pathname b = render_path True bs \<and>
    (case cgroup_apply k cg w of (r, cg', _) \<Rightarrow>
       list_all (strictly_below bs [''hakurei-'' @ Itoa identity, ID_String a]) (cg_created cg') \<and>
       (r = None \<longrightarrow> pathname t \<in> set (cg_created cg') \<and>
          cg_files cg' = map (\<lambda>(name, _). path_Join [pathname t, name]) (limit_files limits)))"
proof -
  obtain bs where bs: "list_all plain bs" "SlicePath (Some c) = Ret (Absolute (render_path True bs))"
    "InstancePath (Some c) (Itoa identity) (Some a) =
       Ret (Absolute (render_path True (bs @ [''hakurei-'' @ Itoa identity, ID_String a])))"
    "list_all plain [''hakurei-'' @ Itoa identity, ID_String a]"
    using instance_paths [OF Itoa_no_slash inst(2)] by blast
  let ?ps = "[''hakurei-'' @ Itoa identity, ID_String a]"
  let ?cg = "\<lparr>cg_base = pathname b, cg_path = pathname t, cg_limits = limits, cg_created = [], cg_files = []\<rparr>"
  have b: "b = Absolute (render_path True bs)" and t: "t = Absolute (render_path True (bs @ ?ps))"
    using bs slice(1) inst(1) by simp_all
  have ne: "bs \<noteq> []" using slice(2) by (auto simp: b render_path_def slash_def)
  obtain r cg' w' where ap: "cgroup_apply k ?cg w = (r, cg', w')" by (rule prod_cases3)
  have "list_all plain (bs @ ?ps)" using bs(1,4) by simp
  from cgroup_created_below [OF this ne _ _ _ _ _ ap] ap
  have "case cgroup_apply k ?cg w of (r, cg', _) \<Rightarrow> list_all (strictly_below bs ?ps) (cg_created cg') \<and>
       (r = None \<longrightarrow> pathname t \<in> set (cg_created cg') \<and>
          cg_files cg' = map (\<lambda>(name, _). path_Join [pathname t, name]) (limit_files limits))"
    by (simp add: b t)
  moreover have "abs_String b = Ret (pathname b)" "abs_String t = Ret (pathname t)"
    by (simp_all add: b t abs_String_def render_path_def)
  then have "I_Cgroup (Some sys) (Some b) (Some t) limits = Ret (I_append sys (Cgroup ?cg))"
    by (simp add: I_Cgroup_def)
  ultimately show ?thesis using b by (intro exI [of _ ?cg] exI [of _ bs]) simp
qed

definition slice0 :: CgroupConfig where
  "slice0 = \<lparr>cc_Slice = ''/x'', cc_LimitCPU = 0, cc_LimitMemory = 0, cc_LimitPids = 0\<rparr>"

theorem instance_cgroup_confined_witness:
  "\<exists>t cg. InstancePath (Some slice0) (Itoa 9) (Some (replicate 16 CHR ''a'')) = Ret t \<and>
     I_Cgroup (Some sys0) (Some (Absolute ''/x'')) (Some t) \<lparr>cl_CPU = 0, cl_Memory = 0, cl_Pids = 0\<rparr> =
       Ret (I_append sys0 (Cgroup cg))"
proof -
  have s: "SlicePath (Some slice0) = Ret (Absolute ''/x'')" "pathname (Absolute ''/x'') \<noteq> ''/''"
    by (simp_all add: SlicePath_def slicePath_def slice0_def Clean_def comps_def clean_list_def render_path_def
        slash_def Let_def NewAbs_def unsafeAbs_def)
  have a: "replicate 16 CHR ''a'' \<noteq> ([] :: string)" by simp
  obtain t where t: "InstancePath (Some slice0) (Itoa 9) (Some (replicate 16 CHR ''a'')) = Ret t"
    using instance_paths [OF Itoa_no_slash a] by blast
  from instance_cgroup_confined [OF s t a, of sys0 "\<lparr>cl_CPU = 0, cl_Memory = 0, cl_Pids = 0\<rparr>" ref_host host0] t
  show ?thesis by blast
qed

subsection \<open>From the identity to the user\<close>

lemma UID_String_app:
  assumes "unat uid = u * 100000 + 10000 + a" "a < 10000"
  shows "UID_String uid = ''u'' @ format_nat 10 u @ ''_a'' @ format_nat 10 a"
proof -
  have n: "unat (uid mod UserOffset) = 10000 + a" "unat (uid div UserOffset) = u"
    using assms by (simp_all add: unat_mod unat_div UserOffset_def add.assoc)
  have c: "unat IsolatedStart = 90000" "unat AppStart = 10000" "unat AppEnd = 19999"
    by (simp_all add: uid_ranges)
  have le: "AppStart \<le> uid mod UserOffset" "uid mod UserOffset \<le> AppEnd" "\<not> IsolatedStart \<le> uid mod UserOffset"
    using assms(2) by (simp_all add: word_le_nat_alt n c)
  then have "unat (uid mod UserOffset - AppStart) = a"
    using n c by (simp add: unat_sub)
  with le n show ?thesis by (simp add: UID_String_def Let_def)
qed

text \<open>The identity of a validated configuration is one \<open>hsu\<close> accepts, the uid \<open>hsu\<close> drops to is the uid
  the rest of the program computes for it, and its user name names the userid and the identity.\<close>

theorem validated_identity_uid:
  assumes "Config_Validate quote (Some config) = Ret ()" "unat userid \<le> useridEnd"
    and appid: "appid = word_of_int (cfg_Identity config)"
  shows "unat appid \<le> identityEnd \<and> toUser userid appid = ToUser userid appid \<and>
    UID_String (toUser userid appid) =
      ''u'' @ format_nat 10 (unat userid) @ ''_a'' @ Itoa (cfg_Identity config)"
proof -
  have i: "0 \<le> cfg_Identity config" "cfg_Identity config \<le> 9999"
    using Config_Validate_identity [OF assms(1)] by auto
  then obtain n where n: "cfg_Identity config = int n" "n < 10000"
    by (cases "cfg_Identity config") auto
  then have a: "unat appid = n" by (simp add: appid unat_of_nat_u32)
  with n have le: "unat appid \<le> identityEnd" by (simp add: hsu_consts)
  have "toUser userid appid = ToUser userid appid"
    by (simp add: toUser_def ToUser_def hsu_consts uid_ranges)
  with le UID_String_app [OF unat_toUser [OF assms(2) le]] a n show ?thesis
    by (simp add: Itoa_def)
qed

theorem validated_identity_uid_witness:
  "UID_String (toUser 0 9) = ''u'' @ format_nat 10 0 @ ''_a'' @ Itoa 9"
proof -
  let ?c = "the (st_Config state0)"
  have "Config_Validate (\<lambda>s. s) (Some ?c) = Ret ()" using state0_valid by (simp add: state0_def)
  moreover have "unat (0 :: u32) \<le> useridEnd" by (simp add: userid_consts)
  moreover have i: "cfg_Identity ?c = 9" by (simp add: state0_def)
  ultimately have "UID_String (toUser 0 9) = ''u'' @ format_nat 10 (unat (0 :: u32)) @ ''_a'' @ Itoa (cfg_Identity ?c)"
    using validated_identity_uid [of "\<lambda>s. s" ?c 0 9] by fastforce
  then show ?thesis by (simp only: i) simp
qed

text \<open>The expression user names are checked with matches line by line, so a name of several lines is
  accepted if one of them is a user name, and the others become entries of the password file of the
  container.\<close>

theorem username_newline:
  "\<exists>name. IsValidUsername 256 name \<and>
     Split (CHR 0x0A) (passwd_file name mapuid mapgid home shell) ! 0 = ''root:x:0:0::/root:/bin/sh''"
proof -
  let ?name = "''root:x:0:0::/root:/bin/sh'' @ CHR 0x0A # ''u''"
  have split: "Split (CHR 0x0A) (''root:x:0:0::/root:/bin/sh'' @ CHR 0x0A # rest)
    = ''root:x:0:0::/root:/bin/sh'' # Split (CHR 0x0A) rest" for rest
    by (rule Split_append_sep) simp
  have "IsValidUsername 256 ?name"
    unfolding IsValidUsername_def nameRegex_MatchString_def split
    by (simp add: name_head_def char_in_def)
  moreover obtain rest where "passwd_file ?name mapuid mapgid home shell = ''root:x:0:0::/root:/bin/sh'' @ CHR 0x0A # rest"
    by (simp add: passwd_file_def)
  then have "Split (CHR 0x0A) (passwd_file ?name mapuid mapgid home shell) ! 0 = ''root:x:0:0::/root:/bin/sh''"
    by (simp only: split nth_Cons_0)
  ultimately show ?thesis by blast
qed

end
